(* ===== verification/CLib.thy ===== *)
theory CLib
  imports Main "HOL-Library.Word"
begin

unbundle bit_operations_syntax

text \<open>
  The prelude of the development: the part of the C language and of the C library the
  MidWay sources use, and the generic lemmas and theorem collections the component
  theories share.

  A NUL terminated string is the list of the characters before its NUL; a pointer that
  the code compares with NULL is an \<open>option\<close>, \<open>None\<close> being NULL. A call that
  returns an error code or sets \<open>errno\<close> returns \<open>errno + 'a\<close>, with \<open>Inl\<close> the
  error. Characters are single octets and the character classes are those of the C
  locale. Allocation is assumed to succeed.
\<close>

section \<open>Collections\<close>

named_theorems ctype_simps \<open>character classes and their decision by octet value\<close>
named_theorems cstr_simps \<open>C string functions as list functions\<close>

section \<open>Errors\<close>

datatype errno =
  EPERM | ENOENT | EAGAIN | ENOMEM | EFAULT | EEXIST | EINVAL | ENOSPC | EPIPE | ENOSYS
| EBADR | EBADMSG | EOVERFLOW | EUCLEAN | EMSGSIZE | ENOTCONN | EILSEQ | ENAVAIL
| ESHUTDOWN | ECONNREFUSED | ECONNABORTED | E2BIG | EINTR | ENOMSG | EBADRQC | EIDRM
| EALREADY | ELOOP | ETIME | EINPROGRESS | EADDRNOTAVAIL | EISCONN | EHOSTDOWN | EAFNOSUPPORT
| EPROTO | EPROTONOSUPPORT | ECONNRESET

text \<open>The numbers of \<open>errno.h\<close> on Linux.\<close>

fun errno_num :: "errno \<Rightarrow> int" where
  "errno_num EPERM = 1"
| "errno_num ENOENT = 2"
| "errno_num EAGAIN = 11"
| "errno_num ENOMEM = 12"
| "errno_num EFAULT = 14"
| "errno_num EEXIST = 17"
| "errno_num EINVAL = 22"
| "errno_num ENOSPC = 28"
| "errno_num EPIPE = 32"
| "errno_num ENOSYS = 38"
| "errno_num EBADR = 53"
| "errno_num EBADMSG = 74"
| "errno_num EOVERFLOW = 75"
| "errno_num EILSEQ = 84"
| "errno_num EMSGSIZE = 90"
| "errno_num ENOTCONN = 107"
| "errno_num ECONNABORTED = 103"
| "errno_num ESHUTDOWN = 108"
| "errno_num ECONNREFUSED = 111"
| "errno_num EUCLEAN = 117"
| "errno_num ENAVAIL = 119"
| "errno_num E2BIG = 7"
| "errno_num EINTR = 4"
| "errno_num ENOMSG = 42"
| "errno_num EIDRM = 43"
| "errno_num EPROTO = 71"
| "errno_num EPROTONOSUPPORT = 93"
| "errno_num ECONNRESET = 104"
| "errno_num EBADRQC = 56"
| "errno_num EALREADY = 114"
| "errno_num ELOOP = 40"
| "errno_num ETIME = 62"
| "errno_num EINPROGRESS = 115"
| "errno_num EADDRNOTAVAIL = 99"
| "errno_num EISCONN = 106"
| "errno_num EHOSTDOWN = 112"
| "errno_num EAFNOSUPPORT = 97"

lemma errno_num_pos [simp]: "0 < errno_num e"
  by (cases e) simp_all

lemma errno_num_inject: "errno_num a = errno_num b \<longleftrightarrow> a = b"
  by (cases a; cases b) simp_all

section \<open>Characters\<close>

abbreviation NUL :: char where "NUL \<equiv> CHR 0x00"

abbreviation ord :: "char \<Rightarrow> nat" where "ord c \<equiv> of_char c"

definition byte_of :: "char \<Rightarrow> 8 word" where
  "byte_of c = word_of_nat (ord c)"

definition char_of_byte :: "8 word \<Rightarrow> char" where
  "char_of_byte w = char_of (unat w)"

lemma ord_less [simp]: "ord c < 256"
proof -
  have "ord c = ord (char_of (ord c))" by simp
  also have "\<dots> = ord c mod 256" by (simp only: of_char_of)
  finally show ?thesis by (metis mod_less_divisor zero_less_numeral)
qed

lemma unat_byte_of [simp]: "unat (byte_of c) = ord c"
  by (simp add: byte_of_def unat_of_nat)

lemma char_of_byte_of [simp]: "char_of_byte (byte_of c) = c"
  by (simp add: char_of_byte_def)

lemma byte_of_char_of_byte [simp]: "byte_of (char_of_byte w) = w"
proof -
  have "unat w < 256"
    using unsigned_less [of w] by simp
  then show ?thesis
    by (simp add: byte_of_def char_of_byte_def of_char_of)
qed

lemma byte_of_inject [simp]: "byte_of a = byte_of b \<longleftrightarrow> a = b"
  by (metis char_of_byte_of)

text \<open>The classes of \<open>ctype.h\<close> in the C locale.\<close>

definition isdigit :: "char \<Rightarrow> bool" where
  "isdigit c \<longleftrightarrow> 48 \<le> ord c \<and> ord c \<le> 57"

definition isupper :: "char \<Rightarrow> bool" where
  "isupper c \<longleftrightarrow> 65 \<le> ord c \<and> ord c \<le> 90"

definition islower :: "char \<Rightarrow> bool" where
  "islower c \<longleftrightarrow> 97 \<le> ord c \<and> ord c \<le> 122"

definition isalnum :: "char \<Rightarrow> bool" where
  "isalnum c \<longleftrightarrow> isdigit c \<or> isupper c \<or> islower c"

definition isxdigit :: "char \<Rightarrow> bool" where
  "isxdigit c \<longleftrightarrow> isdigit c \<or> (65 \<le> ord c \<and> ord c \<le> 70) \<or> (97 \<le> ord c \<and> ord c \<le> 102)"

definition tolower :: "char \<Rightarrow> char" where
  "tolower c = (if isupper c then char_of (ord c + 32) else c)"

lemmas ctype_defs [ctype_simps] =
  isdigit_def isupper_def islower_def isalnum_def isxdigit_def

text \<open>A property of all octets is decided by checking each.\<close>

lemma all_chars_list: "(\<forall>c. P c) \<longleftrightarrow> list_all P (map char_of [0..<256 :: nat])"
proof
  assume "list_all P (map char_of [0..<256 :: nat])"
  then have P: "P (char_of n)" if "n < 256" for n :: nat
    using that by (auto simp: list_all_iff)
  show "\<forall>c. P c"
  proof
    fix c
    show "P c" using P [of "ord c"] by simp
  qed
qed (simp add: list_all_iff)

lemma tolower_idem [simp]: "tolower (tolower c) = tolower c"
  by (auto simp: tolower_def isupper_def of_char_of)

section \<open>Strings\<close>

text \<open>
  \<open>cstr\<close> reads a buffer up to its first NUL, \<open>strlen\<close> counts that far. A buffer
  with no NUL in it is read to its end.
\<close>

definition cstr :: "string \<Rightarrow> string" where
  "cstr s = takeWhile (\<lambda>c. c \<noteq> NUL) s"

definition strlen :: "string \<Rightarrow> nat" where
  "strlen s = length (cstr s)"

lemma cstr_id [cstr_simps, simp]: "NUL \<notin> set s \<Longrightarrow> cstr s = s"
  by (auto simp: cstr_def takeWhile_eq_all_conv)

lemma strlen_id [cstr_simps, simp]: "NUL \<notin> set s \<Longrightarrow> strlen s = length s"
  by (simp add: strlen_def)

lemma NUL_notin_cstr [simp]: "NUL \<notin> set (cstr s)"
  by (auto simp: cstr_def dest: set_takeWhileD)

lemma strlen_le: "strlen s \<le> length s"
  by (simp add: strlen_def cstr_def length_takeWhile_le)

lemma take_length_cstr [simp]: "take (length (cstr s)) s = cstr s"
  by (metis cstr_def takeWhile_eq_take)

text \<open>\<open>strchr\<close> gives the offset of the first occurrence.\<close>

fun strchr :: "string \<Rightarrow> char \<Rightarrow> nat option" where
  "strchr [] x = None"
| "strchr (c # s) x = (if c = x then Some 0 else map_option Suc (strchr s x))"

lemma strchr_None_iff [cstr_simps]: "strchr s x = None \<longleftrightarrow> x \<notin> set s"
  by (induction s) auto

lemma strchr_Some:
  "strchr s x = Some i \<Longrightarrow> i < length s \<and> s ! i = x \<and> x \<notin> set (take i s)"
proof (induction s arbitrary: i)
  case (Cons c s)
  then show ?case by (cases i) (auto split: if_splits)
qed simp

lemma strchr_append_notin:
  "x \<notin> set s \<Longrightarrow> strchr (s @ t) x = map_option (\<lambda>i. length s + i) (strchr t x)"
  by (cases "strchr t x"; induction s) auto

lemma strchr_append_Cons [simp]: "x \<notin> set s \<Longrightarrow> strchr (s @ x # t) x = Some (length s)"
  by (simp add: strchr_append_notin)

text \<open>The octet at an offset of a NUL terminated string: the NUL itself at its end.\<close>

definition char_at :: "string \<Rightarrow> nat \<Rightarrow> char" where
  "char_at s i = (if i < length s then s ! i else NUL)"

lemma char_at_Cons [simp]:
  "char_at (c # s) 0 = c" "char_at (c # s) (Suc i) = char_at s i" "char_at [] i = NUL"
  by (simp_all add: char_at_def)

lemma char_at_drop: "char_at (drop n s) i = char_at s (n + i)"
  by (auto simp: char_at_def)

text \<open>\<open>strcasecmp\<close> and \<open>strncmp\<close>, for the comparison with 0 the code makes.\<close>

definition strcasecmp_eq :: "string \<Rightarrow> string \<Rightarrow> bool" where
  "strcasecmp_eq a b \<longleftrightarrow> map tolower a = map tolower b"

definition strncmp_eq :: "string \<Rightarrow> string \<Rightarrow> nat \<Rightarrow> bool" where
  "strncmp_eq a b n \<longleftrightarrow> take n a = take n b"

lemma strcasecmp_eq_refl [simp]: "strcasecmp_eq a a"
  by (simp add: strcasecmp_eq_def)

lemma strcasecmp_eq_sym: "strcasecmp_eq a b \<longleftrightarrow> strcasecmp_eq b a"
  by (auto simp: strcasecmp_eq_def)

lemma strcasecmp_eq_trans: "strcasecmp_eq a b \<Longrightarrow> strcasecmp_eq b c \<Longrightarrow> strcasecmp_eq a c"
  by (simp add: strcasecmp_eq_def)

text \<open>\<open>strncpy\<close> into a field of \<open>n\<close> octets, read back as a string.\<close>

definition strncpy :: "string \<Rightarrow> nat \<Rightarrow> string" where
  "strncpy s n = take n s"

section \<open>Numbers in text\<close>

fun nat_dec :: "nat \<Rightarrow> string" where
  "nat_dec n = (if n < 10 then [char_of (48 + n)] else nat_dec (n div 10) @ [char_of (48 + n mod 10)])"

declare nat_dec.simps [simp del]

text \<open>\<open>sprintf("%d")\<close>.\<close>

definition int_dec :: "int \<Rightarrow> string" where
  "int_dec i = (if i < 0 then CHR ''-'' # nat_dec (nat (- i)) else nat_dec (nat i))"

text \<open>The digits \<open>atol\<close> reads, once the caller has seen that there are only digits.\<close>

definition digits_val :: "string \<Rightarrow> nat" where
  "digits_val s = foldl (\<lambda>v c. 10 * v + (ord c - 48)) 0 s"

lemma digits_val_snoc: "digits_val (s @ [c]) = 10 * digits_val s + (ord c - 48)"
  by (simp add: digits_val_def)

lemma digits_val_nat_dec: "digits_val (nat_dec n) = n"
proof (induction n rule: nat_dec.induct)
  case (1 n)
  show ?case
  proof (cases "n < 10")
    case True
    then show ?thesis
      by (simp add: nat_dec.simps [of n] digits_val_def of_char_of)
  next
    case False
    with "1.IH" show ?thesis
      by (subst nat_dec.simps) (simp add: digits_val_snoc of_char_of)
  qed
qed

lemma isdigit_nat_dec: "\<forall>c \<in> set (nat_dec n). isdigit c"
proof (induction n rule: nat_dec.induct)
  case (1 n)
  show ?case
  proof (cases "n < 10")
    case True
    then show ?thesis
      by (simp add: nat_dec.simps [of n] isdigit_def of_char_of)
  next
    case False
    have "n mod 10 < 10" by simp
    then have "isdigit (char_of (48 + n mod 10))"
      by (simp add: isdigit_def of_char_of del: pos_mod_bound)
    with False "1.IH" show ?thesis
      by (subst nat_dec.simps) auto
  qed
qed

lemma nat_dec_nonempty [simp]: "nat_dec n \<noteq> []"
  by (subst nat_dec.simps) simp

text \<open>\<open>sprintf("%8.8x")\<close> and \<open>sprintf("%8.8X")\<close>: eight hexadecimal digits of a 32 bit value.\<close>

definition hex_digit :: "nat \<Rightarrow> nat \<Rightarrow> char" where
  "hex_digit a n = (if n < 10 then char_of (48 + n) else char_of (a + (n - 10)))"

definition hex8 :: "nat \<Rightarrow> 32 word \<Rightarrow> string" where
  "hex8 a w = map (\<lambda>i. hex_digit a (unat (drop_bit (4 * i) w AND 15))) [7, 6, 5, 4, 3, 2, 1, 0]"

abbreviation hex8_lower :: "32 word \<Rightarrow> string" where "hex8_lower \<equiv> hex8 97"
abbreviation hex8_upper :: "32 word \<Rightarrow> string" where "hex8_upper \<equiv> hex8 65"

lemma length_hex8 [simp]: "length (hex8 a w) = 8"
  by (simp add: hex8_def)

section \<open>Lists\<close>

lemma map_nth_upt: "n \<le> length xs \<Longrightarrow> map (\<lambda>i. xs ! i) [0..<n] = take n xs"
  by (rule nth_equalityI) auto

lemma concat_map_nth_upt:
  "n \<le> length xs \<Longrightarrow> concat (map (\<lambda>i. f (xs ! i)) [0..<n]) = concat (map f (take n xs))"
  by (simp add: map_nth_upt [symmetric] comp_def)

lemma drop_eq_Cons: "i < length xs \<Longrightarrow> drop i xs = xs ! i # drop (Suc i) xs"
  by (rule Cons_nth_drop_Suc [symmetric])

end
