(* ===== verification/ShmHeap.thy ===== *)
theory ShmHeap
  imports CLib "HOL-Library.Signed_Division" "HOL-Library.Log_Nat"
begin

text \<open>
  \<^verbatim>\<open>src/lib/shmalloc.c\<close>, \<^verbatim>\<open>src/mwd/shmallocfmt.c\<close> and \<^verbatim>\<open>src/include/shmalloc.h\<close>: the
  shared memory heap. A process sees a set of segments, the heap being segment 0; the
  chunks of the heap lie in bins of doubling size and the free chunks of a bin form a
  ring. The memory is modelled by what is stored at an address: chunk heads, chunk feet
  and data octets. Dereferencing a NULL pointer, dividing by 0 and indexing outside the
  bins is the result \<open>None\<close>. Offsets and sizes are unbounded, where the code has 32 and
  64 bit integers for a segment of less than two gigabytes. The bin of a size is computed
  in the code through floating point logarithms, exact for the sizes of a bin's chunks.
\<close>

section \<open>The layout\<close>

abbreviation sizeof_chunkhead :: int where "sizeof_chunkhead \<equiv> 16"
abbreviation sizeof_chunkfoot :: int where "sizeof_chunkfoot \<equiv> 24"
abbreviation sizeof_segmenthdr :: int where "sizeof_segmenthdr \<equiv> 112"
abbreviation BINS :: nat where "BINS \<equiv> 6"
abbreviation LOW_LARGE_BUFFER_NUMBER :: int where "LOW_LARGE_BUFFER_NUMBER \<equiv> 999"
abbreviation UNASSIGNED :: int where "UNASSIGNED \<equiv> -1"

record chunkhead =
  ownerid :: int
  csize :: int

record chunkfoot =
  above :: int
  nextc :: int
  prevc :: int

record segmenthdr =
  chunkspersize :: int
  basechunksize :: int
  segmentsize :: int
  top :: int
  bottom :: int
  inusecount :: int
  inusehighwater :: int
  inuseaverage :: int
  numbins :: nat
  chunk :: "int list"
  freecount :: "int list"

record seginfo =
  segmentid :: int
  segfd :: int
  segstart :: int
  segend :: int

datatype mwd_message = ALLOCREQ int | FREEREQ int

text \<open>
  What a process works on: the header of the heap at the address \<open>heapinfo\<close>, the memory,
  its list of segments, the messages sent to the daemon, and the errno an allocation leaves.
\<close>

record shmstate =
  heapinfo :: int
  hdr :: segmenthdr
  heads :: "int \<Rightarrow> chunkhead"
  feet :: "int \<Rightarrow> chunkfoot"
  bytes :: "int \<Rightarrow> 8 word"
  segments :: "seginfo list"
  requests :: "mwd_message list"
  last_errno :: int

section \<open>Segments\<close>

definition addsegment :: "seginfo list \<Rightarrow> int \<Rightarrow> int \<Rightarrow> int \<Rightarrow> int \<Rightarrow> seginfo list" where
  "addsegment segs i fd st en = segs @ [\<lparr>segmentid = i, segfd = fd, segstart = st, segend = en\<rparr>]"

fun find_index :: "('a \<Rightarrow> bool) \<Rightarrow> 'a list \<Rightarrow> nat option" where
  "find_index P [] = None"
| "find_index P (x # xs) = (if P x then Some 0 else map_option Suc (find_index P xs))"

definition delsegment :: "seginfo list \<Rightarrow> int \<Rightarrow> int \<Rightarrow> int \<times> seginfo list" where
  "delsegment segs i fd =
     (case find_index (\<lambda>s. if fd > -1 then segfd s = fd else segmentid s = i) segs of
        None \<Rightarrow> (0, segs)
      | Some idx \<Rightarrow> (1, take (length segs - 1) (segs[idx := segs ! (length segs - 1)])))"

definition findsegment_byaddr :: "seginfo list \<Rightarrow> int \<Rightarrow> seginfo option" where
  "findsegment_byaddr segs ptr = find (\<lambda>s. segstart s \<le> ptr \<and> segend s \<ge> ptr) segs"

definition findsegment_byid :: "seginfo list \<Rightarrow> int \<Rightarrow> seginfo option" where
  "findsegment_byid segs i = find (\<lambda>s. segmentid s = i) segs"

text \<open>
  \<open>attach_mmap\<close>: \<open>mm\<close> is what opening and mapping the file of a large buffer gives, its
  descriptor, address and size and the chunk head at its start.
\<close>

definition attach_mmap ::
  "(int \<Rightarrow> (int \<times> int \<times> int \<times> chunkhead) option) \<Rightarrow> shmstate \<Rightarrow> int \<Rightarrow> seginfo option \<times> shmstate" where
  "attach_mmap mm st i =
     (if i \<le> LOW_LARGE_BUFFER_NUMBER then (None, st)
      else case mm i of
             None \<Rightarrow> (None, st)
           | Some (fd, a, sz, head) \<Rightarrow>
               (Some \<lparr>segmentid = i, segfd = fd, segstart = a, segend = a + sz\<rparr>,
                st\<lparr>segments := addsegment (segments st) i fd a (a + sz), heads := (heads st)(a := head)\<rparr>))"

definition mw_detach_mmap :: "shmstate \<Rightarrow> seginfo \<Rightarrow> shmstate" where
  "mw_detach_mmap st si = st\<lparr>segments := snd (delsegment (segments st) (segmentid si) (segfd si))\<rparr>"

definition mw_getsegment_byid ::
  "(int \<Rightarrow> (int \<times> int \<times> int \<times> chunkhead) option) \<Rightarrow> shmstate \<Rightarrow> int \<Rightarrow> seginfo option \<times> shmstate" where
  "mw_getsegment_byid mm st i =
     (case findsegment_byid (segments st) i of
        Some si \<Rightarrow> (Some si, st)
      | None \<Rightarrow> attach_mmap mm st i)"

definition mwadr2offset :: "seginfo list \<Rightarrow> int \<Rightarrow> seginfo option \<Rightarrow> int" where
  "mwadr2offset segs adr si =
     (case (case si of None \<Rightarrow> findsegment_byaddr segs adr | Some s \<Rightarrow> Some s) of
        None \<Rightarrow> -1
      | Some s \<Rightarrow> adr - segstart s)"

definition mwoffset2adr :: "int \<Rightarrow> seginfo option \<Rightarrow> int" where
  "mwoffset2adr offset si =
     (case si of
        None \<Rightarrow> 0
      | Some s \<Rightarrow>
          if offset < 0 then 0
          else if segstart s + offset > segend s then 0 else segstart s + offset)"

section \<open>Chunks and rings\<close>

definition mwfooter :: "shmstate \<Rightarrow> int \<Rightarrow> int" where
  "mwfooter st head = head + sizeof_chunkhead + csize (heads st head) * basechunksize (hdr st)"

definition upd_foot :: "shmstate \<Rightarrow> int \<Rightarrow> (chunkfoot \<Rightarrow> chunkfoot) \<Rightarrow> shmstate" where
  "upd_foot st f g = st\<lparr>feet := (feet st)(f := g (feet st f))\<rparr>"

definition set_root :: "shmstate \<Rightarrow> nat \<Rightarrow> int \<Rightarrow> int \<Rightarrow> shmstate" where
  "set_root st i r c =
     st\<lparr>hdr := (hdr st)\<lparr>chunk := (chunk (hdr st))[i := r], freecount := (freecount (hdr st))[i := c]\<rparr>\<rparr>"

definition popchunk :: "shmstate \<Rightarrow> nat \<Rightarrow> seginfo \<Rightarrow> (int \<times> shmstate) option" where
  "popchunk st i si =
     (let root = chunk (hdr st) ! i; count = freecount (hdr st) ! i
      in if count = 0 \<or> root = 0 then Some (0, st)
         else let p = mwoffset2adr root (Some si); f = mwfooter st p
              in if p = 0 then None
                 else if count = 1
                 then Some (p, set_root (upd_foot st f (\<lambda>x. x\<lparr>nextc := 0, prevc := 0\<rparr>)) i 0 (count - 1))
                 else let pPrev = mwoffset2adr (prevc (feet st f)) (Some si);
                          pNext = mwoffset2adr (nextc (feet st f)) (Some si)
                      in if pPrev = 0 \<or> pNext = 0 then None
                         else let st1 = upd_foot st (mwfooter st pPrev)
                                    (\<lambda>x. x\<lparr>nextc := mwadr2offset (segments st) pNext (Some si)\<rparr>);
                                  st2 = upd_foot st1 (mwfooter st1 pNext)
                                    (\<lambda>x. x\<lparr>prevc := mwadr2offset (segments st) pPrev (Some si)\<rparr>);
                                  st3 = set_root st2 i (nextc (feet st2 f)) (count - 1)
                              in Some (p, upd_foot st3 f (\<lambda>x. x\<lparr>nextc := 0, prevc := 0\<rparr>)))"

definition pushchunk :: "shmstate \<Rightarrow> int \<Rightarrow> nat \<Rightarrow> seginfo \<Rightarrow> (int \<times> shmstate) option" where
  "pushchunk st pInsert i si =
     (if pInsert = 0 then Some (- errno_num EINVAL, st)
      else let iInsert = mwadr2offset (segments st) pInsert (Some si);
               f = mwfooter st pInsert;
               st = (if mwoffset2adr (above (feet st f)) (Some si) \<noteq> pInsert
                     then upd_foot st f (\<lambda>x. x\<lparr>above := iInsert\<rparr>) else st);
               root = chunk (hdr st) ! i; count = freecount (hdr st) ! i
           in if root = 0
              then Some (0, set_root (upd_foot st f (\<lambda>x. x\<lparr>nextc := iInsert, prevc := iInsert\<rparr>))
                              i iInsert (count + 1))
              else if mwoffset2adr root (Some si) = 0 then None
              else let iNext = nextc (feet st (mwfooter st (mwoffset2adr root (Some si))));
                       iPrev = root;
                       pPrev = mwoffset2adr iPrev (Some si);
                       pNext = mwoffset2adr iNext (Some si)
                   in if pNext = 0 then None
                      else let st1 = upd_foot st f (\<lambda>x. x\<lparr>nextc := iNext, prevc := iPrev\<rparr>);
                               st2 = upd_foot st1 (mwfooter st1 pNext) (\<lambda>x. x\<lparr>prevc := iInsert\<rparr>);
                               st3 = upd_foot st2 (mwfooter st2 pPrev) (\<lambda>x. x\<lparr>nextc := iInsert\<rparr>)
                           in Some (0, set_root st3 i root (count + 1)))"

primrec mw_gettopofbin :: "segmenthdr \<Rightarrow> nat \<Rightarrow> int" where
  "mw_gettopofbin h 0 = sizeof_segmenthdr"
| "mw_gettopofbin h (Suc b) =
     mw_gettopofbin h b +
     (let s = 2 ^ b * basechunksize h;
          l = chunkspersize h * (s + sizeof_chunkhead + sizeof_chunkfoot)
      in if b = 0 then l * 2 else l)"

section \<open>Chunk sizes and owners\<close>

definition getchunksizebyadr :: "shmstate \<Rightarrow> int \<Rightarrow> seginfo option \<Rightarrow> int" where
  "getchunksizebyadr st adr si =
     (case si of
        None \<Rightarrow> 0
      | Some s \<Rightarrow>
          if adr = 0 then 0
          else if segmentid s = 0 then csize (heads st (adr - sizeof_chunkhead)) * basechunksize (hdr st)
          else csize (heads st (adr - sizeof_chunkhead)))"

definition mwshmcheck :: "shmstate \<Rightarrow> int \<Rightarrow> int" where
  "mwshmcheck st adr =
     (case findsegment_byaddr (segments st) adr of
        None \<Rightarrow> -1
      | Some si \<Rightarrow>
          if getchunksizebyadr st adr (Some si) = 0 then -1
          else mwadr2offset (segments st) adr (Some si))"

text \<open>The result is a \<open>size_t\<close>, so the error -1 reads as the largest one.\<close>

definition mwshmgetsizeofchunk :: "shmstate \<Rightarrow> int \<Rightarrow> int" where
  "mwshmgetsizeofchunk st adr =
     (case findsegment_byaddr (segments st) adr of
        None \<Rightarrow> 2 ^ 64 - 1
      | Some si \<Rightarrow> getchunksizebyadr st adr (Some si))"

definition mwshmgetowner :: "shmstate \<Rightarrow> int \<Rightarrow> int" where
  "mwshmgetowner st adr = ownerid (heads st (adr - sizeof_chunkhead))"

definition set_owner :: "shmstate \<Rightarrow> int \<Rightarrow> int \<Rightarrow> shmstate" where
  "set_owner st head i = st\<lparr>heads := (heads st)(head := (heads st head)\<lparr>ownerid := i\<rparr>)\<rparr>"

definition mwshmsetowner :: "shmstate \<Rightarrow> int \<Rightarrow> int \<Rightarrow> shmstate" where
  "mwshmsetowner st adr i = set_owner st (adr - sizeof_chunkhead) i"


section \<open>Allocating and freeing\<close>

text \<open>
  What the process has around it: its own id, whether the semaphore operation of a bin
  succeeds, the daemon's answer to a request for a large buffer, the errno of a failing
  system call, and the mapping of a large buffer.
\<close>

record shmenv =
  my_mwid :: int
  lock_ok :: "nat \<Rightarrow> bool"
  mwd_alloc :: "int \<Rightarrow> int"
  os_errno :: int
  mmap_file :: "int \<Rightarrow> (int \<times> int \<times> int \<times> chunkhead) option"

definition find_bin :: "shmstate \<Rightarrow> int \<Rightarrow> seginfo \<Rightarrow> nat" where
  "find_bin st sz si =
     (if segmentid si > LOW_LARGE_BUFFER_NUMBER then 0
      else ceillog2 (nat ((sz + basechunksize (hdr st) - 1) div basechunksize (hdr st))))"

definition count_alloc :: "shmstate \<Rightarrow> shmstate" where
  "count_alloc st =
     st\<lparr>hdr := (hdr st)\<lparr>inusecount := inusecount (hdr st) + 1,
        inusehighwater := max (inusehighwater (hdr st)) (inusecount (hdr st) + 1)\<rparr>\<rparr>"

text \<open>
  The loop over the bins: \<open>n\<close> bins to go from \<open>i\<close> on. The first component is the address
  of the buffer, or \<open>Inl True\<close> when a lock failed and \<open>Inl False\<close> when all bins were empty.
\<close>

primrec alloc_loop :: "shmenv \<Rightarrow> seginfo \<Rightarrow> nat \<Rightarrow> nat \<Rightarrow> shmstate \<Rightarrow> ((bool + int) \<times> shmstate) option" where
  "alloc_loop env si 0 i st = Some (Inl False, st)"
| "alloc_loop env si (Suc n) i st =
     (if freecount (hdr st) ! i > 0
      then if \<not> lock_ok env i then Some (Inl True, st)
           else case popchunk st i si of
                  None \<Rightarrow> None
                | Some (p, st) \<Rightarrow>
                    if p = 0 then alloc_loop env si n (i + 1) st
                    else Some (Inr (p + sizeof_chunkhead), set_owner (count_alloc st) p (my_mwid env))
      else alloc_loop env si n (i + 1) st)"

text \<open>A NULL result is the address 0.\<close>

definition mwalloc :: "shmenv \<Rightarrow> shmstate \<Rightarrow> int \<Rightarrow> (int \<times> shmstate) option" where
  "mwalloc env st sz =
     (if sz \<le> 0 then Some (0, st\<lparr>last_errno := errno_num ENOMEM\<rparr>)
      else case findsegment_byid (segments st) 0 of
             None \<Rightarrow> None
           | Some si \<Rightarrow>
               (let bin = find_bin st sz si
                in case alloc_loop env si (numbins (hdr st) - bin) bin st of
                     None \<Rightarrow> None
                   | Some (Inr a, st) \<Rightarrow> Some (a, st)
                   | Some (Inl True, st) \<Rightarrow> Some (0, st\<lparr>last_errno := os_errno env\<rparr>)
                   | Some (Inl False, st) \<Rightarrow>
                       (let st = st\<lparr>requests := requests st @ [ALLOCREQ sz]\<rparr>;
                            bufferid = mwd_alloc env sz
                        in if bufferid < LOW_LARGE_BUFFER_NUMBER
                           then Some (0, st\<lparr>last_errno := - errno_num ENOMEM\<rparr>)
                           else case attach_mmap (mmap_file env) st bufferid of
                                  (None, st) \<Rightarrow> Some (0, st\<lparr>last_errno := os_errno env\<rparr>)
                                | (Some si, st) \<Rightarrow> Some (segstart si + sizeof_chunkhead, st))))"

definition mw_addsegment :: "shmstate \<Rightarrow> int \<Rightarrow> int \<Rightarrow> int \<Rightarrow> int \<Rightarrow> shmstate" where
  "mw_addsegment st i fd a e = st\<lparr>segments := addsegment (segments st) i fd a e\<rparr>"

text \<open>The bin of a chunk's size: a truncated logarithm, the smallest integer for sizes up to 0.\<close>

definition log2_trunc :: "int \<Rightarrow> int" where
  "log2_trunc sz = (if sz \<le> 0 then - (2 ^ 31) else int (floorlog 2 (nat sz)) - 1)"

definition clear_bytes :: "shmstate \<Rightarrow> int \<Rightarrow> int \<Rightarrow> shmstate" where
  "clear_bytes st a n = st\<lparr>bytes := (\<lambda>x. if a \<le> x \<and> x < a + n then 0 else bytes st x)\<rparr>"

definition mwfree0 :: "shmstate \<Rightarrow> seginfo \<Rightarrow> int \<Rightarrow> (int \<times> shmstate) option" where
  "mwfree0 st si adr =
     (let h = hdr st; offset = adr - heapinfo st
      in if offset < top h \<or> offset > bottom h then Some (- errno_num EINVAL, st)
         else let head = adr - sizeof_chunkhead;
                  offset = offset - sizeof_chunkhead;
                  sz = csize (heads st head)
              in if sint (word_of_int (getchunksizebyadr st adr (Some si)) :: 32 word) < 0
                 then Some (- errno_num ENOENT, st)
                 else let bin = log2_trunc sz;
                          off = offset - mw_gettopofbin h (nat bin);
                          s = basechunksize h * sz + sizeof_chunkhead + sizeof_chunkfoot;
                          n = (if bin \<noteq> 0 then chunkspersize h else chunkspersize h * 2)
                      in if s = 0 then None
                         else if off sdiv s < 0 \<or> off sdiv s > n then Some (-1, st)
                         else if off smod s \<noteq> 0 then Some (-1, st)
                         else if ownerid (heads st head) = UNASSIGNED then Some (-1, st)
                         else if bin < 0 \<or> bin \<ge> int BINS then None
                         else let st = clear_bytes (set_owner st head UNASSIGNED) adr (basechunksize h * sz)
                              in case pushchunk st head (nat bin) si of
                                   None \<Rightarrow> None
                                 | Some (rc, st) \<Rightarrow>
                                     Some (0, st\<lparr>hdr := (hdr st)\<lparr>inusecount := inusecount (hdr st) - 1\<rparr>\<rparr>))"

definition mwfree_mmap :: "shmstate \<Rightarrow> seginfo \<Rightarrow> int \<Rightarrow> int \<times> shmstate" where
  "mwfree_mmap st si adr =
     (let st = mw_detach_mmap st si
      in (0, st\<lparr>requests := requests st @ [FREEREQ (segmentid si)]\<rparr>))"

definition mwfree :: "shmstate \<Rightarrow> int \<Rightarrow> (int \<times> shmstate) option" where
  "mwfree st adr =
     (case findsegment_byaddr (segments st) adr of
        None \<Rightarrow> Some (- errno_num ENOENT, st)
      | Some si \<Rightarrow> if segmentid si = 0 then mwfree0 st si adr else Some (mwfree_mmap st si adr))"

definition copy_bytes :: "shmstate \<Rightarrow> int \<Rightarrow> int \<Rightarrow> int \<Rightarrow> shmstate" where
  "copy_bytes st dst src n =
     st\<lparr>bytes := (\<lambda>x. if dst \<le> x \<and> x < dst + n then bytes st (src + (x - dst)) else bytes st x)\<rparr>"

definition mwrealloc :: "shmenv \<Rightarrow> shmstate \<Rightarrow> int \<Rightarrow> int \<Rightarrow> (int \<times> shmstate) option" where
  "mwrealloc env st adr newsize =
     (if adr = 0 then mwalloc env st newsize
      else let sz = mwshmgetsizeofchunk st adr
           in if sz > 0
              then if newsize < sz then Some (adr, st)
                   else case mwalloc env st newsize of
                          None \<Rightarrow> None
                        | Some (newbuffer, st) \<Rightarrow>
                            if newbuffer = 0 then Some (0, st)
                            else map_option (\<lambda>(rc, st). (newbuffer, st))
                                   (mwfree (copy_bytes st newbuffer adr (min sz newsize)) adr)
              else map_option (\<lambda>(rc, st). (0, st)) (mwfree st adr))"


section \<open>Buffers of call messages\<close>

record callmesg =
  datasegmentid :: int
  cdata :: int
  cdatalen :: int

text \<open>
  Copying is the only mode: the flag of the fast path is never set. \<open>slen\<close> is the length
  of the string at \<open>data\<close>, used when no length is given. The buffer given back to the
  caller is the list of its octets.
\<close>

definition get_bytes :: "shmstate \<Rightarrow> int \<Rightarrow> int \<Rightarrow> 8 word list" where
  "get_bytes st a n = map (\<lambda>i. bytes st (a + int i)) [0..<nat n]"

definition store_bytes :: "shmstate \<Rightarrow> int \<Rightarrow> 8 word list \<Rightarrow> shmstate" where
  "store_bytes h a bs =
     h\<lparr>bytes := (\<lambda>x. if a \<le> x \<and> x < a + int (length bs) then bs ! nat (x - a) else bytes h x)\<rparr>"

definition mw_putbuffer_to_call ::
  "shmenv \<Rightarrow> shmstate \<Rightarrow> 'a callmesg_scheme \<Rightarrow> int \<Rightarrow> int \<Rightarrow> int \<Rightarrow> (int \<times> 'a callmesg_scheme \<times> shmstate) option" where
  "mw_putbuffer_to_call env st call data len slen =
     (let len = (if data \<noteq> 0 \<and> len = 0 then slen else len);
          data = (if len = 0 then 0 else data)
      in if data = 0 then Some (0, call\<lparr>cdata := 0, cdatalen := 0\<rparr>, st)
         else let fill = (\<lambda>st a. map_option
                (\<lambda>si. (0, call\<lparr>datasegmentid := segmentid si, cdata := mwshmcheck st a, cdatalen := len\<rparr>, st))
                (findsegment_byaddr (segments st) a))
              in if mwshmcheck st data = -1
                 then case mwalloc env st len of
                        None \<Rightarrow> None
                      | Some (dbuf, st) \<Rightarrow>
                          if dbuf = 0 then Some (- last_errno st, call, st)
                          else fill (copy_bytes st dbuf data len) dbuf
                 else fill st data)"

text \<open>The data is \<open>None\<close> when the message has none, or on an error.\<close>

definition mw_getbuffer_from_call ::
  "shmenv \<Rightarrow> shmstate \<Rightarrow> 'a callmesg_scheme \<Rightarrow> (int \<times> 8 word list option \<times> int \<times> shmstate) option" where
  "mw_getbuffer_from_call env st call =
     (if cdatalen call = 0 then Some (0, None, 0, st)
      else case mw_getsegment_byid (mmap_file env) st (datasegmentid call) of
             (None, st) \<Rightarrow> Some (-1, None, cdatalen call, st)
           | (Some si, st) \<Rightarrow>
               (let ptr = mwoffset2adr (cdata call) (Some si);
                    l = mwshmcheck st ptr;
                    sz = mwshmgetsizeofchunk st ptr
                in if l < 0 \<or> l < cdatalen call then Some (- errno_num EBADMSG, None, cdatalen call, st)
                   else if sz \<le> 0 \<or> sz \<le> cdatalen call then Some (-1, None, cdatalen call, st)
                   else map_option (\<lambda>(rc, st'). (0, Some (get_bytes st ptr (cdatalen call)), cdatalen call, st'))
                          (mwfree st ptr)))"

section \<open>Formatting the heap\<close>

text \<open>\<open>n\<close> more chunks from the \<open>i\<close>th on; then the ring is closed.\<close>

primrec format_loop :: "seginfo \<Rightarrow> int \<Rightarrow> int \<Rightarrow> int \<Rightarrow> nat \<Rightarrow> nat \<Rightarrow> shmstate \<Rightarrow> shmstate option" where
  "format_loop si iStart iCSize sz 0 i st = Some st"
| "format_loop si iStart iCSize sz (Suc n) i st =
     (let iCHead = iStart + int i * (iCSize + sizeof_chunkhead + sizeof_chunkfoot);
          p = mwoffset2adr iCHead (Some si)
      in if p = 0 then None
         else let st = st\<lparr>heads := (heads st)(p := \<lparr>ownerid = -1, csize = sz\<rparr>)\<rparr>
              in format_loop si iStart iCSize sz n (i + 1)
                   (upd_foot st (mwfooter st p)
                     (\<lambda>x. x\<lparr>above := iCHead,
                           nextc := iCHead + (iCSize + sizeof_chunkhead + sizeof_chunkfoot),
                           prevc := iCHead - (iCSize + sizeof_chunkhead + sizeof_chunkfoot)\<rparr>)))"

definition formatfreelist :: "seginfo \<Rightarrow> int \<Rightarrow> int \<Rightarrow> nat \<Rightarrow> shmstate \<Rightarrow> (int \<times> shmstate) option" where
  "formatfreelist si iStart sz chunks st =
     (let iCSize = basechunksize (hdr st) * sz;
          stride = iCSize + sizeof_chunkhead + sizeof_chunkfoot
      in case format_loop si iStart iCSize sz chunks 0 st of
           None \<Rightarrow> None
         | Some st \<Rightarrow>
             (let p = mwoffset2adr iStart (Some si);
                  f = mwfooter st p;
                  last = iStart + (int chunks - 1) * stride;
                  st' = upd_foot st f (\<lambda>x. x\<lparr>prevc := last\<rparr>);
                  q = mwoffset2adr last (Some si)
              in if p = 0 \<or> q = 0 then None
                 else Some (iStart + int chunks * stride,
                            upd_foot st' (mwfooter st' q) (\<lambda>x. x\<lparr>nextc := iStart\<rparr>))))"

definition chunks_in_bin :: "int \<Rightarrow> nat \<Rightarrow> nat" where
  "chunks_in_bin cps i = nat (cps * (if i = 0 then 2 else 1))"

primrec format_bins :: "seginfo \<Rightarrow> int \<Rightarrow> nat \<Rightarrow> nat \<Rightarrow> int \<Rightarrow> shmstate \<Rightarrow> shmstate option" where
  "format_bins si cps 0 i iChunkRoot st = Some st"
| "format_bins si cps (Suc n) i iChunkRoot st =
     (case formatfreelist si iChunkRoot (2 ^ i) (chunks_in_bin cps i)
             (set_root st i iChunkRoot (int (chunks_in_bin cps i))) of
        None \<Rightarrow> None
      | Some (iChunkRoot, st) \<Rightarrow> format_bins si cps n (i + 1) iChunkRoot st)"

text \<open>
  \<^verbatim>\<open>CHUNKOVERHEAD\<close> is a sum without parentheses, so \<^verbatim>\<open>6*chunkspersize*CHUNKOVERHEAD\<close>
  multiplies the size of the head only.
\<close>

definition segment_size :: "int \<Rightarrow> int \<Rightarrow> int" where
  "segment_size cs cps =
     sizeof_segmenthdr + (6 * cps * sizeof_chunkhead + sizeof_chunkfoot) + 32 * cs * cps + 100000"

definition format_header :: "int \<Rightarrow> int \<Rightarrow> segmenthdr" where
  "format_header cs cps =
     \<lparr>chunkspersize = sint (word_of_int cps :: 16 word), basechunksize = sint (word_of_int cs :: 32 word),
      segmentsize = segment_size cs cps, top = sizeof_segmenthdr,
      bottom = segment_size cs cps - sizeof_segmenthdr,
      inusecount = 0, inusehighwater = 0, inuseaverage = 0, numbins = BINS,
      chunk = replicate BINS 0, freecount = replicate BINS 0\<rparr>"

text \<open>
  The segment the kernel gives is at the address \<open>a\<close>, filled with zeros; the calls that
  create it and its semaphores succeed.
\<close>

definition shmb_format :: "int \<Rightarrow> int \<Rightarrow> int \<Rightarrow> shmstate \<Rightarrow> shmstate option" where
  "shmb_format a cs cps st =
     (let sz = segment_size cs cps;
          si = \<lparr>segmentid = 0, segfd = -1, segstart = a, segend = a + sz\<rparr>;
          st = (mw_addsegment st 0 (-1) a (a + sz))\<lparr>heapinfo := a, hdr := format_header cs cps\<rparr>
      in map_option (\<lambda>st. set_root st (BINS - 1) 0 0)
           (format_bins si cps (BINS - 1) 0 sizeof_segmenthdr st))"

text \<open>
  \<open>shmb_info\<close>: usage, average, high water mark and maximum for the chunks of one size; the
  counter is looked up under the size and not under its bin, which for 8 and 16 lies
  outside the array, the result \<open>None\<close>.
\<close>

definition shmb_info :: "shmstate \<Rightarrow> int \<Rightarrow> (errno + (int \<times> int \<times> int \<times> int)) option" where
  "shmb_info st sz =
     (let h = hdr st
      in if sz = 0
         then Some (Inr (inusecount h, inuseaverage h, inusehighwater h, chunkspersize h * 32))
         else if sz \<in> {1, 2, 4, 8, 16}
         then (if sz \<ge> int BINS then None
               else let n = (if sz = 1 then chunkspersize h * 2 else chunkspersize h)
                    in Some (Inr (n - freecount h ! nat sz, -1, -1, n)))
         else Some (Inl EINVAL))"

end
