(* ===== verification/IpcTables.thy ===== *)
theory IpcTables
  imports ShmHeap "HOL-Library.Monad_Syntax"
begin

unbundle bit_operations_syntax

text \<open>
  \<^verbatim>\<open>src/include/MidWay.h\<close> (the member ids), \<^verbatim>\<open>src/include/ipctables.h\<close>,
  \<^verbatim>\<open>src/include/ipcmessages.h\<close>, \<^verbatim>\<open>src/lib/ipctables.c\<close> and the send routine of
  \<^verbatim>\<open>src/lib/ipcmessages.c\<close>: the tables of an instance in shared memory, the look-ups every
  member makes in them, and the message queues.

  A table is a list of entries, \<open>None\<close> while it is not attached, and a pointer to an entry
  is its index. The daemon creates each table with the length it records in
  \<open>ipcmaininfo\<close>, so the lengths are those of the lists. Ids are 32 bit integers of the code
  and integers here: the bitwise operations agree, and an index has 24 bits.
\<close>

section \<open>Ids\<close>

abbreviation (input) MWSERVERMASK :: int where "MWSERVERMASK \<equiv> 0x01000000"
abbreviation (input) MWCLIENTMASK :: int where "MWCLIENTMASK \<equiv> 0x02000000"
abbreviation (input) MWGATEWAYMASK :: int where "MWGATEWAYMASK \<equiv> 0x04000000"
abbreviation (input) MWSERVICEMASK :: int where "MWSERVICEMASK \<equiv> 0x08000000"
abbreviation (input) MWINDEXMASK :: int where "MWINDEXMASK \<equiv> 0x00FFFFFF"

text \<open>
  The three families of macros, by the mask of the kind of id: the index of an id, the id
  if it is of the kind, and the id of an index.
\<close>

definition id2idx :: "int \<Rightarrow> int \<Rightarrow> int" where
  "id2idx m i =
     (if i \<noteq> UNASSIGNED then if (i AND m) > 0 then i AND MWINDEXMASK else UNASSIGNED
      else UNASSIGNED)"

definition id_kind :: "int \<Rightarrow> int \<Rightarrow> int" where
  "id_kind m i = (if (i AND m) \<noteq> 0 then i else UNASSIGNED)"

definition idx2id :: "int \<Rightarrow> int \<Rightarrow> int" where
  "idx2id m i = ((i AND MWINDEXMASK) OR m)"

abbreviation (input) CLTID2IDX :: "int \<Rightarrow> int" where "CLTID2IDX \<equiv> id2idx MWCLIENTMASK"
abbreviation (input) SRVID2IDX :: "int \<Rightarrow> int" where "SRVID2IDX \<equiv> id2idx MWSERVERMASK"
abbreviation (input) SVCID2IDX :: "int \<Rightarrow> int" where "SVCID2IDX \<equiv> id2idx MWSERVICEMASK"
abbreviation (input) GWID2IDX :: "int \<Rightarrow> int" where "GWID2IDX \<equiv> id2idx MWGATEWAYMASK"
abbreviation (input) CLTID :: "int \<Rightarrow> int" where "CLTID \<equiv> id_kind MWCLIENTMASK"
abbreviation (input) SRVID :: "int \<Rightarrow> int" where "SRVID \<equiv> id_kind MWSERVERMASK"
abbreviation (input) SVCID :: "int \<Rightarrow> int" where "SVCID \<equiv> id_kind MWSERVICEMASK"
abbreviation (input) GWID :: "int \<Rightarrow> int" where "GWID \<equiv> id_kind MWGATEWAYMASK"
abbreviation (input) IDX2CLTID :: "int \<Rightarrow> int" where "IDX2CLTID \<equiv> idx2id MWCLIENTMASK"
abbreviation (input) IDX2SRVID :: "int \<Rightarrow> int" where "IDX2SRVID \<equiv> idx2id MWSERVERMASK"
abbreviation (input) IDX2SVCID :: "int \<Rightarrow> int" where "IDX2SVCID \<equiv> idx2id MWSERVICEMASK"
abbreviation (input) IDX2GWID :: "int \<Rightarrow> int" where "IDX2GWID \<equiv> idx2id MWGATEWAYMASK"

section \<open>The tables\<close>

abbreviation (input) GWLOCAL :: int where "GWLOCAL \<equiv> 0"
abbreviation (input) GWPEER :: int where "GWPEER \<equiv> 1"
abbreviation (input) GWREMOTE :: int where "GWREMOTE \<equiv> 2"
abbreviation (input) GWCLIENT :: int where "GWCLIENT \<equiv> 3"

abbreviation (input) MWREADY :: int where "MWREADY \<equiv> 0"
abbreviation (input) MWSHUTDOWN :: int where "MWSHUTDOWN \<equiv> 1"
abbreviation (input) MWBOOTING :: int where "MWBOOTING \<equiv> 2"
abbreviation (input) MWBUSY :: int where "MWBUSY \<equiv> 3"
abbreviation (input) MWDEAD :: int where "MWDEAD \<equiv> 4"

abbreviation (input) MWCALLSVC :: int where "MWCALLSVC \<equiv> 1"
abbreviation (input) MWCONVSVC :: int where "MWCONVSVC \<equiv> 2"

abbreviation (input) MWMAXNAMELEN :: nat where "MWMAXNAMELEN \<equiv> 65"
abbreviation (input) MWMAXSVCNAME :: nat where "MWMAXSVCNAME \<equiv> 33"

abbreviation (input) MWIPCONLY :: int where "MWIPCONLY \<equiv> 0x80"
abbreviation (input) MWCONV :: int where "MWCONV \<equiv> 0x10000"

record cliententry =
  clt_type :: int
  clt_location :: int
  clt_status :: int
  clt_pid :: int
  clt_mqid :: int
  clt_gwid :: int
  clt_srvid :: int
  clientname :: string
  username :: string
  clt_addr_string :: string
  authtype :: int
  authref :: int
  clt_connected :: int
  clt_last_request :: int
  clt_idle_timeout :: int
  clt_requests :: int

text \<open>
  The fifteen load figures of a server are floating point numbers no code of the
  repository computes: the only value stored in them is 0.
\<close>

record serverload =
  percbusy1 :: int  percbusy5 :: int  percbusy15 :: int
  count1 :: int  count5 :: int  count15 :: int
  qlenbusy1 :: int  qlenbusy5 :: int  qlenbusy15 :: int
  avserv1 :: int  avserv5 :: int  avserv15 :: int
  avwait1 :: int  avwait5 :: int  avwait15 :: int

record serverentry =
  servername :: string
  srv_mqid :: int
  srv_pid :: int
  srv_status :: int
  statustext :: string
  nowserving :: int
  mwdblock :: bool
  srv_trace :: int
  booted :: int
  lastsvccall :: int
  srv_load :: serverload

record serviceentry =
  svc_type :: int
  svc_location :: int
  svc_server :: int
  svc_gateway :: int
  mwname :: string
  svc_cost :: int
  svcfunc :: int
  servicename :: string

record gatewayentry =
  instancename :: string
  domainname :: string
  gw_location :: int
  srbrole :: int
  gw_mqid :: int
  gw_pid :: int
  gw_status :: int
  gw_connected :: int
  gw_last_call :: int
  gw_trace :: int
  mesgsent :: int
  mesgrecv :: int
  imported_svc :: int
  exported_svc :: int
  gw_addr_string :: string

record conv_entry =
  cv_srvid :: int
  cv_gwid :: int
  cv_cltid :: int

record ipcmaininfo =
  im_status :: int
  mwdpid :: int
  mwwdpid :: int
  mwd_mqid :: int
  mw_bufferdir :: string
  shutdowntime :: int
  gwtbl_nextidx :: int

section \<open>Messages and message queues\<close>

record attach =
  at_mtype :: int
  at_ipcqid :: int
  at_pid :: int
  at_server :: bool
  at_srvname :: string
  at_srvid :: int
  at_client :: bool
  at_cltname :: string
  at_cltid :: int
  at_gwid :: int
  at_flags :: int
  at_returncode :: int

record provide =
  pr_mtype :: int
  pr_srvid :: int
  pr_svcid :: int
  pr_gwid :: int
  pr_svcname :: string
  pr_cost :: int
  pr_flags :: int
  pr_returncode :: int

record event =
  ev_mtype :: int
  ev_event :: string
  eventid :: int
  ev_subscriptionid :: int
  senderid :: int
  ev_datasegmentid :: int
  ev_data :: int
  ev_datalen :: int
  ev_username :: string
  ev_clientname :: string
  ev_flags :: int
  ev_returncode :: int

record administrative =
  ad_mtype :: int
  ad_opcode :: int
  ad_cltid :: int
  ad_delay :: int

record alloc_req =
  al_mtype :: int
  al_mwid :: int
  al_size :: int
  al_pages :: int
  al_bufferid :: int

text \<open>A service call or its reply. The part with the buffer of its data is that of the heap.\<close>

record call = callmesg +
  ca_mtype :: int
  ca_handle :: int
  ca_cltid :: int
  ca_gwid :: int
  ca_srvid :: int
  ca_svcid :: int
  forwardcount :: int
  ca_service :: string
  origservice :: string
  issued :: int
  uissued :: int
  ca_timeout :: int
  appreturncode :: int
  ca_flags :: int
  ca_instance :: string
  ca_domainname :: string
  callerid :: int
  hops :: int
  ca_returncode :: int

text \<open>
  A message is one of the structures, and its size is that of the structure. The longest
  is a service call of 296 octets.
\<close>

datatype ipcmesg =
  Attach attach | Provide provide | Event event | Administrative administrative | Alloc alloc_req
  | Call call

abbreviation (input) MWMSGMAX :: nat where "MWMSGMAX \<equiv> 296"

fun mesg_size :: "ipcmesg \<Rightarrow> nat" where
  "mesg_size (Attach _) = 184"
| "mesg_size (Provide _) = 72"
| "mesg_size (Event _) = 256"
| "mesg_size (Administrative _) = 24"
| "mesg_size (Alloc _) = 40"
| "mesg_size (Call _) = 296"

text \<open>
  The state a member shares: the attached tables, the heap, its own ids and the message
  queues of the system, a removed queue being \<open>None\<close>.
\<close>

record ipcstate =
  ipcmain :: "ipcmaininfo option"
  clttbl :: "cliententry list option"
  srvtbl :: "serverentry list option"
  svctbl :: "serviceentry list option"
  gwtbl :: "gatewayentry list option"
  convtbl :: "conv_entry list option"
  my_mqid :: int
  myserverid :: int
  myclientid :: int
  mygatewayid :: int
  shm :: shmstate
  msgq :: "int \<Rightarrow> ipcmesg list option"

text \<open>
  What the operating system and the C library decide: whether a message can be put on a
  queue and the error if not, whether a process can be signalled and what owner it
  has (0 for no process), the next random number,
  the time, the matching of shell patterns and of regular expressions, the page size, whether
  the file of a large buffer can be created, and what the heap needs. A pattern is matched with the result \<open>Some True\<close>, does not match with
  \<open>Some False\<close> and is malformed with \<open>None\<close>.
\<close>

record mwenv =
  msgsnd_err :: "int \<Rightarrow> ipcmesg list \<Rightarrow> ipcmesg \<Rightarrow> errno option"
  kill_err :: "int \<Rightarrow> errno option"
  procowner :: "int \<Rightarrow> int"
  rand_val :: int
  now :: int
  fnmatch :: "string \<Rightarrow> string \<Rightarrow> bool option"
  regcomp :: "bool \<Rightarrow> string \<Rightarrow> bool"
  regexec :: "bool \<Rightarrow> string \<Rightarrow> string \<Rightarrow> bool"
  pagesize :: int
  open_ok :: "int \<Rightarrow> bool"
  shm_env :: shmenv

text \<open>The length of a table, and reading and changing the entry at an index.\<close>

definition tbl_length :: "'a list option \<Rightarrow> int" where
  "tbl_length t = (case t of None \<Rightarrow> 0 | Some xs \<Rightarrow> int (length xs))"

definition tbl_at :: "'a list option \<Rightarrow> int \<Rightarrow> 'a option" where
  "tbl_at t i = (if 0 \<le> i \<and> i < tbl_length t then Some (the t ! nat i) else None)"

definition tbl_upd :: "('a \<Rightarrow> 'a) \<Rightarrow> int \<Rightarrow> 'a list option \<Rightarrow> 'a list option" where
  "tbl_upd f i t = map_option (\<lambda>xs. xs[nat i := f (xs ! nat i)]) t"

section \<open>Member ids and the main table\<close>

definition mw_set_my_serverid :: "'a ipcstate_scheme \<Rightarrow> int \<Rightarrow> 'a ipcstate_scheme" where
  "mw_set_my_serverid st i = st\<lparr>myserverid := MWSERVERMASK OR i\<rparr>"

definition mw_set_my_clientid :: "'a ipcstate_scheme \<Rightarrow> int \<Rightarrow> 'a ipcstate_scheme" where
  "mw_set_my_clientid st i = st\<lparr>myclientid := MWCLIENTMASK OR i\<rparr>"

definition mw_set_my_gatewayid :: "'a ipcstate_scheme \<Rightarrow> int \<Rightarrow> 'a ipcstate_scheme" where
  "mw_set_my_gatewayid st i = st\<lparr>mygatewayid := MWGATEWAYMASK OR i\<rparr>"

definition mw_get_my_mwid :: "'a ipcstate_scheme \<Rightarrow> int" where
  "mw_get_my_mwid st =
     (if myclientid st \<noteq> UNASSIGNED then myclientid st
      else if myserverid st \<noteq> UNASSIGNED then myserverid st
      else if mygatewayid st \<noteq> UNASSIGNED then mygatewayid st
      else UNASSIGNED)"

definition mw_mwd_mqid :: "'a ipcstate_scheme \<Rightarrow> int" where
  "mw_mwd_mqid st =
     (case ipcmain st of None \<Rightarrow> - errno_num EILSEQ | Some im \<Rightarrow> mwd_mqid im)"

text \<open>
  The address of an entry for an id, and of the first entry for 0. The length of the table
  is an index they let through.
\<close>

definition getentry :: "int \<Rightarrow> 'b list option \<Rightarrow> int \<Rightarrow> int option" where
  "getentry m t i =
     (if t = None then None
      else if i \<noteq> 0
      then let i = id2idx m i
           in if i = UNASSIGNED then None
              else if i > tbl_length t then None
              else Some i
      else Some i)"

definition mw_getcliententry :: "'a ipcstate_scheme \<Rightarrow> int \<Rightarrow> int option" where
  "mw_getcliententry st i = getentry MWCLIENTMASK (clttbl st) i"

definition mw_getserverentry :: "'a ipcstate_scheme \<Rightarrow> int \<Rightarrow> int option" where
  "mw_getserverentry st i = getentry MWSERVERMASK (srvtbl st) i"

definition mw_getserviceentry :: "'a ipcstate_scheme \<Rightarrow> int \<Rightarrow> int option" where
  "mw_getserviceentry st i = getentry MWSERVICEMASK (svctbl st) i"

definition mw_getgatewayentry :: "'a ipcstate_scheme \<Rightarrow> int \<Rightarrow> int option" where
  "mw_getgatewayentry st i = getentry MWGATEWAYMASK (gwtbl st) i"

section \<open>Looking members and services up\<close>

definition mw_get_client_byid :: "'a ipcstate_scheme \<Rightarrow> int \<Rightarrow> int option" where
  "mw_get_client_byid st cltid =
     (if ipcmain st = None then None
      else if (cltid AND MWCLIENTMASK) \<noteq> MWCLIENTMASK then None
      else let index = cltid AND MWINDEXMASK
           in case tbl_at (clttbl st) index of
                None \<Rightarrow> None
              | Some e \<Rightarrow> if clt_status e = UNASSIGNED then None else Some index)"

definition mw_get_server_byid :: "'a ipcstate_scheme \<Rightarrow> int \<Rightarrow> int option" where
  "mw_get_server_byid st srvid =
     (if ipcmain st = None then None
      else if (srvid AND MWSERVERMASK) \<noteq> MWSERVERMASK then None
      else let index = srvid AND MWINDEXMASK
           in case tbl_at (srvtbl st) index of
                None \<Rightarrow> None
              | Some e \<Rightarrow> if srv_status e = UNASSIGNED then None else Some index)"

definition mw_get_service_byid :: "'a ipcstate_scheme \<Rightarrow> int \<Rightarrow> int option" where
  "mw_get_service_byid st svcid =
     (if ipcmain st = None then None
      else if SVCID svcid = UNASSIGNED then None
      else let index = SVCID2IDX svcid
           in case tbl_at (svctbl st) index of
                None \<Rightarrow> None
              | Some e \<Rightarrow> if svc_server e = UNASSIGNED then None else Some index)"

definition mw_get_provider_by_serviceid :: "'a ipcstate_scheme \<Rightarrow> int \<Rightarrow> int" where
  "mw_get_provider_by_serviceid st svcid =
     (if ipcmain st = None then UNASSIGNED
      else if SVCID svcid = UNASSIGNED then UNASSIGNED
      else case tbl_at (svctbl st) (SVCID2IDX svcid) of
             None \<Rightarrow> UNASSIGNED
           | Some e \<Rightarrow>
               if svc_server e \<ge> 0 then svc_server e
               else if svc_gateway e \<ge> 0 then svc_gateway e
               else UNASSIGNED)"

definition mw_get_gateway_byid :: "'a ipcstate_scheme \<Rightarrow> int \<Rightarrow> int option" where
  "mw_get_gateway_byid st gwid =
     (if ipcmain st = None then None
      else if (gwid AND MWGATEWAYMASK) \<noteq> MWGATEWAYMASK then None
      else let index = gwid AND MWINDEXMASK
           in case tbl_at (gwtbl st) index of
                None \<Rightarrow> None
              | Some e \<Rightarrow> if gw_status e = UNASSIGNED then None else Some index)"

text \<open>
  A scan of the service table starts at a random entry and wraps around. \<open>mw_irand\<close> scales
  a random number in floating point, exactly for bounds below \<open>2 ^ 22\<close>.
\<close>

definition mw_irand :: "int \<Rightarrow> int \<Rightarrow> int" where
  "mw_irand r bound = bound * r div 2 ^ 31"

definition scan_order :: "int \<Rightarrow> nat \<Rightarrow> nat list" where
  "scan_order x n = map (\<lambda>i. nat ((x + int i) mod int n)) [0..<n]"

definition service_type :: "int \<Rightarrow> int" where
  "service_type flags = (if (flags AND MWCONV) \<noteq> 0 then MWCONVSVC else MWCALLSVC)"

definition svc_matches :: "string \<Rightarrow> int \<Rightarrow> serviceentry \<Rightarrow> bool" where
  "svc_matches svcname ty e \<longleftrightarrow>
     svc_type e \<noteq> UNASSIGNED \<and> svc_type e = ty \<and> strncmp_eq (servicename e) svcname MWMAXSVCNAME"

definition mw_get_services_byname :: "mwenv \<Rightarrow> 'a ipcstate_scheme \<Rightarrow> string \<Rightarrow> int \<Rightarrow> int list option" where
  "mw_get_services_byname env st svcname flags =
     (if ipcmain st = None then None
      else let tbl = (case svctbl st of None \<Rightarrow> [] | Some t \<Rightarrow> t);
               order = scan_order (mw_irand (rand_val env) (int (length tbl))) (length tbl);
               ids = map (\<lambda>i. IDX2SVCID (int i))
                       (filter (\<lambda>i. svc_matches svcname (service_type flags) (tbl ! i)
                                    \<and> ((flags AND MWIPCONLY) \<noteq> 0 \<longrightarrow> svc_location (tbl ! i) = GWLOCAL)) order)
           in if ids = [] then None else Some ids)"

text \<open>The names of the services that match a shell pattern, each once.\<close>

fun glob_loop :: "mwenv \<Rightarrow> string \<Rightarrow> serviceentry list \<Rightarrow> string list \<Rightarrow> errno + string list" where
  "glob_loop env glob [] names = Inr names"
| "glob_loop env glob (e # es) names =
     (if svc_type e = UNASSIGNED then glob_loop env glob es names
      else case fnmatch env glob (servicename e) of
             Some False \<Rightarrow> glob_loop env glob es names
           | None \<Rightarrow> Inl EFAULT
           | Some True \<Rightarrow>
               if servicename e \<in> set names then glob_loop env glob es names
               else glob_loop env glob es (names @ [servicename e]))"

definition mwsystemstate :: "mwenv \<Rightarrow> 'a ipcstate_scheme \<Rightarrow> errno option" where
  "mwsystemstate env st =
     (case ipcmain st of
        None \<Rightarrow> Some ENAVAIL
      | Some im \<Rightarrow>
          if im_status im = MWSHUTDOWN \<or> im_status im = MWSHUTDOWN then Some ESHUTDOWN
          else if im_status im = MWBOOTING then Some ECONNREFUSED
          else if clttbl st = None \<or> gwtbl st = None \<or> srvtbl st = None \<or> svctbl st = None
          then Some EUCLEAN
          else if \<not> (kill_err env (mwdpid im) = None \<or> kill_err env (mwdpid im) = Some EPERM)
          then Some ECONNABORTED
          else None)"

definition mw_list_services_byglob :: "mwenv \<Rightarrow> 'a ipcstate_scheme \<Rightarrow> string option \<Rightarrow> errno + string list" where
  "mw_list_services_byglob env st glob =
     (case mwsystemstate env st of
        Some e \<Rightarrow> Inl e
      | None \<Rightarrow>
          glob_loop env (case glob of None \<Rightarrow> ''*'' | Some g \<Rightarrow> g)
            (case svctbl st of None \<Rightarrow> [] | Some t \<Rightarrow> t) [])"

fun best_loop :: "serviceentry list \<Rightarrow> string \<Rightarrow> int \<Rightarrow> nat list \<Rightarrow> int \<Rightarrow> int" where
  "best_loop tbl svcname ty [] sid = sid"
| "best_loop tbl svcname ty (i # is) sid =
     (if svc_matches svcname ty (tbl ! i)
      then if svc_location (tbl ! i) = GWLOCAL then int i
           else if svc_location (tbl ! i) = GWPEER \<and> sid \<noteq> UNASSIGNED
           then best_loop tbl svcname ty is (int i)
           else best_loop tbl svcname ty is sid
      else best_loop tbl svcname ty is sid)"

definition mw_get_best_service :: "mwenv \<Rightarrow> 'a ipcstate_scheme \<Rightarrow> string \<Rightarrow> int \<Rightarrow> int" where
  "mw_get_best_service env st svcname flags =
     (if ipcmain st = None then UNASSIGNED
      else let tbl = (case svctbl st of None \<Rightarrow> [] | Some t \<Rightarrow> t)
           in best_loop tbl svcname (service_type flags)
                (scan_order (mw_irand (rand_val env) (int (length tbl))) (length tbl)) UNASSIGNED
              OR MWSERVICEMASK)"

text \<open>The older selection: the first idle server, or else the last busy one.\<close>

fun byname_loop :: "'a ipcstate_scheme \<Rightarrow> string \<Rightarrow> int \<Rightarrow> (nat \<times> serviceentry) list \<Rightarrow> int \<Rightarrow> int" where
  "byname_loop st svcname ty [] selectedid =
     (if selectedid = UNASSIGNED then - errno_num ENOENT else selectedid OR MWSERVICEMASK)"
| "byname_loop st svcname ty ((index, e) # es) selectedid =
     (if svc_server e = UNASSIGNED then byname_loop st svcname ty es selectedid
      else if svc_type e \<noteq> ty then byname_loop st svcname ty es selectedid
      else if strncmp_eq (servicename e) svcname MWMAXSVCNAME
      then case mw_get_server_byid st (svc_server e) of
             None \<Rightarrow> byname_loop st svcname ty es selectedid
           | Some si \<Rightarrow>
               if nowserving (the (srvtbl st) ! nat si) < 0 then int index OR MWSERVICEMASK
               else byname_loop st svcname ty es (int index)
      else byname_loop st svcname ty es selectedid)"

definition mw_get_service_byname :: "'a ipcstate_scheme \<Rightarrow> string \<Rightarrow> int \<Rightarrow> int" where
  "mw_get_service_byname st svcname convflag =
     (if ipcmain st = None then UNASSIGNED
      else byname_loop st svcname (if convflag \<noteq> 0 then MWCONVSVC else MWCALLSVC)
             (List.enumerate 0 (case svctbl st of None \<Rightarrow> [] | Some t \<Rightarrow> t)) UNASSIGNED)"

definition mw_get_mqid_by_mwid :: "'a ipcstate_scheme \<Rightarrow> int \<Rightarrow> int" where
  "mw_get_mqid_by_mwid st dest =
     (let found = (\<lambda>qid. if qid = -1 then - errno_num ENOENT else qid)
      in if (dest AND MWSERVERMASK) \<noteq> 0
         then found (case mw_get_server_byid st dest of
                Some i \<Rightarrow> srv_mqid (the (srvtbl st) ! nat i) | None \<Rightarrow> -1)
         else if (dest AND MWCLIENTMASK) \<noteq> 0
         then found (case mw_get_client_byid st dest of
                Some i \<Rightarrow> clt_mqid (the (clttbl st) ! nat i) | None \<Rightarrow> -1)
         else if (dest AND MWGATEWAYMASK) \<noteq> 0
         then found (case mw_get_gateway_byid st dest of
                Some i \<Rightarrow> gw_mqid (the (gwtbl st) ! nat i) | None \<Rightarrow> -1)
         else if dest = 0 then found (mw_mwd_mqid st)
         else - errno_num EBADR)"

text \<open>
  The status of a server. The caller's string is cut to the length of a name; the status
  text has the room of a service name.
\<close>

abbreviation (input) SHUTDOWN :: string where "SHUTDOWN \<equiv> ''.(shutdown)''"

definition mw_set_my_status :: "'a ipcstate_scheme \<Rightarrow> string option \<Rightarrow> 'a ipcstate_scheme" where
  "mw_set_my_status st status =
     (case mw_get_server_byid st (myserverid st) of
        None \<Rightarrow> st
      | Some i \<Rightarrow>
          st\<lparr>srvtbl := tbl_upd (\<lambda>e.
               case map_option (\<lambda>s. take (MWMAXNAMELEN - 1) s) status of
                 None \<Rightarrow> e\<lparr>srv_status := MWREADY, statustext := strncpy ''(idle)'' MWMAXSVCNAME\<rparr>
               | Some s \<Rightarrow>
                   if s = SHUTDOWN
                   then e\<lparr>srv_status := MWSHUTDOWN, statustext := strncpy SHUTDOWN MWMAXSVCNAME\<rparr>
                   else e\<lparr>srv_status := MWBUSY, statustext := strncpy s MWMAXSVCNAME\<rparr>) i (srvtbl st)\<rparr>)"

section \<open>Sending\<close>

text \<open>
  \<open>msgsnd\<close> puts the message on the queue or fails with an errno. An interrupted send is
  reported as a success by \<open>mw_ipc_putmessage\<close>.
\<close>

definition msgsnd :: "mwenv \<Rightarrow> 'a ipcstate_scheme \<Rightarrow> int \<Rightarrow> ipcmesg \<Rightarrow> errno option \<times> 'a ipcstate_scheme" where
  "msgsnd env st qid m =
     (case msgq st qid of
        None \<Rightarrow> (Some EINVAL, st)
      | Some q \<Rightarrow>
          (case msgsnd_err env qid q m of
             Some e \<Rightarrow> (Some e, st)
           | None \<Rightarrow> (None, st\<lparr>msgq := (msgq st)(qid := Some (q @ [m]))\<rparr>)))"

definition msgctl_rmid :: "'a ipcstate_scheme \<Rightarrow> int \<Rightarrow> 'a ipcstate_scheme" where
  "msgctl_rmid st qid = st\<lparr>msgq := (msgq st)(qid := None)\<rparr>"

definition mw_ipc_putmessage :: "mwenv \<Rightarrow> 'a ipcstate_scheme \<Rightarrow> int \<Rightarrow> ipcmesg \<Rightarrow> int \<times> 'a ipcstate_scheme" where
  "mw_ipc_putmessage env st dest m =
     (if mesg_size m > MWMSGMAX then (- errno_num E2BIG, st)
      else let qid = mw_get_mqid_by_mwid st dest
           in if qid < 0 then (qid, st)
              else case msgsnd env st qid m of
                     (None, st) \<Rightarrow> (0, st)
                   | (Some e, st) \<Rightarrow> if e = EINTR then (0, st) else (- errno_num e, st))"

section \<open>Lemmas on ids\<close>

named_theorems id_simps \<open>the id macros on an index in range\<close>

lemma idx_bit: "bit i n \<Longrightarrow> 0 \<le> i \<Longrightarrow> i < 2 ^ 24 \<Longrightarrow> n < 24" for i :: int
  by (metis bit_take_bit_iff take_bit_int_eq_self)

lemma idx_or_and_index:
  fixes i :: int
  assumes "0 \<le> i" "i < 2 ^ 24" "24 \<le> k"
  shows "(i OR 2 ^ k) AND MWINDEXMASK = i"
proof -
  have *: "MWINDEXMASK = mask 24" by (simp add: mask_eq_exp_minus_1)
  show ?thesis
    unfolding * using assms idx_bit [of i]
    by (intro bit_eqI) (auto simp: bit_simps simp del: mask_numeral)
qed

lemma idx_or_and_exp:
  fixes i :: int
  assumes "0 \<le> i" "i < 2 ^ 24" "24 \<le> k" "24 \<le> l"
  shows "(i OR 2 ^ k) AND 2 ^ l = (if k = l then 2 ^ k else 0)"
  using assms idx_bit [of i l] by (intro bit_eqI) (auto simp: bit_simps)

lemma mask_exp: "MWSERVERMASK = 2 ^ 24" "MWCLIENTMASK = 2 ^ 25"
  "MWGATEWAYMASK = 2 ^ 26" "MWSERVICEMASK = 2 ^ 27"
  by simp_all

lemma and_index: "0 \<le> i \<Longrightarrow> i < 2 ^ 24 \<Longrightarrow> i AND MWINDEXMASK = i" for i :: int
proof -
  have *: "MWINDEXMASK = mask 24" by (simp add: mask_eq_exp_minus_1)
  show "0 \<le> i \<Longrightarrow> i < 2 ^ 24 \<Longrightarrow> i AND MWINDEXMASK = i"
    unfolding * by (simp add: take_bit_eq_mask [symmetric] take_bit_int_eq_self)
qed

lemma and_index_nonneg [simp]: "0 \<le> i AND MWINDEXMASK" for i :: int
  by simp

lemma idx2id_exp:
  assumes "0 \<le> i" "i < 2 ^ 24" "24 \<le> k" "24 \<le> l"
  shows "idx2id (2 ^ k) i AND 2 ^ l = (if k = l then 2 ^ k else 0)"
    "idx2id (2 ^ k) i AND MWINDEXMASK = i"
    "idx2id (2 ^ k) i > 0"
    "(i OR 2 ^ k) = idx2id (2 ^ k) i"
    "(2 ^ k OR i) = idx2id (2 ^ k) i"
    "id2idx (2 ^ k) (idx2id (2 ^ k) i) = i"
proof -
  have *: "idx2id (2 ^ k) i = (i OR 2 ^ k)"
    using assms by (simp add: idx2id_def and_index)
  show "idx2id (2 ^ k) i AND 2 ^ l = (if k = l then 2 ^ k else 0)"
    using idx_or_and_exp [OF assms] by (simp add: *)
  show index: "idx2id (2 ^ k) i AND MWINDEXMASK = i"
    using idx_or_and_index [of i k] assms by (simp add: *)
  have "(2::int) ^ k \<noteq> 0" by simp
  then have "i OR 2 ^ k \<noteq> 0" by (metis or_eq_0_iff)
  then show pos: "idx2id (2 ^ k) i > 0"
    using assms by (simp add: * order_less_le)
  show "(i OR 2 ^ k) = idx2id (2 ^ k) i"
    by (simp add: * )
  show "id2idx (2 ^ k) (idx2id (2 ^ k) i) = i"
    using pos index idx_or_and_exp [of i k k] assms by (simp add: id2idx_def *)
  show "(2 ^ k OR i) = idx2id (2 ^ k) i"
    by (simp add: * or.commute)
qed

text \<open>The same for the four kinds of ids, over the literal masks.\<close>

lemmas idx2id_literal =
  idx2id_exp [where k = 24 and l = 24] idx2id_exp [where k = 24 and l = 25]
  idx2id_exp [where k = 24 and l = 26] idx2id_exp [where k = 24 and l = 27]
  idx2id_exp [where k = 25 and l = 24] idx2id_exp [where k = 25 and l = 25]
  idx2id_exp [where k = 25 and l = 26] idx2id_exp [where k = 25 and l = 27]
  idx2id_exp [where k = 26 and l = 24] idx2id_exp [where k = 26 and l = 25]
  idx2id_exp [where k = 26 and l = 26] idx2id_exp [where k = 26 and l = 27]
  idx2id_exp [where k = 27 and l = 24] idx2id_exp [where k = 27 and l = 25]
  idx2id_exp [where k = 27 and l = 26] idx2id_exp [where k = 27 and l = 27]

lemmas idx2id_simps [id_simps] = idx2id_literal [simplified]

section \<open>Lemmas on tables\<close>

lemma tbl_length_nonneg [simp]: "0 \<le> tbl_length t"
  by (simp add: tbl_length_def split: option.split)

lemma tbl_length_upd [simp]: "tbl_length (tbl_upd f i t) = tbl_length t"
  by (simp add: tbl_length_def tbl_upd_def split: option.split)

lemma tbl_upd_None_iff [simp]: "tbl_upd f i t = None \<longleftrightarrow> t = None"
  by (simp add: tbl_upd_def)

lemma tbl_upd_Some_ex [simp]: "(\<exists>y. tbl_upd f i t = Some y) \<longleftrightarrow> (\<exists>y. t = Some y)"
  by (auto simp: tbl_upd_def)

lemma tbl_at_Some_iff: "tbl_at t i = Some e \<longleftrightarrow> 0 \<le> i \<and> i < tbl_length t \<and> e = the t ! nat i"
  by (auto simp: tbl_at_def)

lemma tbl_at_None_iff: "tbl_at t i = None \<longleftrightarrow> \<not> (0 \<le> i \<and> i < tbl_length t)"
  by (simp add: tbl_at_def)

lemma tbl_at_upd:
  assumes "0 \<le> i"
  shows "tbl_at (tbl_upd f i t) j = (if j = i then map_option f (tbl_at t j) else tbl_at t j)"
proof (cases t)
  case None
  then show ?thesis by (auto simp: tbl_at_def tbl_upd_def tbl_length_def)
next
  case (Some xs)
  with assms show ?thesis
    by (auto simp: tbl_at_def tbl_upd_def tbl_length_def nth_list_update nat_eq_iff)
qed

lemma tbl_at_nth: "tbl_at (Some xs) (int i) = (if i < length xs then Some (xs ! i) else None)"
  by (simp add: tbl_at_def tbl_length_def)

text \<open>Look-ups of an id made from an index.\<close>

lemma get_client_idx2id:
  assumes "0 \<le> i" "i < 2 ^ 24" "ipcmain st \<noteq> None"
  shows "mw_get_client_byid st (IDX2CLTID i) =
    (case tbl_at (clttbl st) i of None \<Rightarrow> None | Some e \<Rightarrow> if clt_status e = UNASSIGNED then None else Some i)"
  using assms by (auto simp: mw_get_client_byid_def id_simps)

lemma get_server_idx2id:
  assumes "0 \<le> i" "i < 2 ^ 24" "ipcmain st \<noteq> None"
  shows "mw_get_server_byid st (IDX2SRVID i) =
    (case tbl_at (srvtbl st) i of None \<Rightarrow> None | Some e \<Rightarrow> if srv_status e = UNASSIGNED then None else Some i)"
  using assms by (auto simp: mw_get_server_byid_def id_simps)

lemma getentry_Some:
  assumes "getentry m t i = Some j"
  shows "t \<noteq> None" "0 \<le> j" "j \<le> tbl_length t"
  using assms by (auto simp: getentry_def Let_def id2idx_def split: if_splits)

text \<open>Sending changes nothing but the message queues, and its result does not depend on more.\<close>

lemma msgsnd_frame: "\<exists>q. snd (msgsnd env st qid m) = st\<lparr>msgq := q\<rparr>"
  by (auto simp: msgsnd_def split: option.split intro: exI [of _ "msgq st"])

lemma putmessage_frame: "\<exists>q. snd (mw_ipc_putmessage env st dest m) = st\<lparr>msgq := q\<rparr>"
  using msgsnd_frame [of env st "mw_get_mqid_by_mwid st dest" m]
  by (auto simp: mw_ipc_putmessage_def Let_def split: prod.split option.split intro: exI [of _ "msgq st"])

lemma putmessage_nonpos: "fst (mw_ipc_putmessage env st dest m) \<le> 0"
  by (auto simp: mw_ipc_putmessage_def Let_def less_imp_le split: prod.split option.split)

lemma putmessage_unassigned:
  assumes "ipcmain st \<noteq> None" "tbl_length (srvtbl st) \<le> MWINDEXMASK"
  shows "mw_ipc_putmessage env st UNASSIGNED m = (- errno_num (if mesg_size m > MWMSGMAX then E2BIG else ENOENT), st)"
proof -
  have "tbl_at (srvtbl st) MWINDEXMASK = None"
    using assms by (simp add: tbl_at_def)
  then have "mw_get_mqid_by_mwid st UNASSIGNED = - errno_num ENOENT"
    by (simp add: mw_get_mqid_by_mwid_def mw_get_server_byid_def)
  then show ?thesis by (simp add: mw_ipc_putmessage_def)
qed

end
