(* ===== verification/IpcCalls.thy ===== *)
theory IpcCalls
  imports IpcTables
begin

unbundle bit_operations_syntax

text \<open>
  \<^verbatim>\<open>src/lib/ipcmessages.c\<close>: the requests a member of an instance sends to the daemon and
  to servers, the queue of replies that arrived before they were asked for, and the receive
  routine.

  A process that sleeps in a system call is woken by what others do: \<open>wait\<close> is the state it
  wakes up in, and the error it wakes up with if there still is no message for it. The other
  parameters are the random numbers, the clock, the process id and the functions of the
  application: service routines and event handlers, given by a number.
\<close>

abbreviation (input) ATTACHREQ :: int where "ATTACHREQ \<equiv> 0x0800"
abbreviation (input) ATTACHRPL :: int where "ATTACHRPL \<equiv> 0x0810"
abbreviation (input) DETACHREQ :: int where "DETACHREQ \<equiv> 0x0820"
abbreviation (input) DETACHRPL :: int where "DETACHRPL \<equiv> 0x0830"
abbreviation (input) PROVIDEREQ :: int where "PROVIDEREQ \<equiv> 0x0600"
abbreviation (input) PROVIDERPL :: int where "PROVIDERPL \<equiv> 0x0610"
abbreviation (input) UNPROVIDEREQ :: int where "UNPROVIDEREQ \<equiv> 0x0620"
abbreviation (input) UNPROVIDERPL :: int where "UNPROVIDERPL \<equiv> 0x0630"
abbreviation (input) SVCCALL :: int where "SVCCALL \<equiv> 0x0100"
abbreviation (input) SVCFORWARD :: int where "SVCFORWARD \<equiv> 0x0101"
abbreviation (input) SVCREPLY :: int where "SVCREPLY \<equiv> 0x0110"
abbreviation (input) EVENT :: int where "EVENT \<equiv> 0x400"
abbreviation (input) EVENTACK :: int where "EVENTACK \<equiv> 0x410"
abbreviation (input) EVENTSUBSCRIBEREQ :: int where "EVENTSUBSCRIBEREQ \<equiv> 0x420"
abbreviation (input) EVENTSUBSCRIBERPL :: int where "EVENTSUBSCRIBERPL \<equiv> 0x430"
abbreviation (input) EVENTUNSUBSCRIBEREQ :: int where "EVENTUNSUBSCRIBEREQ \<equiv> 0x440"
abbreviation (input) EVENTUNSUBSCRIBERPL :: int where "EVENTUNSUBSCRIBERPL \<equiv> 0x450"
abbreviation (input) ADMREQ :: int where "ADMREQ \<equiv> 0x1000"
abbreviation (input) ADMSHUTDOWN :: int where "ADMSHUTDOWN \<equiv> 0x10"
abbreviation (input) ALLOCRPL :: int where "ALLOCRPL \<equiv> 0x1210"
abbreviation (input) MWIPCCLIENT :: int where "MWIPCCLIENT \<equiv> 0x01"
abbreviation (input) MWIPCSERVER :: int where "MWIPCSERVER \<equiv> 0x02"
abbreviation (input) MWNETCLIENT :: int where "MWNETCLIENT \<equiv> 0x10"
abbreviation (input) MWFORCE :: int where "MWFORCE \<equiv> 0x10"
abbreviation (input) MWNOREPLY :: int where "MWNOREPLY \<equiv> 0x1"
abbreviation (input) MWNOBLOCK :: int where "MWNOBLOCK \<equiv> 0x2"
abbreviation (input) MWMULTIPLE :: int where "MWMULTIPLE \<equiv> 0x40"
abbreviation (input) IPC_NOWAIT :: int where "IPC_NOWAIT \<equiv> 0x800"
abbreviation (input) MWEVENTPEERGENERATED :: int where "MWEVENTPEERGENERATED \<equiv> 0x10000000"
abbreviation (input) MWFAIL :: int where "MWFAIL \<equiv> 0"
abbreviation (input) MWSUCCESS :: int where "MWSUCCESS \<equiv> 1"
abbreviation (input) MWMORE :: int where "MWMORE \<equiv> 2"

section \<open>The state of a process\<close>

text \<open>
  An element of the queue of replies points to a message of its own, or to the static
  buffer of \<^verbatim>\<open>mwserverapi.c\<close>, which the next message overwrites.
\<close>

datatype replyref = Private call | Buffer

record subscribed_event =
  sb_pattern :: string
  sb_subscriptionid :: int
  sb_callback :: int
  sb_flags :: int

text \<open>What a service routine is called with.\<close>

record mwsvcinfo =
  si_cltid :: int
  si_gwid :: int
  si_srvid :: int
  si_svcid :: int
  si_data :: "8 word list option"
  si_datalen :: int
  si_flags :: int
  si_service :: string
  si_deadline :: int
  si_udeadline :: int
  si_authentication :: int
  si_username :: string
  si_clientname :: string

record mwproc = ipcstate +
  callReplyQueue :: "replyref list"
  srv_buffer :: "ipcmesg option"
  handle :: int
  isattached :: bool
  serviceFuncList :: "(int \<times> int) list"
  provided :: int
  requestpending :: bool
  subscriptions :: "subscribed_event list"
  next_subscriptionid :: int

record 's procenv =
  os :: mwenv
  wait :: "'s \<Rightarrow> errno \<times> 's"
  rands :: "nat \<Rightarrow> nat"
  getpid :: int
  gettimeofday :: "int \<times> int"
  run_service :: "int \<Rightarrow> mwsvcinfo \<Rightarrow> 's \<Rightarrow> (int \<times> 's) option"
  callback :: "int \<Rightarrow> string \<Rightarrow> int \<Rightarrow> int \<Rightarrow> 's \<Rightarrow> 's option"
  dotasks :: "'s \<Rightarrow> 's option"

text \<open>
  \<open>errno\<close> is kept with the heap, whose routines set it too. A failing send clears it, an
  interrupted one leaves \<open>EINTR\<close>, and a message that is not tried leaves it as it was.
\<close>

definition set_errno :: "int \<Rightarrow> 'a ipcstate_scheme \<Rightarrow> 'a ipcstate_scheme" where
  "set_errno e st = st\<lparr>shm := (shm st)\<lparr>last_errno := e\<rparr>\<rparr>"

definition put_errno :: "mwenv \<Rightarrow> 'a ipcstate_scheme \<Rightarrow> int \<Rightarrow> ipcmesg \<Rightarrow> int" where
  "put_errno env st dest m =
     (let qid = mw_get_mqid_by_mwid st dest
      in if mesg_size m > MWMSGMAX \<or> qid < 0 then last_errno (shm st)
         else case fst (msgsnd env st qid m) of
                None \<Rightarrow> last_errno (shm st)
              | Some e \<Rightarrow> if e = EINTR then errno_num EINTR else 0)"

section \<open>The queue of replies\<close>

definition deref :: "'a mwproc_scheme \<Rightarrow> replyref \<Rightarrow> call option" where
  "deref st r = (case r of Private c \<Rightarrow> Some c
                 | Buffer \<Rightarrow> (case srv_buffer st of Some (Call c) \<Rightarrow> Some c | _ \<Rightarrow> None))"

definition pushCallReply :: "'a mwproc_scheme \<Rightarrow> replyref \<Rightarrow> 'a mwproc_scheme" where
  "pushCallReply st r = st\<lparr>callReplyQueue := callReplyQueue st @ [r]\<rparr>"

text \<open>
  The first reply with a handle, and the queue without it: the result is \<open>None\<close> when an
  element cannot be read as a call.
\<close>

fun pop_loop :: "(replyref \<Rightarrow> call option) \<Rightarrow> int \<Rightarrow> replyref list \<Rightarrow> (call option \<times> replyref list) option" where
  "pop_loop d hdl [] = Some (None, [])"
| "pop_loop d hdl (r # rs) =
     do {
       c \<leftarrow> d r;
       if ca_handle c = hdl then Some (Some c, rs)
       else do {
         (res, rs) \<leftarrow> pop_loop d hdl rs;
         Some (res, r # rs)
       }
     }"

definition popCallReplyByHandle :: "'a mwproc_scheme \<Rightarrow> int \<Rightarrow> (call option \<times> 'a mwproc_scheme) option" where
  "popCallReplyByHandle st hdl =
     (case callReplyQueue st of
        [] \<Rightarrow> Some (None, st)
      | r # rs \<Rightarrow>
          if hdl = 0 then map_option (\<lambda>c. (Some c, st\<lparr>callReplyQueue := rs\<rparr>)) (deref st r)
          else map_option (\<lambda>(c, q). (c, st\<lparr>callReplyQueue := q\<rparr>)) (pop_loop (deref st) hdl (r # rs)))"

section \<open>Receiving\<close>

fun mtype_of :: "ipcmesg \<Rightarrow> int" where
  "mtype_of (Attach a) = at_mtype a"
| "mtype_of (Provide p) = pr_mtype p"
| "mtype_of (Event e) = ev_mtype e"
| "mtype_of (Administrative a) = ad_mtype a"
| "mtype_of (Alloc a) = al_mtype a"
| "mtype_of (Call c) = ca_mtype c"

fun take_type :: "int \<Rightarrow> ipcmesg list \<Rightarrow> (ipcmesg \<times> ipcmesg list) option" where
  "take_type ty [] = None"
| "take_type ty (m # q) =
     (if ty = 0 \<or> mtype_of m = ty then Some (m, q)
      else map_option (\<lambda>(x, q). (x, m # q)) (take_type ty q))"

text \<open>
  \<open>msgrcv\<close> takes the first message of a type off a queue. A longer message than the buffer
  has room for is refused and stays; \<open>None\<close> is no message of the type.
\<close>

definition msgrcv_now :: "'a ipcstate_scheme \<Rightarrow> int \<Rightarrow> int \<Rightarrow> int \<Rightarrow> (errno + ipcmesg) option \<times> 'a ipcstate_scheme" where
  "msgrcv_now st qid len ty =
     (case msgq st qid of
        None \<Rightarrow> (Some (Inl EINVAL), st)
      | Some q \<Rightarrow>
          (case take_type ty q of
             None \<Rightarrow> (None, st)
           | Some (m, q) \<Rightarrow>
               if int (mesg_size m) - 8 > len then (Some (Inl E2BIG), st)
               else (Some (Inr m), st\<lparr>msgq := (msgq st)(qid := Some q)\<rparr>)))"

definition msgrcv ::
  "('a ipcstate_scheme \<Rightarrow> errno \<times> 'a ipcstate_scheme) \<Rightarrow> 'a ipcstate_scheme \<Rightarrow> int \<Rightarrow> int \<Rightarrow> int \<Rightarrow> bool
   \<Rightarrow> (errno + ipcmesg) \<times> 'a ipcstate_scheme" where
  "msgrcv w st qid len ty nowait =
     (case msgrcv_now st qid len ty of
        (Some r, st) \<Rightarrow> (r, st)
      | (None, st) \<Rightarrow>
          if nowait then (Inl ENOMSG, st)
          else (case w st of
                  (e, st) \<Rightarrow>
                    if msgq st qid = None then (Inl EIDRM, st)
                    else (case msgrcv_now st qid len ty of
                            (Some r, st) \<Rightarrow> (r, st)
                          | (None, st) \<Rightarrow> (Inl e, st))))"

definition mw_ipc_getmessage ::
  "'a mwproc_scheme procenv \<Rightarrow> 'a mwproc_scheme \<Rightarrow> int \<Rightarrow> int \<Rightarrow> int \<Rightarrow> (errno + ipcmesg \<times> int) \<times> 'a mwproc_scheme" where
  "mw_ipc_getmessage env st len ty flags =
     (case msgrcv (wait env) (set_errno 0 st) (my_mqid st) (len - 8) ty
             ((flags AND MWNOBLOCK) \<noteq> 0 \<or> (flags AND IPC_NOWAIT) \<noteq> 0) of
        (Inl e, st) \<Rightarrow> (Inl e, set_errno (errno_num e) st)
      | (Inr m, st) \<Rightarrow> (Inr (m, int (mesg_size m)), st))"

section \<open>Attaching and detaching\<close>

text \<open>
  The reply to a request is of the type of the request; a message of that type with another
  structure would be read as garbage. The result of a refused attach is the refusal with its
  sign changed.
\<close>

definition mw_ipcsend_attach ::
  "'a mwproc_scheme procenv \<Rightarrow> 'a mwproc_scheme \<Rightarrow> int \<Rightarrow> string \<Rightarrow> int \<Rightarrow> (int \<times> 'a mwproc_scheme) option" where
  "mw_ipcsend_attach env st attachtype name flags =
     (let server = ((attachtype AND MWIPCSERVER) \<noteq> 0 \<and> myserverid st = UNASSIGNED);
          client = ((attachtype AND MWIPCCLIENT) \<noteq> 0 \<and> myclientid st = UNASSIGNED);
          m = Attach \<lparr>at_mtype = ATTACHREQ, at_ipcqid = my_mqid st, at_pid = getpid env,
                at_server = server, at_srvname = (if server then strncpy name MWMAXNAMELEN else []), at_srvid = 0,
                at_client = client, at_cltname = (if client then strncpy name MWMAXNAMELEN else []), at_cltid = 0,
                at_gwid = UNASSIGNED, at_flags = flags, at_returncode = 0\<rparr>
      in if \<not> client \<and> \<not> server then Some (- errno_num EINVAL, st)
         else case mw_ipc_putmessage (os env) st 0 m of
                (rc, st') \<Rightarrow>
                  let st' = set_errno (put_errno (os env) st 0 m) st'
                  in if rc \<noteq> 0 then Some (- last_errno (shm st'), st')
                     else (case mw_ipc_getmessage env st' 184 ATTACHRPL 0 of
                             (Inl e, st) \<Rightarrow> Some (- errno_num e, st)
                           | (Inr (Attach r, _), st) \<Rightarrow>
                               if at_returncode r \<noteq> 0 then Some (- at_returncode r, st)
                               else let st = (if at_srvid r \<noteq> UNASSIGNED then mw_set_my_serverid st (at_srvid r) else st);
                                        st = (if at_cltid r \<noteq> UNASSIGNED then mw_set_my_clientid st (at_cltid r) else st)
                                    in Some (0, st)
                           | _ \<Rightarrow> None))"

definition mw_ipcsend_detach_indirect ::
  "'a mwproc_scheme procenv \<Rightarrow> 'a mwproc_scheme \<Rightarrow> int \<Rightarrow> int \<Rightarrow> bool \<Rightarrow> (int \<times> 'a mwproc_scheme) option" where
  "mw_ipcsend_detach_indirect env st cid sid force =
     (let m = Attach \<lparr>at_mtype = DETACHREQ, at_ipcqid = my_mqid st, at_pid = getpid env,
                at_server = (sid \<noteq> UNASSIGNED), at_srvname = [], at_srvid = (if sid \<noteq> UNASSIGNED then sid else 0),
                at_client = (cid \<noteq> UNASSIGNED), at_cltname = [], at_cltid = (if cid \<noteq> UNASSIGNED then cid else 0),
                at_gwid = 0, at_flags = (if force then MWFORCE else 0), at_returncode = 0\<rparr>
      in case mw_ipc_putmessage (os env) st 0 m of
           (rc, st') \<Rightarrow>
             let st' = set_errno (put_errno (os env) st 0 m) st'
             in if rc \<noteq> 0 \<or> force then Some (0, st')
                else Some (0, snd (mw_ipc_getmessage env st' 184 DETACHRPL 0)))"

definition mw_ipcsend_detach :: "'a mwproc_scheme procenv \<Rightarrow> 'a mwproc_scheme \<Rightarrow> bool \<Rightarrow> (int \<times> 'a mwproc_scheme) option" where
  "mw_ipcsend_detach env st force =
     do {
       (rc, st) \<leftarrow> mw_ipcsend_detach_indirect env st (myclientid st) (myserverid st) force;
       Some (rc, mw_set_my_clientid (mw_set_my_serverid st UNASSIGNED) UNASSIGNED)
     }"

section \<open>Services\<close>

definition mw_ipcsend_provide_for_id ::
  "'a mwproc_scheme procenv \<Rightarrow> 'a mwproc_scheme \<Rightarrow> int \<Rightarrow> string \<Rightarrow> int \<Rightarrow> int \<Rightarrow> int \<times> 'a mwproc_scheme" where
  "mw_ipcsend_provide_for_id env st mwid svcname cost flags =
     (if SRVID mwid = UNASSIGNED \<and> GWID mwid = UNASSIGNED then (- errno_num EINVAL, st)
      else mw_ipc_putmessage (os env) st 0
             (Provide \<lparr>pr_mtype = PROVIDEREQ, pr_srvid = SRVID mwid, pr_svcid = UNASSIGNED, pr_gwid = GWID mwid,
                pr_svcname = strncpy svcname MWMAXSVCNAME, pr_cost = cost, pr_flags = flags, pr_returncode = 0\<rparr>))"

text \<open>A gateway's own id is looked up but not used: the request is made for the server id in either case.\<close>

definition mw_ipcsend_provide ::
  "'a mwproc_scheme procenv \<Rightarrow> 'a mwproc_scheme \<Rightarrow> string \<Rightarrow> int \<Rightarrow> int \<Rightarrow> int \<times> 'a mwproc_scheme" where
  "mw_ipcsend_provide env st svcname cost flags =
     mw_ipcsend_provide_for_id env st (myserverid st) svcname cost flags"

text \<open>
  The test for a failed receive compares with -1, which is no errno it returns, so on an
  error the reply that is looked at is uninitialised.
\<close>

definition mw_ipc_provide ::
  "'a mwproc_scheme procenv \<Rightarrow> 'a mwproc_scheme \<Rightarrow> string \<Rightarrow> int \<Rightarrow> (int \<times> 'a mwproc_scheme) option" where
  "mw_ipc_provide env st svcname flags =
     (case mw_ipcsend_provide env st svcname 0 flags of
        (rc, st) \<Rightarrow>
          if rc < 0 then Some (rc, st)
          else (case mw_ipc_getmessage env st 72 PROVIDERPL 0 of
                  (Inr (Provide p, _), st) \<Rightarrow> Some (if pr_svcid p < 0 then pr_returncode p else pr_svcid p, st)
                | _ \<Rightarrow> None))"

definition mw_ipcsend_unprovide_for_id ::
  "'a mwproc_scheme procenv \<Rightarrow> 'a mwproc_scheme \<Rightarrow> int \<Rightarrow> string \<Rightarrow> int \<Rightarrow> int \<times> 'a mwproc_scheme" where
  "mw_ipcsend_unprovide_for_id env st mwid svcname svcid =
     (if SRVID mwid = UNASSIGNED \<and> GWID mwid = UNASSIGNED then (- errno_num EINVAL, st)
      else mw_ipc_putmessage (os env) st 0
             (Provide \<lparr>pr_mtype = UNPROVIDEREQ, pr_srvid = SRVID mwid, pr_svcid = svcid, pr_gwid = GWID mwid,
                pr_svcname = [], pr_cost = 0, pr_flags = 0, pr_returncode = 0\<rparr>))"

definition mw_ipcsend_unprovide ::
  "'a mwproc_scheme procenv \<Rightarrow> 'a mwproc_scheme \<Rightarrow> string \<Rightarrow> int \<Rightarrow> int \<times> 'a mwproc_scheme" where
  "mw_ipcsend_unprovide env st svcname svcid =
     mw_ipcsend_unprovide_for_id env st (myserverid st) svcname svcid"

definition mw_ipc_unprovide ::
  "'a mwproc_scheme procenv \<Rightarrow> 'a mwproc_scheme \<Rightarrow> string \<Rightarrow> int \<Rightarrow> (int \<times> 'a mwproc_scheme) option" where
  "mw_ipc_unprovide env st svcname svcid =
     (case mw_ipcsend_unprovide env st svcname svcid of
        (_, st) \<Rightarrow>
          (case mw_ipc_getmessage env st (int MWMSGMAX) UNPROVIDERPL 0 of
             (Inr (Provide p, _), st) \<Rightarrow> Some (pr_returncode p, st)
           | _ \<Rightarrow> None))"

section \<open>Calls\<close>

definition mw_get_caller_mwid :: "call \<Rightarrow> int" where
  "mw_get_caller_mwid c = (if ca_cltid c \<noteq> UNASSIGNED then ca_cltid c else ca_gwid c)"

text \<open>
  \<^verbatim>\<open>src/lib/mwclientapi.c\<close>: the handle of a call, a 32 bit counter that starts at a random number.
\<close>

definition mw_nexthandle :: "mwenv \<Rightarrow> 'a mwproc_scheme \<Rightarrow> int \<times> 'a mwproc_scheme" where
  "mw_nexthandle env st =
     (let h = (if handle st = -1 then mw_irand (rand_val env) ((2 ^ 31 - 1) div 2) else handle st);
          h = sint (word_of_int (h + 1) :: 32 word);
          h = (if h < 0 then 1 else h)
      in (h, st\<lparr>handle := h\<rparr>))"

text \<open>
  The loop that waits for a buffer: its counter of tries is set to 0 in every round, so it
  ends only when there is a buffer.
\<close>

partial_function (option) putbuffer_loop ::
  "'a mwproc_scheme procenv \<Rightarrow> call \<Rightarrow> int \<Rightarrow> int \<Rightarrow> int \<Rightarrow> 'a mwproc_scheme \<Rightarrow> (call \<times> 'a mwproc_scheme) option" where
  "putbuffer_loop env c data len slen st =
     (case mw_putbuffer_to_call (shm_env (os env)) (shm st) c data len slen of
        None \<Rightarrow> None
      | Some (rc, c, h) \<Rightarrow>
          if rc = 0 then Some (c, st\<lparr>shm := h\<rparr>)
          else putbuffer_loop env c data len slen (snd (wait env (st\<lparr>shm := h\<rparr>))))"

text \<open>
  The providers are tried in random order until one takes the message. A service without a
  provider is not taken off the list.
\<close>

partial_function (option) acall_loop ::
  "'a mwproc_scheme procenv \<Rightarrow> nat \<Rightarrow> int list \<Rightarrow> call \<Rightarrow> int \<Rightarrow> int \<Rightarrow> 'a mwproc_scheme \<Rightarrow> (int \<times> 'a mwproc_scheme) option" where
  "acall_loop env k svclist c hdl rc st =
     (if svclist = [] then Some (rc, st)
      else let idx = rands env k mod length svclist;
               c = c\<lparr>ca_svcid := svclist ! idx\<rparr>;
               dest = mw_get_provider_by_serviceid st (svclist ! idx)
           in if dest < 0 then acall_loop env (k + 1) svclist c hdl rc st
              else case mw_ipc_putmessage (os env) st dest (Call c) of
                     (rc, st) \<Rightarrow>
                       if rc \<ge> 0 then Some (hdl, st)
                       else acall_loop env (k + 1) (butlast (svclist[idx := last svclist])) c hdl rc st)"

text \<open>\<open>_mw_deadline\<close> returns 0 on every path, so a call has no timeout.\<close>

definition mwacallipc ::
  "'a mwproc_scheme procenv \<Rightarrow> 'a mwproc_scheme \<Rightarrow> string \<Rightarrow> int \<Rightarrow> int \<Rightarrow> int \<Rightarrow> int \<Rightarrow> int
   \<Rightarrow> string option \<Rightarrow> string option \<Rightarrow> int \<Rightarrow> int \<Rightarrow> (int \<times> 'a mwproc_scheme) option" where
  "mwacallipc env st svcname data datalen slen flags mwid ins domn clr nhops =
     (case mw_nexthandle (os env) (set_errno 0 st) of
        (hdl, st) \<Rightarrow>
          do {
            let c = \<lparr>datasegmentid = 0, cdata = 0, cdatalen = 0, ca_mtype = SVCCALL, ca_handle = hdl,
                  ca_cltid = (if mwid = UNASSIGNED then myclientid st else CLTID mwid),
                  ca_gwid = (if mwid = UNASSIGNED then mygatewayid st else GWID mwid),
                  ca_srvid = UNASSIGNED, ca_svcid = 0, forwardcount = 0,
                  ca_service = strncpy svcname MWMAXSVCNAME, origservice = strncpy svcname MWMAXSVCNAME,
                  issued = fst (gettimeofday env), uissued = snd (gettimeofday env), ca_timeout = 0,
                  appreturncode = 0, ca_flags = flags,
                  ca_instance = (case ins of None \<Rightarrow> [] | Some x \<Rightarrow> strncpy x MWMAXNAMELEN),
                  ca_domainname = (case domn of None \<Rightarrow> [] | Some x \<Rightarrow> strncpy x MWMAXNAMELEN),
                  callerid = clr, hops = nhops, ca_returncode = 0\<rparr>;
            (c, st) \<leftarrow> putbuffer_loop env c data datalen slen st;
            case mw_get_services_byname (os env) st svcname flags of
              None \<Rightarrow> Some (- errno_num ENOENT, st)
            | Some svclist \<Rightarrow> acall_loop env 0 svclist c hdl 0 st
          })"

text \<open>
  Fetching a reply. Replies to other calls that arrive first are put on the queue. What is
  returned is an error, or the handle, the data, its length, and both return codes.
\<close>

datatype fetched = FetchFailed int | Fetched int int "8 word list option" int int

partial_function (option) fetch_loop ::
  "'a mwproc_scheme procenv \<Rightarrow> int \<Rightarrow> int \<Rightarrow> int \<Rightarrow> 'a mwproc_scheme \<Rightarrow> ((errno + call) \<times> 'a mwproc_scheme) option" where
  "fetch_loop env hdl flags len st =
     (case mw_ipc_getmessage env st len SVCREPLY flags of
        (Inl e, st) \<Rightarrow> Some (Inl e, st)
      | (Inr (m, n), st) \<Rightarrow>
          (case m of
             Call c \<Rightarrow>
               if hdl \<noteq> 0 \<and> ca_handle c \<noteq> hdl then fetch_loop env hdl flags n (pushCallReply st (Private c))
               else Some (Inr c, st)
           | _ \<Rightarrow> None))"

definition fetched_reply ::
  "'a mwproc_scheme procenv \<Rightarrow> call \<Rightarrow> 'a mwproc_scheme \<Rightarrow> (fetched \<times> 'a mwproc_scheme) option" where
  "fetched_reply env c st =
     (let rc = (if ca_returncode c > MWMORE then - ca_returncode c else ca_returncode c)
      in if cdata c \<noteq> 0
         then case mw_getsegment_byid (mmap_file (shm_env (os env))) (shm st) (datasegmentid c) of
                (None, h) \<Rightarrow> Some (FetchFailed (- errno_num EFAULT), st\<lparr>shm := h\<rparr>)
              | (Some si, h) \<Rightarrow>
                  do {
                    let shmbuf = mwoffset2adr (cdata c) (Some si);
                    (_, h') \<leftarrow> mwfree h shmbuf;
                    Some (Fetched rc (ca_handle c) (Some (get_bytes h shmbuf (cdatalen c))) (cdatalen c) (appreturncode c),
                          st\<lparr>shm := h'\<rparr>)
                  }
         else Some (Fetched rc (ca_handle c) None 0 (appreturncode c), st))"

definition mwfetchipc ::
  "'a mwproc_scheme procenv \<Rightarrow> 'a mwproc_scheme \<Rightarrow> int \<Rightarrow> int \<Rightarrow> (fetched \<times> 'a mwproc_scheme) option" where
  "mwfetchipc env st hdl flags =
     do {
       (r, st) \<leftarrow> popCallReplyByHandle st hdl;
       case r of
         Some c \<Rightarrow> fetched_reply env c st
       | None \<Rightarrow>
           do {
             (r, st) \<leftarrow> fetch_loop env hdl flags 296 st;
             case r of
               Inl e \<Rightarrow> Some (FetchFailed (- errno_num e), st)
             | Inr c \<Rightarrow> fetched_reply env c st
           }
     }"

section \<open>Events\<close>

abbreviation (input) octets :: "string \<Rightarrow> 8 word list" where "octets s \<equiv> map (\<lambda>c. word_of_nat (of_char c)) s"

definition mw_ipcsend_subscribe ::
  "'a mwproc_scheme procenv \<Rightarrow> 'a mwproc_scheme \<Rightarrow> string option \<Rightarrow> int \<Rightarrow> int \<Rightarrow> (int \<times> 'a mwproc_scheme) option" where
  "mw_ipcsend_subscribe env st pattern subid flags =
     (let st = set_errno 0 st; i = mw_get_my_mwid st;
          ev = \<lparr>ev_mtype = EVENTSUBSCRIBEREQ, ev_event = [], eventid = 0, ev_subscriptionid = subid, senderid = i,
                ev_datasegmentid = 0, ev_data = 0, ev_datalen = 0, ev_username = [], ev_clientname = [],
                ev_flags = flags, ev_returncode = 0\<rparr>
      in case pattern of
           None \<Rightarrow> Some (- errno_num EINVAL, st)
         | Some p \<Rightarrow>
             if subid < 0 then Some (- errno_num EINVAL, st)
             else if i = UNASSIGNED then Some (- errno_num ENOENT, st)
             else if length p > MWMAXNAMELEN
             then do {
               (dbuf, h) \<leftarrow> mwalloc (shm_env (os env)) (shm st) (int (length p) + 1);
               if dbuf = 0 then Some (- last_errno h, st\<lparr>shm := h\<rparr>)
               else let h = store_bytes h dbuf (octets p @ [0])
                    in Some (mw_ipc_putmessage (os env) (st\<lparr>shm := h\<rparr>) 0
                               (Event (ev\<lparr>ev_data := mwshmcheck h dbuf, ev_datalen := int (length p)\<rparr>)))
             }
             else Some (mw_ipc_putmessage (os env) st 0 (Event (ev\<lparr>ev_event := p\<rparr>))))"

definition mw_ipc_subscribe ::
  "'a mwproc_scheme procenv \<Rightarrow> 'a mwproc_scheme \<Rightarrow> string option \<Rightarrow> int \<Rightarrow> int \<Rightarrow> (int \<times> 'a mwproc_scheme) option" where
  "mw_ipc_subscribe env st pattern subid flags =
     do {
       (rc, st) \<leftarrow> mw_ipcsend_subscribe env st pattern subid flags;
       if rc \<noteq> 0 then Some (rc, st)
       else (case mw_ipc_getmessage env st (int MWMSGMAX) EVENTSUBSCRIBERPL 0 of
               (Inl e, st) \<Rightarrow> Some (- errno_num e, st)
             | (Inr (Event ev, _), st) \<Rightarrow> Some (ev_returncode ev, st)
             | _ \<Rightarrow> None)
     }"

definition mw_ipcsend_unsubscribe ::
  "'a mwproc_scheme procenv \<Rightarrow> 'a mwproc_scheme \<Rightarrow> int \<Rightarrow> int \<times> 'a mwproc_scheme" where
  "mw_ipcsend_unsubscribe env st subid =
     (let st = set_errno 0 st; i = mw_get_my_mwid st
      in if subid < 0 then (- errno_num EINVAL, st)
         else if i = UNASSIGNED then (- errno_num ENOENT, st)
         else mw_ipc_putmessage (os env) st 0
                (Event \<lparr>ev_mtype = EVENTUNSUBSCRIBEREQ, ev_event = [], eventid = 0, ev_subscriptionid = subid,
                   senderid = i, ev_datasegmentid = 0, ev_data = 0, ev_datalen = 0, ev_username = [],
                   ev_clientname = [], ev_flags = 0, ev_returncode = 0\<rparr>))"

definition mw_ipc_unsubscribe ::
  "'a mwproc_scheme procenv \<Rightarrow> 'a mwproc_scheme \<Rightarrow> int \<Rightarrow> (int \<times> 'a mwproc_scheme) option" where
  "mw_ipc_unsubscribe env st subid =
     (case mw_ipc_getmessage env (snd (mw_ipcsend_unsubscribe env st subid)) (int MWMSGMAX) EVENTUNSUBSCRIBERPL 0 of
        (Inr (Event ev, _), st) \<Rightarrow> Some (ev_returncode ev, st)
      | _ \<Rightarrow> None)"

text \<open>
  The data of an event is copied to the heap unless it is there already; the segment it
  is in is not told. The buffer is allocated before the sender is known to have an id.
\<close>

definition mw_ipcsend_event ::
  "'a mwproc_scheme procenv \<Rightarrow> 'a mwproc_scheme \<Rightarrow> string \<Rightarrow> int \<Rightarrow> int \<Rightarrow> string option \<Rightarrow> string option \<Rightarrow> int \<Rightarrow> bool
   \<Rightarrow> (int \<times> 'a mwproc_scheme) option" where
  "mw_ipcsend_event env st ev data datalen user client fromid remoteflag =
     do {
       let st = set_errno 0 st;
       (off, len, st) \<leftarrow>
         (if data = 0 then Some (0, 0, st)
          else if mwshmcheck (shm st) data \<noteq> -1 then Some (mwshmcheck (shm st) data, datalen, st)
          else do {
            (dbuf, h) \<leftarrow> mwalloc (shm_env (os env)) (shm st) datalen;
            if dbuf = 0 then Some (-1, 0, st\<lparr>shm := h\<rparr>)
            else let h = copy_bytes h dbuf data datalen in Some (mwshmcheck h dbuf, datalen, st\<lparr>shm := h\<rparr>)
          });
       let i = (if fromid = UNASSIGNED then mw_get_my_mwid st else fromid);
       if off = -1 then Some (- last_errno (shm st), st)
       else if i = UNASSIGNED then Some (- errno_num ENOENT, st)
       else Some (mw_ipc_putmessage (os env) st 0
                    (Event \<lparr>ev_mtype = EVENT, ev_event = strncpy ev MWMAXNAMELEN, eventid = 0,
                       ev_subscriptionid = UNASSIGNED, senderid = i, ev_datasegmentid = 0, ev_data = off, ev_datalen = len,
                       ev_username = (case user of None \<Rightarrow> [] | Some u \<Rightarrow> strncpy u MWMAXNAMELEN),
                       ev_clientname = (case client of None \<Rightarrow> [] | Some c \<Rightarrow> strncpy c MWMAXNAMELEN),
                       ev_flags = (if remoteflag then MWEVENTPEERGENERATED else 0), ev_returncode = 0\<rparr>))
     }"

definition mw_ipc_getevent ::
  "'a mwproc_scheme procenv \<Rightarrow> 'a mwproc_scheme \<Rightarrow> ((errno + event) \<times> 'a mwproc_scheme) option" where
  "mw_ipc_getevent env st =
     (case mw_ipc_getmessage env st 256 EVENT IPC_NOWAIT of
        (Inl e, st) \<Rightarrow> Some (Inl e, st)
      | (Inr (m, len), st) \<Rightarrow>
          if len = 256 then (case m of Event ev \<Rightarrow> Some (Inr ev, st) | _ \<Rightarrow> None)
          else Some (Inl EMSGSIZE, st))"

text \<open>\<open>_mw_shutdown_mwd\<close> does not fill in the delay: \<open>junk\<close> is what is sent.\<close>

definition mw_shutdown_mwd ::
  "'a mwproc_scheme procenv \<Rightarrow> 'a mwproc_scheme \<Rightarrow> int \<Rightarrow> int \<Rightarrow> int \<times> 'a mwproc_scheme" where
  "mw_shutdown_mwd env st junk delay =
     (if \<not> isattached st then (- errno_num ENOTCONN, st)
      else if ipcmain st = None then (- errno_num EADDRNOTAVAIL, st)
      else (0, snd (mw_ipc_putmessage (os env) st 0
              (Administrative \<lparr>ad_mtype = ADMREQ, ad_opcode = ADMSHUTDOWN, ad_cltid = myclientid st, ad_delay = junk\<rparr>))))"

end
