(* ===== verification/ClientApi.thy ===== *)
theory ClientApi
  imports IpcCalls
begin

unbundle bit_operations_syntax

text \<open>
  \<^verbatim>\<open>src/lib/mwclientipcapi.c\<close> and \<^verbatim>\<open>src/lib/mwclientapi.c\<close>: the interface of a client, for a
  client that is attached by IPC or not attached at all. A network client goes through
  \<^verbatim>\<open>SRBclient.c\<close> instead, which is not part of this theory.
\<close>

section \<open>Detaching\<close>

definition mw_detach_ipc :: "'a mwproc_scheme \<Rightarrow> 'a mwproc_scheme" where
  "mw_detach_ipc st =
     (msgctl_rmid st (my_mqid st))\<lparr>shm := (shm st)\<lparr>heapinfo := 0\<rparr>, ipcmain := None,
        myserverid := UNASSIGNED, myclientid := UNASSIGNED, my_mqid := UNASSIGNED\<rparr>"

definition mwdetachipc :: "'a mwproc_scheme procenv \<Rightarrow> 'a mwproc_scheme \<Rightarrow> (int \<times> 'a mwproc_scheme) option" where
  "mwdetachipc env st =
     (if ipcmain st = None then Some (0, st)
      else map_option (\<lambda>(rc, st). (rc, mw_detach_ipc st))
             (mw_ipcsend_detach env st (mwsystemstate (os env) st \<noteq> None)))"

definition mwdetach :: "'a mwproc_scheme procenv \<Rightarrow> 'a mwproc_scheme \<Rightarrow> (int \<times> 'a mwproc_scheme) option" where
  "mwdetach env st =
     (if \<not> isattached st then Some (- errno_num ENOTCONN, st)
      else map_option (\<lambda>(rc, st). (rc, st\<lparr>isattached := False\<rparr>)) (mwdetachipc env st))"

section \<open>Calls\<close>

definition mwacall_ipc ::
  "'a mwproc_scheme procenv \<Rightarrow> 'a mwproc_scheme \<Rightarrow> string \<Rightarrow> int \<Rightarrow> int \<Rightarrow> int \<Rightarrow> int \<Rightarrow> (int \<times> 'a mwproc_scheme) option" where
  "mwacall_ipc env st svcname data datalen slen flags =
     (case mwsystemstate (os env) st of
        Some e \<Rightarrow> Some (- errno_num e, st)
      | None \<Rightarrow> mwacallipc env st svcname data datalen slen (flags OR MWMULTIPLE) UNASSIGNED None None UNASSIGNED 0)"

text \<open>One handle is drawn and not used; the call draws its own.\<close>

definition mwacall ::
  "'a mwproc_scheme procenv \<Rightarrow> 'a mwproc_scheme \<Rightarrow> string option \<Rightarrow> int \<Rightarrow> int \<Rightarrow> int \<Rightarrow> int \<Rightarrow> (int \<times> 'a mwproc_scheme) option" where
  "mwacall env st svcname data datalen slen flags =
     (case svcname of
        None \<Rightarrow> Some (- errno_num EINVAL, st)
      | Some name \<Rightarrow>
          let datalen = (if data \<noteq> 0 \<and> datalen = 0 then slen else datalen);
              st = snd (mw_nexthandle (os env) st)
          in if \<not> isattached st then Some (- errno_num ENOTCONN, st)
             else mwacall_ipc env st name data datalen slen flags)"

text \<open>
  Without \<open>MWMULTIPLE\<close> the data of all replies is put together: \<open>acc\<close> is what there is so
  far, \<open>None\<close> before the first reply. A failure after the first reply copies from a buffer that
  is not there. The result has the return code and, unless it is a failure, the data.
\<close>

partial_function (option) fetch_all ::
  "'a mwproc_scheme procenv \<Rightarrow> int \<Rightarrow> int \<Rightarrow> 8 word list option \<Rightarrow> 'a mwproc_scheme \<Rightarrow> (fetched \<times> 'a mwproc_scheme) option" where
  "fetch_all env hdl flags acc st =
     (case mwfetchipc env st hdl flags of
        None \<Rightarrow> None
      | Some (r, st) \<Rightarrow>
          (case r of
             FetchFailed rc \<Rightarrow> if acc = None then Some (FetchFailed rc, st) else None
           | Fetched rc h data len app \<Rightarrow>
               if rc = MWFAIL then Some (FetchFailed MWFAIL, st)
               else if rc \<noteq> MWMORE \<and> acc = None then Some (Fetched rc h data len app, st)
               else let all = (case acc of None \<Rightarrow> [] | Some a \<Rightarrow> a) @ (case data of None \<Rightarrow> [] | Some d \<Rightarrow> d)
                    in if rc = MWMORE then fetch_all env h flags (Some all) st
                       else Some (Fetched rc h (Some all) (int (length all)) app, st)))"

definition mwfetch ::
  "'a mwproc_scheme procenv \<Rightarrow> 'a mwproc_scheme \<Rightarrow> int \<Rightarrow> int \<Rightarrow> (fetched \<times> 'a mwproc_scheme) option" where
  "mwfetch env st hdl flags =
     (if \<not> isattached st then Some (FetchFailed (- errno_num ENOTCONN), st)
      else if (flags AND MWMULTIPLE) = 0 then fetch_all env hdl flags None st
      else mwfetchipc env st hdl flags)"

definition mwcall ::
  "'a mwproc_scheme procenv \<Rightarrow> 'a mwproc_scheme \<Rightarrow> string option \<Rightarrow> int \<Rightarrow> int \<Rightarrow> int \<Rightarrow> int \<Rightarrow> (fetched \<times> 'a mwproc_scheme) option" where
  "mwcall env st svcname data len slen flags =
     (if svcname = None \<or> (flags AND MWMULTIPLE) \<noteq> 0 then Some (FetchFailed (- errno_num EINVAL), st)
      else do {
        (hdl, st) \<leftarrow> mwacall env st svcname data len slen flags;
        if hdl < 0 then Some (FetchFailed hdl, st) else mwfetch env st hdl flags
      })"

section \<open>Events\<close>

definition mwsubscribeCB ::
  "'a mwproc_scheme procenv \<Rightarrow> 'a mwproc_scheme \<Rightarrow> string option \<Rightarrow> int \<Rightarrow> int \<Rightarrow> (int \<times> 'a mwproc_scheme) option" where
  "mwsubscribeCB env st pattern flags func =
     (if \<not> isattached st then Some (- errno_num ENOTCONN, st)
      else case pattern of
             None \<Rightarrow> Some (- errno_num EINVAL, st)
           | Some p \<Rightarrow>
               if func = 0 then Some (- errno_num EINVAL, st)
               else let subid = next_subscriptionid st;
                        se = \<lparr>sb_pattern = p, sb_subscriptionid = subid, sb_callback = func, sb_flags = flags\<rparr>;
                        st = st\<lparr>subscriptions := subscriptions st @ [se], next_subscriptionid := subid + 1\<rparr>
                    in do {
                         (rc, st) \<leftarrow> mw_ipcsend_subscribe env st pattern subid flags;
                         if rc \<ge> 0 then Some (subid, st)
                         else Some (rc, st\<lparr>subscriptions := butlast (subscriptions st)\<rparr>)
                       })"

text \<open>The first subscription with an id.\<close>

fun find_subscription :: "int \<Rightarrow> subscribed_event list \<Rightarrow> nat option" where
  "find_subscription subid [] = None"
| "find_subscription subid (se # ss) =
     (if sb_subscriptionid se = subid then Some 0 else map_option Suc (find_subscription subid ss))"

text \<open>The last subscription takes the place of the one that is removed.\<close>

definition mwunsubscribe ::
  "'a mwproc_scheme procenv \<Rightarrow> 'a mwproc_scheme \<Rightarrow> int \<Rightarrow> int \<times> 'a mwproc_scheme" where
  "mwunsubscribe env st subid =
     (if subid < 0 then (- errno_num EINVAL, st)
      else case find_subscription subid (subscriptions st) of
             None \<Rightarrow> (- errno_num ENOENT, st)
           | Some i \<Rightarrow>
               (case (if isattached st then mw_ipcsend_unsubscribe env st subid else (- errno_num ENOTCONN, st)) of
                  (rc, st) \<Rightarrow>
                    (0, if rc \<ge> 0
                        then st\<lparr>subscriptions := butlast ((subscriptions st)[i := last (subscriptions st)])\<rparr>
                        else st)))"

definition mwevent ::
  "'a mwproc_scheme procenv \<Rightarrow> 'a mwproc_scheme \<Rightarrow> string option \<Rightarrow> int \<Rightarrow> int \<Rightarrow> int \<Rightarrow> string option \<Rightarrow> string option
   \<Rightarrow> (int \<times> 'a mwproc_scheme) option" where
  "mwevent env st ev data datalen slen user client =
     (case ev of
        None \<Rightarrow> Some (- errno_num EINVAL, st)
      | Some name \<Rightarrow>
          let datalen = (if data \<noteq> 0 \<and> datalen = 0 then slen else datalen)
          in if \<not> isattached st then Some (- errno_num ENOTCONN, st)
             else mw_ipcsend_event env st name data datalen user client UNASSIGNED False)"

definition mw_doevent ::
  "'a mwproc_scheme procenv \<Rightarrow> 'a mwproc_scheme \<Rightarrow> int \<Rightarrow> string \<Rightarrow> int \<Rightarrow> int \<Rightarrow> 'a mwproc_scheme option" where
  "mw_doevent env st subid ev data datalen =
     (case find_subscription subid (subscriptions st) of
        None \<Rightarrow> Some st
      | Some i \<Rightarrow> callback env (sb_callback (subscriptions st ! i)) ev data datalen st)"

text \<open>An event with data is acknowledged to the daemon once its handler has returned.\<close>

definition mw_do_ipcevent :: "'a mwproc_scheme procenv \<Rightarrow> 'a mwproc_scheme \<Rightarrow> event \<Rightarrow> 'a mwproc_scheme option" where
  "mw_do_ipcevent env st ev =
     (if ev_data ev = 0 then mw_doevent env st (ev_subscriptionid ev) (ev_event ev) 0 (ev_datalen ev)
      else case mw_getsegment_byid (mmap_file (shm_env (os env))) (shm st) (ev_datasegmentid ev) of
             (si, h) \<Rightarrow>
               do {
                 st \<leftarrow> mw_doevent env (st\<lparr>shm := h\<rparr>) (ev_subscriptionid ev) (ev_event ev) (mwoffset2adr (ev_data ev) si) (ev_datalen ev);
                 Some (snd (mw_ipc_putmessage (os env) st 0
                   (Event (ev\<lparr>ev_mtype := EVENTACK, senderid := mw_get_my_mwid st\<rparr>))))
               })"

partial_function (option) mw_doipcevents :: "'a mwproc_scheme procenv \<Rightarrow> 'a mwproc_scheme \<Rightarrow> 'a mwproc_scheme option" where
  "mw_doipcevents env st =
     (case mw_ipc_getevent env st of
        None \<Rightarrow> None
      | Some (r, st) \<Rightarrow>
          (case r of
             Inl e \<Rightarrow> Some st
           | Inr ev \<Rightarrow> (case mw_do_ipcevent env st ev of None \<Rightarrow> None | Some st \<Rightarrow> mw_doipcevents env st)))"

definition mwrecvevents :: "'a mwproc_scheme procenv \<Rightarrow> 'a mwproc_scheme \<Rightarrow> 'a mwproc_scheme option" where
  "mwrecvevents env st = (if isattached st then mw_doipcevents env st else Some st)"

end
