(* ===== verification/ServerApi.thy ===== *)
theory ServerApi
  imports ClientApi "HOL-Library.Signed_Division"
begin

unbundle bit_operations_syntax

text \<open>
  \<^verbatim>\<open>src/lib/mwserverapi.c\<close>: the interface of a server. It provides services, waits for calls,
  runs the routine of the service and replies or forwards the call. \<open>srv_buffer\<close> is the buffer
  the current call is in.
\<close>

abbreviation (input) MWSIGRST :: int where "MWSIGRST \<equiv> 0x8"

section \<open>The routines of the services\<close>

definition mw_pushservice :: "'a mwproc_scheme \<Rightarrow> int \<Rightarrow> int \<Rightarrow> 'a mwproc_scheme" where
  "mw_pushservice st sid func = st\<lparr>serviceFuncList := (sid, func) # serviceFuncList st\<rparr>"

text \<open>
  The loop does not advance the pointer to the element before the one it looks at, which
  stays at the first: what is between the first and the one that is found is lost with it.
\<close>

fun pop_service :: "int \<Rightarrow> (int \<times> int) list \<Rightarrow> (int \<times> int) list" where
  "pop_service sid [] = []"
| "pop_service sid (e # es) =
     (if fst e = sid then es
      else case dropWhile (\<lambda>x. fst x \<noteq> sid) es of
             [] \<Rightarrow> e # es
           | _ # rest \<Rightarrow> e # rest)"

definition mw_popservice :: "'a mwproc_scheme \<Rightarrow> int \<Rightarrow> 'a mwproc_scheme" where
  "mw_popservice st sid = st\<lparr>serviceFuncList := pop_service sid (serviceFuncList st)\<rparr>"

definition mwprovide ::
  "'a mwproc_scheme procenv \<Rightarrow> 'a mwproc_scheme \<Rightarrow> string \<Rightarrow> int \<Rightarrow> int \<Rightarrow> (int \<times> 'a mwproc_scheme) option" where
  "mwprovide env st service func flags =
     (case mwsystemstate (os env) st of
        Some e \<Rightarrow> Some (- errno_num e, st)
      | None \<Rightarrow>
          do {
            (svcid, st) \<leftarrow> mw_ipc_provide env st service flags;
            if svcid < 0 then Some (svcid, st)
            else if mw_get_service_byid st svcid = None then Some (-1, st)
            else let st = mw_pushservice st svcid func in Some (svcid, st\<lparr>provided := provided st + 1\<rparr>)
          })"

definition mwunprovide ::
  "'a mwproc_scheme procenv \<Rightarrow> 'a mwproc_scheme \<Rightarrow> string \<Rightarrow> (int \<times> 'a mwproc_scheme) option" where
  "mwunprovide env st service =
     (if \<not> isattached st then Some (- errno_num ENOTCONN, st)
      else if provided st = 0 then Some (- errno_num ENOENT, st)
      else let svcid = mw_get_service_byname st service 0
           in if svcid < 0 then Some (svcid, st)
              else do {
                (rc, st) \<leftarrow> mw_ipc_unprovide env st service svcid;
                let st = mw_popservice st svcid;
                Some (rc, st\<lparr>provided := provided st - 1\<rparr>)
              })"

section \<open>Replying and forwarding\<close>

definition callbuffer :: "'a mwproc_scheme \<Rightarrow> call option" where
  "callbuffer st = (case srv_buffer st of Some (Call c) \<Rightarrow> Some c | _ \<Rightarrow> None)"

definition reply_code :: "int \<Rightarrow> int" where
  "reply_code returncode =
     (if returncode = MWSUCCESS then MWSUCCESS else if returncode = MWMORE then MWMORE else - errno_num EFAULT)"

definition reply_to :: "call \<Rightarrow> int" where
  "reply_to c = (if ca_gwid c = UNASSIGNED then ca_cltid c else ca_gwid c)"

text \<open>
  A reply that cannot be sent is reported by the negative of an errno that has been cleared.
  The flags only choose between waiting for room in the queue and failing, an answer of
  \<open>msgsnd\<close>; the statistics computed after a reply are logged and not kept.
\<close>

definition mwreply ::
  "'a mwproc_scheme procenv \<Rightarrow> 'a mwproc_scheme \<Rightarrow> int \<Rightarrow> int \<Rightarrow> int \<Rightarrow> int \<Rightarrow> int \<Rightarrow> (int \<times> 'a mwproc_scheme) option" where
  "mwreply env st data len slen returncode app =
     (if \<not> requestpending st then Some (- errno_num EALREADY, st)
      else case mwsystemstate (os env) st of
             Some e \<Rightarrow> Some (- errno_num e, st)
           | None \<Rightarrow>
               do {
                 c \<leftarrow> callbuffer st;
                 (c, st) \<leftarrow> putbuffer_loop env c data len slen st;
                 let c = c\<lparr>ca_returncode := reply_code returncode, appreturncode := app,
                           ca_mtype := SVCREPLY, ca_srvid := myserverid st\<rparr>;
                 let st = st\<lparr>srv_buffer := Some (Call c)\<rparr>;
                 let (rc, st') = mw_ipc_putmessage (os env) st (reply_to c) (Call c);
                 let st' = set_errno (put_errno (os env) st (reply_to c) (Call c)) st';
                 if rc \<noteq> 0 then Some (- last_errno (shm st'), st')
                 else Some (rc, if reply_code returncode \<noteq> MWMORE then st'\<lparr>requestpending := False\<rparr> else st')
               })"

text \<open>The data of a forwarded call: the segment recorded in the call stays that of the data it came with.\<close>

definition mwforward ::
  "'a mwproc_scheme procenv \<Rightarrow> 'a mwproc_scheme \<Rightarrow> string \<Rightarrow> int \<Rightarrow> int \<Rightarrow> int \<Rightarrow> int \<Rightarrow> (int \<times> 'a mwproc_scheme) option" where
  "mwforward env st svcname data len slen flags =
     (case mwsystemstate (os env) st of
        Some e \<Rightarrow> Some (- errno_num e, st)
      | None \<Rightarrow>
          do {
            c \<leftarrow> callbuffer st;
            if forwardcount c > 100 then Some (- errno_num ELOOP, st)
            else do {
              let c = c\<lparr>forwardcount := forwardcount c + 1\<rparr>;
              let st = st\<lparr>srv_buffer := Some (Call c)\<rparr>;
              let svcid = mw_get_service_byname st svcname (flags AND MWCONV);
              if svcid < 0 then Some (svcid, st)
              else let dest = mw_get_provider_by_serviceid st svcid
                   in if dest < 0 then Some (dest, st)
                      else do {
                        let c = c\<lparr>ca_svcid := svcid, ca_service := strncpy svcname MWMAXSVCNAME\<rparr>;
                        let st = st\<lparr>srv_buffer := Some (Call c)\<rparr>;
                        let len = (if data \<noteq> 0 \<and> len = 0 then slen else len);
                        (off, len, h) \<leftarrow>
                          (if data = 0 then Some (0, 0, shm st)
                           else if mwshmcheck (shm st) data \<noteq> -1 then Some (mwshmcheck (shm st) data, len, shm st)
                           else do {
                             (dbuf, h) \<leftarrow> mwalloc (shm_env (os env)) (shm st) len;
                             if dbuf = 0 then Some (-1, 0, h)
                             else let h = copy_bytes h dbuf data len in Some (mwshmcheck h dbuf, len, h)
                           });
                        if off = -1 then Some (- last_errno h, st\<lparr>shm := h\<rparr>)
                        else let c = c\<lparr>cdata := off, cdatalen := len, ca_mtype := SVCCALL, ca_srvid := myserverid st\<rparr>;
                                 st = st\<lparr>shm := h, srv_buffer := Some (Call c)\<rparr>;
                                 (rc, st') = mw_ipc_putmessage (os env) st dest (Call c);
                                 st' = set_errno (put_errno (os env) st dest (Call c)) st'
                             in if rc \<noteq> 0 then Some (- last_errno (shm st'), st')
                                else Some (rc, st'\<lparr>requestpending := False\<rparr>)
                      }
            }
          })"

section \<open>Waiting for a call\<close>

text \<open>
  The deadline of a call and the milliseconds that remain, a great number when it has none.
  The part of the timeout below a second is taken for seconds in the micro seconds.
\<close>

definition mw_set_deadline :: "'a mwproc_scheme procenv \<Rightarrow> call \<Rightarrow> int \<times> int \<times> int" where
  "mw_set_deadline env c =
     (let (sec, usec) = gettimeofday env
      in if ca_timeout c > 0
         then let deadline = issued c + ca_timeout c sdiv 1000;
                  udeadline = uissued c + (ca_timeout c smod 1000) * 1000000
              in (min (deadline - sec) 1000000 * 1000 + (udeadline - usec) sdiv 1000, deadline, udeadline)
         else (1000000000, 0, 0))"

text \<open>
  The loop over the messages: a call ends it, a reply is put on the queue of replies as a
  pointer to the buffer, an event is handled, all else is ignored. The room for the next
  message is the size of the last one.
\<close>

datatype got = GotCall | GotReply | GotError errno

partial_function (option) request_loop ::
  "'a mwproc_scheme procenv \<Rightarrow> int \<Rightarrow> int \<Rightarrow> 'a mwproc_scheme \<Rightarrow> (got \<times> 'a mwproc_scheme) option" where
  "request_loop env flags mesglen st =
     (case mw_ipc_getmessage env st mesglen 0 flags of
        (Inl e, st) \<Rightarrow> Some (GotError e, st)
      | (Inr (m, n), st) \<Rightarrow>
          (let st = st\<lparr>srv_buffer := Some m\<rparr>
           in if mtype_of m = SVCCALL then Some (GotCall, st)
              else if mtype_of m = SVCREPLY then Some (GotReply, pushCallReply st Buffer)
              else if mtype_of m = EVENT
              then (case m of
                      Event ev \<Rightarrow>
                        (case mw_do_ipcevent env st ev of
                           None \<Rightarrow> None
                         | Some st \<Rightarrow> request_loop env flags n st)
                    | _ \<Rightarrow> None)
              else request_loop env flags n st))"

definition svcinfo_of ::
  "'a mwproc_scheme \<Rightarrow> call \<Rightarrow> int \<Rightarrow> int \<Rightarrow> 8 word list option \<Rightarrow> int \<Rightarrow> mwsvcinfo" where
  "svcinfo_of st c deadline udeadline data len =
     (let clt = (if ca_cltid c \<noteq> UNASSIGNED
                 then map_option (\<lambda>i. the (clttbl st) ! nat i) (mw_get_client_byid st (ca_cltid c)) else None)
      in \<lparr>si_cltid = ca_cltid c, si_gwid = ca_gwid c, si_srvid = ca_srvid c, si_svcid = ca_svcid c,
          si_data = data, si_datalen = len, si_flags = ca_flags c, si_service = strncpy (ca_service c) MWMAXSVCNAME,
          si_deadline = deadline, si_udeadline = udeadline,
          si_authentication = (case clt of None \<Rightarrow> UNASSIGNED | Some e \<Rightarrow> authtype e),
          si_username = (case clt of None \<Rightarrow> [] | Some e \<Rightarrow> strncpy (username e) MWMAXSVCNAME),
          si_clientname = (case clt of None \<Rightarrow> [] | Some e \<Rightarrow> strncpy (clientname e) MWMAXSVCNAME)\<rparr>)"

text \<open>What the next request is, \<open>None\<close> with \<open>errno\<close> set when there is none.\<close>

partial_function (option) mwGetServiceRequest ::
  "'a mwproc_scheme procenv \<Rightarrow> int \<Rightarrow> 'a mwproc_scheme \<Rightarrow> (mwsvcinfo option \<times> 'a mwproc_scheme) option" where
  "mwGetServiceRequest env flags st =
     (if \<not> isattached st then Some (None, set_errno (errno_num ENOTCONN) st)
      else if provided st = 0 then Some (None, set_errno (errno_num ENOENT) st)
      else if ipcmain st = None then Some (None, set_errno (errno_num EADDRNOTAVAIL) st)
      else case request_loop env flags (int MWMSGMAX) (mw_set_my_status st None) of
             None \<Rightarrow> None
           | Some (GotReply, st) \<Rightarrow> Some (None, set_errno (errno_num EINPROGRESS) st)
           | Some (GotError e, st) \<Rightarrow>
               if e = EIDRM \<or> e = EINVAL
               then map_option (\<lambda>(rc, st). (None, set_errno (errno_num ESHUTDOWN) (mw_detach_ipc st)))
                      (mw_ipcsend_detach env st True)
               else Some (None, set_errno (errno_num e) st)
           | Some (GotCall, st) \<Rightarrow>
               (case callbuffer st of
                  None \<Rightarrow> None
                | Some c \<Rightarrow>
                    (let st = mw_set_my_status st (Some (ca_service c));
                         st = (if (ca_flags c AND MWNOREPLY) = 0 then st\<lparr>requestpending := True\<rparr> else st)
                     in if mw_get_service_byid st (ca_svcid c) = None
                        then let c = c\<lparr>ca_returncode := - errno_num ENOENT\<rparr>;
                                 st = snd (mw_ipc_putmessage (os env) (st\<lparr>srv_buffer := Some (Call c)\<rparr>) (reply_to c) (Call c))
                             in Some (None, set_errno (errno_num ENOENT)
                                  (mw_set_my_status (st\<lparr>requestpending := False\<rparr>) (Some ''(ERROR)'')))
                        else (case mw_set_deadline env c of
                                (remain, dl, udl) \<Rightarrow>
                                  if remain < 0
                                  then let c = c\<lparr>ca_returncode := - errno_num ETIME\<rparr>;
                                           st = snd (mw_ipc_putmessage (os env) (st\<lparr>srv_buffer := Some (Call c)\<rparr>) (ca_cltid c) (Call c))
                                       in Some (None, set_errno (errno_num ETIME) (mw_set_my_status st None))
                                  else (case mw_getbuffer_from_call (shm_env (os env)) (shm st) c of
                                          None \<Rightarrow> None
                                        | Some (rc, data, len, h) \<Rightarrow>
                                            if rc \<noteq> 0
                                            then (case mwreply env (st\<lparr>shm := h\<rparr>) 0 0 0 (-1) 0 of
                                                    None \<Rightarrow> None
                                                  | Some (_, st) \<Rightarrow> mwGetServiceRequest env flags st)
                                            else Some (Some (svcinfo_of (st\<lparr>shm := h\<rparr>) c dl udl data len), st\<lparr>shm := h\<rparr>)))))) "

definition mwCallCServiceFunction ::
  "'a mwproc_scheme procenv \<Rightarrow> 'a mwproc_scheme \<Rightarrow> mwsvcinfo \<Rightarrow> (int \<times> 'a mwproc_scheme) option" where
  "mwCallCServiceFunction env st info =
     do {
       (rc, st) \<leftarrow>
         (if serviceFuncList st = [] then Some (- errno_num ENOENT, st)
          else case map_of (serviceFuncList st) (si_svcid info) of
                 None \<Rightarrow> Some (- errno_num EBADRQC, st)
               | Some f \<Rightarrow> run_service env f info st);
       st \<leftarrow> (if requestpending st then map_option snd (mwreply env st 0 0 0 rc 0) else Some st);
       Some (rc, st)
     }"

definition mwservicerequest ::
  "'a mwproc_scheme procenv \<Rightarrow> 'a mwproc_scheme \<Rightarrow> int \<Rightarrow> (int \<times> 'a mwproc_scheme) option" where
  "mwservicerequest env st flags =
     (case mwsystemstate (os env) st of
        Some e \<Rightarrow> Some (- errno_num e, st)
      | None \<Rightarrow>
          do {
            (info, st) \<leftarrow> mwGetServiceRequest env flags st;
            case info of
              None \<Rightarrow> Some (- last_errno (shm st), st)
            | Some i \<Rightarrow> mwCallCServiceFunction env st i
          })"

text \<open>
  The main loop of a server. The flags handed on are \<open>flags & !MWNOBLOCK\<close>, which is 0.
\<close>

partial_function (option) mwMainLoop :: "'a mwproc_scheme procenv \<Rightarrow> int \<Rightarrow> 'a mwproc_scheme \<Rightarrow> (int \<times> 'a mwproc_scheme) option" where
  "mwMainLoop env flags st =
     (case mwservicerequest env st 0 of
        None \<Rightarrow> None
      | Some (rc, st) \<Rightarrow>
          if rc = - errno_num EINTR
          then (case dotasks env st of
                  Some st \<Rightarrow> mwMainLoop env flags st
                | None \<Rightarrow> if (flags AND MWSIGRST) \<noteq> 0 then mwMainLoop env flags st else Some (rc, st))
          else if rc < 0 then Some (rc, st)
          else mwMainLoop env flags st)"

end
