(* ===== verification/UrlEncode.thy ===== *)
theory UrlEncode
  imports CLib
begin

text \<open>
  \<^verbatim>\<open>src/liburlencode/urlencoded.c\<close>: the escaping of octet strings that every field
  of an SRB message goes through. \<open>nibble\<close>, \<open>hex\<close> and \<open>unhex\<close> work on octets
  (\<open>8 word\<close>), the loops on strings. A destination pointer is \<open>unit option\<close>: \<open>None\<close>
  is NULL; what is written through it is part of the result.
\<close>

section \<open>Hexadecimal octets\<close>

definition nibble :: "8 word \<Rightarrow> 8 word" where
  "nibble c = (let c = c AND 0xf in if c < 10 then c + 0x30 else c + 0x37)"

text \<open>The result is \<open>(high, low)\<close>; \<open>char\<close> is signed, so the shift is arithmetic.\<close>

definition hex :: "8 word \<Rightarrow> 8 word \<times> 8 word" where
  "hex c = (let low = nibble c; c = signed_drop_bit 4 c; high = nibble c in (high, low))"

definition unhex_digit :: "8 word \<Rightarrow> 8 word option" where
  "unhex_digit d =
     (if isdigit (char_of_byte d) then Some (0xf AND d)
      else if isxdigit (char_of_byte d) then Some ((0xf AND d) + 9)
      else None)"

definition unhex :: "8 word \<Rightarrow> 8 word \<Rightarrow> int" where
  "unhex high low =
     (case unhex_digit high of None \<Rightarrow> -1
      | Some high \<Rightarrow>
        (case unhex_digit low of None \<Rightarrow> -1
         | Some low \<Rightarrow> 16 * uint (high AND 0xf) + uint (low AND 0xf)))"

section \<open>Encoding\<close>

definition encode_char :: "char \<Rightarrow> string" where
  "encode_char c =
     (if isalnum c then [c]
      else case hex (byte_of c) of (high, low) \<Rightarrow> [CHR ''%'', char_of_byte high, char_of_byte low])"

definition urlnencode :: "unit option \<Rightarrow> string option \<Rightarrow> int \<Rightarrow> errno + string" where
  "urlnencode encode uncoded len =
     (case (encode, uncoded) of
        (Some _, Some u) \<Rightarrow>
          if len < 0 then Inl EINVAL
          else let n = (if len = 0 then strlen u else nat len)
               in Inr (concat (map (\<lambda>i. encode_char (u ! i)) [0..<n]))
      | _ \<Rightarrow> Inl EINVAL)"

text \<open>
  The buffer of the result has \<open>3 * len + 1\<close> octets. The result is the encoded string
  and the size of the buffer that was allocated for it.
\<close>

definition urlnencodedup :: "unit option \<Rightarrow> string option \<Rightarrow> int \<Rightarrow> errno + (string \<times> nat)" where
  "urlnencodedup ret uncoded len =
     (case (ret, uncoded) of
        (Some _, Some u) \<Rightarrow>
          if len < 0 then Inl EINVAL
          else let len = (if len = 0 then int (strlen u) else len);
                   size = nat (len * 3 + 1)
               in map_sum id (\<lambda>out. (out, size)) (urlnencode (Some ()) uncoded len)
      | _ \<Rightarrow> Inl EINVAL)"

definition urlencode :: "unit option \<Rightarrow> string option \<Rightarrow> errno + string" where
  "urlencode out str = urlnencode out str 0"

section \<open>Decoding\<close>

text \<open>
  The loop of \<open>urldecode\<close> from offset \<open>i\<close> up to \<open>len\<close>; \<open>None\<close> is the
  return on a bad escape. The two octets after a percent sign are read without a check
  of \<open>len\<close>; at the end of the string the first of them is the terminating NUL.
\<close>

function urldecode_loop :: "string \<Rightarrow> nat \<Rightarrow> nat \<Rightarrow> string option" where
  "urldecode_loop encoded i len =
     (if i < len then
        if char_at encoded i = CHR ''%'' then
          let c = unhex (byte_of (char_at encoded (i + 1))) (byte_of (char_at encoded (i + 2)))
          in if c = -1 then None
             else map_option ((#) (char_of (nat c))) (urldecode_loop encoded (i + 3) len)
        else if char_at encoded i = CHR ''+'' then
          map_option ((#) CHR '' '') (urldecode_loop encoded (i + 1) len)
        else map_option ((#) (char_at encoded i)) (urldecode_loop encoded (i + 1) len)
      else Some [])"
  by pat_completeness auto
termination
  by (relation "measure (\<lambda>(encoded, i, len). len - i)") auto

declare urldecode_loop.simps [simp del]

definition urldecode_len :: "string \<Rightarrow> nat" where
  "urldecode_len encoded =
     (let len = length encoded;
          equal = strchr encoded CHR ''='';
          ampersand = strchr encoded CHR ''&'';
          len = (case ampersand of Some a \<Rightarrow> if a < len then a else len | None \<Rightarrow> len);
          len = (case equal of Some e \<Rightarrow> if e < len then e else len | None \<Rightarrow> len)
      in len)"

definition urldecode :: "unit option \<Rightarrow> string option \<Rightarrow> errno + string" where
  "urldecode plain encoded =
     (case (plain, encoded) of
        (Some _, Some e) \<Rightarrow>
          (case urldecode_loop e 0 (urldecode_len e) of
             None \<Rightarrow> Inl EINVAL
           | Some p \<Rightarrow> Inr p)
      | _ \<Rightarrow> Inl EINVAL)"

text \<open>The decoded string and the size of its buffer.\<close>

definition urldecodedup :: "unit option \<Rightarrow> string option \<Rightarrow> errno + (string \<times> nat)" where
  "urldecodedup ret encoded =
     (case (ret, encoded) of
        (Some _, Some e) \<Rightarrow>
          (let size = length e + 1
           in map_sum id (\<lambda>p. (p, size)) (urldecode (Some ()) encoded))
      | _ \<Rightarrow> Inl EINVAL)"

definition urllegal_char :: "char \<Rightarrow> bool" where
  "urllegal_char c \<longleftrightarrow> isalnum c \<or> c \<in> set ''+()-_.''"

definition urllegal :: "string option \<Rightarrow> bool" where
  "urllegal str = (case str of None \<Rightarrow> False | Some s \<Rightarrow> list_all urllegal_char s)"

section \<open>Octets\<close>

lemma word_and_15: "(c :: 8 word) AND 15 = take_bit 4 c"
  by (simp add: take_bit_eq_mask mask_eq_exp_minus_1)

lemma uint_and_15: "uint ((c :: 8 word) AND 15) = uint c mod 16"
  by (simp add: word_and_15 unsigned_take_bit_eq take_bit_eq_mod uint_mod)

lemma signed_shift_nibble: "signed_drop_bit 4 (c :: 8 word) AND 15 = drop_bit 4 c"
  unfolding word_and_15
  by (rule bit_eqI)
    (auto simp: bit_take_bit_iff bit_signed_drop_bit_iff bit_drop_bit_eq
      dest: bit_imp_le_length)

lemma uint_signed_shift_nibble: "uint (signed_drop_bit 4 (c :: 8 word) AND 15) = uint c div 16"
  by (simp add: signed_shift_nibble unsigned_drop_bit_eq drop_bit_eq_div uint_div)

lemma nibble_values: "nibble c = nibble (word_of_int k)" if "uint (c AND 15) = k"
proof -
  from that have "c AND 15 = word_of_int k" by auto
  moreover have "word_of_int k AND 15 = (word_of_int k :: 8 word)"
    using \<open>c AND 15 = word_of_int k\<close> [symmetric] by (simp add: and.assoc)
  ultimately show ?thesis by (simp add: nibble_def)
qed

lemma low_nibble_cases:
  assumes "\<And>k. k \<in> {0, 1, 2, 3, 4, 5, 6, 7, 8, 9, 10, 11, 12, 13, 14, 15 :: int} \<Longrightarrow>
    uint ((c :: 8 word) AND 15) = k \<Longrightarrow> thesis"
  shows thesis
proof -
  have "k \<in> {0, 1, 2, 3, 4, 5, 6, 7, 8, 9, 10, 11, 12, 13, 14, 15}" if "0 \<le> k" "k < 16" for k :: int
    using that by (simp only: insert_iff empty_iff) presburger
  moreover have "0 \<le> uint (c AND 15)" "uint (c AND 15) < 16"
    by (simp_all only: uint_and_15)
  ultimately have "uint (c AND 15) \<in> {0, 1, 2, 3, 4, 5, 6, 7, 8, 9, 10, 11, 12, 13, 14, 15}"
    by blast
  then show thesis using assms by blast
qed

lemma unhex_digit_nibble:
  "\<exists>d. unhex_digit (nibble c) = Some d \<and> uint (d AND 0xf) = uint (c AND 0xf)"
proof (cases rule: low_nibble_cases [of c])
  case (1 k)
  then show ?thesis
    by (auto simp: nibble_values [OF 1(2)]; 
        simp add: nibble_def unhex_digit_def char_of_byte_def ctype_simps of_char_of)
qed

lemma unhex_hex:
  assumes "hex c = (h, l)"
  shows "unhex h l = uint c"
proof -
  from assms have h: "h = nibble (signed_drop_bit 4 c)" and l: "l = nibble c"
    by (simp_all add: hex_def)
  obtain d where d: "unhex_digit h = Some d" "uint (d AND 0xf) = uint c div 16"
    using unhex_digit_nibble [of "signed_drop_bit 4 c"] h uint_signed_shift_nibble by auto
  obtain e where e: "unhex_digit l = Some e" "uint (e AND 0xf) = uint c mod 16"
    using unhex_digit_nibble [of c] l uint_and_15 by auto
  show ?thesis by (simp add: unhex_def d e)
qed

section \<open>What the codec computes\<close>

lemma unhex_digit_SomeD: "unhex_digit d = Some e \<Longrightarrow> isxdigit (char_of_byte d)"
  by (auto simp: unhex_digit_def isxdigit_def split: if_splits)

lemma isxdigit_alnum: "isxdigit c \<Longrightarrow> isalnum c"
  by (auto simp: ctype_simps)

lemma alnum_neq [simp]:
  "isalnum c \<Longrightarrow> c \<noteq> CHR ''%''" "isalnum c \<Longrightarrow> c \<noteq> CHR ''+''" "isalnum c \<Longrightarrow> c \<noteq> CHR ''=''"
  "isalnum c \<Longrightarrow> c \<noteq> CHR ''&''" "isalnum c \<Longrightarrow> c \<noteq> NUL"
  by (auto simp: ctype_simps)

lemma not_alnum [simp]:
  "\<not> isalnum CHR ''%''" "\<not> isalnum CHR ''+''" "\<not> isalnum CHR ''=''" "\<not> isalnum CHR ''&''"
  "\<not> isalnum NUL"
  by (simp_all add: ctype_simps)

lemma unhex_high_bad: "\<not> isxdigit h \<Longrightarrow> unhex (byte_of h) l = -1"
  by (auto simp: unhex_def unhex_digit_def isxdigit_def)

lemma unhex_low_bad: "\<not> isxdigit l \<Longrightarrow> unhex h (byte_of l) = -1"
  by (auto simp: unhex_def unhex_digit_def isxdigit_def split: option.splits)

lemma unhex_bound: "unhex h l < 256"
proof -
  have "uint (a AND 15 :: 8 word) < 16" for a
    by (simp only: uint_and_15)
  then show ?thesis
    unfolding unhex_def by (smt (verit) option.case_eq_if)
qed

definition encoded_char :: "char \<Rightarrow> bool" where
  "encoded_char c \<longleftrightarrow> isalnum c \<or> c = CHR ''%''"

lemma encode_char_escape:
  assumes "\<not> isalnum c"
  obtains h l where "encode_char c = [CHR ''%'', h, l]" "isalnum h" "isalnum l"
    "unhex (byte_of h) (byte_of l) = int (ord c)"
proof -
  obtain h l where hl: "hex (byte_of c) = (h, l)" by (cases "hex (byte_of c)")
  have "isxdigit (char_of_byte h)" "isxdigit (char_of_byte l)"
    using hl unhex_digit_nibble unhex_digit_SomeD by (auto simp: hex_def)
  moreover have "unhex h l = int (ord c)"
    using unhex_hex [OF hl] by (simp flip: unat_byte_of)
  ultimately show thesis
    using that [of "char_of_byte h" "char_of_byte l"] assms hl
    by (simp add: encode_char_def isxdigit_alnum)
qed

lemma encode_char_encoded: "list_all encoded_char (encode_char c)"
proof (cases "isalnum c")
  case True
  then show ?thesis by (simp add: encode_char_def encoded_char_def)
next
  case False
  then show ?thesis by (cases rule: encode_char_escape) (auto simp: encoded_char_def)
qed

lemma length_encode_char: "length (encode_char c) \<le> 3" "Suc 0 \<le> length (encode_char c)"
  by (auto simp: encode_char_def split: prod.splits)

definition url_escape :: "string \<Rightarrow> string" where
  "url_escape s = concat (map encode_char s)"

lemma url_escape_simps [simp]:
  "url_escape [] = []" "url_escape (c # s) = encode_char c @ url_escape s"
  "url_escape (s @ t) = url_escape s @ url_escape t"
  by (simp_all add: url_escape_def)

lemma url_escape_encoded: "list_all encoded_char (url_escape s)"
  by (induction s) (simp_all add: encode_char_encoded)

lemma url_escape_notin [simp]:
  "NUL \<notin> set (url_escape s)" "CHR ''='' \<notin> set (url_escape s)" "CHR ''&'' \<notin> set (url_escape s)"
  using url_escape_encoded [of s]
  by (auto simp: list_all_iff encoded_char_def dest!: bspec)

lemma length_url_escape: "length s \<le> length (url_escape s)" "length (url_escape s) \<le> 3 * length s"
proof (induction s)
  case (Cons c s)
  { case 1 show ?case using Cons.IH length_encode_char(2) [of c] by simp }
  { case 2 show ?case using Cons.IH length_encode_char(1) [of c] by simp }
qed simp_all

lemma url_escape_eq_Nil [simp]: "url_escape s = [] \<longleftrightarrow> s = []"
  using length_url_escape(1) [of s] by auto

lemma urlnencode_escape:
  "0 < len \<Longrightarrow> nat len \<le> length u \<Longrightarrow>
   urlnencode (Some ()) (Some u) len = Inr (url_escape (take (nat len) u))"
  by (simp add: urlnencode_def url_escape_def concat_map_nth_upt)

lemma urlnencode_escape_str:
  "urlnencode (Some ()) (Some u) 0 = Inr (url_escape (cstr u))"
  using strlen_le [of u]
  by (simp add: urlnencode_def url_escape_def concat_map_nth_upt strlen_def)

text \<open>The reference decoder, by structural recursion on the text to decode.\<close>

fun url_unescape :: "string \<Rightarrow> string option" where
  "url_unescape [] = Some []"
| "url_unescape (c # s) =
     (if c = CHR ''%'' then
        case s of
          h # l # t \<Rightarrow>
            (let v = unhex (byte_of h) (byte_of l)
             in if v = -1 then None else map_option ((#) (char_of (nat v))) (url_unescape t))
        | _ \<Rightarrow> None
      else map_option ((#) (if c = CHR ''+'' then CHR '' '' else c)) (url_unescape s))"

lemma url_unescape_escape:
  "url_unescape (url_escape s @ t) = map_option ((@) s) (url_unescape t)"
proof (induction s)
  case (Cons c s)
  show ?case
  proof (cases "isalnum c")
    case True
    with Cons show ?thesis
      by (simp add: encode_char_def option.map_comp comp_def)
  next
    case False
    then show ?thesis
    proof (cases rule: encode_char_escape)
      case (1 h l)
      with Cons show ?thesis
        by (simp add: option.map_comp comp_def)
    qed
  qed
qed (simp add: option.map_ident)

lemma length_url_unescape: "url_unescape s = Some p \<Longrightarrow> length p \<le> length s"
proof (induction s arbitrary: p rule: url_unescape.induct)
  case (2 c s)
  then show ?case
    by (fastforce split: if_splits list.splits simp: Let_def)
qed simp

lemma url_unescape_short: "length t < 2 \<Longrightarrow> url_unescape (CHR ''%'' # t) = None"
  by (cases t; cases "tl t") auto

text \<open>The end of the text to decode is never a hexadecimal digit.\<close>

definition decode_stop :: "string \<Rightarrow> nat \<Rightarrow> bool" where
  "decode_stop s len \<longleftrightarrow> len \<le> length s \<and> \<not> isxdigit (char_at s len)"

lemma urldecode_loop_unescape:
  assumes "decode_stop s len" and "i \<le> len"
  shows "urldecode_loop s i len = url_unescape (drop i (take len s))"
  using assms
proof (induction s i len rule: urldecode_loop.induct)
  case (1 s i len)
  show ?case
  proof (cases "i < len")
    case False
    with 1(5) show ?thesis by (subst urldecode_loop.simps) simp
  next
    case True
    let ?t = "take len s"
    have len: "len \<le> length s" using 1(4) by (simp add: decode_stop_def)
    have step: "drop i ?t = char_at s i # drop (Suc i) ?t"
      using True len by (simp add: drop_eq_Cons char_at_def)
    show ?thesis
    proof (cases "char_at s i = CHR ''%''")
      case False
      with 1(2,3)[OF True False] 1(4) True show ?thesis
        by (auto simp: urldecode_loop.simps [of s i len] step)
    next
      case pct: True
      let ?v = "unhex (byte_of (char_at s (i + 1))) (byte_of (char_at s (i + 2)))"
      show ?thesis
      proof (cases "i + 3 \<le> len")
        case True
        then have "drop (Suc i) ?t = char_at s (i + 1) # char_at s (i + 2) # drop (i + 3) ?t"
          using len by (simp add: drop_eq_Cons char_at_def numeral_3_eq_3)
        with 1(1)[OF \<open>i < len\<close> pct refl] 1(4) True pct \<open>i < len\<close> show ?thesis
          by (simp add: urldecode_loop.simps [of s i len] step Let_def)
      next
        case short: False
        have "?v = -1"
        proof (cases "i + 1 = len")
          case True
          with 1(4) show ?thesis by (simp add: decode_stop_def unhex_high_bad)
        next
          case False
          with short True have "i + 2 = len" by simp
          with 1(4) show ?thesis by (simp add: decode_stop_def unhex_low_bad)
        qed
        moreover have "length (drop (Suc i) ?t) < 2" using short len by simp
        then have "url_unescape (drop i ?t) = None"
          by (simp only: step pct url_unescape_short)
        ultimately show ?thesis using pct \<open>i < len\<close>
          by (simp add: urldecode_loop.simps [of s i len])
      qed
    qed
  qed
qed

definition url_text :: "string \<Rightarrow> string" where
  "url_text s = takeWhile (\<lambda>c. c \<noteq> CHR ''='' \<and> c \<noteq> CHR ''&'') s"

lemma urldecode_len_text:
  "urldecode_len s = length (url_text s)"
  unfolding urldecode_len_def url_text_def
  by (induction s) (auto simp: Let_def split: option.splits)

lemma decode_stop_text: "decode_stop s (length (url_text s))"
proof (cases "length (url_text s) < length s")
  case True
  then have "s ! length (url_text s) \<in> {CHR ''='', CHR ''&''}"
    unfolding url_text_def using nth_length_takeWhile by blast
  with True show ?thesis
    by (auto simp: decode_stop_def char_at_def ctype_simps)
next
  case False
  then have "length (url_text s) = length s"
    by (metis url_text_def length_takeWhile_le le_neq_implies_less)
  then show ?thesis by (simp add: decode_stop_def char_at_def ctype_simps)
qed

lemma urldecode_eq:
  "urldecode (Some ()) (Some e) =
     (case url_unescape (url_text e) of None \<Rightarrow> Inl EINVAL | Some p \<Rightarrow> Inr p)"
proof -
  have "take (length (url_text e)) e = url_text e"
    by (metis url_text_def takeWhile_eq_take)
  with urldecode_loop_unescape [OF decode_stop_text [of e] le0] show ?thesis
    by (simp add: urldecode_def urldecode_len_text)
qed

lemma url_text_escape:
  "t = [] \<or> hd t \<in> {CHR ''&'', CHR ''=''} \<Longrightarrow> url_text (url_escape s @ t) = url_escape s"
proof (induction s)
  case Nil
  then show ?case by (cases t) (auto simp: url_text_def)
next
  case (Cons c s)
  then have "url_text (url_escape s @ t) = url_escape s" by blast
  moreover have "\<forall>x \<in> set (encode_char c). x \<noteq> CHR ''='' \<and> x \<noteq> CHR ''&''"
    using encode_char_encoded [of c] by (auto simp: list_all_iff encoded_char_def)
  ultimately show ?case by (simp add: url_text_def)
qed

lemma urldecode_escape:
  assumes "t = [] \<or> hd t \<in> {CHR ''&'', CHR ''=''}"
  shows "urldecode (Some ()) (Some (url_escape s @ t)) = Inr s"
  using url_unescape_escape [of s "[]"] by (simp add: urldecode_eq url_text_escape [OF assms])

section \<open>Properties\<close>

text \<open>
  Decoding is the inverse of encoding: whatever octets \<open>urlnencode\<close> is given (NUL
  included), \<open>urldecode\<close> of its output gives them back, whether the output stands alone
  or is followed by one of the two separators of a field list.
\<close>

theorem urlnencode_urldecode:
  assumes "0 < len" and "nat len \<le> length u"
    and "t = [] \<or> hd t \<in> {CHR ''&'', CHR ''=''}"
  shows "\<exists>e. urlnencode (Some ()) (Some u) len = Inr e \<and>
             urldecode (Some ()) (Some (e @ t)) = Inr (take (nat len) u)"
  using assms by (simp add: urlnencode_escape urldecode_escape)

theorem urlnencode_urldecode_witness:
  "\<exists>e. urlnencode (Some ()) (Some ''a=/b'') 4 = Inr e \<and>
       urldecode (Some ()) (Some (e @ ''&x=1'')) = Inr (take (nat 4) ''a=/b'')"
  by (rule urlnencode_urldecode) simp_all

text \<open>
  C31. The index loop of \<open>urldecode\<close> is the structural decoder applied to the text before
  the first separator: it fails exactly on a percent sign that is not followed by two
  hexadecimal digits inside that text, and its look-ahead never takes digits from beyond it.
\<close>

theorem urldecode_reference:
  "urldecode (Some ()) (Some e) =
     (case url_unescape (takeWhile (\<lambda>c. c \<noteq> CHR ''='' \<and> c \<noteq> CHR ''&'') e) of
        None \<Rightarrow> Inl EINVAL | Some p \<Rightarrow> Inr p)"
  using urldecode_eq by (simp add: url_text_def)

text \<open>
  Both allocating calls reserve enough: the string written by \<open>urlnencodedup\<close> and by
  \<open>urldecodedup\<close>, with its terminating NUL, fits the buffer the call allocated.
\<close>

theorem urldup_buffers_fit:
  assumes "urlnencodedup (Some ()) (Some u) len = Inr (out, osize)" and "nat len \<le> length u"
    and "urldecodedup (Some ()) (Some e) = Inr (p, psize)"
  shows "length out + 1 \<le> osize \<and> length p + 1 \<le> psize"
proof
  have len: "0 \<le> len" using assms(1) by (auto simp: urlnencodedup_def split: if_splits)
  show "length out + 1 \<le> osize"
  proof (cases "len = 0")
    case True
    with assms(1) strlen_le [of u] length_url_escape(2) [of "cstr u"]
    show ?thesis
      by (cases "strlen u = 0")
        (auto simp: urlnencodedup_def urlnencode_escape_str urlnencode_escape strlen_def Let_def)
  next
    case False
    with assms len length_url_escape(2) [of "take (nat len) u"] show ?thesis
      by (auto simp: urlnencodedup_def urlnencode_escape Let_def)
  qed
  have "length (url_text e) \<le> length e" by (simp add: url_text_def length_takeWhile_le)
  then show "length p + 1 \<le> psize"
    using assms(3) length_url_unescape [of "url_text e"]
    by (fastforce simp: urldecodedup_def urldecode_eq Let_def split: option.splits)
qed

theorem urldup_buffers_fit_witness:
  "urlnencodedup (Some ()) (Some ''a/'') 2 = Inr (''a%2F'', 7) \<and>
   urldecodedup (Some ()) (Some ''%2F'') = Inr (''/'', 4) \<and>
   length ''a%2F'' + 1 \<le> (7::nat) \<and> length ''/'' + 1 \<le> (4::nat)"
proof -
  have e: "urlnencodedup (Some ()) (Some ''a/'') 2 = Inr (''a%2F'', 7)"
    by code_simp
  have d: "urldecodedup (Some ()) (Some ''%2F'') = Inr (''/'', 4)"
    by code_simp
  have l: "nat 2 \<le> length ''a/''" by simp
  show ?thesis using e d urldup_buffers_fit [OF e l d] by blast
qed

text \<open>
  \<open>urllegal\<close>, which the field list API uses to check that a name or a value is
  encoded, refuses the output of the encoder as soon as one octet was escaped.
\<close>

theorem urllegal_refuses_escapes:
  assumes "c \<in> set s" and "\<not> isalnum c"
  shows "urlnencode (Some ()) (Some s) (int (length s)) = Inr (url_escape s)
         \<and> \<not> urllegal (Some (url_escape s))"
proof -
  have "CHR ''%'' \<in> set (encode_char c)"
    using assms(2) by (cases rule: encode_char_escape) auto
  then have "CHR ''%'' \<in> set (url_escape s)"
    using assms(1) by (auto simp: url_escape_def)
  moreover have "\<not> urllegal_char CHR ''%''"
    by (simp add: urllegal_char_def)
  moreover have "s \<noteq> []" using assms(1) by auto
  ultimately show ?thesis
    using urlnencode_escape [of "int (length s)" s] by (auto simp: urllegal_def list_all_iff)
qed

theorem urllegal_refuses_escapes_witness:
  "\<not> urllegal (Some (url_escape ''a b''))"
proof -
  have "CHR '' '' \<in> set ''a b''" "\<not> isalnum CHR '' ''"
    by (simp_all add: ctype_simps)
  from urllegal_refuses_escapes [OF this] show ?thesis by blast
qed

end
