(* ===== verification/UrlMap.thy ===== *)
theory UrlMap
  imports UrlEncode "HOL-Library.Multiset"
begin

text \<open>
  \<^verbatim>\<open>src/liburlencode/urlmap.c\<close>: the array of key/value pairs an SRB message is
  decoded into. The C array ends with a pair whose key is NULL; here it is the list of
  the pairs before that one, and \<open>None\<close> is a NULL map. \<open>value\<close> is the contents
  of the value buffer, without the spare octet after the last one that \<open>urldecode\<close>
  sets to NUL and \<open>urlmapnadd\<close> and \<open>urlmapnset\<close> leave as \<open>malloc\<close> gave it;
  where the code calls \<open>strlen\<close> on such a buffer the model reads it to its end.
  Every operation that changes the array returns it.
\<close>

section \<open>Pairs and maps\<close>

record urlpair =
  key :: string
  "value" :: "string option"
  valuelen :: int

type_synonym urlmap = "urlpair list"

lemma urlpair_eta [simp]: "\<lparr>key = key p, value = value p, valuelen = valuelen p\<rparr> = p"
  by (cases p) simp

section \<open>Decoding a field list\<close>

text \<open>Skipping the excess ampersands: from offset \<open>p\<close>, while the octet after it is one.\<close>

function skip_amp :: "string \<Rightarrow> nat \<Rightarrow> nat" where
  "skip_amp s p = (if char_at s (p + 1) = CHR ''&'' then skip_amp s (p + 1) else p)"
  by pat_completeness auto
termination
  by (relation "measure (\<lambda>(s, p). length s - p)") (auto simp: char_at_def split: if_splits)

declare skip_amp.simps [simp del]

lemma skip_amp_ge: "p \<le> skip_amp s p"
proof (induction s p rule: skip_amp.induct)
  case (1 s p)
  then show ?case by (subst skip_amp.simps) (auto intro: Suc_leD)
qed

text \<open>
  The key is decoded without a look at the result of \<open>urldecodedup\<close>: when its escapes
  are malformed, the key buffer has whatever \<open>malloc\<close> left there, the parameter
  \<open>junk\<close>. A key is used as a NUL terminated string only.
\<close>

definition decode_key :: "(string \<Rightarrow> string) \<Rightarrow> string \<Rightarrow> string" where
  "decode_key junk next =
     (case urldecodedup (Some ()) (Some next) of
        Inr (k, _) \<Rightarrow> cstr k
      | Inl _ \<Rightarrow> cstr (junk next))"

definition decode_key_end :: "string \<Rightarrow> nat option" where
  "decode_key_end next =
     (case (strchr next CHR ''='', strchr next CHR ''&'') of
        (Some key_end, Some value_end) \<Rightarrow> if key_end > value_end then None else Some key_end
      | (key_end, _) \<Rightarrow> key_end)"

definition decode_value :: "string \<Rightarrow> errno + (string option \<times> int)" where
  "decode_value next =
     (case decode_key_end next of
        None \<Rightarrow> Inr (None, 0)
      | Some key_end \<Rightarrow>
          map_sum id (\<lambda>(v, _). (Some v, int (length v)))
            (urldecodedup (Some ()) (Some (drop (key_end + 1) next))))"

function urlmapdecode_loop :: "(string \<Rightarrow> string) \<Rightarrow> string \<Rightarrow> errno + urlmap" where
  "urlmapdecode_loop junk next =
     (case decode_value next of
        Inl e \<Rightarrow> Inl e
      | Inr (v, l) \<Rightarrow>
          (let pair = \<lparr>key = decode_key junk next, value = v, valuelen = l\<rparr>
           in case strchr next CHR ''&'' of
                None \<Rightarrow> Inr [pair]
              | Some value_end \<Rightarrow>
                  map_sum id ((#) pair)
                    (urlmapdecode_loop junk (drop (skip_amp next (value_end + 1)) next))))"
  by pat_completeness auto
termination
proof (relation "measure (\<lambda>(junk, next). length next)", simp, clarsimp)
  fix "next" :: string and a
  assume "strchr next CHR ''&'' = Some a"
  then have "a < length next" using strchr_Some by blast
  moreover have "Suc a \<le> skip_amp next (Suc a)" by (rule skip_amp_ge)
  ultimately show "length next - skip_amp next (Suc a) < length next" by linarith
qed

declare urlmapdecode_loop.simps [simp del]

text \<open>The result is the map and the number of pairs allocated for it.\<close>

definition urlmapdecode :: "(string \<Rightarrow> string) \<Rightarrow> string option \<Rightarrow> errno + (urlmap \<times> nat)" where
  "urlmapdecode junk list =
     (case list of
        None \<Rightarrow> Inl EINVAL
      | Some s \<Rightarrow>
          (let count = 1 + length (filter (\<lambda>c. c = CHR ''&'') s);
               size = count + 2
           in map_sum id (\<lambda>m. (m, size)) (urlmapdecode_loop junk s)))"

section \<open>Encoding a field list\<close>

text \<open>
  Adding the result of an encoding call to the text: on an error the return value -1 is
  added to the length, which takes the last octet off.
\<close>

definition add_encoded :: "string \<Rightarrow> errno + string \<Rightarrow> string" where
  "add_encoded list r = (case r of Inr s \<Rightarrow> list @ s | Inl _ \<Rightarrow> butlast list)"

definition pair_valuelen :: "urlpair \<Rightarrow> string \<Rightarrow> int" where
  "pair_valuelen p v = (if valuelen p = 0 then int (strlen v) else valuelen p)"

definition add_separator :: "string \<Rightarrow> string" where
  "add_separator list = (if length list \<noteq> 0 then list @ ''&'' else list)"

text \<open>
  \<open>urlmapencode\<close> grows its buffer; \<open>alloc\<close> is what is allocated. The result is the
  text and that size.
\<close>

fun urlmapencode_loop :: "string \<Rightarrow> int \<Rightarrow> int \<Rightarrow> urlmap \<Rightarrow> (string \<times> int) option" where
  "urlmapencode_loop list maxlistlen alloc [] = Some (list, alloc)"
| "urlmapencode_loop list maxlistlen alloc (p # ps) =
     (let list = add_separator list;
          keylen = 3 * int (strlen (key p));
          grow = keylen + int (length list) + 1 > maxlistlen;
          maxlistlen = (if grow then keylen + int (length list) + 65 else maxlistlen);
          alloc = (if grow then maxlistlen else alloc)
      in case urlencode (Some ()) (Some (key p)) of
           Inl _ \<Rightarrow> None
         | Inr k \<Rightarrow>
             (let list = list @ k
              in case value p of
                   None \<Rightarrow> urlmapencode_loop list maxlistlen alloc ps
                 | Some v \<Rightarrow>
                     (let list = list @ ''='';
                          vlen = pair_valuelen p v;
                          grow = vlen + int (length list) + 1 > maxlistlen;
                          maxlistlen = (if grow then vlen + int (length list) + 65 else maxlistlen);
                          alloc = (if grow then maxlistlen else alloc)
                      in case urlnencode (Some ()) (Some v) vlen of
                           Inl _ \<Rightarrow> None
                         | Inr e \<Rightarrow> urlmapencode_loop (list @ e) maxlistlen alloc ps)))"

definition urlmapencode :: "urlmap option \<Rightarrow> (string \<times> int) option" where
  "urlmapencode mp = (case mp of None \<Rightarrow> None | Some m \<Rightarrow> urlmapencode_loop [] 64 65 m)"

text \<open>
  \<open>urlmapnencode\<close> writes to a buffer of \<open>len\<close> octets. The octets are in the buffer
  whether the call succeeds or not, so an error comes with what was written before it.
\<close>

fun urlmapnencode_loop :: "int \<Rightarrow> string \<Rightarrow> urlmap \<Rightarrow> (errno \<times> string) + string" where
  "urlmapnencode_loop len list [] = Inr list"
| "urlmapnencode_loop len list (p # ps) =
     (let list = add_separator list;
          keylen = 3 * int (strlen (key p))
      in if keylen + int (length list) + 2 > len then Inl (EOVERFLOW, list)
         else let list = add_encoded list (urlencode (Some ()) (Some (key p)))
              in case value p of
                   None \<Rightarrow> urlmapnencode_loop len list ps
                 | Some v \<Rightarrow>
                     (let list = list @ ''='';
                          vlen = pair_valuelen p v
                      in if vlen + int (length list) + 1 > len then Inl (EOVERFLOW, list)
                         else urlmapnencode_loop len
                                (add_encoded list (urlnencode (Some ()) (Some v) vlen)) ps))"

definition urlmapnencode :: "unit option \<Rightarrow> int \<Rightarrow> urlmap option \<Rightarrow> (errno \<times> string) + string" where
  "urlmapnencode list len mp =
     (case list of
        None \<Rightarrow> Inl (EINVAL, [])
      | Some _ \<Rightarrow>
          if len < 1 then Inl (EINVAL, [])
          else case mp of None \<Rightarrow> Inr [] | Some m \<Rightarrow> urlmapnencode_loop len [] m)"

section \<open>Copying, looking up and changing a map\<close>

definition dup_pair :: "urlpair \<Rightarrow> urlpair" where
  "dup_pair p =
     (case value p of
        None \<Rightarrow> \<lparr>key = cstr (key p), value = None, valuelen = 0\<rparr>
      | Some v \<Rightarrow> \<lparr>key = cstr (key p), value = Some (take (nat (valuelen p)) v),
                  valuelen = valuelen p\<rparr>)"

definition urlmapdup :: "urlmap option \<Rightarrow> urlmap option" where
  "urlmapdup mp = map_option (map dup_pair) mp"

fun urlmapget_loop :: "urlmap \<Rightarrow> string \<Rightarrow> nat \<Rightarrow> errno + nat" where
  "urlmapget_loop [] k idx = Inl ENOENT"
| "urlmapget_loop (p # ps) k idx =
     (if strcasecmp_eq k (key p) then Inr idx else urlmapget_loop ps k (idx + 1))"

definition urlmapget :: "urlmap option \<Rightarrow> string option \<Rightarrow> errno + nat" where
  "urlmapget mp k =
     (case (mp, k) of (Some m, Some k) \<Rightarrow> urlmapget_loop m k 0 | _ \<Rightarrow> Inl EINVAL)"

definition urlmapgetvalue :: "urlmap option \<Rightarrow> string option \<Rightarrow> string option" where
  "urlmapgetvalue mp k =
     (case urlmapget mp k of Inr n \<Rightarrow> value (the mp ! n) | Inl _ \<Rightarrow> None)"

definition set_pair :: "string option \<Rightarrow> int \<Rightarrow> urlpair \<Rightarrow> urlpair" where
  "set_pair v len p =
     (case v of
        Some v \<Rightarrow> p\<lparr>value := Some (take (nat len) v), valuelen := len\<rparr>
      | None \<Rightarrow> p\<lparr>value := None, valuelen := 0\<rparr>)"

definition urlmapnset ::
  "urlmap option \<Rightarrow> string option \<Rightarrow> string option \<Rightarrow> int \<Rightarrow> (errno + nat) \<times> urlmap option" where
  "urlmapnset mp k v len =
     (case urlmapget mp k of
        Inl e \<Rightarrow> (Inl e, mp)
      | Inr idx \<Rightarrow> (Inr idx, map_option (\<lambda>m. m[idx := set_pair v len (m ! idx)]) mp))"

definition value_strlen :: "string option \<Rightarrow> int" where
  "value_strlen v = (case v of None \<Rightarrow> 0 | Some v \<Rightarrow> int (strlen v))"

definition urlmapset ::
  "urlmap option \<Rightarrow> string option \<Rightarrow> string option \<Rightarrow> (errno + nat) \<times> urlmap option" where
  "urlmapset mp k v = urlmapnset mp k v (value_strlen v)"

definition urlmapseti ::
  "urlmap option \<Rightarrow> string option \<Rightarrow> int \<Rightarrow> (errno + nat) \<times> urlmap option" where
  "urlmapseti mp k v = urlmapnset mp k (Some (int_dec v)) (int (length (int_dec v)))"

fun urlmapdel_scan :: "urlmap \<Rightarrow> string \<Rightarrow> nat \<Rightarrow> nat option \<Rightarrow> nat option" where
  "urlmapdel_scan [] k idx ridx = ridx"
| "urlmapdel_scan (p # ps) k idx ridx =
     urlmapdel_scan ps k (idx + 1) (if strcasecmp_eq k (key p) then Some idx else ridx)"

definition urlmapdel :: "urlmap option \<Rightarrow> string option \<Rightarrow> int \<times> urlmap option" where
  "urlmapdel mp k =
     (case (mp, k) of
        (Some m, Some k) \<Rightarrow>
          (case urlmapdel_scan m k 0 None of
             None \<Rightarrow> (0, mp)
           | Some ridx \<Rightarrow>
               (let idx = length m - 1
                in (1, Some (take idx (m[ridx := m ! idx])))))
      | _ \<Rightarrow> (0, mp))"

definition new_pair :: "string \<Rightarrow> string option \<Rightarrow> int \<Rightarrow> urlpair" where
  "new_pair k v len =
     (case v of
        None \<Rightarrow> \<lparr>key = k, value = None, valuelen = 0\<rparr>
      | Some v \<Rightarrow> \<lparr>key = k, value = Some (take (nat len) v), valuelen = len\<rparr>)"

definition urlmapnadd ::
  "urlmap option \<Rightarrow> string option \<Rightarrow> string option \<Rightarrow> int \<Rightarrow> errno + urlmap option" where
  "urlmapnadd mp k v len =
     (case k of
        None \<Rightarrow> Inr mp
      | Some k \<Rightarrow>
          if len < 0 then Inl EINVAL
          else (let m = (case mp of None \<Rightarrow> [] | Some m \<Rightarrow> m)
                in if k \<in> key ` set m then Inl EEXIST
                   else Inr (Some (m @ [new_pair k v len]))))"

definition urlmapadd ::
  "urlmap option \<Rightarrow> string option \<Rightarrow> string option \<Rightarrow> errno + urlmap option" where
  "urlmapadd mp k v = urlmapnadd mp k v (value_strlen v)"

definition urlmapaddi ::
  "urlmap option \<Rightarrow> string option \<Rightarrow> int \<Rightarrow> errno + urlmap option" where
  "urlmapaddi mp k v = urlmapnadd mp k (Some (int_dec v)) (int (length (int_dec v)))"

section \<open>The text of a map\<close>

text \<open>A pair as the library's own calls leave it, and its place in the field list.\<close>

definition pair_ok :: "urlpair \<Rightarrow> bool" where
  "pair_ok p \<longleftrightarrow> key p \<noteq> [] \<and> NUL \<notin> set (key p) \<and>
     (case value p of None \<Rightarrow> valuelen p = 0 | Some v \<Rightarrow> v \<noteq> [] \<and> valuelen p = int (length v))"

definition pair_text :: "urlpair \<Rightarrow> string" where
  "pair_text p = url_escape (key p) @ (case value p of None \<Rightarrow> [] | Some v \<Rightarrow> CHR ''='' # url_escape v)"

fun map_text :: "urlmap \<Rightarrow> string" where
  "map_text [] = []"
| "map_text [p] = pair_text p"
| "map_text (p # q # ps) = pair_text p @ CHR ''&'' # map_text (q # ps)"

lemma map_text_Cons: "map_text (p # ps) = pair_text p @ (if ps = [] then [] else CHR ''&'' # map_text ps)"
  by (cases ps) simp_all

lemma urlencode_key: "NUL \<notin> set k \<Longrightarrow> urlencode (Some ()) (Some k) = Inr (url_escape k)"
  by (simp add: urlencode_def urlnencode_escape_str)

lemma pair_ok_key: "pair_ok p \<Longrightarrow> urlencode (Some ()) (Some (key p)) = Inr (url_escape (key p))"
  by (simp add: pair_ok_def urlencode_key)

lemma pair_ok_value:
  assumes "pair_ok p" and "value p = Some v"
  shows "pair_valuelen p v = int (length v)"
    and "urlnencode (Some ()) (Some v) (int (length v)) = Inr (url_escape v)"
  using assms by (auto simp: pair_ok_def pair_valuelen_def urlnencode_escape)

lemma pair_text_nonempty: "pair_ok p \<Longrightarrow> pair_text p \<noteq> []"
  by (simp add: pair_text_def pair_ok_def)

lemma pair_text_amp: "CHR ''&'' \<notin> set (pair_text p)"
  by (auto simp: pair_text_def split: option.splits)

text \<open>The text so far, with the separator, then the rest of the map.\<close>

definition continue_text :: "string \<Rightarrow> urlmap \<Rightarrow> string" where
  "continue_text list ps = (if ps = [] then list else add_separator list @ map_text ps)"

lemma continue_text_Cons:
  assumes "pair_ok p"
  shows "continue_text (add_separator list @ pair_text p) ps = continue_text list (p # ps)"
  using pair_text_nonempty [OF assms]
  by (auto simp: continue_text_def map_text_Cons add_separator_def)

lemma urlmapencode_loop_text:
  assumes "list_all pair_ok m"
  shows "\<exists>n. urlmapencode_loop list mx a m = Some (continue_text list m, n)"
  using assms
proof (induction m arbitrary: list mx a)
  case Nil
  then show ?case by (simp add: continue_text_def)
next
  case (Cons p ps)
  then have ok: "pair_ok p" and IH: "\<And>list mx a. \<exists>n. urlmapencode_loop list mx a ps = Some (continue_text list ps, n)"
    by simp_all
  show ?case
  proof (cases "value p")
    case None
    with IH ok show ?thesis
      by (simp add: Let_def pair_ok_key pair_text_def flip: continue_text_Cons)
  next
    case (Some v)
    with IH [of "add_separator list @ pair_text p"] ok show ?thesis
      by (simp add: Let_def pair_ok_key pair_ok_value [OF ok Some] pair_text_def flip: continue_text_Cons)
  qed
qed

lemma urlmapnencode_loop_text:
  assumes "list_all pair_ok m" and "urlmapnencode_loop len list m = Inr out"
  shows "out = continue_text list m"
  using assms
proof (induction m arbitrary: list)
  case Nil
  then show ?case by (simp add: continue_text_def)
next
  case (Cons p ps)
  then have ok: "pair_ok p" by simp
  show ?case
  proof (cases "value p")
    case None
    with Cons ok show ?thesis
      by (auto simp: Let_def add_encoded_def pair_ok_key pair_text_def
          split: if_splits simp flip: continue_text_Cons)
  next
    case (Some v)
    with Cons ok show ?thesis
      by (auto simp: Let_def add_encoded_def pair_ok_key pair_ok_value [OF ok Some] pair_text_def
          split: if_splits simp flip: continue_text_Cons)
  qed
qed

lemma continue_text_start [simp]: "continue_text [] m = map_text m"
  by (simp add: continue_text_def add_separator_def)

section \<open>Decoding the text of a map\<close>

lemma skip_amp_none: "char_at s (p + 1) \<noteq> CHR ''&'' \<Longrightarrow> skip_amp s p = p"
  by (subst skip_amp.simps) simp

text \<open>What follows a pair in the text of a map: nothing, or a separator and the next pair.\<close>

definition pair_end :: "string \<Rightarrow> bool" where
  "pair_end t \<longleftrightarrow> t = [] \<or> hd t = CHR ''&''"

lemma urldecodedup_escape:
  "t = [] \<or> hd t \<in> {CHR ''&'', CHR ''=''} \<Longrightarrow>
   urldecodedup (Some ()) (Some (url_escape s @ t)) = Inr (s, length (url_escape s @ t) + 1)"
  using urldecode_escape [of t s] by (simp add: urldecodedup_def Let_def)

lemma decode_key_pair:
  assumes "pair_ok p" and "pair_end t"
  shows "decode_key junk (pair_text p @ t) = key p"
proof -
  let ?r = "(case value p of None \<Rightarrow> [] | Some v \<Rightarrow> CHR ''='' # url_escape v) @ t"
  have "?r = [] \<or> hd ?r \<in> {CHR ''&'', CHR ''=''}"
    using assms(2) by (auto simp: pair_end_def split: option.splits)
  from urldecodedup_escape [OF this, of "key p"] assms(1) show ?thesis
    by (simp add: decode_key_def pair_text_def pair_ok_def)
qed

lemma decode_value_pair:
  assumes "pair_ok p" and "pair_end t"
  shows "decode_value (pair_text p @ t) = Inr (value p, valuelen p)"
proof (cases "value p")
  case None
  have "decode_key_end (url_escape (key p) @ t) = None"
  proof (cases t)
    case Nil
    then show ?thesis
      by (simp add: decode_key_end_def iffD2 [OF strchr_None_iff])
  next
    case (Cons a t')
    with assms(2) have "t = CHR ''&'' # t'" by (simp add: pair_end_def)
    then show ?thesis
      by (simp add: decode_key_end_def strchr_append_notin split: option.splits)
  qed
  with None assms(1) show ?thesis
    by (simp add: decode_value_def pair_text_def pair_ok_def)
next
  case (Some v)
  have e: "strchr (url_escape (key p) @ CHR ''='' # url_escape v @ t) CHR ''='' = Some (length (url_escape (key p)))"
    by simp
  have "decode_key_end (url_escape (key p) @ CHR ''='' # url_escape v @ t) = Some (length (url_escape (key p)))"
    unfolding decode_key_end_def e by (simp add: strchr_append_notin split: option.splits)
  with Some assms urldecodedup_escape [of t v] show ?thesis
    by (auto simp: decode_value_def pair_text_def pair_ok_def pair_end_def)
qed

lemma urlmapdecode_loop_pair:
  assumes "pair_ok p" and "pair_end t"
  shows "urlmapdecode_loop junk (pair_text p @ t) =
    (case t of [] \<Rightarrow> Inr [p]
     | _ # t' \<Rightarrow> map_sum id ((#) p)
         (urlmapdecode_loop junk
           (drop (skip_amp (pair_text p @ t) (length (pair_text p) + 1)) (pair_text p @ t))))"
proof -
  have "strchr (pair_text p @ t) CHR ''&'' =
      (if t = [] then None else Some (length (pair_text p)))"
    using assms(2) pair_text_amp [of p]
    by (cases t) (auto simp: pair_end_def strchr_None_iff)
  then show ?thesis
    by (subst urlmapdecode_loop.simps)
      (auto simp: decode_value_pair [OF assms] decode_key_pair [OF assms] split: list.splits)
qed

text \<open>A pair the separator skipping cannot mistake: its text has at least two octets.\<close>

definition pair_safe :: "urlpair \<Rightarrow> bool" where
  "pair_safe p \<longleftrightarrow> pair_ok p \<and> 2 \<le> length (pair_text p)"

lemma char_at_notin: "x \<notin> set s \<Longrightarrow> i < length s \<Longrightarrow> char_at (s @ t) i \<noteq> x"
  by (auto simp: char_at_def nth_append)

lemma skip_amp_safe:
  assumes "pair_safe q"
  shows "skip_amp (pair_text p @ CHR ''&'' # map_text (q # ps)) (length (pair_text p) + 1) =
         length (pair_text p) + 1"
proof (rule skip_amp_none)
  let ?s = "pair_text p @ CHR ''&'' # map_text (q # ps)"
  have "char_at ?s (length (pair_text p) + 1 + 1) = char_at (map_text (q # ps)) 1"
    by (simp add: char_at_def nth_append)
  moreover have "char_at (map_text (q # ps)) 1 \<noteq> CHR ''&''"
    unfolding map_text_Cons using assms
    by (intro char_at_notin pair_text_amp) (simp add: pair_safe_def)
  ultimately show "char_at ?s (length (pair_text p) + 1 + 1) \<noteq> CHR ''&''" by simp
qed

lemma urlmapdecode_loop_text:
  assumes "list_all pair_safe m" and "m \<noteq> []"
  shows "urlmapdecode_loop junk (map_text m) = Inr m"
  using assms
proof (induction m rule: map_text.induct)
  case (2 p)
  then show ?case
    using urlmapdecode_loop_pair [of p "[]" junk] by (simp add: pair_safe_def pair_end_def)
next
  case (3 p q ps)
  let ?t = "CHR ''&'' # map_text (q # ps)"
  have "urlmapdecode_loop junk (pair_text p @ ?t) =
        map_sum id ((#) p) (urlmapdecode_loop junk (map_text (q # ps)))"
    using 3(2) skip_amp_safe [of q p ps] urlmapdecode_loop_pair [of p ?t junk]
    by (simp add: pair_safe_def pair_end_def)
  with 3 show ?case by simp
qed simp

lemma pair_safe_ok: "list_all pair_safe m \<Longrightarrow> list_all pair_ok m"
  by (auto simp: list_all_iff pair_safe_def)

section \<open>Looking up fields\<close>

fun field_lookup :: "urlmap \<Rightarrow> string \<Rightarrow> string option option" where
  "field_lookup [] k = None"
| "field_lookup (p # ps) k = (if strcasecmp_eq k (key p) then Some (value p) else field_lookup ps k)"

lemma urlmapget_loop_lookup:
  "case urlmapget_loop m k i of
     Inl e \<Rightarrow> e = ENOENT \<and> field_lookup m k = None \<and> (\<forall>p \<in> set m. \<not> strcasecmp_eq k (key p))
   | Inr n \<Rightarrow> i \<le> n \<and> n - i < length m \<and> strcasecmp_eq k (key (m ! (n - i))) \<and>
            field_lookup m k = Some (value (m ! (n - i))) \<and>
            (\<forall>j < n - i. \<not> strcasecmp_eq k (key (m ! j)))"
proof (induction m arbitrary: i)
  case (Cons p ps)
  show ?case
  proof (cases "strcasecmp_eq k (key p)")
    case False
    then show ?thesis
      using Cons [of "i + 1"]
      by (auto split: sum.splits simp: nth_Cons' less_Suc_eq_0_disj Suc_diff_le
          Suc_diff_Suc [symmetric])
  qed simp
qed simp

lemma field_lookup_None_iff: "field_lookup m k = None \<longleftrightarrow> (\<forall>p \<in> set m. \<not> strcasecmp_eq k (key p))"
  by (induction m) auto

lemma field_lookup_append:
  "field_lookup (m @ m') k = (case field_lookup m k of None \<Rightarrow> field_lookup m' k | Some v \<Rightarrow> Some v)"
  by (induction m) auto

lemma field_lookup_update:
  assumes "n < length m" and "strcasecmp_eq k (key (m ! n))" and "key p = key (m ! n)"
    and "\<forall>j < n. \<not> strcasecmp_eq k (key (m ! j))"
  shows "field_lookup (m[n := p]) k' = (if strcasecmp_eq k' k then Some (value p) else field_lookup m k')"
  using assms
proof (induction m arbitrary: n)
  case (Cons q m)
  show ?case
  proof (cases n)
    case 0
    with Cons.prems show ?thesis
      by (auto simp: strcasecmp_eq_def)
  next
    case (Suc n')
    with Cons.prems have "\<not> strcasecmp_eq k (key q)" "\<forall>j < n'. \<not> strcasecmp_eq k (key (m ! j))"
      by (force, auto dest: spec [of _ "Suc _"])
    with Cons Suc show ?thesis
      by (auto simp: strcasecmp_eq_def)
  qed
qed simp

text \<open>The value a lookup returns for a map pointer; \<open>None\<close> when there is no such field.\<close>

definition map_lookup :: "urlmap option \<Rightarrow> string \<Rightarrow> string option option" where
  "map_lookup mp k = (case urlmapget mp (Some k) of Inr n \<Rightarrow> Some (value (the mp ! n)) | Inl _ \<Rightarrow> None)"

lemma map_lookup_eq:
  "map_lookup None k = None" "map_lookup (Some m) k = field_lookup m k"
  using urlmapget_loop_lookup [of m k 0] by (auto simp: map_lookup_def urlmapget_def split: sum.splits)

lemma urlmapgetvalue_lookup:
  "urlmapgetvalue mp (Some k) = (case map_lookup mp k of None \<Rightarrow> None | Some v \<Rightarrow> v)"
  by (auto simp: urlmapgetvalue_def map_lookup_def split: sum.splits)

definition map_keys :: "urlmap option \<Rightarrow> string set" where
  "map_keys mp = (case mp of None \<Rightarrow> {} | Some m \<Rightarrow> key ` set m)"

text \<open>The calls as the field setting functions use them, with the whole value given.\<close>

definition map_add :: "urlmap option \<Rightarrow> string \<Rightarrow> string option \<Rightarrow> urlmap option option" where
  "map_add mp k v =
     (case urlmapnadd mp (Some k) v (case v of None \<Rightarrow> 0 | Some v \<Rightarrow> int (length v)) of
        Inl _ \<Rightarrow> None | Inr m \<Rightarrow> Some m)"

definition map_set :: "urlmap option \<Rightarrow> string \<Rightarrow> string option \<Rightarrow> urlmap option" where
  "map_set mp k v = snd (urlmapnset mp (Some k) v (case v of None \<Rightarrow> 0 | Some v \<Rightarrow> int (length v)))"

section \<open>The contract of a field store\<close>

text \<open>
  What the protocol layer relies on when it sets a field: \<open>add\<close> refuses a key that is
  spelled as one of the store's keys, \<open>set\<close> replaces the value that \<open>lookup\<close> finds.
  The two compare keys differently (\<open>strcmp\<close> against \<open>strcasecmp\<close>), so adding after a
  lookup that failed, and setting after an addition that failed, are the two safe orders.
\<close>

locale field_store =
  fixes lookup :: "'m \<Rightarrow> string \<Rightarrow> string option option"
    and keys :: "'m \<Rightarrow> string set"
    and add :: "'m \<Rightarrow> string \<Rightarrow> string option \<Rightarrow> 'm option"
    and set :: "'m \<Rightarrow> string \<Rightarrow> string option \<Rightarrow> 'm"
  assumes lookup_keys: "lookup m k \<noteq> None \<longleftrightarrow> (\<exists>j \<in> keys m. strcasecmp_eq k j)"
    and add_refused: "add m k v = None \<longleftrightarrow> k \<in> keys m"
    and add_keys: "add m k v = Some m' \<Longrightarrow> keys m' = insert k (keys m)"
    and add_lookup: "add m k v = Some m' \<Longrightarrow>
      lookup m' j = (case lookup m j of None \<Rightarrow> if strcasecmp_eq j k then Some v else None | Some w \<Rightarrow> Some w)"
    and set_keys: "keys (set m k v) = keys m"
    and set_lookup: "lookup m k \<noteq> None \<Longrightarrow>
      lookup (set m k v) j = (if strcasecmp_eq j k then Some v else lookup m j)"
begin

text \<open>
  Add, and set when that is refused: the order of every field setting function. The field
  then has the new value, provided no key differs from it in case only.
\<close>

lemma add_or_set_lookup:
  assumes "\<And>j. j \<in> keys m \<Longrightarrow> strcasecmp_eq k j \<Longrightarrow> j = k"
  shows "lookup (case add m k v of None \<Rightarrow> set m k v | Some m' \<Rightarrow> m') j =
         (if strcasecmp_eq j k then Some v else lookup m j)"
proof (cases "add m k v")
  case None
  then have "lookup m k \<noteq> None" using add_refused lookup_keys by fastforce
  with None show ?thesis by (simp add: set_lookup)
next
  case (Some m')
  then have "k \<notin> keys m" using add_refused [of m k v] by simp
  then have "lookup m k = None" using assms lookup_keys by blast
  then have "lookup m j = None" if "strcasecmp_eq j k"
    using that lookup_keys by (meson strcasecmp_eq_sym strcasecmp_eq_trans)
  with Some show ?thesis
    by (auto simp: add_lookup split: option.splits)
qed

text \<open>A key of another spelling is a second field, which no lookup reaches.\<close>

lemma add_other_case_hidden:
  assumes "lookup m k = Some w" and "k \<notin> keys m"
  shows "\<exists>m'. add m k v = Some m' \<and> lookup m' k = Some w"
proof -
  obtain m' where "add m k v = Some m'"
    using assms(2) add_refused by (cases "add m k v") blast+
  with assms(1) show ?thesis by (simp add: add_lookup)
qed

lemma add_or_set_keys: "keys (case add m k v of None \<Rightarrow> set m k v | Some m' \<Rightarrow> m') = insert k (keys m)"
  using add_refused [of m k v] by (auto simp: set_keys add_keys split: option.splits)

end

lemma map_set_lookup:
  assumes "map_lookup mp k \<noteq> None"
  shows "map_lookup (map_set mp k v) j = (if strcasecmp_eq j k then Some v else map_lookup mp j)"
proof -
  obtain m where mp: "mp = Some m" using assms map_lookup_eq(1) by (cases mp) auto
  obtain n where n: "urlmapget_loop m k 0 = Inr n"
    using assms by (auto simp: mp map_lookup_def urlmapget_def split: sum.splits)
  let ?p = "set_pair v (case v of None \<Rightarrow> 0 | Some v \<Rightarrow> int (length v)) (m ! n)"
  have "key ?p = key (m ! n)" "value ?p = v"
    by (auto simp: set_pair_def split: option.splits)
  with field_lookup_update [of n m k ?p j] n urlmapget_loop_lookup [of m k 0] show ?thesis
    by (simp add: mp map_set_def urlmapnset_def urlmapget_def map_lookup_eq)
qed

interpretation um: field_store map_lookup map_keys map_add map_set
proof unfold_locales
  fix m m' :: "urlmap option" and k j :: string and v :: "string option"
  show "map_lookup m k \<noteq> None \<longleftrightarrow> (\<exists>j \<in> map_keys m. strcasecmp_eq k j)"
    by (cases m) (auto simp: map_lookup_eq map_keys_def field_lookup_None_iff)
  show "map_add m k v = None \<longleftrightarrow> k \<in> map_keys m"
    by (auto simp: map_add_def urlmapnadd_def map_keys_def Let_def split: option.splits)
  show "map_keys m' = insert k (map_keys m)" if "map_add m k v = Some m'"
    using that by (auto simp: map_add_def urlmapnadd_def map_keys_def new_pair_def Let_def
        split: option.splits if_splits)
  show "map_lookup m' j = (case map_lookup m j of None \<Rightarrow> if strcasecmp_eq j k then Some v else None
      | Some w \<Rightarrow> Some w)" if "map_add m k v = Some m'"
    using that by (auto simp: map_add_def urlmapnadd_def map_lookup_eq new_pair_def Let_def
        field_lookup_append split: option.splits if_splits)
  show "map_keys (map_set m k v) = map_keys m"
  proof (cases "urlmapget m (Some k)")
    case (Inr n)
    then obtain l where l: "m = Some l" "n < length l"
      using urlmapget_loop_lookup [of "the m" k 0]
      by (auto simp: urlmapget_def split: option.splits)
    have "key (set_pair v i (l ! n)) = key (l ! n)" for i
      by (auto simp: set_pair_def split: option.splits)
    with Inr l show ?thesis
      by (simp add: map_set_def urlmapnset_def map_keys_def flip: set_map map_update)
        (metis list_update_id map_update)
  qed (simp add: map_set_def urlmapnset_def)
  show "map_lookup (map_set m k v) j = (if strcasecmp_eq j k then Some v else map_lookup m j)"
    if "map_lookup m k \<noteq> None"
    using that by (rule map_set_lookup)
qed

section \<open>Bounds\<close>

lemma urlmapdecode_loop_length:
  "urlmapdecode_loop junk s = Inr m \<Longrightarrow> length m \<le> 1 + length (filter (\<lambda>c. c = CHR ''&'') s)"
proof (induction junk s arbitrary: m rule: urlmapdecode_loop.induct)
  case (1 junk s)
  show ?case
  proof (cases "strchr s CHR ''&''")
    case None
    with 1(2) show ?thesis
      by (auto simp: urlmapdecode_loop.simps [of junk s] split: sum.splits)
  next
    case (Some a)
    let ?p = "skip_amp s (a + 1)"
    from 1(2) Some obtain v l ms where d: "decode_value s = Inr (v, l)"
      and r: "urlmapdecode_loop junk (drop ?p s) = Inr ms" and m: "length m = Suc (length ms)"
      by (cases "urlmapdecode_loop junk (drop ?p s)")
        (auto simp: urlmapdecode_loop.simps [of junk s] split: sum.splits)
    have a: "a < length s" "s ! a = CHR ''&''" using strchr_Some [OF Some] by auto
    have "a + 1 \<le> ?p" by (rule skip_amp_ge)
    then have "length (filter (\<lambda>c. c = CHR ''&'') (drop ?p s)) \<le>
               length (filter (\<lambda>c. c = CHR ''&'') (drop (a + 1) s))"
      by (metis (no_types, lifting) append_take_drop_id drop_drop filter_append le_add2 le_add_diff_inverse2 length_append)
    moreover have "filter (\<lambda>c. c = CHR ''&'') s =
        filter (\<lambda>c. c = CHR ''&'') (take a s) @ CHR ''&'' # filter (\<lambda>c. c = CHR ''&'') (drop (a + 1) s)"
      using a by (metis (mono_tags, lifting) Suc_eq_plus1 append_take_drop_id drop_eq_Cons filter.simps(2) filter_append)
    moreover have "length ms \<le> 1 + length (filter (\<lambda>c. c = CHR ''&'') (drop ?p s))"
      using 1(1)[OF d refl refl Some r] .
    ultimately show ?thesis by (simp add: m)
  qed
qed

definition value_excess :: "urlpair \<Rightarrow> nat" where
  "value_excess p = (case value p of None \<Rightarrow> 0 | Some v \<Rightarrow> length (url_escape v) - length v)"

lemma urlmapnencode_loop_bound:
  assumes "list_all pair_ok m" and "\<forall>p \<in> set m. value_excess p \<le> E"
    and "int (length list) + 1 \<le> len + int E" and "urlmapnencode_loop len list m = Inr out"
  shows "int (length out) + 1 \<le> len + int E"
  using assms
proof (induction m arbitrary: list)
  case (Cons p ps)
  have ok: "pair_ok p" using Cons.prems(1) by simp
  let ?k = "add_separator list @ url_escape (key p)"
  have key: "int (length ?k) + 2 \<le> len"
    using Cons.prems(4) length_url_escape(2) [of "key p"] ok
    by (auto simp: Let_def pair_ok_def split: if_splits)
  show ?case
  proof (cases "value p")
    case None
    with Cons.prems(4) ok have r: "urlmapnencode_loop len ?k ps = Inr out"
      by (auto simp: Let_def add_encoded_def pair_ok_key split: if_splits)
    show ?thesis
      by (rule Cons.IH [OF _ _ _ r]) (use Cons.prems(1,2) key in auto)
  next
    case (Some v)
    have "length (url_escape v) \<le> length v + E"
      using Cons.prems(2) Some by (auto simp: value_excess_def)
    with Cons.prems(4) ok Some
    have r: "urlmapnencode_loop len (?k @ CHR ''='' # url_escape v) ps = Inr out"
      and f: "int (length (?k @ CHR ''='' # url_escape v)) + 1 \<le> len + int E"
      by (auto simp: Let_def add_encoded_def pair_ok_key pair_ok_value [OF ok Some] split: if_splits)
    show ?thesis
      by (rule Cons.IH [OF _ _ f r]) (use Cons.prems(1,2) in auto)
  qed
qed simp

lemma length_url_escape_special:
  "list_all (\<lambda>c. \<not> isalnum c) v \<Longrightarrow> length (url_escape v) = 3 * length v"
  by (induction v) (auto simp: encode_char_def split: prod.splits)

section \<open>Deleting\<close>

lemma urlmapdel_scan_cases:
  obtains (none) "urlmapdel_scan m k i r = r" "\<forall>p \<in> set m. \<not> strcasecmp_eq k (key p)"
  | (some) n where "urlmapdel_scan m k i r = Some (i + n)" "n < length m" "strcasecmp_eq k (key (m ! n))"
proof (induction m arbitrary: i r thesis)
  case (Cons p m)
  show ?case
  proof (rule Cons.IH [of "i + 1" "if strcasecmp_eq k (key p) then Some i else r"])
    assume n: "urlmapdel_scan m k (i + 1) (if strcasecmp_eq k (key p) then Some i else r) =
        (if strcasecmp_eq k (key p) then Some i else r)"
      and m: "\<forall>p \<in> set m. \<not> strcasecmp_eq k (key p)"
    show thesis
    proof (cases "strcasecmp_eq k (key p)")
      case True
      with n show ?thesis by (intro Cons.prems(2) [of 0]) simp_all
    next
      case False
      with n m show ?thesis by (intro Cons.prems(1)) simp_all
    qed
  next
    fix n
    assume "urlmapdel_scan m k (i + 1) (if strcasecmp_eq k (key p) then Some i else r) = Some (i + 1 + n)"
      "n < length m" "strcasecmp_eq k (key (m ! n))"
    then show thesis by (intro Cons.prems(2) [of "Suc n"]) simp_all
  qed
qed simp

lemma mset_swap_last:
  assumes "r < length m"
  shows "mset (take (length m - 1) (m[r := m ! (length m - 1)])) = mset m - {#m ! r#}"
proof -
  let ?l = "m ! (length m - 1)"
  let ?s = "m[r := ?l]"
  have "?s \<noteq> []" using assms by auto
  then have "?s = take (length m - 1) ?s @ [last ?s]"
    by (metis append_butlast_last_id butlast_conv_take length_list_update)
  moreover have "last ?s = ?l"
    using assms \<open>?s \<noteq> []\<close> by (simp add: last_conv_nth nth_list_update)
  ultimately have "mset ?s = add_mset ?l (mset (take (length m - 1) ?s))"
    by (metis add_mset_add_single mset_append mset_single_iff_right mset.simps(1) mset.simps(2))
  moreover have "mset ?s = add_mset ?l (mset m - {#m ! r#})"
    using assms by (rule mset_update)
  ultimately show ?thesis by simp
qed

definition fold_keys :: "urlmap \<Rightarrow> string list" where
  "fold_keys m = map (\<lambda>p. map tolower (key p)) m"

lemma field_lookup_Some_iff:
  assumes "distinct (fold_keys m)"
  shows "field_lookup m k = Some v \<longleftrightarrow> (\<exists>p \<in> set m. strcasecmp_eq k (key p) \<and> value p = v)"
  using assms by (induction m) (auto simp: fold_keys_def strcasecmp_eq_def field_lookup_None_iff)

lemma field_lookup_mset:
  assumes "distinct (fold_keys m)" and "mset m' = mset m - {#p#}" and "p \<in> set m"
  shows "field_lookup m' j = (if strcasecmp_eq j (key p) then None else field_lookup m j)"
proof -
  have m: "mset m = add_mset p (mset m')" using assms(2,3) by simp
  then have "mset (fold_keys m) = add_mset (map tolower (key p)) (mset (fold_keys m'))"
    by (simp add: fold_keys_def)
  then have d: "distinct (map tolower (key p) # fold_keys m')"
    using assms(1) by (metis mset.simps(2) mset_eq_imp_distinct_iff)
  then have d': "distinct (fold_keys m')" and n: "map tolower (key p) \<notin> set (fold_keys m')" by auto
  have "set m = insert p (set m')" using m by (metis set_mset_add_mset_insert set_mset_mset)
  then have "field_lookup m' j = Some v \<longleftrightarrow> \<not> strcasecmp_eq j (key p) \<and> field_lookup m j = Some v" for v
    using n unfolding field_lookup_Some_iff [OF d'] field_lookup_Some_iff [OF assms(1)]
    by (auto simp: fold_keys_def strcasecmp_eq_def)
  then show ?thesis
    by (metis not_Some_eq)
qed

section \<open>A field of one octet between two others\<close>

lemma drop_pair_text: "drop (Suc (length (pair_text p))) (pair_text p @ c # t) = t"
  by simp

lemma decode_empty_segment:
  assumes "pair_safe q"
  shows "urlmapdecode_loop junk (CHR ''&'' # map_text [q]) =
    Inr [\<lparr>key = [], value = None, valuelen = 0\<rparr>, q]"
proof -
  let ?s = "CHR ''&'' # map_text [q]"
  have "char_at ?s 2 \<noteq> CHR ''&''"
    using char_at_notin [OF pair_text_amp, of 1 q "[]"] assms
    by (simp add: pair_safe_def numeral_2_eq_2)
  then have "skip_amp ?s 1 = 1" by (metis one_add_one skip_amp_none)
  moreover have "decode_value ?s = Inr (None, 0)"
    by (auto simp: decode_value_def decode_key_end_def split: option.splits)
  moreover have "decode_key junk ?s = []"
    by (simp add: decode_key_def urldecodedup_def urldecode_eq url_text_def Let_def cstr_def)
  ultimately show ?thesis
    using urlmapdecode_loop_text [of "[q]" junk] assms
    by (subst urlmapdecode_loop.simps) simp
qed

lemma decode_one_octet_field:
  assumes "pair_safe p" and "pair_safe q" and "isalnum c"
  shows "urlmapdecode_loop junk (pair_text p @ CHR ''&'' # c # CHR ''&'' # map_text [q]) =
    Inr [p, \<lparr>key = [], value = None, valuelen = 0\<rparr>, q]"
proof -
  let ?q = "map_text [q]"
  let ?s = "pair_text p @ CHR ''&'' # c # CHR ''&'' # ?q"
  let ?n = "length (pair_text p) + 1"
  have "char_at ?s (?n + 1) = CHR ''&''" by (simp add: char_at_def nth_append)
  moreover have "char_at ?s (?n + 1 + 1) \<noteq> CHR ''&''"
    using char_at_notin [OF pair_text_amp, of 0 q "[]"] assms(2)
    by (simp add: char_at_def nth_append pair_safe_def)
  ultimately have "skip_amp ?s ?n = ?n + 1"
    by (metis skip_amp.simps skip_amp_none)
  then have "drop (skip_amp ?s ?n) ?s = CHR ''&'' # ?q" by simp
  then show ?thesis
    using urlmapdecode_loop_pair [of p "CHR ''&'' # c # CHR ''&'' # ?q" junk] assms(1)
      decode_empty_segment [OF assms(2), of junk]
    by (simp add: pair_safe_def pair_end_def)
qed

section \<open>Properties\<close>



text \<open>
  The array of the decoder is large enough: the pairs and the terminating one fit in
  the number of pairs allocated from the count of ampersands.
\<close>

theorem urlmapdecode_fits:
  assumes "urlmapdecode junk (Some s) = Inr (m, n)"
  shows "length m + 1 \<le> n"
proof -
  obtain "urlmapdecode_loop junk s = Inr m" "n = length (filter (\<lambda>c. c = CHR ''&'') s) + 3"
    using assms by (cases "urlmapdecode_loop junk s") (auto simp: urlmapdecode_def Let_def)
  then show ?thesis using urlmapdecode_loop_length [of junk s m] by simp
qed

theorem urlmapdecode_fits_witness:
  "urlmapdecode id (Some ''A=1&B=2'') =
     Inr ([\<lparr>key = ''A'', value = Some ''1'', valuelen = 1\<rparr>,
           \<lparr>key = ''B'', value = Some ''2'', valuelen = 1\<rparr>], 4) \<and>
   length [\<lparr>key = ''A'', value = Some ''1'', valuelen = 1\<rparr>,
           \<lparr>key = ''B'', value = Some ''2'', valuelen = 1\<rparr>] + 1 \<le> 4"
proof -
  have d: "urlmapdecode id (Some ''A=1&B=2'') =
     Inr ([\<lparr>key = ''A'', value = Some ''1'', valuelen = 1\<rparr>,
           \<lparr>key = ''B'', value = Some ''2'', valuelen = 1\<rparr>], 4)"
    by code_simp
  show ?thesis using d urlmapdecode_fits [OF d] by blast
qed

text \<open>
  \<open>urlmapnencode\<close> into \<open>len\<close> octets overruns its buffer by no more than the octets
  that escaping adds to a single value; where no value needs an escape the text and its
  NUL stay inside.
\<close>

theorem urlmapnencode_bound:
  assumes "list_all pair_ok m" and "\<forall>p \<in> set m. value_excess p \<le> E"
    and "urlmapnencode (Some ()) len (Some m) = Inr out"
  shows "int (length out) + 1 \<le> len + int E"
  using urlmapnencode_loop_bound [OF assms(1,2), of "[]" len out] assms(3)
  by (auto simp: urlmapnencode_def split: if_splits)

theorem urlmapnencode_bound_witness:
  "urlmapnencode (Some ()) 9 (Some [\<lparr>key = ''A'', value = Some ''1'', valuelen = 1\<rparr>]) = Inr ''A=1'' \<and>
   int (length ''A=1'') + 1 \<le> 9 + int 0"
proof -
  have e: "urlmapnencode (Some ()) 9 (Some [\<lparr>key = ''A'', value = Some ''1'', valuelen = 1\<rparr>]) = Inr ''A=1''"
    by code_simp
  have x: "\<forall>p \<in> set [\<lparr>key = ''A'', value = Some ''1'', valuelen = 1\<rparr>]. value_excess p \<le> 0"
    by code_simp
  show ?thesis using e urlmapnencode_bound [OF _ x e] by (simp add: pair_ok_def)
qed

text \<open>
  The check of the value length counts the octets before escaping: a value of two or
  more special octets is written past the end of a buffer it was accepted for, and the
  call reports success.
\<close>

theorem urlmapnencode_overflow:
  assumes "list_all (\<lambda>c. \<not> isalnum c) v" and "2 \<le> length v"
  shows "\<exists>out. urlmapnencode (Some ()) (int (length v) + 5)
           (Some [\<lparr>key = ''k'', value = Some v, valuelen = int (length v)\<rparr>]) = Inr out \<and>
         length out + 1 > length v + 5"
proof -
  let ?p = "\<lparr>key = ''k'', value = Some v, valuelen = int (length v)\<rparr>"
  have ok: "pair_ok ?p" using assms(2) by (auto simp: pair_ok_def)
  have esc: "url_escape ''k'' = ''k''" by (simp add: encode_char_def ctype_simps)
  have "urlmapnencode (Some ()) (int (length v) + 5) (Some [?p]) = Inr (''k='' @ url_escape v)"
    using pair_ok_key [OF ok] pair_ok_value [OF ok] esc
    by (simp add: urlmapnencode_def Let_def add_separator_def add_encoded_def)
  with length_url_escape_special [OF assms(1)] assms(2) show ?thesis by simp
qed

theorem urlmapnencode_overflow_witness:
  "\<exists>out. urlmapnencode (Some ()) (int (length ''//'') + 5)
           (Some [\<lparr>key = ''k'', value = Some ''//'', valuelen = int (length ''//'')\<rparr>]) = Inr out \<and>
         length out + 1 > length ''//'' + 5"
  by (rule urlmapnencode_overflow) (simp_all add: ctype_simps)

text \<open>
  \<open>urlmapencode\<close> makes the same mistake when it grows its own buffer: for a value of
  21 to 61 special octets the first allocation is kept and the text runs past its 65 octets.
\<close>

theorem urlmapencode_overflow:
  assumes "list_all (\<lambda>c. \<not> isalnum c) v" and "21 \<le> length v" and "length v \<le> 61"
  shows "\<exists>out. urlmapencode (Some [\<lparr>key = ''k'', value = Some v, valuelen = int (length v)\<rparr>]) =
           Some (out, 65) \<and> length out + 1 > 65"
proof -
  let ?p = "\<lparr>key = ''k'', value = Some v, valuelen = int (length v)\<rparr>"
  have ok: "pair_ok ?p" using assms(2) by (auto simp: pair_ok_def)
  have esc: "url_escape ''k'' = ''k''" by (simp add: encode_char_def ctype_simps)
  have "urlmapencode (Some [?p]) = Some (''k='' @ url_escape v, 65)"
    using pair_ok_key [OF ok] pair_ok_value [OF ok] esc assms(3)
    by (simp add: urlmapencode_def Let_def add_separator_def)
  with length_url_escape_special [OF assms(1)] assms(2) show ?thesis by simp
qed

theorem urlmapencode_overflow_witness:
  "\<exists>out. urlmapencode (Some [\<lparr>key = ''k'', value = Some (replicate 30 CHR ''/''),
        valuelen = int (length (replicate 30 CHR ''/''))\<rparr>]) = Some (out, 65) \<and> length out + 1 > 65"
  by (rule urlmapencode_overflow) (simp_all add: ctype_simps list_all_iff)

text \<open>
  A field of one octet and no value that stands between two others is lost: the loop
  that skips excess ampersands tests the octet after the one it stands on, takes the
  field for a separator, and the decoder returns a pair with an empty key in its place.
\<close>

theorem urlmapdecode_loses_field:
  assumes "pair_safe p" and "pair_safe q" and "isalnum c"
  shows "\<exists>text n size. urlmapencode (Some [p, \<lparr>key = [c], value = None, valuelen = 0\<rparr>, q]) = Some (text, n) \<and>
    urlmapdecode junk (Some text) = Inr ([p, \<lparr>key = [], value = None, valuelen = 0\<rparr>, q], size)"
proof -
  let ?c = "\<lparr>key = [c], value = None, valuelen = 0\<rparr>"
  have "NUL \<noteq> c" using assms(3) by auto
  then have "list_all pair_ok [p, ?c, q]"
    using assms by (simp add: pair_safe_def) (simp add: pair_ok_def)
  then obtain n where "urlmapencode (Some [p, ?c, q]) = Some (map_text [p, ?c, q], n)"
    using urlmapencode_loop_text [of "[p, ?c, q]" "[]" 64 65] by (auto simp: urlmapencode_def)
  moreover have "map_text [p, ?c, q] = pair_text p @ CHR ''&'' # c # CHR ''&'' # map_text [q]"
    using assms(3) by (simp add: pair_text_def [of ?c] encode_char_def)
  ultimately show ?thesis
    using decode_one_octet_field [OF assms, of junk] by (simp add: urlmapdecode_def Let_def)
qed

theorem urlmapdecode_loses_field_witness:
  "\<exists>text n size. urlmapencode (Some [\<lparr>key = ''A'', value = Some ''1'', valuelen = 1\<rparr>,
      \<lparr>key = ''x'', value = None, valuelen = 0\<rparr>, \<lparr>key = ''B'', value = Some ''2'', valuelen = 1\<rparr>]) = Some (text, n) \<and>
    urlmapdecode id (Some text) = Inr ([\<lparr>key = ''A'', value = Some ''1'', valuelen = 1\<rparr>,
      \<lparr>key = [], value = None, valuelen = 0\<rparr>, \<lparr>key = ''B'', value = Some ''2'', valuelen = 1\<rparr>], size)"
  by (rule urlmapdecode_loses_field) (simp_all add: pair_safe_def pair_ok_def pair_text_def ctype_simps encode_char_def)

text \<open>
  Deleting: where no two keys are equal up to case, \<open>urlmapdel\<close> returns whether the
  field was there, the field is gone, and every other field keeps its value although the
  last pair may have moved.
\<close>

theorem urlmapdel_lookup:
  assumes "distinct (fold_keys m)"
  shows "\<exists>m'. urlmapdel (Some m) (Some k) = (if map_lookup (Some m) k = None then 0 else 1, Some m') \<and>
    (\<forall>j. map_lookup (Some m') j = (if strcasecmp_eq j k then None else map_lookup (Some m) j))"
proof (cases rule: urlmapdel_scan_cases [of m k 0 None])
  case none
  then show ?thesis
    by (auto simp: urlmapdel_def map_lookup_eq field_lookup_None_iff strcasecmp_eq_def)
next
  case (some n)
  let ?m = "take (length m - 1) (m[n := m ! (length m - 1)])"
  have eq: "strcasecmp_eq j (key (m ! n)) \<longleftrightarrow> strcasecmp_eq j k" for j
    using some(3) by (auto simp: strcasecmp_eq_def)
  have "field_lookup m k \<noteq> None" using some by (auto simp: field_lookup_None_iff)
  moreover have "field_lookup ?m j = (if strcasecmp_eq j k then None else field_lookup m j)" for j
    using field_lookup_mset [OF assms mset_swap_last [OF some(2)] nth_mem [OF some(2)], of j] eq by simp
  ultimately show ?thesis using some(1) by (simp add: urlmapdel_def map_lookup_eq Let_def)
qed

theorem urlmapdel_lookup_witness:
  "\<exists>m'. urlmapdel (Some [\<lparr>key = ''A'', value = Some ''1'', valuelen = 1\<rparr>, \<lparr>key = ''B'', value = None, valuelen = 0\<rparr>])
          (Some ''a'') = (if map_lookup (Some [\<lparr>key = ''A'', value = Some ''1'', valuelen = 1\<rparr>,
              \<lparr>key = ''B'', value = None, valuelen = 0\<rparr>]) ''a'' = None then 0 else 1, Some m') \<and>
    (\<forall>j. map_lookup (Some m') j = (if strcasecmp_eq j ''a'' then None
       else map_lookup (Some [\<lparr>key = ''A'', value = Some ''1'', valuelen = 1\<rparr>, \<lparr>key = ''B'', value = None, valuelen = 0\<rparr>]) j))"
  by (rule urlmapdel_lookup) (simp add: fold_keys_def tolower_def isupper_def)

text \<open>
  \<open>urlmapdup\<close> copies: the new map equals the old one wherever keys have no NUL and
  the recorded lengths are those of the values.
\<close>

theorem urlmapdup_copy:
  assumes "list_all pair_ok m"
  shows "urlmapdup (Some m) = Some m"
proof -
  have "dup_pair p = p" if "pair_ok p" for p
    using that by (cases p) (auto simp: dup_pair_def pair_ok_def split: option.splits)
  with assms show ?thesis by (simp add: urlmapdup_def list_all_iff map_idI)
qed

theorem urlmapdup_copy_witness:
  "urlmapdup (Some [\<lparr>key = ''A'', value = Some ''1'', valuelen = 1\<rparr>]) =
     Some [\<lparr>key = ''A'', value = Some ''1'', valuelen = 1\<rparr>]"
  by (rule urlmapdup_copy) (simp add: pair_ok_def)

end
