(* ===== verification/SRBProtocol.thy ===== *)
theory SRBProtocol
  imports UrlMap
begin

text \<open>
  \<^verbatim>\<open>src/lib/SRBprotocol.c\<close> and \<^verbatim>\<open>src/include/SRBprotocol.h\<close>: SRB messages,
  their encoding and decoding, the framing of the receive buffer, and the messages the
  library sends. A connection holds the receive buffer and, for the model, the list of the
  messages handed to \<open>sendto\<close>; what the kernel answers is the parameter \<open>net\<close>. Tracing
  and logging are left out.
\<close>

section \<open>Constants\<close>

abbreviation SRBMESSAGEMAXLEN :: nat where "SRBMESSAGEMAXLEN \<equiv> 3500"
abbreviation SRBMAXCOMMANDLEN :: nat where "SRBMAXCOMMANDLEN \<equiv> 32"
abbreviation MWMAXSVCNAME :: nat where "MWMAXSVCNAME \<equiv> 33"

abbreviation SRB_REQUESTMARKER :: char where "SRB_REQUESTMARKER \<equiv> CHR ''?''"
abbreviation SRB_RESPONSEMARKER :: char where "SRB_RESPONSEMARKER \<equiv> CHR ''.''"
abbreviation SRB_NOTIFICATIONMARKER :: char where "SRB_NOTIFICATIONMARKER \<equiv> CHR ''!''"
abbreviation SRB_REJECTMARKER :: char where "SRB_REJECTMARKER \<equiv> CHR ''~''"

abbreviation CRLF :: string where "CRLF \<equiv> [CHR 0x0D, CHR 0x0A]"

text \<open>The return codes of the protocol and the text that goes with each.\<close>

definition srbreasons :: "(int \<times> string) list" where
  "srbreasons =
    [(0, ''Success''),
     (301, ''301: You are already connected''),
     (302, ''302: The message was unexpected''),
     (400, ''400: General Format Error''),
     (401, ''401: Required Field Missing''),
     (402, ''402: Field has Illegal Value''),
     (403, ''403: Request Legal only for Gateways''),
     (404, ''404: Do not accept reverse service calls''),
     (405, ''405: Autorization fileds are required''),
     (406, ''406: Authiozation fialed''),
     (410, ''410: Protocol Version Not Supported''),
     (411, ''411: Missing Init Request''),
     (412, ''412: This message command is not accepted as a notification''),
     (413, ''413: This message command is not accepted as a request''),
     (430, ''430: There are no service wich this given name''),
     (440, ''440: No instance with given name available''),
     (431, ''431: The service routine returned NOT OK''),
     (500, ''500: The Gateway had an internal error''),
     (501, ''501: You are already disconnected''),
     (520, ''520: Not accepting connections from Clients''),
     (521, ''521: Not accepting connections from Gateways'')]"

definition mw_srb_reason :: "int \<Rightarrow> string" where
  "mw_srb_reason rc =
     (case map_of srbreasons rc of Some reason \<Rightarrow> reason | None \<Rightarrow> ''Error: '' @ int_dec rc)"

definition mw_errno2srbrc :: "int \<Rightarrow> int" where
  "mw_errno2srbrc err =
     (let err = (if err < 0 then - err else err)
      in if err = errno_num ENOENT then 430
         else if err = errno_num EFAULT then 431
         else if err = errno_num ENOTCONN then 500
         else 600 + err)"

text \<open>How much data one message carries: 1000, or the environment's value when over 10.\<close>

definition srbdata_per_message :: "int option \<Rightarrow> nat" where
  "srbdata_per_message env =
     (case env of Some i \<Rightarrow> if i > 10 then nat i else 1000 | None \<Rightarrow> 1000)"

section \<open>Messages and connections\<close>

record srbmessage =
  command :: string
  marker :: char
  smap :: "urlmap option"

record connection =
  fd :: int
  rejects :: int
  sent :: "string list"
  messagebuffer :: bool
  som :: nat
  pending :: string
  boundary :: "nat option"

text \<open>
  \<open>som\<close> is the offset of the first octet not yet consumed, \<open>pending\<close> the
  \<open>leftover\<close> octets from there on, and \<open>boundary\<close> the remembered start of the next
  message boundary, as an offset in the buffer.
\<close>

section \<open>Fields of a message\<close>

definition vfill_step :: "srbmessage \<Rightarrow> string \<times> string option \<Rightarrow> srbmessage" where
  "vfill_step msg kv =
     (case kv of (k, v) \<Rightarrow>
        (case urlmapadd (smap msg) (Some k) v of
           Inr m \<Rightarrow> msg\<lparr>smap := m\<rparr>
         | Inl _ \<Rightarrow> msg\<lparr>smap := None\<rparr>))"

definition vfill_map :: "srbmessage \<Rightarrow> (string \<times> string option) list \<Rightarrow> srbmessage" where
  "vfill_map msg ap = foldl vfill_step msg ap"

definition mw_srb_init :: "srbmessage \<Rightarrow> string option \<Rightarrow> char \<Rightarrow> (string \<times> string option) list \<Rightarrow> srbmessage" where
  "mw_srb_init msg cmd mark ap =
     (let msg = (case cmd of
                   None \<Rightarrow> msg
                 | Some c \<Rightarrow> msg\<lparr>command := (if strlen c = SRBMAXCOMMANDLEN
                                          then take (SRBMAXCOMMANDLEN - 1) (strncpy c SRBMAXCOMMANDLEN)
                                          else strncpy c SRBMAXCOMMANDLEN)\<rparr>)
      in vfill_map (msg\<lparr>marker := mark, smap := None\<rparr>) ap)"

definition blank_message :: srbmessage where
  "blank_message = \<lparr>command = [], marker = NUL, smap = None\<rparr>"

definition mw_srb_create :: "string option \<Rightarrow> char \<Rightarrow> (string \<times> string option) list \<Rightarrow> srbmessage" where
  "mw_srb_create cmd mark ap = vfill_map (mw_srb_init blank_message cmd mark []) ap"

definition mw_srb_nsetfield :: "srbmessage \<Rightarrow> string option \<Rightarrow> string option \<Rightarrow> int \<Rightarrow> srbmessage" where
  "mw_srb_nsetfield msg k v vlen =
     (case k of
        None \<Rightarrow> msg
      | Some _ \<Rightarrow>
          (case urlmapnadd (smap msg) k v vlen of
             Inl _ \<Rightarrow> msg\<lparr>smap := snd (urlmapnset (smap msg) k v vlen)\<rparr>
           | Inr m \<Rightarrow> msg\<lparr>smap := m\<rparr>))"

definition mw_srb_setfield :: "srbmessage \<Rightarrow> string option \<Rightarrow> string option \<Rightarrow> srbmessage" where
  "mw_srb_setfield msg k v =
     (case k of
        None \<Rightarrow> msg
      | Some _ \<Rightarrow>
          (case urlmapadd (smap msg) k v of
             Inl _ \<Rightarrow> msg\<lparr>smap := snd (urlmapset (smap msg) k v)\<rparr>
           | Inr m \<Rightarrow> msg\<lparr>smap := m\<rparr>))"

definition mw_srb_setfieldi :: "srbmessage \<Rightarrow> string option \<Rightarrow> int \<Rightarrow> srbmessage" where
  "mw_srb_setfieldi msg k v =
     (case k of
        None \<Rightarrow> msg
      | Some _ \<Rightarrow>
          (case urlmapaddi (smap msg) k v of
             Inl _ \<Rightarrow> msg\<lparr>smap := snd (urlmapseti (smap msg) k v)\<rparr>
           | Inr m \<Rightarrow> msg\<lparr>smap := m\<rparr>))"

definition mw_srb_setfieldx :: "srbmessage \<Rightarrow> string option \<Rightarrow> 32 word \<Rightarrow> srbmessage" where
  "mw_srb_setfieldx msg k v = mw_srb_nsetfield msg k (Some (hex8_lower v)) 8"

definition mw_srb_getfield :: "srbmessage \<Rightarrow> string option \<Rightarrow> string option" where
  "mw_srb_getfield msg k = (case k of None \<Rightarrow> None | Some _ \<Rightarrow> urlmapgetvalue (smap msg) k)"

definition mw_srb_delfield :: "srbmessage \<Rightarrow> string option \<Rightarrow> srbmessage" where
  "mw_srb_delfield msg k = msg\<lparr>smap := snd (urlmapdel (smap msg) k)\<rparr>"

section \<open>Encoding and sending\<close>

text \<open>On an error the result holds what is in the buffer by then.\<close>

definition mw_srbencodemessage :: "srbmessage \<Rightarrow> int \<Rightarrow> (errno \<times> string) + string" where
  "mw_srbencodemessage msg bufflen =
     (if bufflen < int MWMAXSVCNAME + 2 then Inl (EMSGSIZE, [])
      else let buffer = take MWMAXSVCNAME (command msg) @ [marker msg];
               len1 = int (length buffer)
           in case urlmapnencode (Some ()) (int SRBMESSAGEMAXLEN - len1) (smap msg) of
                Inl (e, text) \<Rightarrow> Inl (e, buffer @ text)
              | Inr text \<Rightarrow>
                  if len1 + int (length text) > bufflen - 2 then Inl (EMSGSIZE, buffer @ text)
                  else Inr (buffer @ text @ CRLF))"

text \<open>\<open>_mw_conn_write\<close>: what was handed to the kernel, and its answer.\<close>

definition mw_conn_write :: "(string \<Rightarrow> int) \<Rightarrow> connection \<Rightarrow> string \<Rightarrow> int \<times> connection" where
  "mw_conn_write net conn m = (net m, conn\<lparr>sent := sent conn @ [m]\<rparr>)"

definition mw_srbsendmessage :: "(string \<Rightarrow> int) \<Rightarrow> connection \<Rightarrow> srbmessage \<Rightarrow> int \<times> connection" where
  "mw_srbsendmessage net conn msg =
     (case mw_srbencodemessage msg (int SRBMESSAGEMAXLEN + 1) of
        Inl (e, _) \<Rightarrow> (- errno_num e, conn)
      | Inr m \<Rightarrow> mw_conn_write net conn m)"

text \<open>The message is changed in place, so it is part of the result.\<close>

definition mw_srbsendreject ::
  "(string \<Rightarrow> int) \<Rightarrow> connection \<Rightarrow> srbmessage \<Rightarrow> string option \<Rightarrow> string option \<Rightarrow> int
   \<Rightarrow> int \<times> connection \<times> srbmessage" where
  "mw_srbsendreject net conn msg causefield causevalue rcode =
     (let msg = msg\<lparr>marker := SRB_REJECTMARKER\<rparr>
      in if rejects conn = 0 then (0, conn, msg)
         else let msg = mw_srb_setfieldi msg (Some ''REASONCODE'') rcode;
                  msg = mw_srb_setfield msg (Some ''REASON'') (Some (mw_srb_reason rcode));
                  msg = (if causefield \<noteq> None then mw_srb_setfield msg (Some ''CAUSEFIELD'') causefield else msg);
                  msg = (if causevalue \<noteq> None then mw_srb_setfield msg (Some ''CAUSEVALUE'') causevalue else msg);
                  (rc, conn) = mw_srbsendmessage net conn msg
              in (rc, conn, msg))"

definition reject_message :: "string \<Rightarrow> int \<Rightarrow> srbmessage" where
  "reject_message message off =
     (let msg = mw_srb_init blank_message (Some ''REJECT'') SRB_NOTIFICATIONMARKER
                  [(''REASON'', Some (mw_srb_reason 400)), (''MESSAGE'', Some message)];
          msg = mw_srb_setfieldi msg (Some ''REASONCODE'') 400
      in if off > 0 then mw_srb_setfieldi msg (Some ''OFFSET'') off else msg)"

definition mw_srbsendreject_sz :: "(string \<Rightarrow> int) \<Rightarrow> connection \<Rightarrow> string \<Rightarrow> int \<Rightarrow> int \<times> connection" where
  "mw_srbsendreject_sz net conn message off =
     (if rejects conn = 0 then (0, conn)
      else mw_srbsendmessage net conn (reject_message message off))"

text \<open>Events and subscriptions.\<close>

definition event_message ::
  "string \<Rightarrow> string option \<Rightarrow> int \<Rightarrow> string option \<Rightarrow> string option \<Rightarrow> srbmessage" where
  "event_message event data datalen username clientname =
     (let msg = \<lparr>command = strncpy ''EVENT'' SRBMAXCOMMANDLEN, marker = SRB_NOTIFICATIONMARKER, smap = None\<rparr>;
          msg = mw_srb_setfield msg (Some ''NAME'') (Some event);
          msg = (if data \<noteq> None then mw_srb_nsetfield msg (Some ''DATA'') data datalen else msg);
          msg = (if username \<noteq> None then mw_srb_setfield msg (Some ''USER'') username else msg)
      in if clientname \<noteq> None then mw_srb_setfield msg (Some ''CLIENTNAME'') clientname else msg)"

definition mw_srbsendevent ::
  "(string \<Rightarrow> int) \<Rightarrow> nat \<Rightarrow> connection \<Rightarrow> string \<Rightarrow> string option \<Rightarrow> int \<Rightarrow> string option \<Rightarrow> string option
   \<Rightarrow> int \<times> connection" where
  "mw_srbsendevent net per conn event data datalen username clientname =
     (if data \<noteq> None \<and> datalen > int per then (- errno_num ENOSYS, conn)
      else mw_srbsendmessage net conn (event_message event data datalen username clientname))"

definition mw_srbsendsubscribe ::
  "(string \<Rightarrow> int) \<Rightarrow> connection \<Rightarrow> string \<Rightarrow> int \<Rightarrow> 32 word \<Rightarrow> int \<times> connection" where
  "mw_srbsendsubscribe net conn pat subid flags =
     (let msg = \<lparr>command = strncpy ''SUBSCRIBE'' SRBMAXCOMMANDLEN, marker = SRB_NOTIFICATIONMARKER, smap = None\<rparr>;
          msg = mw_srb_setfield msg (Some ''PATTERN'') (Some pat);
          msg = mw_srb_setfieldi msg (Some ''SUBSCRIPTIONID'') subid;
          msg = mw_srb_setfield msg (Some ''MATCH'') (Some
                  (if flags AND 0x00100000 \<noteq> 0 then ''GLOB''
                   else if flags AND 0x00200000 \<noteq> 0 then ''REGEXP''
                   else if flags AND 0x00400000 \<noteq> 0 then ''EXTREGEXP''
                   else ''STRING''))
      in mw_srbsendmessage net conn msg)"

definition mw_srbsendunsubscribe :: "(string \<Rightarrow> int) \<Rightarrow> connection \<Rightarrow> int \<Rightarrow> int \<times> connection" where
  "mw_srbsendunsubscribe net conn subid =
     (let msg = \<lparr>command = strncpy ''UNSUBSCRIBE'' SRBMAXCOMMANDLEN, marker = SRB_NOTIFICATIONMARKER, smap = None\<rparr>
      in mw_srbsendmessage net conn (mw_srb_setfieldi msg (Some ''SUBSCRIPTIONID'') subid))"

text \<open>Session control.\<close>

definition mw_srbsendterm :: "(string \<Rightarrow> int) \<Rightarrow> connection \<Rightarrow> int \<Rightarrow> int \<times> connection" where
  "mw_srbsendterm net conn grace =
     (let msg = \<lparr>command = strncpy ''TERM'' SRBMAXCOMMANDLEN, marker = SRB_NOTIFICATIONMARKER, smap = None\<rparr>;
          msg = (if grace = -1 then msg\<lparr>marker := SRB_NOTIFICATIONMARKER\<rparr>
                 else mw_srb_setfieldi (msg\<lparr>marker := SRB_REQUESTMARKER\<rparr>) (Some ''GRACE'') grace)
      in mw_srbsendmessage net conn msg)"

record mwcred =
  username :: "string option"
  password :: "string option"

definition init_message :: "mwcred option \<Rightarrow> string \<Rightarrow> string option \<Rightarrow> srbmessage" where
  "init_message cred name domain =
     (let msg = mw_srb_init blank_message (Some ''SRB INIT'') SRB_REQUESTMARKER
                  [(''VERSION'', Some ''0.9''), (''TYPE'', Some ''CLIENT''), (''NAME'', Some name)];
          user = Option.bind cred username;
          auth = (if user \<noteq> None then ''PASS'' else ''NONE'');
          msg = (if user \<noteq> None then mw_srb_setfield msg (Some ''USER'') user else msg);
          pass = Option.bind cred password;
          msg = (if pass \<noteq> None then mw_srb_setfield msg (Some ''PASSWORD'') pass else msg);
          msg = (if domain \<noteq> None then mw_srb_setfield msg (Some ''DOMAIN'') domain else msg)
      in mw_srb_setfield msg (Some ''AUTHENTICATION'') (Some auth))"

definition mw_srbsendinit ::
  "(string \<Rightarrow> int) \<Rightarrow> connection option \<Rightarrow> mwcred option \<Rightarrow> string option \<Rightarrow> string option
   \<Rightarrow> int \<times> connection option" where
  "mw_srbsendinit net conn cred name domain =
     (case (name, conn) of
        (Some n, Some c) \<Rightarrow>
          map_prod id Some (mw_srbsendmessage net c (init_message cred n domain))
      | _ \<Rightarrow> (- errno_num EINVAL, conn))"

section \<open>Service calls\<close>

text \<open>
  The chunks of the additional data. The loop ends for every positive chunk size; the
  code's is at least 11. The result adds the return values of the sends, as the code does.
\<close>

function senddata_loop ::
  "(string \<Rightarrow> int) \<Rightarrow> nat \<Rightarrow> connection \<Rightarrow> srbmessage \<Rightarrow> string \<Rightarrow> int \<Rightarrow> int \<times> connection" where
  "senddata_loop net per conn msg data rclen =
     (let l = min per (length data);
          msg = mw_srb_nsetfield msg (Some ''DATA'') (Some data) (int l);
          (rc, conn) = mw_srbsendmessage net conn msg;
          data = drop l data
      in if length data > 0 \<and> l > 0 then senddata_loop net per conn msg data (rclen + rc)
         else (rclen + rc, conn))"
  by pat_completeness auto
termination
  by (relation "measure (\<lambda>(net, per, conn, msg, data, rclen). length data)") auto

declare senddata_loop.simps [simp del]

definition mw_srbsenddata ::
  "(string \<Rightarrow> int) \<Rightarrow> nat \<Rightarrow> connection \<Rightarrow> string \<Rightarrow> string \<Rightarrow> int \<times> connection" where
  "mw_srbsenddata net per conn handle data =
     senddata_loop net per conn
       (mw_srb_init blank_message (Some ''SVCDATA'') SRB_NOTIFICATIONMARKER [(''HANDLE'', Some handle)])
       data 0"

text \<open>
  \<open>hdl0\<close> is what the handle buffer holds before it is written, which happens only when a
  reply is expected. \<open>_mw_deadline\<close> returns 0 on every path, so the field SECTOLIVE is
  never set; its result is the parameter \<open>ttl\<close>.
\<close>

abbreviation MWNOREPLY :: "32 word" where "MWNOREPLY \<equiv> 1"

definition mw_deadline :: "int option" where
  "mw_deadline = None"

definition call_message ::
  "nat \<Rightarrow> int option \<Rightarrow> 32 word \<Rightarrow> string \<Rightarrow> string option \<Rightarrow> nat \<Rightarrow> 32 word \<Rightarrow> srbmessage" where
  "call_message per ttl handle svcname data datalen flags =
     (let msg = (if flags AND MWNOREPLY \<noteq> 0
                 then mw_srb_init blank_message (Some ''SVCCALL'') SRB_NOTIFICATIONMARKER []
                 else mw_srb_nsetfield (mw_srb_init blank_message (Some ''SVCCALL'') SRB_REQUESTMARKER [])
                        (Some ''HANDLE'') (Some (hex8_upper handle)) 8);
          msg = mw_srb_setfield msg (Some ''SVCNAME'') (Some svcname);
          msg = (case data of
                   None \<Rightarrow> msg
                 | Some _ \<Rightarrow>
                     (if datalen > per
                      then mw_srb_nsetfield (mw_srb_setfieldi msg (Some ''DATATOTAL'') (int datalen))
                             (Some ''DATA'') data (int per)
                      else mw_srb_nsetfield msg (Some ''DATA'') data (int datalen)));
          msg = (case ttl of None \<Rightarrow> msg | Some t \<Rightarrow> mw_srb_setfieldi msg (Some ''SECTOLIVE'') t)
      in mw_srb_setfieldi msg (Some ''HOPS'') 0)"

definition mw_srbsendcall ::
  "(string \<Rightarrow> int) \<Rightarrow> nat \<Rightarrow> string \<Rightarrow> connection \<Rightarrow> 32 word \<Rightarrow> string \<Rightarrow> string option \<Rightarrow> nat \<Rightarrow> 32 word
   \<Rightarrow> int \<times> connection" where
  "mw_srbsendcall net per hdl0 conn handle svcname data datalen flags =
     (let hdlbuf = (if flags AND MWNOREPLY \<noteq> 0 then hdl0 else hex8_upper handle);
          datalen = (case data of Some d \<Rightarrow> if datalen = 0 then strlen d else datalen | None \<Rightarrow> datalen);
          datarem = (case data of Some _ \<Rightarrow> datalen - per | None \<Rightarrow> 0);
          (rc, conn) = mw_srbsendmessage net conn
            (call_message per mw_deadline handle svcname data datalen flags)
      in if rc \<ge> 0 \<and> datarem > 0
         then let (rc2, conn) = mw_srbsenddata net per conn hdlbuf (take datarem (drop per (the data)))
              in (rc + rc2, conn)
         else (rc, conn))"

section \<open>Checks on a reply\<close>

definition mw_get_returncode :: "urlmap option \<Rightarrow> int" where
  "mw_get_returncode mp =
     (case urlmapget mp (Some ''RETURNCODE'') of
        Inl _ \<Rightarrow> -1
      | Inr idx \<Rightarrow>
          (let p = the mp ! idx
           in if valuelen p = 1 \<or> valuelen p = 3
              then let buf = take (nat (valuelen p)) (the (value p))
                   in if list_all isdigit buf then int (digits_val buf) else -2
              else -2))"

definition returncode_ok :: "urlpair \<Rightarrow> bool" where
  "returncode_ok p \<longleftrightarrow>
     (valuelen p = 1 \<and> isdigit (char_at (the (value p)) 0)) \<or>
     (valuelen p = 3 \<and> isdigit (char_at (the (value p)) 0) \<and> isdigit (char_at (the (value p)) 1)
        \<and> isdigit (char_at (the (value p)) 2))"

definition mw_srb_checksrbcall ::
  "(string \<Rightarrow> int) \<Rightarrow> connection \<Rightarrow> srbmessage \<Rightarrow> int \<times> connection \<times> srbmessage" where
  "mw_srb_checksrbcall net conn msg =
     (let reject = (\<lambda>field v rcode. map_prod (\<lambda>_. 0) id (mw_srbsendreject net conn msg (Some field) v rcode))
      in case urlmapget (smap msg) (Some ''HANDLE'') of
           Inl _ \<Rightarrow> reject ''HANDLE'' None 401
         | Inr _ \<Rightarrow>
           (case urlmapget (smap msg) (Some ''RETURNCODE'') of
              Inl _ \<Rightarrow> reject ''RETURNCODE'' None 401
            | Inr idx \<Rightarrow>
              (let p = the (smap msg) ! idx
               in if returncode_ok p
                  then case urlmapget (smap msg) (Some ''APPLICATIONRC'') of
                         Inl _ \<Rightarrow> reject ''APPLICATIONRC'' None 401
                       | Inr _ \<Rightarrow> (1, conn, msg)
                  else reject ''RETURNCODE'' (value p) 402)))"

section \<open>Decoding\<close>

definition is_marker :: "char \<Rightarrow> bool" where
  "is_marker c \<longleftrightarrow> c = SRB_REQUESTMARKER \<or> c = SRB_RESPONSEMARKER \<or>
     c = SRB_NOTIFICATIONMARKER \<or> c = SRB_REJECTMARKER"

fun findMarker :: "string \<Rightarrow> nat option" where
  "findMarker [] = None"
| "findMarker (c # s) = (if is_marker c then Some 0 else map_option Suc (findMarker s))"

text \<open>
  The message is a string of its length's octets; a carriage return two octets before its
  end cuts it there. For a message shorter than two octets the code looks before its
  start, where the model finds no carriage return.
\<close>

definition message_text :: "string \<Rightarrow> string" where
  "message_text message =
     (let n = length message
      in cstr (if 2 \<le> n \<and> message ! (n - 2) = CHR 0x0D then take (n - 2) message else message))"

definition mw_srbdecodemessage ::
  "(string \<Rightarrow> int) \<Rightarrow> (string \<Rightarrow> string) \<Rightarrow> connection \<Rightarrow> string \<Rightarrow> (errno + srbmessage) \<times> connection" where
  "mw_srbdecodemessage net junk conn message =
     (let text = message_text message
      in case findMarker text of
           None \<Rightarrow> (Inl EBADMSG, snd (mw_srbsendreject_sz net conn text (-1)))
         | Some commandlen \<Rightarrow>
             if text ! commandlen = SRB_REJECTMARKER then (Inl EBADMSG, conn)
             else if commandlen > 32
             then (Inl EBADMSG, snd (mw_srbsendreject_sz net conn text (int commandlen)))
             else (case urlmapdecode junk (Some (drop (commandlen + 1) text)) of
                     Inl _ \<Rightarrow> (Inl EBADMSG, snd (mw_srbsendreject_sz net conn text (-1)))
                   | Inr (m, _) \<Rightarrow>
                       (Inr \<lparr>command = take commandlen text, marker = text ! commandlen, smap = Some m\<rparr>, conn)))"

section \<open>Receiving\<close>

text \<open>\<open>strstr\<close> for the message boundary, in a NUL terminated buffer.\<close>

fun find_boundary :: "string \<Rightarrow> nat option" where
  "find_boundary (a # b # s) =
     (if a = NUL then None
      else if a = CHR 0x0D \<and> b = CHR 0x0A then Some 0
      else map_option Suc (find_boundary (b # s)))"
| "find_boundary _ = None"

text \<open>
  One attempt to take a message from the buffer; the failed assertion on a boundary beyond
  the buffered octets ends the process. A boundary that lies inside them leaves room for
  its two octets, unless it is one remembered from before the buffer was emptied.
\<close>

datatype read_outcome = Message srbmessage | NoMessage | Refused errno | AssertFailed

definition read_message_from_connbuffer ::
  "(string \<Rightarrow> int) \<Rightarrow> (string \<Rightarrow> string) \<Rightarrow> connection \<Rightarrow> read_outcome \<times> connection" where
  "read_message_from_connbuffer net junk conn =
     (if \<not> messagebuffer conn
      then (NoMessage, conn\<lparr>messagebuffer := True, pending := [], som := 0\<rparr>)
      else if pending conn = [] then (NoMessage, conn\<lparr>som := 0\<rparr>)
      else let conn = (case boundary conn of
                         Some _ \<Rightarrow> conn
                       | None \<Rightarrow> conn\<lparr>boundary := map_option ((+) (som conn)) (find_boundary (pending conn))\<rparr>)
           in case boundary conn of
                None \<Rightarrow> (NoMessage, conn\<lparr>som := 0\<rparr>)
              | Some b \<Rightarrow>
                  (let msglen = int b - int (som conn)
                   in if msglen > int (length (pending conn)) then (AssertFailed, conn)
                      else if msglen \<ge> int SRBMESSAGEMAXLEN
                      then (Refused EBADMSG, conn\<lparr>pending := []\<rparr>)
                      else case mw_srbdecodemessage net junk conn (take (nat msglen) (pending conn)) of
                             (Inl e, conn) \<Rightarrow> (Refused e, conn\<lparr>pending := [], som := 0\<rparr>)
                           | (Inr msg, conn) \<Rightarrow>
                               (Message msg, conn\<lparr>pending := drop (nat msglen + 2) (pending conn),
                                                 som := b + 2, boundary := None\<rparr>)))"

text \<open>
  \<open>_mw_conn_read\<close> for a stream: \<open>recvfrom\<close> is a list of its coming answers, octets that
  have arrived, the end of the stream, an error. It is asked for what the buffer has room
  for, counted in an unsigned long; the octets that do not fit stay for the next call, and
  a request for no octets answers 0, like the end of the stream. The result is the answer
  seen by the caller; \<open>None\<close> is a call still waiting when the list ends.
\<close>

datatype recv_result = RData string | REof | RErr errno

definition maxrecvlen :: "connection \<Rightarrow> 64 word" where
  "maxrecvlen conn = word_of_nat SRBMESSAGEMAXLEN - word_of_nat (som conn + length (pending conn))"

definition mw_conn_read ::
  "connection \<Rightarrow> recv_result list \<Rightarrow> (recv_result \<times> connection \<times> recv_result list) option" where
  "mw_conn_read conn rs =
     (if fd conn = -1 then Some (REof, conn, rs)
      else case rs of
             [] \<Rightarrow> None
           | RData d # rs' \<Rightarrow>
               (let n = unat (maxrecvlen conn); got = take n d; left = drop n d
                in if got = [] then Some (REof, conn, rs)
                   else Some (RData got, conn\<lparr>pending := pending conn @ got\<rparr>,
                              if left = [] then rs' else RData left # rs'))
           | r # rs' \<Rightarrow> Some (r, conn, rs'))"

definition arrivals :: "recv_result list \<Rightarrow> nat" where
  "arrivals rs = sum_list (map (\<lambda>r. case r of RData d \<Rightarrow> 1 + length d | _ \<Rightarrow> 1) rs)"

lemma mw_conn_read_arrivals:
  "mw_conn_read conn rs = Some (r, conn', rs') \<Longrightarrow> r \<noteq> REof \<Longrightarrow> arrivals rs' < arrivals rs"
  by (auto simp: mw_conn_read_def arrivals_def Let_def split: if_splits list.splits recv_result.splits)

definition recheck_boundary :: "connection \<Rightarrow> connection" where
  "recheck_boundary conn = conn\<lparr>boundary := map_option ((+) (som conn)) (find_boundary (pending conn))\<rparr>"

text \<open>
  The loop. An error other than EAGAIN meets the condition
  \<^verbatim>\<open>(errno == EAGAIN) || (errno = EINTR)\<close>, an assignment, and is retried. The
  boundary looked up again after the end of the stream has no further use.
\<close>

function recv_loop ::
  "(string \<Rightarrow> int) \<Rightarrow> (string \<Rightarrow> string) \<Rightarrow> bool \<Rightarrow> connection \<Rightarrow> recv_result list
   \<Rightarrow> (read_outcome \<times> connection \<times> recv_result list) option" where
  "recv_loop net junk blocking conn rs =
     (case mw_conn_read conn rs of
        None \<Rightarrow> None
      | Some (r, conn, rs) \<Rightarrow>
          if r = RErr EAGAIN \<and> \<not> blocking then Some (Refused EAGAIN, conn, rs)
          else (case read_message_from_connbuffer net junk conn of (m, conn) \<Rightarrow>
                 (case m of
                    AssertFailed \<Rightarrow> Some (m, conn, rs)
                  | Message msg \<Rightarrow> Some (m, recheck_boundary conn, rs)
                  | _ \<Rightarrow> if r = REof then Some (Refused EPIPE, recheck_boundary conn, rs)
                         else recv_loop net junk blocking conn rs)))"
  by pat_completeness auto
termination
  by (relation "measure (\<lambda>(net, junk, blocking, conn, rs). arrivals rs)")
    (auto dest: mw_conn_read_arrivals)

declare recv_loop.simps [simp del]

definition mw_srb_recvmessage ::
  "(string \<Rightarrow> int) \<Rightarrow> (string \<Rightarrow> string) \<Rightarrow> connection \<Rightarrow> 32 word \<Rightarrow> recv_result list
   \<Rightarrow> (read_outcome \<times> connection \<times> recv_result list) option" where
  "mw_srb_recvmessage net junk conn flags rs =
     (let blocking = (flags AND 2 = 0)
      in case read_message_from_connbuffer net junk conn of (m, conn) \<Rightarrow>
        (case m of
           Message msg \<Rightarrow> Some (m, recheck_boundary conn, rs)
         | AssertFailed \<Rightarrow> Some (m, conn, rs)
         | _ \<Rightarrow>
             if fd conn = -1 then Some (Refused EPIPE, conn, rs)
             else recv_loop net junk blocking conn rs))"

section \<open>Setting and reading fields\<close>

lemma nsetfield_store:
  assumes "l \<le> length d"
  shows "smap (mw_srb_nsetfield msg (Some k) (Some d) (int l)) =
    (case map_add (smap msg) k (Some (take l d)) of
       None \<Rightarrow> map_set (smap msg) k (Some (take l d)) | Some m \<Rightarrow> m)"
proof -
  have "urlmapnadd (smap msg) (Some k) (Some d) (int l) =
        urlmapnadd (smap msg) (Some k) (Some (take l d)) (int (length (take l d)))"
    using assms by (simp add: urlmapnadd_def new_pair_def min_absorb2)
  moreover have "set_pair (Some d) (int l) = set_pair (Some (take l d)) (int (length (take l d)))"
    using assms by (simp add: set_pair_def fun_eq_iff min_absorb2)
  ultimately show ?thesis
    by (simp add: mw_srb_nsetfield_def map_add_def map_set_def urlmapnset_def split: sum.splits)
qed

lemma setfield_store:
  assumes "NUL \<notin> set v"
  shows "smap (mw_srb_setfield msg (Some k) (Some v)) =
    (case map_add (smap msg) k (Some v) of None \<Rightarrow> map_set (smap msg) k (Some v) | Some m \<Rightarrow> m)"
  using assms
  by (simp add: mw_srb_setfield_def urlmapadd_def urlmapset_def value_strlen_def map_add_def map_set_def
      split: sum.splits)

lemma setfieldi_store:
  "smap (mw_srb_setfieldi msg (Some k) i) =
    (case map_add (smap msg) k (Some (int_dec i)) of
       None \<Rightarrow> map_set (smap msg) k (Some (int_dec i)) | Some m \<Rightarrow> m)"
  by (simp add: mw_srb_setfieldi_def urlmapaddi_def urlmapseti_def map_add_def map_set_def
      split: sum.splits)

lemma getfield_lookup:
  "mw_srb_getfield msg (Some k) = (case map_lookup (smap msg) k of None \<Rightarrow> None | Some v \<Rightarrow> v)"
  by (simp add: mw_srb_getfield_def urlmapgetvalue_lookup)

section \<open>The text of a message\<close>

definition command_ok :: "string \<Rightarrow> bool" where
  "command_ok c \<longleftrightarrow> length c \<le> 32 \<and> list_all (\<lambda>x. \<not> is_marker x \<and> x \<noteq> NUL \<and> x \<noteq> CHR 0x0D) c"

definition message_ok :: "srbmessage \<Rightarrow> bool" where
  "message_ok msg \<longleftrightarrow> command_ok (command msg) \<and>
     marker msg \<in> {SRB_REQUESTMARKER, SRB_RESPONSEMARKER, SRB_NOTIFICATIONMARKER} \<and>
     (\<exists>m. smap msg = Some m \<and> m \<noteq> [] \<and> list_all pair_safe m)"

definition message_body :: "srbmessage \<Rightarrow> string" where
  "message_body msg = command msg @ marker msg # map_text (the (smap msg))"

definition field_char :: "char \<Rightarrow> bool" where
  "field_char c \<longleftrightarrow> encoded_char c \<or> c = CHR ''&'' \<or> c = CHR ''=''"

lemma map_text_chars: "list_all field_char (map_text m)"
proof (induction m)
  case (Cons p m)
  have "list_all field_char (url_escape s)" for s
    using url_escape_encoded [of s] by (auto simp: list_all_iff field_char_def)
  moreover have "field_char CHR ''&''" "field_char CHR ''=''"
    by (simp_all add: field_char_def)
  ultimately show ?case using Cons
    by (simp add: map_text_Cons pair_text_def split: option.splits)
qed simp

lemma field_char_neq [simp]: "\<not> field_char NUL" "\<not> field_char CHR 0x0D"
  by (simp_all add: field_char_def encoded_char_def ctype_simps)

lemma map_text_notin: "NUL \<notin> set (map_text m)" "CHR 0x0D \<notin> set (map_text m)"
  using map_text_chars [of m] field_char_neq by (auto simp: list_all_iff)

lemma map_text_long: "m \<noteq> [] \<Longrightarrow> list_all pair_safe m \<Longrightarrow> 2 \<le> length (map_text m)"
  by (cases m) (auto simp: map_text_Cons pair_safe_def)

lemma message_body_notin:
  assumes "message_ok msg"
  shows "NUL \<notin> set (message_body msg)" "CHR 0x0D \<notin> set (message_body msg)"
  using assms map_text_notin
  by (auto simp: message_ok_def message_body_def command_ok_def list_all_iff)

lemma encode_body:
  assumes "message_ok msg" and "mw_srbencodemessage msg n = Inr out"
  shows "out = message_body msg @ CRLF"
proof -
  from assms(1) obtain m where m: "smap msg = Some m" "list_all pair_ok m"
    by (auto simp: message_ok_def dest: pair_safe_ok)
  have c: "take 33 (command msg) = command msg"
    using assms(1) by (simp add: message_ok_def command_ok_def)
  have "tx = map_text m" if "urlmapnencode (Some ()) l (Some m) = Inr tx" for l tx
    using urlmapnencode_loop_text [OF m(2), of l "[]" tx] that
    by (auto simp: urlmapnencode_def split: if_splits)
  with assms(2) show ?thesis
    by (auto simp: mw_srbencodemessage_def Let_def c m(1) message_body_def split: if_splits sum.splits)
qed

lemma encode_length:
  assumes "mw_srbencodemessage msg n = Inr out"
  shows "int (length out) \<le> n"
  using assms by (auto simp: mw_srbencodemessage_def Let_def split: if_splits sum.splits)

lemma findMarker_append:
  "list_all (\<lambda>x. \<not> is_marker x) s \<Longrightarrow> is_marker x \<Longrightarrow> findMarker (s @ x # t) = Some (length s)"
  by (induction s) auto

lemma findMarker_None: "list_all (\<lambda>x. \<not> is_marker x) s \<Longrightarrow> findMarker s = None"
  by (induction s) auto

lemma message_text_body:
  assumes "message_ok msg"
  shows "message_text (message_body msg) = message_body msg"
proof -
  let ?b = "message_body msg"
  have "?b ! (length ?b - 2) \<noteq> CHR 0x0D" if "2 \<le> length ?b"
  proof -
    from that have "length ?b - 2 < length ?b" by linarith
    from nth_mem [OF this] message_body_notin(2) [OF assms] show ?thesis by metis
  qed
  then show ?thesis
    using message_body_notin(1) [OF assms] by (auto simp: message_text_def Let_def)
qed

lemma decode_body:
  assumes "message_ok msg"
  shows "mw_srbdecodemessage net junk conn (message_body msg) = (Inr msg, conn)"
proof -
  from assms obtain m where m: "smap msg = Some m" "m \<noteq> []" "list_all pair_safe m"
    by (auto simp: message_ok_def)
  have mk: "is_marker (marker msg)" "marker msg \<noteq> SRB_REJECTMARKER"
    using assms by (auto simp: message_ok_def is_marker_def)
  have "list_all (\<lambda>x. \<not> is_marker x) (command msg)" "length (command msg) \<le> 32"
    using assms by (auto simp: message_ok_def command_ok_def list_all_iff)
  then have "findMarker (message_body msg) = Some (length (command msg))"
    using mk by (simp add: message_body_def findMarker_append)
  moreover have "urlmapdecode junk (Some (map_text m)) = Inr (m, length (filter (\<lambda>c. c = CHR ''&'') (map_text m)) + 3)"
    using urlmapdecode_loop_text [OF m(3,2), of junk] by (simp add: urlmapdecode_def Let_def)
  ultimately show ?thesis
    using mk \<open>length (command msg) \<le> 32\<close> m(1)
    by (simp add: mw_srbdecodemessage_def message_text_body [OF assms] Let_def)
      (simp add: message_body_def)
qed

section \<open>Framing\<close>

lemma find_boundary_append:
  "NUL \<notin> set s \<Longrightarrow> CHR 0x0D \<notin> set s \<Longrightarrow> find_boundary (s @ CRLF @ t) = Some (length s)"
proof (induction s)
  case (Cons a s)
  then show ?case by (cases s) auto
qed simp

text \<open>What holds of a connection between two calls: a remembered boundary is the next one.\<close>

definition framed :: "connection \<Rightarrow> bool" where
  "framed conn \<longleftrightarrow> messagebuffer conn \<and>
     (boundary conn = None \<or> boundary conn = map_option ((+) (som conn)) (find_boundary (pending conn)))"

lemma read_message_framed:
  assumes "message_ok msg" and "mw_srbencodemessage msg 3501 = Inr out" and "framed conn"
    and "pending conn = out @ rest"
  shows "read_message_from_connbuffer net junk conn =
    (Message msg, conn\<lparr>pending := rest, som := som conn + length out, boundary := None\<rparr>)"
proof -
  let ?b = "message_body msg"
  have out: "out = ?b @ CRLF" by (rule encode_body [OF assms(1,2)])
  have len: "int (length ?b) < 3500" using encode_length [OF assms(2)] by (simp add: out)
  have "find_boundary (pending conn) = Some (length ?b)"
    using find_boundary_append [OF message_body_notin [OF assms(1)], of rest] by (simp add: assms(4) out)
  with assms(3) have b: "(case boundary conn of Some _ \<Rightarrow> conn
      | None \<Rightarrow> conn\<lparr>boundary := map_option ((+) (som conn)) (find_boundary (pending conn))\<rparr>) =
      conn\<lparr>boundary := Some (som conn + length ?b)\<rparr>"
    by (auto simp: framed_def)
  have ne: "pending conn \<noteq> []" "take (length ?b) (pending conn) = ?b"
    "drop (Suc (Suc (length ?b))) (pending conn) = rest" "length ?b \<le> length (pending conn)"
    by (simp_all add: assms(4) out)
  show ?thesis
    unfolding read_message_from_connbuffer_def
    using assms(3) ne len
    by (simp add: b decode_body [OF assms(1)] framed_def Let_def out)
qed


section \<open>Receiving a stream\<close>

lemma find_boundary_partial: "CHR 0x0D \<notin> set (butlast s) \<Longrightarrow> find_boundary s = None"
  by (induction s rule: find_boundary.induct) auto

text \<open>The octets in use stay within the message size, so the room is counted without wrap-around.\<close>

definition conn_fits :: "connection \<Rightarrow> bool" where
  "conn_fits conn \<longleftrightarrow> som conn + length (pending conn) \<le> SRBMESSAGEMAXLEN"

lemma maxrecvlen_fits:
  assumes "conn_fits conn"
  shows "unat (maxrecvlen conn) = SRBMESSAGEMAXLEN - (som conn + length (pending conn))"
proof -
  let ?n = "som conn + length (pending conn)"
  have n: "?n \<le> 3500" using assms by (simp add: conn_fits_def)
  then have "(word_of_nat 3500 :: 64 word) - word_of_nat ?n = word_of_nat (3500 - ?n)"
    by (simp only: of_nat_diff)
  then show ?thesis
    by (simp add: maxrecvlen_def unat_of_nat take_bit_nat_eq_self flip: of_nat_add)
qed

lemma mw_conn_read_fits:
  assumes "conn_fits conn" and "mw_conn_read conn rs = Some (r, conn', rs')"
  shows "conn_fits conn'"
  using assms maxrecvlen_fits [OF assms(1)]
  by (auto simp: mw_conn_read_def conn_fits_def Let_def split: if_splits list.splits recv_result.splits)

lemma read_message_partial:
  assumes "framed conn" and "find_boundary (pending conn) = None"
  shows "read_message_from_connbuffer net junk conn = (NoMessage, conn\<lparr>som := 0, boundary := None\<rparr>)"
  using assms by (auto simp: read_message_from_connbuffer_def framed_def)

lemma conn_read_data:
  assumes "conn_fits conn" and "som conn + length (pending conn) < SRBMESSAGEMAXLEN" and "fd conn \<noteq> -1"
    and "d \<noteq> []"
  obtains got left where "got \<noteq> []" and "d = got @ left"
    and "mw_conn_read conn (map RData (d # ds)) =
      Some (RData got, conn\<lparr>pending := pending conn @ got\<rparr>, map RData (if left = [] then ds else left # ds))"
proof (rule that [of "take (unat (maxrecvlen conn)) d" "drop (unat (maxrecvlen conn)) d"])
  show "take (unat (maxrecvlen conn)) d \<noteq> []"
    using assms(2,4) by (simp add: maxrecvlen_fits [OF assms(1)])
  then show "mw_conn_read conn (map RData (d # ds)) =
    Some (RData (take (unat (maxrecvlen conn)) d),
      conn\<lparr>pending := pending conn @ take (unat (maxrecvlen conn)) d\<rparr>,
      map RData (if drop (unat (maxrecvlen conn)) d = [] then ds else drop (unat (maxrecvlen conn)) d # ds))"
    using assms(3) by (simp add: mw_conn_read_def Let_def)
qed simp

text \<open>
  A message on its way: \<open>msg\<close> with the text \<open>out\<close>, which the receive buffer can hold, and
  then \<open>rest\<close>, some of it buffered and the rest arriving in the pieces \<open>ds\<close>.
\<close>

definition wire_ok :: "srbmessage \<Rightarrow> string \<Rightarrow> bool" where
  "wire_ok msg out \<longleftrightarrow> message_ok msg \<and> mw_srbencodemessage msg 3501 = Inr out \<and>
     length out \<le> SRBMESSAGEMAXLEN"

definition arriving :: "connection \<Rightarrow> string list \<Rightarrow> string \<Rightarrow> bool" where
  "arriving conn ds octets \<longleftrightarrow> framed conn \<and> conn_fits conn \<and> fd conn \<noteq> -1 \<and> [] \<notin> set ds \<and>
     pending conn @ concat ds = octets"

lemma wire_partial:
  assumes "wire_ok msg out" and "p @ q = out @ rest" and "length p < length out"
  shows "find_boundary p = None"
proof (rule find_boundary_partial)
  have ok: "message_ok msg" and out: "out = message_body msg @ CRLF"
    using assms(1) encode_body by (auto simp: wire_ok_def)
  have "p = take (length p) out"
    using arg_cong [OF assms(2), of "take (length p)"] assms(3) by simp
  then have "butlast p = take (length p - 1) out"
    by (metis assms(3) butlast_take less_imp_le_nat)
  then have "butlast p = take (length p - 1) (message_body msg)"
    using assms(3) by (simp add: out)
  then show "CHR 0x0D \<notin> set (butlast p)"
    using message_body_notin(2) [OF ok] by (metis in_set_takeD)
qed

lemma read_arrived:
  assumes "wire_ok msg out" and "arriving conn ds (out @ rest)" and "length out \<le> length (pending conn)"
  shows "\<exists>conn'. read_message_from_connbuffer net junk conn = (Message msg, conn') \<and>
           arriving (recheck_boundary conn') ds rest"
proof -
  let ?p = "drop (length out) (pending conn)"
  have p: "pending conn = out @ ?p"
    using arg_cong [of _ _ "take (length out)"] assms(2,3)
    by (metis (no_types, lifting) append_eq_append_conv_if append_take_drop_id arriving_def)
  then have "read_message_from_connbuffer net junk conn =
      (Message msg, conn\<lparr>pending := ?p, som := som conn + length out, boundary := None\<rparr>)"
    using assms(1,2) read_message_framed by (simp add: wire_ok_def arriving_def)
  moreover have "?p @ concat ds = rest"
    using assms(2) p by (metis append.assoc append_same_eq arriving_def same_append_eq)
  ultimately show ?thesis
    using assms(2,3)
    by (auto simp: arriving_def framed_def conn_fits_def recheck_boundary_def)
qed


lemma recv_loop_delivers:
  assumes "wire_ok msg out" and "arriving conn ds (out @ rest)" and "length (pending conn) < length out"
    and "som conn = 0"
  shows "\<exists>conn' ds'. recv_loop net junk blocking conn (map RData ds) =
           Some (Message msg, conn', map RData ds') \<and> arriving conn' ds' rest"
  using assms
proof (induction "arrivals (map RData ds)" arbitrary: conn ds rule: less_induct)
  case less
  have "length (pending conn) + length (concat ds) = length (out @ rest)"
    using less.prems(2) by (metis arriving_def length_append)
  with less.prems(3) obtain d ds1 where ds: "ds = d # ds1" by (cases ds) auto
  have "length out \<le> SRBMESSAGEMAXLEN" "d \<noteq> []" "conn_fits conn" "fd conn \<noteq> -1"
    using less.prems(1,2) by (auto simp: wire_ok_def arriving_def ds)
  then obtain got left where got: "got \<noteq> []" "d = got @ left"
    and rd: "mw_conn_read conn (map RData ds) = Some (RData got, conn\<lparr>pending := pending conn @ got\<rparr>,
      map RData (if left = [] then ds1 else left # ds1))"
    using conn_read_data [of conn d ds1] less.prems(3,4) by (auto simp: ds)
  let ?c = "conn\<lparr>pending := pending conn @ got\<rparr>" and ?ds = "if left = [] then ds1 else left # ds1"
  have "find_boundary (pending conn) = None"
    using wire_partial [OF less.prems(1) _ less.prems(3)] less.prems(2) by (auto simp: arriving_def)
  then have "framed ?c" using less.prems(2) by (auto simp: arriving_def framed_def)
  then have arr: "arriving ?c ?ds (out @ rest)"
    using less.prems(2) mw_conn_read_fits [OF \<open>conn_fits conn\<close> rd] got by (auto simp: arriving_def ds)
  show ?case
  proof (cases "length out \<le> length (pending ?c)")
    case True
    from read_arrived [OF less.prems(1) arr this, of net junk] obtain conn'
      where "read_message_from_connbuffer net junk ?c = (Message msg, conn')"
        "arriving (recheck_boundary conn') ?ds rest" by blast
    with rd have "recv_loop net junk blocking conn (map RData ds) =
        Some (Message msg, recheck_boundary conn', map RData ?ds)"
      by (simp add: recv_loop.simps)
    with \<open>arriving (recheck_boundary conn') ?ds rest\<close> show ?thesis by blast
  next
    case False
    then have nb: "find_boundary (pending ?c) = None"
      using wire_partial [OF less.prems(1), of "pending ?c" "concat ?ds" rest] arr
      by (simp add: arriving_def)
    let ?c' = "?c\<lparr>som := 0, boundary := None\<rparr>"
    have "arriving ?c' ?ds (out @ rest)"
      using arr by (auto simp: arriving_def framed_def conn_fits_def)
    then have "\<exists>conn' ds'. recv_loop net junk blocking ?c' (map RData ?ds) =
        Some (Message msg, conn', map RData ds') \<and> arriving conn' ds' rest"
      using less.hyps [OF mw_conn_read_arrivals [OF rd] less.prems(1), of ?c'] False by simp
    moreover have "recv_loop net junk blocking conn (map RData ds) =
        recv_loop net junk blocking ?c' (map RData ?ds)"
      by (subst recv_loop.simps) (simp only: rd option.case prod.case read_message_partial [OF \<open>framed ?c\<close> nb],
          simp)
    ultimately show ?thesis by simp
  qed
qed

lemma recvmessage_delivers:
  assumes "wire_ok msg out" and "arriving conn ds (out @ rest)"
  shows "\<exists>conn' ds'. mw_srb_recvmessage net junk conn flags (map RData ds) =
           Some (Message msg, conn', map RData ds') \<and> arriving conn' ds' rest"
proof (cases "length out \<le> length (pending conn)")
  case True
  from read_arrived [OF assms this, of net junk] show ?thesis
    by (auto simp: mw_srb_recvmessage_def)
next
  case False
  have f: "framed conn" and fd: "fd conn \<noteq> -1" using assms(2) by (auto simp: arriving_def)
  have nb: "find_boundary (pending conn) = None"
    using wire_partial [OF assms(1), of "pending conn" "concat ds" rest] assms(2) False
    by (simp add: arriving_def)
  let ?c = "conn\<lparr>som := 0, boundary := None\<rparr>"
  have "arriving ?c ds (out @ rest)"
    using assms(2) by (auto simp: arriving_def framed_def conn_fits_def)
  from recv_loop_delivers [OF assms(1) this, of net junk "flags AND 2 = 0"] False show ?thesis
    by (simp add: mw_srb_recvmessage_def read_message_partial [OF f nb] fd)
qed

text \<open>Calls one after the other, each taking up the connection where the last one left it.\<close>

primrec recv_messages ::
  "(string \<Rightarrow> int) \<Rightarrow> (string \<Rightarrow> string) \<Rightarrow> 32 word \<Rightarrow> nat \<Rightarrow> connection \<Rightarrow> recv_result list
   \<Rightarrow> (read_outcome list \<times> connection \<times> recv_result list) option" where
  "recv_messages net junk flags 0 conn rs = Some ([], conn, rs)"
| "recv_messages net junk flags (Suc n) conn rs =
     (case mw_srb_recvmessage net junk conn flags rs of
        None \<Rightarrow> None
      | Some (m, conn, rs) \<Rightarrow>
          map_option (\<lambda>(ms, conn, rs). (m # ms, conn, rs)) (recv_messages net junk flags n conn rs))"

lemma recv_messages_deliver:
  assumes "list_all2 wire_ok msgs outs" and "arriving conn ds (concat outs @ rest)"
  shows "\<exists>conn' ds'. recv_messages net junk flags (length msgs) conn (map RData ds) =
           Some (map Message msgs, conn', map RData ds') \<and> arriving conn' ds' rest"
  using assms
proof (induction msgs outs arbitrary: conn ds rule: list_all2_induct)
  case (Cons msg msgs out outs)
  then obtain conn1 ds1 where "mw_srb_recvmessage net junk conn flags (map RData ds) =
      Some (Message msg, conn1, map RData ds1)" "arriving conn1 ds1 (concat outs @ rest)"
    using recvmessage_delivers [of msg out conn ds "concat outs @ rest" net junk flags] by auto
  with Cons.IH [of conn1 ds1] show ?case by auto
qed auto


section \<open>Sending data\<close>

text \<open>A sufficient amount of room for the text of a pair, whatever has to be escaped.\<close>

definition pair_room :: "urlpair \<Rightarrow> nat" where
  "pair_room p = 3 * length (key p) + (case value p of None \<Rightarrow> 0 | Some v \<Rightarrow> 3 * length v) + 4"

lemma urlmapnencode_loop_room:
  assumes "list_all pair_ok m" and "int (length list + sum_list (map pair_room m)) \<le> len"
  shows "urlmapnencode_loop len list m = Inr (continue_text list m)"
  using assms
proof (induction m arbitrary: list)
  case Nil
  then show ?case by (simp add: continue_text_def)
next
  case (Cons p ps)
  then have ok: "pair_ok p" by simp
  have len: "length (add_separator list @ pair_text p) + sum_list (map pair_room ps) \<le>
      length list + sum_list (map pair_room (p # ps))"
    using length_url_escape(2) [of "key p"] length_url_escape(2) [of "the (value p)"]
    by (auto simp: add_separator_def pair_room_def pair_text_def split: option.splits)
  have "urlmapnencode_loop len list (p # ps) = urlmapnencode_loop len (add_separator list @ pair_text p) ps"
  proof (cases "value p")
    case None
    then show ?thesis using Cons.prems(2) pair_ok_key [OF ok] ok
      by (simp add: Let_def add_encoded_def pair_text_def pair_room_def add_separator_def pair_ok_def)
  next
    case (Some v)
    then show ?thesis
      using Cons.prems(2) pair_ok_key [OF ok] pair_ok_value [OF ok Some] ok length_url_escape(2) [of "key p"]
      by (simp add: Let_def add_encoded_def pair_text_def pair_room_def add_separator_def pair_ok_def)
  qed
  also have "\<dots> = Inr (continue_text (add_separator list @ pair_text p) ps)"
    using Cons.IH Cons.prems len by simp
  also have "continue_text (add_separator list @ pair_text p) ps = continue_text list (p # ps)"
    using continue_text_Cons [OF ok] by simp
  finally show ?case .
qed

lemma encode_room:
  assumes "message_ok msg" and "smap msg = Some m"
    and "length (command msg) + 1 + sum_list (map pair_room m) \<le> 3400"
  shows "wire_ok msg (message_body msg @ CRLF)"
proof -
  have ok: "list_all pair_ok m" using assms(1,2) by (auto simp: message_ok_def dest: pair_safe_ok)
  have c: "take 33 (command msg) = command msg"
    using assms(1) by (simp add: message_ok_def command_ok_def)
  have t: "length (map_text m) \<le> sum_list (map pair_room m)"
  proof -
    have room: "length (pair_text p) + 1 \<le> pair_room p" for p
      using length_url_escape(2) [of "key p"] length_url_escape(2) [of "the (value p)"]
      by (auto simp: pair_room_def pair_text_def split: option.splits)
    show ?thesis
    proof (induction m)
      case (Cons p m)
      then show ?case using room [of p] by (simp add: map_text_Cons)
    qed simp
  qed
  have "urlmapnencode (Some ()) (3500 - int (length (command msg @ [marker msg]))) (Some m) = Inr (map_text m)"
    using urlmapnencode_loop_room [OF ok, of "[]"] assms(3)
    by (simp add: urlmapnencode_def)
  then have "mw_srbencodemessage msg 3501 = Inr (message_body msg @ CRLF)"
    using t assms(2,3) by (simp add: mw_srbencodemessage_def Let_def c message_body_def)
  then show ?thesis
    using t assms by (simp add: wire_ok_def message_body_def)
qed


text \<open>The messages of \<open>SVCDATA\<close>: the handle and one piece of the data.\<close>

definition svcdata_message :: "string \<Rightarrow> string \<Rightarrow> srbmessage" where
  "svcdata_message handle d =
     \<lparr>command = ''SVCDATA'', marker = SRB_NOTIFICATIONMARKER,
      smap = Some [\<lparr>key = ''HANDLE'', value = Some handle, valuelen = int (length handle)\<rparr>,
                   \<lparr>key = ''DATA'', value = Some d, valuelen = int (length d)\<rparr>]\<rparr>"

abbreviation svcdata_start :: "string \<Rightarrow> srbmessage" where
  "svcdata_start handle \<equiv>
     mw_srb_init blank_message (Some ''SVCDATA'') SRB_NOTIFICATIONMARKER [(''HANDLE'', Some handle)]"

lemma svcdata_start_eq:
  assumes "NUL \<notin> set handle"
  shows "svcdata_start handle =
    \<lparr>command = ''SVCDATA'', marker = SRB_NOTIFICATIONMARKER,
     smap = Some [\<lparr>key = ''HANDLE'', value = Some handle, valuelen = int (length handle)\<rparr>]\<rparr>"
proof -
  have "strncpy ''SVCDATA'' 32 = ''SVCDATA''" "strlen ''SVCDATA'' = 7"
    by (simp_all add: strncpy_def cstr_def strlen_def)
  with assms show ?thesis
    by (simp add: mw_srb_init_def vfill_map_def vfill_step_def urlmapadd_def urlmapnadd_def value_strlen_def
        new_pair_def blank_message_def Let_def)
qed

lemma strcasecmp_DATA_HANDLE: "\<not> strcasecmp_eq ''DATA'' ''HANDLE''" "strcasecmp_eq ''DATA'' ''DATA''"
  by (simp_all add: strcasecmp_eq_def)

lemma svcdata_set:
  assumes "NUL \<notin> set handle" and "l \<le> length d"
  shows "mw_srb_nsetfield (svcdata_start handle) (Some ''DATA'') (Some d) (int l) = svcdata_message handle (take l d)"
    and "mw_srb_nsetfield (svcdata_message handle d') (Some ''DATA'') (Some d) (int l) = svcdata_message handle (take l d)"
  using assms
  by (simp_all add: svcdata_start_eq svcdata_message_def mw_srb_nsetfield_def urlmapnadd_def new_pair_def
      urlmapnset_def urlmapget_def set_pair_def strcasecmp_DATA_HANDLE Let_def min_absorb2)

lemma svcdata_wire:
  assumes "length handle = 8" and "d \<noteq> []" and "length d \<le> 1000"
  shows "wire_ok (svcdata_message handle d) (message_body (svcdata_message handle d) @ CRLF)"
proof (rule encode_room)
  have "pair_ok \<lparr>key = k, value = Some v, valuelen = int (length v)\<rparr>" if "k \<noteq> []" "NUL \<notin> set k" "v \<noteq> []" for k v
    using that by (simp add: pair_ok_def)
  moreover have "2 \<le> length (pair_text \<lparr>key = k, value = Some v, valuelen = int (length v)\<rparr>)" if "k \<noteq> []" "v \<noteq> []" for k v
    using that length_url_escape(1) [of k] length_url_escape(1) [of v]
    by (cases k; cases v) (auto simp: pair_text_def)
  moreover have "handle \<noteq> []" using assms(1) by auto
  ultimately show "message_ok (svcdata_message handle d)"
    using assms(2) by (simp add: message_ok_def svcdata_message_def command_ok_def is_marker_def pair_safe_def)
  show "length (command (svcdata_message handle d)) + 1 +
      sum_list (map pair_room (the (smap (svcdata_message handle d)))) \<le> 3400"
    using assms by (simp add: svcdata_message_def pair_room_def)
  show "smap (svcdata_message handle d) = Some (the (smap (svcdata_message handle d)))"
    by (simp add: svcdata_message_def)
qed

text \<open>The pieces of at most \<open>per\<close> octets.\<close>

function pieces :: "nat \<Rightarrow> string \<Rightarrow> string list" where
  "pieces per d = (if per = 0 \<or> length d \<le> per then [d] else take per d # pieces per (drop per d))"
  by pat_completeness auto
termination by (relation "measure (\<lambda>(per, d). length d)") auto

declare pieces.simps [simp del]

lemma pieces_concat: "concat (pieces per d) = d"
  by (induction per d rule: pieces.induct) (simp add: pieces.simps)

lemma pieces_size:
  "0 < per \<Longrightarrow> d \<noteq> [] \<Longrightarrow> list_all (\<lambda>p. p \<noteq> [] \<and> length p \<le> per) (pieces per d)"
proof (induction per d rule: pieces.induct)
  case (1 per d)
  then show ?case by (subst pieces.simps) auto
qed

definition svcdata_wires :: "nat \<Rightarrow> string \<Rightarrow> string \<Rightarrow> string list" where
  "svcdata_wires per handle d = map (\<lambda>p. message_body (svcdata_message handle p) @ CRLF) (pieces per d)"

lemma senddata_loop_sent:
  assumes "NUL \<notin> set handle" and "length handle = 8" and "0 < per" and "per \<le> 1000" and "d \<noteq> []"
    and "msg = svcdata_start handle \<or> (\<exists>d'. msg = svcdata_message handle d')"
  shows "senddata_loop net per conn msg d rc =
    (rc + sum_list (map net (svcdata_wires per handle d)),
     conn\<lparr>sent := sent conn @ svcdata_wires per handle d\<rparr>)"
  using assms
proof (induction "length d" arbitrary: d msg conn rc rule: less_induct)
  case less
  let ?l = "min per (length d)" and ?m = "svcdata_message handle (take (min per (length d)) d)"
  let ?out = "message_body ?m @ CRLF"
  have m: "mw_srb_nsetfield msg (Some ''DATA'') (Some d) (int ?l) = ?m"
    using less.prems(6) svcdata_set [OF less.prems(1), of ?l d] by auto
  have "wire_ok ?m ?out" by (rule svcdata_wire [OF less.prems(2)]) (use less.prems(3-5) in auto)
  then have s: "mw_srbsendmessage net conn ?m = (net ?out, conn\<lparr>sent := sent conn @ [?out]\<rparr>)" for conn
    by (simp add: wire_ok_def mw_srbsendmessage_def mw_conn_write_def)
  show ?case
  proof (cases "length d \<le> per")
    case True
    then have "min per (length d) = length d" by simp
    with m s have "mw_srbsendmessage net conn (mw_srb_nsetfield msg (Some ''DATA'') (Some d) (int (length d))) =
        (net (message_body (svcdata_message handle d) @ CRLF),
         conn\<lparr>sent := sent conn @ [message_body (svcdata_message handle d) @ CRLF]\<rparr>)" by simp
    with True show ?thesis
      by (simp add: senddata_loop.simps svcdata_wires_def pieces.simps [of per d] Let_def)
  next
    case False
    then have "senddata_loop net per conn msg d rc =
        senddata_loop net per (conn\<lparr>sent := sent conn @ [?out]\<rparr>) ?m (drop per d) (rc + net ?out)"
      using less.prems(3) m s by (simp add: senddata_loop.simps [of net per conn msg d] Let_def)
    moreover have "senddata_loop net per conn' ?m (drop per d) rc' =
        (rc' + sum_list (map net (svcdata_wires per handle (drop per d))),
         conn'\<lparr>sent := sent conn' @ svcdata_wires per handle (drop per d)\<rparr>)" for conn' rc'
      by (rule less.hyps) (use False less.prems in auto)
    ultimately show ?thesis
      using False less.prems(3) by (simp add: svcdata_wires_def pieces.simps [of per d] o_def)
  qed
qed


text \<open>A connection just opened, for the examples.\<close>

definition fresh_connection :: connection where
  "fresh_connection = \<lparr>fd = 5, rejects = 1, sent = [], messagebuffer = True, som = 0, pending = [], boundary = None\<rparr>"

abbreviation quiet_net :: "string \<Rightarrow> int" where "quiet_net \<equiv> \<lambda>m. int (length m)"

section \<open>Properties\<close>

text \<open>
  Setting a field and reading one: after \<open>_mw_srb_setfield\<close> the field has the new
  value under every spelling of its name and the other fields are as before, provided the
  message has no field whose name differs from it in case only.
\<close>

theorem srb_setfield_getfield:
  assumes "\<forall>j \<in> map_keys (smap msg). strcasecmp_eq k j \<longrightarrow> j = k" and "NUL \<notin> set v"
  shows "mw_srb_getfield (mw_srb_setfield msg (Some k) (Some v)) (Some j) =
    (if strcasecmp_eq j k then Some v else mw_srb_getfield msg (Some j))"
  using um.add_or_set_lookup [of "smap msg" k "Some v" j] assms
  by (simp add: getfield_lookup setfield_store)

theorem srb_setfield_getfield_witness:
  "mw_srb_getfield (mw_srb_setfield (svcdata_message ''00000001'' ''x'') (Some ''DATA'') (Some ''new'')) (Some ''data'') =
     (if strcasecmp_eq ''data'' ''DATA'' then Some ''new''
      else mw_srb_getfield (svcdata_message ''00000001'' ''x'') (Some ''data''))"
  by (rule srb_setfield_getfield)
    (simp_all add: svcdata_message_def map_keys_def strcasecmp_eq_def)






text \<open>
  C15. Data of any length is sent and received whole: for the default chunk size and
  below, \<open>_mw_srbsenddata\<close> hands the kernel one message per chunk, returns the sum of its
  answers, and a receiver that gets the octets in whatever pieces reads the same number of
  messages, each with the handle, whose DATA fields put together are the data.
\<close>

theorem srb_senddata_delivery:
  assumes "NUL \<notin> set handle" and "length handle = 8" and "0 < per" and "per \<le> 1000" and "data \<noteq> []"
  shows "\<exists>msgs wires. mw_srbsenddata net per conn handle data =
      (sum_list (map net wires), conn\<lparr>sent := sent conn @ wires\<rparr>) \<and>
    (\<forall>peer ds. arriving peer ds (concat wires) \<longrightarrow>
      (\<exists>peer' ds'. recv_messages net' junk flags (length msgs) peer (map RData ds) =
         Some (map Message msgs, peer', map RData ds') \<and> arriving peer' ds' [])) \<and>
    (\<forall>m \<in> set msgs. mw_srb_getfield m (Some ''HANDLE'') = Some handle \<and>
       length (the (mw_srb_getfield m (Some ''DATA''))) \<le> per) \<and>
    concat (map (\<lambda>m. the (mw_srb_getfield m (Some ''DATA''))) msgs) = data"
proof (rule exI [of _ "map (svcdata_message handle) (pieces per data)"],
    rule exI [of _ "svcdata_wires per handle data"], intro conjI allI impI)
  let ?msgs = "map (svcdata_message handle) (pieces per data)" and ?wires = "svcdata_wires per handle data"
  show "mw_srbsenddata net per conn handle data =
      (sum_list (map net ?wires), conn\<lparr>sent := sent conn @ ?wires\<rparr>)"
    using senddata_loop_sent [OF assms, of "svcdata_start handle" net conn 0] by (simp add: mw_srbsenddata_def)
  have "list_all2 wire_ok ?msgs ?wires"
    using pieces_size [OF assms(3,5)] assms(4)
    by (auto simp: svcdata_wires_def list.rel_map list_all_iff intro!: list.rel_refl_strong svcdata_wire [OF assms(2)])
  then show "\<exists>peer' ds'. recv_messages net' junk flags (length ?msgs) peer (map RData ds) =
         Some (map Message ?msgs, peer', map RData ds') \<and> arriving peer' ds' []"
    if "arriving peer ds (concat ?wires)" for peer ds
    using recv_messages_deliver [of ?msgs ?wires peer ds "[]"] that by simp
  have f: "mw_srb_getfield (svcdata_message handle d) (Some ''HANDLE'') = Some handle"
    "mw_srb_getfield (svcdata_message handle d) (Some ''DATA'') = Some d" for d
    by (simp_all add: getfield_lookup svcdata_message_def map_lookup_eq strcasecmp_eq_def)
  show "\<forall>m \<in> set ?msgs. mw_srb_getfield m (Some ''HANDLE'') = Some handle \<and>
       length (the (mw_srb_getfield m (Some ''DATA''))) \<le> per"
    using pieces_size [OF assms(3,5)] f by (auto simp: list_all_iff)
  show "concat (map (\<lambda>m. the (mw_srb_getfield m (Some ''DATA''))) ?msgs) = data"
    by (simp add: f o_def pieces_concat)
qed

theorem srb_senddata_delivery_witness:
  "\<exists>msgs wires. mw_srbsenddata quiet_net 2 fresh_connection ''0000002A'' ''hello'' =
      (sum_list (map quiet_net wires), fresh_connection\<lparr>sent := sent fresh_connection @ wires\<rparr>) \<and>
    (\<forall>peer ds. arriving peer ds (concat wires) \<longrightarrow>
      (\<exists>peer' ds'. recv_messages quiet_net id 0 (length msgs) peer (map RData ds) =
         Some (map Message msgs, peer', map RData ds') \<and> arriving peer' ds' [])) \<and>
    (\<forall>m \<in> set msgs. mw_srb_getfield m (Some ''HANDLE'') = Some ''0000002A'' \<and>
       length (the (mw_srb_getfield m (Some ''DATA''))) \<le> 2) \<and>
    concat (map (\<lambda>m. the (mw_srb_getfield m (Some ''DATA''))) msgs) = ''hello''"
  by (rule srb_senddata_delivery) simp_all

text \<open>
  C33. The largest messages the encoder accepts cannot be received: the text of 3501
  octets leaves the receive buffer full with the line feed still to come, the next read
  asks for no octets, and its answer 0 is taken for the end of the stream.
\<close>

theorem srb_largest_message_lost:
  assumes "message_ok msg" and "mw_srbencodemessage msg 3501 = Inr out" and "length out = 3501"
    and "framed conn" and "pending conn = []" and "fd conn \<noteq> -1"
  shows "\<exists>conn'. mw_srb_recvmessage net junk conn flags [RData out] = Some (Refused EPIPE, conn', [RData [CHR 0x0A]])"
proof -
  let ?e = "conn\<lparr>som := 0\<rparr>" and ?c = "conn\<lparr>pending := take 3500 out, som := 0\<rparr>"
  have out: "out = message_body msg @ CRLF" by (rule encode_body [OF assms(1,2)])
  have l: "length (message_body msg) = 3499" using assms(3) out by simp
  have take: "take 3500 out = message_body msg @ [CHR 0x0D]" "drop 3500 out = [CHR 0x0A]"
    using l by (simp_all add: out)
  have nb: "find_boundary (take 3500 out) = None"
    by (rule find_boundary_partial) (use message_body_notin(2) [OF assms(1)] in \<open>simp add: take\<close>)
  have b: "boundary conn = None" using assms(4,5) by (auto simp: framed_def)
  have m0: "unat (maxrecvlen ?e) = 3500" using maxrecvlen_fits [of ?e] assms(5) by (simp add: conn_fits_def)
  have m1: "unat (maxrecvlen ?c) = 0" using maxrecvlen_fits [of ?c] assms(3) by (simp add: conn_fits_def)
  have r: "read_message_from_connbuffer net junk ?c = (NoMessage, ?c)"
    using assms(4) b nb by (simp add: read_message_from_connbuffer_def framed_def take)
  have "mw_conn_read ?e [RData out] = Some (RData (take 3500 out), ?c, [RData [CHR 0x0A]])"
    using assms(5,6) m0 take by (simp add: mw_conn_read_def Let_def) (simp add: out)
  moreover have "mw_conn_read ?c [RData [CHR 0x0A]] = Some (REof, ?c, [RData [CHR 0x0A]])"
    using assms(6) m1 by (simp add: mw_conn_read_def Let_def)
  ultimately have "recv_loop net junk bl ?e [RData out] = Some (Refused EPIPE, recheck_boundary ?c, [RData [CHR 0x0A]])" for bl
    by (simp add: recv_loop.simps [of _ _ _ ?e] recv_loop.simps [of _ _ _ ?c] r)
  moreover have "read_message_from_connbuffer net junk conn = (NoMessage, ?e)"
    using assms(4,5) by (simp add: read_message_from_connbuffer_def framed_def)
  ultimately show ?thesis using assms(6) by (simp add: mw_srb_recvmessage_def)
qed


lemma url_escape_replicate: "isalnum c \<Longrightarrow> url_escape (replicate n c) = replicate n c"
  by (induction n) (simp_all add: encode_char_def)

theorem srb_largest_message_lost_witness:
  "\<exists>msg out conn'. mw_srbencodemessage msg 3501 = Inr out \<and>
     mw_srb_recvmessage quiet_net id fresh_connection 0 [RData out] = Some (Refused EPIPE, conn', [RData [CHR 0x0A]])"
proof -
  let ?v = "replicate 3495 CHR ''a''"
  let ?p = "\<lparr>key = ''K'', value = Some ?v, valuelen = int (length ?v)\<rparr>"
  let ?msg = "\<lparr>command = ''A'', marker = CHR ''!'', smap = Some [?p]\<rparr>"
  have esc: "url_escape ''K'' = ''K''" "url_escape ?v = ?v"
    using url_escape_replicate [of "CHR ''a''" 3495]
    by (simp_all add: encode_char_def ctype_simps)
  have ok: "pair_ok ?p" by (simp add: pair_ok_def)
  have mok: "message_ok ?msg"
    using ok esc by (simp add: message_ok_def command_ok_def is_marker_def pair_safe_def pair_text_def)
  have "urlmapnencode (Some ()) 3498 (Some [?p]) = Inr (''K='' @ ?v)"
    using pair_ok_key [OF ok] pair_ok_value [OF ok] esc
    by (simp add: urlmapnencode_def Let_def add_separator_def add_encoded_def)
  then have "mw_srbencodemessage ?msg 3501 = Inr (''A!K='' @ ?v @ CRLF)"
    by (simp add: mw_srbencodemessage_def Let_def)
  from srb_largest_message_lost [OF mok this, of fresh_connection quiet_net id 0] this show ?thesis
    by (auto simp: fresh_connection_def framed_def)
qed

lemma list_all_notin: "list_all P s \<Longrightarrow> \<not> P x \<Longrightarrow> x \<notin> set s"
  by (auto simp: list_all_iff)

lemma reject_encode:
  assumes "list_all (\<lambda>c. \<not> isalnum c) m" and "NUL \<notin> set m" and "m \<noteq> []"
    and "length m \<le> 3443" and "1149 \<le> length m"
  shows "\<exists>w. mw_srbencodemessage (reject_message m (-1)) 3501 = Inl (EOVERFLOW, w) \<and> length w = 57 + 3 * length m"
proof -
  let ?r = "''400: General Format Error''"
  let ?ps = "[\<lparr>key = ''REASON'', value = Some ?r, valuelen = 25\<rparr>,
     \<lparr>key = ''MESSAGE'', value = Some m, valuelen = int (length m)\<rparr>,
     \<lparr>key = ''REASONCODE'', value = Some ''400'', valuelen = 3\<rparr>]"
  have cmd: "strncpy ''REJECT'' 32 = ''REJECT''" "strlen ''REJECT'' = 6"
    by (simp_all add: strncpy_def cstr_def strlen_def)
  have "mw_srb_reason 400 = ?r" by (simp add: mw_srb_reason_def srbreasons_def)
  moreover have "int_dec 400 = ''400''" by code_simp
  ultimately have msg: "reject_message m (-1) = \<lparr>command = ''REJECT'', marker = CHR ''!'', smap = Some ?ps\<rparr>"
    using assms(2,3)
    by (auto simp: reject_message_def mw_srb_init_def cmd vfill_map_def vfill_step_def urlmapadd_def urlmapnadd_def
        value_strlen_def new_pair_def blank_message_def mw_srb_setfieldi_def urlmapaddi_def Let_def)
  have k: "urlencode (Some ()) (Some ''REASON'') = Inr ''REASON''" "urlencode (Some ()) (Some ''MESSAGE'') = Inr ''MESSAGE''"
    "urlnencode (Some ()) (Some ?r) 25 = Inr ''400%3A%20General%20Format%20Error''"
    by code_simp+
  have v: "urlnencode (Some ()) (Some m) (int (length m)) = Inr (url_escape m)"
    using assms(3) by (simp add: urlnencode_escape)
  have "length (url_escape m) = 3 * length m" by (rule length_url_escape_special [OF assms(1)])
  with k v assms(3,4,5) show ?thesis
    by (simp add: mw_srbencodemessage_def msg urlmapnencode_def add_separator_def add_encoded_def
        pair_valuelen_def Let_def)
qed

text \<open>
  Refusing a message can overrun the send buffer: a received text without a marker is
  put whole in the field MESSAGE of a reject, and for 1149 to 3443 octets that all need
  an escape more than the 3501 octets of the buffer are written before the overflow is
  noticed and nothing is sent.
\<close>

theorem srb_reject_overflow:
  assumes "list_all (\<lambda>c. \<not> isalnum c \<and> \<not> is_marker c \<and> c \<noteq> NUL \<and> c \<noteq> CHR 0x0D) m"
    and "1149 \<le> length m" and "length m \<le> 3443" and "rejects conn \<noteq> 0"
  shows "\<exists>w. mw_srbencodemessage (reject_message m (-1)) (int SRBMESSAGEMAXLEN + 1) = Inl (EOVERFLOW, w) \<and>
    length w > SRBMESSAGEMAXLEN + 1 \<and> mw_srbdecodemessage net junk conn m = (Inl EBADMSG, conn)"
proof -
  have m: "list_all (\<lambda>c. \<not> isalnum c) m" "NUL \<notin> set m" "CHR 0x0D \<notin> set m" "m \<noteq> []"
    "list_all (\<lambda>c. \<not> is_marker c) m"
    using list_all_notin [OF assms(1), of NUL] list_all_notin [OF assms(1), of "CHR 0x0D"] assms(2)
    by (simp_all add: list.pred_mono_strong [OF assms(1)]) auto
  then obtain w where w: "mw_srbencodemessage (reject_message m (-1)) 3501 = Inl (EOVERFLOW, w)"
    "length w = 57 + 3 * length m"
    using reject_encode [OF m(1,2,4) assms(3,2)] by auto
  have "m ! (length m - 2) \<noteq> CHR 0x0D" using m(3,4) nth_mem [of "length m - 2" m]
    by (auto simp del: nth_mem)
  then have "message_text m = m" using m(2) by (simp add: message_text_def Let_def)
  then have "mw_srbdecodemessage net junk conn m = (Inl EBADMSG, conn)"
    using w(1) assms(4)
    by (simp add: mw_srbdecodemessage_def findMarker_None [OF m(5)] mw_srbsendreject_sz_def mw_srbsendmessage_def)
  with w assms(2) show ?thesis by simp
qed

theorem srb_reject_overflow_witness:
  "\<exists>w. mw_srbencodemessage (reject_message (replicate 1200 CHR '' '') (-1)) (int SRBMESSAGEMAXLEN + 1) = Inl (EOVERFLOW, w) \<and>
    length w > SRBMESSAGEMAXLEN + 1 \<and>
    mw_srbdecodemessage quiet_net id fresh_connection (replicate 1200 CHR '' '') = (Inl EBADMSG, fresh_connection)"
  by (rule srb_reject_overflow) (simp_all add: list_all_iff ctype_simps is_marker_def fresh_connection_def)

text \<open>What a well formed reply has.\<close>

definition reply_ok :: "srbmessage \<Rightarrow> bool" where
  "reply_ok msg \<longleftrightarrow> map_lookup (smap msg) ''HANDLE'' \<noteq> None \<and>
     (case map_lookup (smap msg) ''RETURNCODE'' of
        Some (Some v) \<Rightarrow> length v \<in> {1, 3} \<and> list_all isdigit v | _ \<Rightarrow> False) \<and>
     map_lookup (smap msg) ''APPLICATIONRC'' \<noteq> None"

lemma urlmapget_map_lookup:
  assumes "smap msg = Some m"
  shows "(case urlmapget (smap msg) (Some k) of
     Inl _ \<Rightarrow> map_lookup (smap msg) k = None
   | Inr i \<Rightarrow> i < length m \<and> map_lookup (smap msg) k = Some (value (m ! i)))"
  using urlmapget_loop_lookup [of m k 0] assms
  by (auto simp: map_lookup_def urlmapget_def split: sum.splits)

lemma returncode_pair:
  assumes "pair_ok p"
  shows "returncode_ok p \<longleftrightarrow> (case value p of Some v \<Rightarrow> length v \<in> {1, 3} \<and> list_all isdigit v | None \<Rightarrow> False)"
proof (cases "value p")
  case None
  then show ?thesis using assms by (simp add: returncode_ok_def pair_ok_def)
next
  case (Some v)
  then show ?thesis using assms
    by (auto simp: returncode_ok_def pair_ok_def char_at_def length_Suc_conv numeral_3_eq_3)
qed


lemma get_returncode_range:
  assumes "pair_ok p" and "returncode_ok p"
  shows "int (digits_val (take (nat (valuelen p)) (the (value p)))) \<in> {0..999}"
    and "list_all isdigit (take (nat (valuelen p)) (the (value p)))"
proof -
  obtain v where v: "value p = Some v" "length v \<in> {1, 3}" "list_all isdigit v" "valuelen p = int (length v)"
    using assms by (auto simp: returncode_pair pair_ok_def split: option.splits)
  have d: "ord c - 48 \<le> 9" if "isdigit c" for c using that by (auto simp: ctype_simps)
  have "digits_val v \<le> 999"
  proof (cases "length v = 1")
    case True
    then obtain a where "v = [a]" by (auto simp: length_Suc_conv)
    with v(3) d [of a] show ?thesis by (simp add: digits_val_def)
  next
    case False
    with v(2) obtain a b c where "v = [a, b, c]" by (auto simp: length_Suc_conv numeral_3_eq_3)
    with v(3) d [of a] d [of b] d [of c] show ?thesis by (simp add: digits_val_def)
  qed
  with v show "int (digits_val (take (nat (valuelen p)) (the (value p)))) \<in> {0..999}"
    and "list_all isdigit (take (nat (valuelen p)) (the (value p)))" by simp_all
qed

text \<open>
  A reply is accepted exactly when it has a handle, a return code of one or three
  digits and an application return code; then it is passed on unchanged and nothing is
  sent, and the return code read from it lies between 0 and 999.
\<close>

theorem srb_checksrbcall_accepts:
  assumes "smap msg = Some m" and "list_all pair_ok m"
  shows "fst (mw_srb_checksrbcall net conn msg) = (if reply_ok msg then 1 else 0) \<and>
    (reply_ok msg \<longrightarrow> mw_srb_checksrbcall net conn msg = (1, conn, msg) \<and>
       0 \<le> mw_get_returncode (smap msg) \<and> mw_get_returncode (smap msg) \<le> 999)"
proof (cases "urlmapget (smap msg) (Some ''RETURNCODE'')")
  case (Inl e)
  then show ?thesis
    using urlmapget_map_lookup [OF assms(1), of "''RETURNCODE''"]
    by (auto simp: mw_srb_checksrbcall_def reply_ok_def Let_def split: sum.splits)
next
  case (Inr i)
  let ?p = "m ! i"
  have i: "i < length m" "map_lookup (smap msg) ''RETURNCODE'' = Some (value ?p)"
    using urlmapget_map_lookup [OF assms(1), of "''RETURNCODE''"] Inr by auto
  then have ok: "pair_ok ?p" using assms(2) by (simp add: list_all_length)
  have "mw_get_returncode (smap msg) \<in> {0..999}" if "returncode_ok ?p"
    using that get_returncode_range [OF ok] Inr assms(1) by (auto simp: mw_get_returncode_def returncode_ok_def)
  then show ?thesis
    using Inr i assms(1) returncode_pair [OF ok]
      urlmapget_map_lookup [OF assms(1), of "''HANDLE''"] urlmapget_map_lookup [OF assms(1), of "''APPLICATIONRC''"]
    by (auto simp: mw_srb_checksrbcall_def reply_ok_def Let_def split: sum.splits option.splits)
qed

theorem srb_checksrbcall_accepts_witness:
  "fst (mw_srb_checksrbcall quiet_net fresh_connection
        (mw_srb_init blank_message (Some ''SVCCALL'') CHR ''.''
          [(''HANDLE'', Some ''1''), (''RETURNCODE'', Some ''0''), (''APPLICATIONRC'', Some ''7'')])) =
   (if reply_ok (mw_srb_init blank_message (Some ''SVCCALL'') CHR ''.''
          [(''HANDLE'', Some ''1''), (''RETURNCODE'', Some ''0''), (''APPLICATIONRC'', Some ''7'')]) then 1 else 0)"
proof -
  let ?msg = "mw_srb_init blank_message (Some ''SVCCALL'') CHR ''.''
          [(''HANDLE'', Some ''1''), (''RETURNCODE'', Some ''0''), (''APPLICATIONRC'', Some ''7'')]"
  have "smap ?msg = Some [\<lparr>key = ''HANDLE'', value = Some ''1'', valuelen = 1\<rparr>,
      \<lparr>key = ''RETURNCODE'', value = Some ''0'', valuelen = 1\<rparr>,
      \<lparr>key = ''APPLICATIONRC'', value = Some ''7'', valuelen = 1\<rparr>]"
    by code_simp
  from srb_checksrbcall_accepts [OF this, of quiet_net fresh_connection] show ?thesis
    by (simp add: pair_ok_def)
qed

text \<open>
  A refused message leaves its boundary behind: the next octets to arrive, when fewer
  than the refused message had, fail the assertion on the message length and end the process.
\<close>

theorem srb_stale_boundary:
  assumes "framed conn" and "som conn = 0" and "pending conn = m @ CRLF @ rest"
    and "list_all (\<lambda>c. \<not> is_marker c \<and> c \<noteq> NUL \<and> c \<noteq> CHR 0x0D) m" and "length m < SRBMESSAGEMAXLEN"
    and "d \<noteq> []" and "length d < length m" and "rejects conn = 0"
  shows "\<exists>conn'. read_message_from_connbuffer net junk conn = (Refused EBADMSG, conn') \<and> pending conn' = [] \<and>
    fst (read_message_from_connbuffer net junk (conn'\<lparr>pending := d\<rparr>)) = AssertFailed"
proof -
  have m: "NUL \<notin> set m" "CHR 0x0D \<notin> set m" "list_all (\<lambda>c. \<not> is_marker c) m" "m \<noteq> []"
    using list_all_notin [OF assms(4), of NUL] list_all_notin [OF assms(4), of "CHR 0x0D"] assms(7)
    by (simp_all add: list.pred_mono_strong [OF assms(4)]) auto
  have "find_boundary (pending conn) = Some (length m)"
    using find_boundary_append [OF m(1,2)] assms(3) by simp
  then have b: "(case boundary conn of Some _ \<Rightarrow> conn
      | None \<Rightarrow> conn\<lparr>boundary := map_option ((+) (som conn)) (find_boundary (pending conn))\<rparr>) =
      conn\<lparr>boundary := Some (length m)\<rparr>"
    using assms(1,2) by (auto simp: framed_def)
  have "mw_srbdecodemessage net junk c m = (Inl EBADMSG, c)" if "rejects c = 0" for c
  proof -
    have "findMarker (message_text m) = None"
      using m(3) by (intro findMarker_None)
        (auto simp: message_text_def cstr_def list_all_iff Let_def dest!: set_takeWhileD in_set_takeD)
    then show ?thesis using that by (simp add: mw_srbdecodemessage_def mw_srbsendreject_sz_def Let_def)
  qed
  then have "read_message_from_connbuffer net junk conn =
      (Refused EBADMSG, conn\<lparr>boundary := Some (length m), pending := [], som := 0\<rparr>)"
    unfolding read_message_from_connbuffer_def
    using assms by (simp add: b framed_def Let_def)
  then show ?thesis
    using assms(1,6,7) by (simp add: read_message_from_connbuffer_def framed_def)
qed

theorem srb_stale_boundary_witness:
  "\<exists>conn'. read_message_from_connbuffer quiet_net id
      (fresh_connection\<lparr>rejects := 0, pending := ''hello'' @ CRLF @ []\<rparr>) = (Refused EBADMSG, conn') \<and> pending conn' = [] \<and>
    fst (read_message_from_connbuffer quiet_net id (conn'\<lparr>pending := ''TE''\<rparr>)) = AssertFailed"
  by (rule srb_stale_boundary [where m = "''hello''"]) (simp_all add: fresh_connection_def framed_def is_marker_def)

end
