(* ===== verification/GwState.thy ===== *)
theory GwState
  imports ServerApi SRBProtocol
begin

text \<open>
  The state of a gateway, \<^verbatim>\<open>mwgwd\<close>: the static variables of the files under
  \<^verbatim>\<open>src/mwgwd\<close> as one record on top of the state every member of a domain has. Connections
  are addressed by their file descriptor (\<^verbatim>\<open>fd2conn\<close>), peers by their index in the table of
  known gateways, pending calls and queued messages by numbers.
\<close>

section \<open>Calls in flight\<close>

datatype slot = Hash nat | Free | Next nat

record pendingcall =
  src_mwid :: int
  srcconn :: "nat option"
  pc_call :: call
  callmsg :: "urlmap option"
  replymsg :: "urlmap option"
  dst_mwid :: int
  dstconn :: "nat option"
  pc_status :: int
  pc_data :: int
  pc_datalen :: int
  datarecv :: int
  ipchdl :: int
  srchdl :: int
  dsthdl :: int
  pc_next :: "nat option"
  pc_root :: "slot option"

text \<open>
  A message in the queue is a pointer to the message a pending call holds (\<open>Inl\<close>), or to memory
  of its own (\<open>Inr\<close>).
\<close>

record ipcfifo =
  ff_mwid :: int
  ff_message :: "nat + call"
  ff_next :: "nat option"
  ff_prev :: "nat option"

section \<open>Connections and peers\<close>

abbreviation (input) CONNECT_STATE_CONNWAIT :: int where "CONNECT_STATE_CONNWAIT \<equiv> 1"
abbreviation (input) CONNECT_STATE_READYWAIT :: int where "CONNECT_STATE_READYWAIT \<equiv> 2"
abbreviation (input) CONNECT_STATE_INITWAIT :: int where "CONNECT_STATE_INITWAIT \<equiv> 3"
abbreviation (input) CONNECT_STATE_UP :: int where "CONNECT_STATE_UP \<equiv> 4"

datatype conntype = CONN_TYPE_NONE | CONN_TYPE_CLIENT | CONN_TYPE_GATEWAY | CONN_TYPE_BROKER | CONN_TYPE_LISTEN | CONN_TYPE_MCAST

record gwconn =
  conn :: connection
  connectionid :: int
  conn_cid :: int
  conn_gwid :: int
  conn_role :: int
  conn_state :: int
  conn_type :: conntype
  conn_cost :: int
  conn_peerinfo :: "nat option"

record gwpeerinfo =
  pi_hostname :: string
  pi_instance :: string
  domainid :: int
  pi_gwid :: int
  pi_conn :: "nat option"
  password :: "string option"

section \<open>Services of peers\<close>

text \<open>The field \<open>cost\<close> of a \<open>peerlink\<close> is never used, \<open>svcid\<close> only for imports.\<close>

record peerlink =
  pl_peer :: nat
  pl_svcid :: int

record import =
  imp_servicename :: string
  imp_peerlist :: "peerlink list"

record export =
  exp_servicename :: string
  exp_peerlist :: "nat list"
  exp_cost :: int

section \<open>Subscriptions and attaching clients\<close>

record srbsubscription =
  sub_pattern :: string
  sub_flags :: int
  sub_id :: int
  sub_conn :: nat

record pendingattach =
  pa_fd :: int
  pa_connid :: int
  pa_cname :: string
  pa_map :: "urlmap option"

section \<open>The state\<close>

text \<open>
  \<open>pcbrk\<close> and \<open>fifobrk\<close> are the next addresses \<open>malloc\<close> returns. Lists that the code links
  with a pointer \<open>next\<close> and reaches only from their head are lists.
\<close>

record gwstate = mwproc +
  pcs :: "nat \<Rightarrow> pendingcall"
  pcbrk :: nat
  pchash :: "nat \<Rightarrow> nat option"
  freelist :: "nat option"
  callmutex :: bool
  conns :: "nat \<Rightarrow> gwconn"
  fifo :: "nat \<Rightarrow> ipcfifo option"
  fifobrk :: nat
  ff_head :: "nat option"
  ff_tail :: "nat option"
  ipcfifolen :: int
  knownGWs :: "gwpeerinfo list"
  importlist :: "import list"
  exportlist :: "export list"
  srbsubs :: "srbsubscription list"
  attachInProgress :: "pendingattach list"
  conntblsize :: nat
  lastconnectionid :: int
  reconnect_broker :: bool
  shutdownflag :: bool

text \<open>
  What surrounds the gateway: its process environment, what writing a message to a peer
  returns (\<open>gw_net\<close>), the number of octets of data in one message (\<open>gw_per\<close>), what uninitialised
  memory holds (\<open>gw_hdl0\<close>, \<open>junkint\<close>), its names and process id, and the address of the peer of a
  socket (\<open>None\<close> when \<^verbatim>\<open>getpeername\<close> fails). A connection
  that the gateway opens has the descriptor \<open>newsocket\<close>; \<open>resolves\<close> tells whether the name of a
  host is found and \<open>connects\<close> whether it is connected at once or only later, \<open>None\<close> if none of
  its addresses answers. \<open>msgbuf\<close> is where the data of a received message lies.
\<close>

datatype sockaddr = AF_INET string nat | AF_INET6 | AF_OTHER nat

record gwenv =
  gw_proc :: "gwstate procenv"
  gw_net :: "string \<Rightarrow> int"
  gw_per :: nat
  gw_hdl0 :: string
  junkint :: int
  mydomain :: string
  myinstance :: string
  ipcserverpid :: int
  getpeername :: "int \<Rightarrow> sockaddr option"
  newsocket :: nat
  resolves :: "string \<Rightarrow> bool"
  connects :: "string \<Rightarrow> bool option"
  msgbuf :: int

text \<open>The address of an IPv4 peer as \<^verbatim>\<open>inet_ntop\<close> writes it.\<close>

definition peername :: "gwenv \<Rightarrow> int \<Rightarrow> string option" where
  "peername env f = (case getpeername env f of Some (AF_INET ip port) \<Rightarrow> Some ip | _ \<Rightarrow> None)"

text \<open>An operation on the socket of a connection.\<close>

definition on_conn :: "nat \<Rightarrow> (connection \<Rightarrow> int \<times> connection) \<Rightarrow> gwstate \<Rightarrow> int \<times> gwstate" where
  "on_conn cn f st =
     (case f (conn (conns st cn)) of (rc, co) \<Rightarrow> (rc, st\<lparr>conns := (conns st)(cn := (conns st cn)\<lparr>conn := co\<rparr>)\<rparr>))"

definition upd_conn :: "nat \<Rightarrow> (gwconn \<Rightarrow> gwconn) \<Rightarrow> gwstate \<Rightarrow> gwstate" where
  "upd_conn cn f st = st\<lparr>conns := (conns st)(cn := f (conns st cn))\<rparr>"

definition upd_peer :: "nat \<Rightarrow> (gwpeerinfo \<Rightarrow> gwpeerinfo) \<Rightarrow> gwstate \<Rightarrow> gwstate" where
  "upd_peer p f st = st\<lparr>knownGWs := (knownGWs st)[p := f (knownGWs st ! p)]\<rparr>"

end
