(* ===== verification/CallStore.thy ===== *)
theory CallStore
  imports GwState
begin

unbundle bit_operations_syntax

text \<open>
  \<^verbatim>\<open>src/mwgwd/callstore.c\<close>: the calls a gateway has under way, and the queue of
  \<^verbatim>\<open>src/mwgwd/ipcserver.c\<close> for messages whose receiver's queue is full. The pending calls are
  in the lists of a hash table and in a list of free ones, linked through the field \<open>next\<close>;
  \<open>root\<close> is the address of the pointer that leads to a call: a bucket, the free list, or
  the field \<open>next\<close> of the call before it. Calls are addressed by numbers.
\<close>

section \<open>Calls\<close>

abbreviation (input) CALLDATAPENDING :: int where "CALLDATAPENDING \<equiv> 2"
abbreviation (input) REPLYPENDING :: int where "REPLYPENDING \<equiv> 3"
abbreviation (input) REPLYDATAPENDING :: int where "REPLYDATAPENDING \<equiv> 4"

abbreviation (input) HASHSIZE :: nat where "HASHSIZE \<equiv> 256"

text \<open>What a message sent to a peer leads to is the argument \<open>net\<close>, and \<open>per\<close> the number of octets of data in one message.\<close>

definition blank_call :: call where
  "blank_call = \<lparr>datasegmentid = 0, cdata = 0, cdatalen = 0, ca_mtype = 0, ca_handle = 0, ca_cltid = 0, ca_gwid = 0,
     ca_srvid = 0, ca_svcid = 0, forwardcount = 0, ca_service = [], origservice = [], issued = 0, uissued = 0,
     ca_timeout = 0, appreturncode = 0, ca_flags = 0, ca_instance = [], ca_domainname = [], callerid = 0, hops = 0,
     ca_returncode = 0\<rparr>"

definition clearPendingCall :: pendingcall where
  "clearPendingCall = \<lparr>src_mwid = 0, srcconn = None, pc_call = blank_call, callmsg = None, replymsg = None, dst_mwid = 0,
     dstconn = None, pc_status = 0, pc_data = 0, pc_datalen = 0, datarecv = 0, ipchdl = 0, srchdl = 0, dsthdl = 0,
     pc_next = None, pc_root = None\<rparr>"

section \<open>The hash table\<close>

definition mkhash :: "int \<Rightarrow> int \<Rightarrow> nat" where
  "mkhash mwid hdl =
     nat (((hdl AND 0xff) XOR (drop_bit 8 hdl AND 0xff)) XOR ((drop_bit 16 hdl AND 0xff) XOR (drop_bit 24 hdl AND 0xff))
       XOR (push_bit 5 mwid AND 0xff))"

fun get_slot :: "gwstate \<Rightarrow> slot \<Rightarrow> nat option" where
  "get_slot st (Hash i) = pchash st i"
| "get_slot st Free = freelist st"
| "get_slot st (Next p) = pc_next (pcs st p)"

definition upd_pc :: "gwstate \<Rightarrow> nat \<Rightarrow> (pendingcall \<Rightarrow> pendingcall) \<Rightarrow> gwstate" where
  "upd_pc st p f = st\<lparr>pcs := (pcs st)(p := f (pcs st p))\<rparr>"

fun set_slot :: "gwstate \<Rightarrow> slot \<Rightarrow> nat option \<Rightarrow> gwstate" where
  "set_slot st (Hash i) v = st\<lparr>pchash := (pchash st)(i := v)\<rparr>"
| "set_slot st Free v = st\<lparr>freelist := v\<rparr>"
| "set_slot st (Next p) v = upd_pc st p (\<lambda>x. x\<lparr>pc_next := v\<rparr>)"

partial_function (option) lookup_loop :: "gwstate \<Rightarrow> int \<Rightarrow> int \<Rightarrow> nat option \<Rightarrow> nat option option" where
  "lookup_loop st mwid hdl pc =
     (if pc = None then Some None
      else let p = the pc
           in if dst_mwid (pcs st p) = mwid \<and> dsthdl (pcs st p) = hdl \<or> src_mwid (pcs st p) = mwid \<and> srchdl (pcs st p) = hdl
              then Some (Some p)
              else lookup_loop st mwid hdl (pc_next (pcs st p)))"

definition lookupPendingCall :: "gwstate \<Rightarrow> int \<Rightarrow> int \<Rightarrow> nat option option" where
  "lookupPendingCall st mwid hdl = lookup_loop st mwid hdl (pchash st (mkhash mwid hdl))"

definition linkPendingCall :: "gwstate \<Rightarrow> nat \<Rightarrow> slot \<Rightarrow> gwstate" where
  "linkPendingCall st pc ppc =
     (let npc = get_slot st ppc;
          st = (case npc of None \<Rightarrow> st | Some n \<Rightarrow> upd_pc st n (\<lambda>x. x\<lparr>pc_root := Some (Next pc)\<rparr>));
          st = upd_pc st pc (\<lambda>x. x\<lparr>pc_root := Some ppc, pc_next := npc\<rparr>)
      in set_slot st ppc (Some pc))"

definition unlinkPendingCall :: "gwstate \<Rightarrow> nat \<Rightarrow> gwstate option" where
  "unlinkPendingCall st pc =
     (case pc_root (pcs st pc) of
        None \<Rightarrow> None
      | Some r \<Rightarrow>
          let st = set_slot st r (pc_next (pcs st pc));
              st = (case pc_next (pcs st pc) of
                      None \<Rightarrow> st
                    | Some n \<Rightarrow> upd_pc st n (\<lambda>x. x\<lparr>pc_root := pc_root (pcs st pc)\<rparr>))
          in Some (upd_pc st pc (\<lambda>x. x\<lparr>pc_root := None, pc_next := None\<rparr>)))"

definition rehashPendingCall :: "gwstate \<Rightarrow> nat \<Rightarrow> int \<Rightarrow> int \<Rightarrow> gwstate option" where
  "rehashPendingCall st pc mwid hdl =
     map_option (\<lambda>st. linkPendingCall st pc (Hash (mkhash mwid hdl))) (unlinkPendingCall st pc)"

definition newPendingCall :: "gwstate \<Rightarrow> int \<Rightarrow> int \<Rightarrow> (nat \<times> gwstate) option" where
  "newPendingCall st srcid hdl =
     do {
       (pc, st) \<leftarrow>
         (case freelist st of
            None \<Rightarrow> Some (pcbrk st, upd_pc (st\<lparr>pcbrk := pcbrk st + 1\<rparr>) (pcbrk st) (\<lambda>_. clearPendingCall))
          | Some p \<Rightarrow> map_option (Pair p) (unlinkPendingCall st p));
       let st = upd_pc st pc (\<lambda>x. x\<lparr>src_mwid := srcid, srchdl := hdl\<rparr>);
       Some (pc, linkPendingCall st pc (Hash (mkhash srcid hdl)))
     }"

definition freePendingCall :: "gwstate \<Rightarrow> nat \<Rightarrow> gwstate option" where
  "freePendingCall st pc =
     map_option (\<lambda>st. linkPendingCall (upd_pc st pc (\<lambda>_. clearPendingCall)) pc Free) (unlinkPendingCall st pc)"

section \<open>Messages whose receiver is busy\<close>

text \<open>
  \<open>del_fifo_entry\<close> frees the message, which is undefined when the pointer is not one that
  \<open>malloc\<close> has returned, and reads the successor from the entry it has freed.
\<close>

definition message_of :: "gwstate \<Rightarrow> nat + call \<Rightarrow> call" where
  "message_of st m = (case m of Inl p \<Rightarrow> pc_call (pcs st p) | Inr c \<Rightarrow> c)"

definition upd_entry :: "gwstate \<Rightarrow> nat option \<Rightarrow> (ipcfifo \<Rightarrow> ipcfifo) \<Rightarrow> gwstate" where
  "upd_entry st q f = (case q of None \<Rightarrow> st | Some a \<Rightarrow> st\<lparr>fifo := (fifo st)(a := map_option f (fifo st a))\<rparr>)"

definition del_fifo_entry :: "gwstate \<Rightarrow> nat \<Rightarrow> (nat option \<times> gwstate) option" where
  "del_fifo_entry st q =
     do {
       e \<leftarrow> fifo st q;
       st \<leftarrow> (case ff_message e of Inl _ \<Rightarrow> None | Inr _ \<Rightarrow> Some st);
       let st = upd_entry st (ff_next e) (\<lambda>x. x\<lparr>ff_prev := ff_prev e\<rparr>);
       let st = upd_entry st (ff_prev e) (\<lambda>x. x\<lparr>ff_next := ff_next e\<rparr>);
       let st = (if ff_head st = Some q then st\<lparr>ff_head := ff_prev e\<rparr> else st);
       let st = (if ff_tail st = Some q then st\<lparr>ff_tail := ff_next e\<rparr> else st);
       let st = st\<lparr>fifo := (fifo st)(q := None), ipcfifolen := ipcfifolen st - 1\<rparr>;
       e \<leftarrow> fifo st q;
       Some (ff_next e, st)
     }"

text \<open>A message that cannot be delivered is dropped, and its buffer is released.\<close>

definition drop_buffer :: "gwstate procenv \<Rightarrow> gwstate \<Rightarrow> call \<Rightarrow> seginfo option \<Rightarrow> gwstate option" where
  "drop_buffer env st c seg =
     do {
       (_, h) \<leftarrow> mwfree (shm st) (mwoffset2adr (cdata c) seg);
       if datasegmentid c > LOW_LARGE_BUFFER_NUMBER
       then map_option (\<lambda>si. st\<lparr>shm := mw_detach_mmap h si\<rparr>) seg
       else Some (st\<lparr>shm := h\<rparr>)
     }"

partial_function (option) flush_fifo_loop :: "gwstate procenv \<Rightarrow> nat option \<Rightarrow> gwstate \<Rightarrow> gwstate option" where
  "flush_fifo_loop env q st =
     (case q of
        None \<Rightarrow> Some st
      | Some a \<Rightarrow>
          (case fifo st a of
             None \<Rightarrow> None
           | Some e \<Rightarrow>
               (case mw_ipc_putmessage (os env) st (ff_mwid e) (Call (message_of st (ff_message e))) of
                  (rc, st) \<Rightarrow>
                    if rc = 0
                    then (case del_fifo_entry st a of None \<Rightarrow> None | Some (q, st) \<Rightarrow> flush_fifo_loop env q st)
                    else if rc = - errno_num EAGAIN \<or> rc = - errno_num ENOMEM then flush_fifo_loop env (ff_next e) st
                    else (case mw_getsegment_byid (mmap_file (shm_env (os env))) (shm st) (datasegmentid (message_of st (ff_message e))) of
                            (seg, h) \<Rightarrow>
                              (case drop_buffer env (st\<lparr>shm := h\<rparr>) (message_of st (ff_message e)) seg of
                                 None \<Rightarrow> None
                               | Some st \<Rightarrow>
                                   (case del_fifo_entry st a of None \<Rightarrow> None | Some (q, st) \<Rightarrow> flush_fifo_loop env q st))))))"

definition flush_ipc_fifo :: "gwstate procenv \<Rightarrow> gwstate \<Rightarrow> (int \<times> gwstate) option" where
  "flush_ipc_fifo env st =
     (if ipcfifolen st = 0 then Some (0, st)
      else map_option (\<lambda>st. (ipcfifolen st, st)) (flush_fifo_loop env (ff_tail st) st))"

text \<open>Up to three tries, with a pause before the second and the third.\<close>

fun send_retry :: "gwstate procenv \<Rightarrow> int \<Rightarrow> ipcmesg \<Rightarrow> nat \<Rightarrow> gwstate \<Rightarrow> int \<times> gwstate" where
  "send_retry env i m n st =
     (case mw_ipc_putmessage (os env) st i m of
        (rc, st') \<Rightarrow>
          if rc = - errno_num EAGAIN \<and> n > 0 then send_retry env i m (n - 1) (snd (wait env st')) else (rc, st'))"

text \<open>
  The entry is linked in behind the head after it has become the head itself when the queue
  was empty.
\<close>

definition fifo_enqueue :: "gwstate \<Rightarrow> int \<Rightarrow> nat + call \<Rightarrow> gwstate option" where
  "fifo_enqueue st i m =
     (let q = fifobrk st;
          st = st\<lparr>fifobrk := q + 1, fifo := (fifo st)(q \<mapsto> \<lparr>ff_mwid = i, ff_message = m, ff_next = None, ff_prev = None\<rparr>)\<rparr>;
          st = (if ff_head st = None then st\<lparr>ff_head := Some q, ff_tail := Some q\<rparr> else st);
          st = st\<lparr>ipcfifolen := ipcfifolen st + 1\<rparr>
      in do {
           h \<leftarrow> ff_head st;
           _ \<leftarrow> fifo st h;
           let st = upd_entry st (Some h) (\<lambda>x. x\<lparr>ff_next := Some q\<rparr>);
           let st = upd_entry st (Some q) (\<lambda>x. x\<lparr>ff_prev := Some h\<rparr>);
           Some (st\<lparr>ff_head := Some q\<rparr>)
         })"

definition ipc_sendmessage :: "gwstate procenv \<Rightarrow> gwstate \<Rightarrow> int \<Rightarrow> nat + call \<Rightarrow> gwstate option" where
  "ipc_sendmessage env st i m =
     do {
       (_, st) \<leftarrow> flush_ipc_fifo env st;
       let c = message_of st m;
       let (seg, h) = mw_getsegment_byid (mmap_file (shm_env (os env))) (shm st) (datasegmentid c);
       let (rc, st) = send_retry env i (Call c) 2 (st\<lparr>shm := h\<rparr>);
       if rc = 0
       then if datasegmentid c > LOW_LARGE_BUFFER_NUMBER
            then map_option (\<lambda>si. st\<lparr>shm := mw_detach_mmap (shm st) si\<rparr>) seg
            else Some st
       else if rc = - errno_num EAGAIN then fifo_enqueue st i m
       else drop_buffer env st c seg
     }"

section \<open>Calls and replies\<close>

text \<open>
  The data is handed over in the buffer it was collected in; that this may fail is not
  noticed. A call is sent to the best provider of the service, under a handle of this
  gateway, and waits in the hash table under that handle.
\<close>

definition put_collected :: "gwstate procenv \<Rightarrow> gwstate \<Rightarrow> nat \<Rightarrow> gwstate option" where
  "put_collected env st pc =
     (let x = pcs st pc
      in if pc_datalen x > 0
         then map_option (\<lambda>(rc, c, h). upd_pc (st\<lparr>shm := h\<rparr>) pc (\<lambda>x. x\<lparr>pc_call := c\<rparr>))
                (mw_putbuffer_to_call (shm_env (os env)) (shm st) (pc_call x) (pc_data x) (pc_datalen x) 0)
         else Some st)"

definition send_collected_call :: "gwstate procenv \<Rightarrow> gwstate \<Rightarrow> nat \<Rightarrow> gwstate option" where
  "send_collected_call env st pc =
     do {
       st \<leftarrow> put_collected env st pc;
       let (hdl, st) = mw_nexthandle (os env) st;
       let st = upd_pc st pc (\<lambda>x. x\<lparr>pc_call := (pc_call x)\<lparr>ca_handle := hdl\<rparr>, pc_status := REPLYPENDING\<rparr>);
       let c = pc_call (pcs st pc);
       let svcid = mw_get_best_service (os env) st (ca_service c) (ca_flags c);
       let srvid = mw_get_provider_by_serviceid st svcid;
       let st = upd_pc st pc (\<lambda>x. x\<lparr>dst_mwid := ca_cltid c, dsthdl := ca_handle c\<rparr>);
       st \<leftarrow> rehashPendingCall st pc (ca_cltid c) (ca_handle c);
       let st = upd_pc st pc (\<lambda>x. x\<lparr>pc_call := (pc_call x)\<lparr>ca_svcid := svcid\<rparr>\<rparr>);
       ipc_sendmessage env st srvid (Inl pc)
     }"

definition send_collected_reply :: "gwstate procenv \<Rightarrow> gwstate \<Rightarrow> nat \<Rightarrow> gwstate option" where
  "send_collected_reply env st pc =
     do {
       st \<leftarrow> put_collected env st pc;
       let st = upd_pc st pc (\<lambda>x. x\<lparr>pc_call := (pc_call x)\<lparr>ca_mtype := SVCREPLY, ca_srvid := mygatewayid st\<rparr>\<rparr>);
       st \<leftarrow> ipc_sendmessage env st (src_mwid (pcs st pc)) (Inl pc);
       if ca_returncode (pc_call (pcs st pc)) \<noteq> MWMORE then freePendingCall st pc
       else Some (upd_pc st pc (\<lambda>x. x\<lparr>pc_status := REPLYPENDING, datarecv := 0, pc_datalen := 0, pc_data := 0\<rparr>))
     }"

definition check_if_complete :: "gwstate procenv \<Rightarrow> gwstate \<Rightarrow> nat \<Rightarrow> gwstate option" where
  "check_if_complete env st pc =
     (let x = pcs st pc
      in if pc_status x = CALLDATAPENDING
         then if datarecv x \<noteq> pc_datalen x then Some st else send_collected_call env st pc
         else if pc_status x = REPLYDATAPENDING
         then if datarecv x \<noteq> pc_datalen x then Some st else send_collected_reply env st pc
         else Some st)"

text \<open>Every operation holds the mutex; one that finds it locked does not return.\<close>

definition locked :: "gwstate \<Rightarrow> (gwstate \<Rightarrow> ('r \<times> gwstate) option) \<Rightarrow> ('r \<times> gwstate) option" where
  "locked st f =
     (if callmutex st then None
      else map_option (\<lambda>(r, st). (r, st\<lparr>callmutex := False\<rparr>)) (f (st\<lparr>callmutex := True\<rparr>)))"

definition storeSRBCall ::
  "gwstate procenv \<Rightarrow> gwstate \<Rightarrow> int \<Rightarrow> int \<Rightarrow> urlmap option \<Rightarrow> nat \<Rightarrow> int \<Rightarrow> string \<Rightarrow> string option \<Rightarrow> string option \<Rightarrow> int
   \<Rightarrow> (int \<times> gwstate) option" where
  "storeSRBCall env st mwid nethandle mp cn datatotal service ins domn flags =
     locked st (\<lambda>st. do {
       (pc, st) \<leftarrow> newPendingCall st mwid nethandle;
       let st = upd_pc st pc (\<lambda>x. x\<lparr>srcconn := Some cn, pc_status := CALLDATAPENDING, callmsg := mp, pc_datalen := datatotal,
         pc_call := (pc_call x)\<lparr>ca_mtype := SVCCALL, ca_cltid := mwid, ca_srvid := UNASSIGNED, ca_gwid := mygatewayid st,
           ca_service := strncpy service MWMAXSVCNAME,
           ca_instance := (case ins of None \<Rightarrow> ca_instance (pc_call x) | Some s \<Rightarrow> strncpy s MWMAXNAMELEN),
           ca_domainname := (case domn of None \<Rightarrow> ca_domainname (pc_call x) | Some s \<Rightarrow> strncpy s MWMAXNAMELEN),
           ca_flags := flags\<rparr>\<rparr>);
       st \<leftarrow> check_if_complete env st pc;
       Some (0, st)
     })"

definition storeSRBData :: "gwstate procenv \<Rightarrow> gwstate \<Rightarrow> int \<Rightarrow> int \<Rightarrow> 8 word list \<Rightarrow> (int \<times> gwstate) option" where
  "storeSRBData env st mwid nethandle data =
     locked st (\<lambda>st. do {
       r \<leftarrow> lookupPendingCall st mwid nethandle;
       case r of
         None \<Rightarrow> Some (0, st)
       | Some pc \<Rightarrow>
           do {
             let datalen = int (length data);
             let st = (if pc_datalen (pcs st pc) < 0 then upd_pc st pc (\<lambda>x. x\<lparr>pc_datalen := datalen\<rparr>) else st);
             st \<leftarrow> (if pc_data (pcs st pc) \<noteq> 0 then Some st
                    else map_option (\<lambda>(a, h). upd_pc (st\<lparr>shm := h\<rparr>) pc (\<lambda>x. x\<lparr>pc_data := a\<rparr>))
                           (mwalloc (shm_env (os env)) (shm st) (pc_datalen (pcs st pc))));
             let x = pcs st pc;
             if pc_datalen x < datarecv x + datalen \<or> pc_data x = 0 then None
             else do {
               let st = st\<lparr>shm := store_bytes (shm st) (pc_data x + datarecv x) data\<rparr>;
               let st = upd_pc st pc (\<lambda>x. x\<lparr>datarecv := datarecv x + datalen\<rparr>);
               st \<leftarrow> check_if_complete env st pc;
               Some (0, st)
             }
           }
     })"

definition storeSRBReply ::
  "gwstate procenv \<Rightarrow> gwstate \<Rightarrow> int \<Rightarrow> int \<Rightarrow> urlmap option \<Rightarrow> int \<Rightarrow> int \<Rightarrow> int \<Rightarrow> (int \<times> gwstate) option" where
  "storeSRBReply env st mwid nethandle mp rcode apprcode datatotal =
     locked st (\<lambda>st. do {
       r \<leftarrow> lookupPendingCall st mwid nethandle;
       case r of
         None \<Rightarrow> Some (0, st)
       | Some pc \<Rightarrow>
           if pc_status (pcs st pc) \<noteq> REPLYPENDING then None
           else do {
             let st = upd_pc st pc (\<lambda>x. x\<lparr>pc_call := (pc_call x)\<lparr>ca_returncode := rcode, appreturncode := apprcode\<rparr>,
               pc_status := REPLYDATAPENDING, replymsg := mp, pc_datalen := datatotal\<rparr>);
             st \<leftarrow> check_if_complete env st pc;
             Some (0, st)
           }
     })"

partial_function (option) clear_chain :: "int \<Rightarrow> nat option \<Rightarrow> gwstate \<Rightarrow> gwstate option" where
  "clear_chain mwid pc st =
     (case pc of
        None \<Rightarrow> Some st
      | Some p \<Rightarrow>
          (let n = pc_next (pcs st p)
           in if src_mwid (pcs st p) = mwid
              then (case freePendingCall st p of None \<Rightarrow> None | Some st \<Rightarrow> clear_chain mwid n st)
              else clear_chain mwid n st))"

fun clear_buckets :: "int \<Rightarrow> nat list \<Rightarrow> gwstate \<Rightarrow> gwstate option" where
  "clear_buckets mwid [] st = Some st"
| "clear_buckets mwid (i # is) st = Option.bind (clear_chain mwid (pchash st i) st) (clear_buckets mwid is)"

definition storeSRBClearClient :: "gwstate \<Rightarrow> int \<Rightarrow> (int \<times> gwstate) option" where
  "storeSRBClearClient st mwid = locked st (\<lambda>st. map_option (Pair 0) (clear_buckets mwid [0..<HASHSIZE] st))"

text \<open>
  A call from this domain to a peer. When the data cannot be read or the message cannot be
  sent, the function returns without unlocking the mutex.
\<close>

definition storeIPCCall ::
  "gwstate procenv \<Rightarrow> (string \<Rightarrow> int) \<Rightarrow> nat \<Rightarrow> string \<Rightarrow> gwstate \<Rightarrow> call \<Rightarrow> nat \<Rightarrow> (int \<times> gwstate) option" where
  "storeIPCCall env net per hdl0 st cmsg cn =
     (if callmutex st then None
      else do {
        (pc, st) \<leftarrow> newPendingCall (st\<lparr>callmutex := True\<rparr>) (mw_get_caller_mwid cmsg) (ca_handle cmsg);
        let (hdl, st) = mw_nexthandle (os env) st;
        let st = upd_pc st pc (\<lambda>x. x\<lparr>ipchdl := ca_handle cmsg, dst_mwid := conn_gwid (conns st cn), dsthdl := hdl\<rparr>);
        st \<leftarrow> rehashPendingCall st pc (conn_gwid (conns st cn)) hdl;
        let st = upd_pc st pc (\<lambda>x. x\<lparr>dstconn := Some cn\<rparr>);
        (rc, data, len, h) \<leftarrow> mw_getbuffer_from_call (shm_env (os env)) (shm st) cmsg;
        let st = st\<lparr>shm := h\<rparr>;
        if rc < 0 then map_option (Pair rc) (unlinkPendingCall st pc)
        else do {
          let (rc, co) = mw_srbsendcall net per hdl0 (conn (conns st cn)) (word_of_int hdl) (ca_service cmsg)
                (map_option (map (\<lambda>b. char_of (unat b))) data) (nat len) (word_of_int (ca_flags cmsg));
          let st = st\<lparr>conns := (conns st)(cn := (conns st cn)\<lparr>conn := co\<rparr>)\<rparr>;
          if rc < 0 then map_option (Pair rc) (unlinkPendingCall st pc)
          else Some (0, (upd_pc st pc (\<lambda>x. x\<lparr>pc_call := cmsg, pc_status := REPLYPENDING\<rparr>))\<lparr>callmutex := False\<rparr>)
        }
      })"

text \<open>The connection a reply goes to and the map of the call, or -1.\<close>

definition storeIPCReply :: "gwstate \<Rightarrow> call \<Rightarrow> ((int \<times> nat option \<times> urlmap option) \<times> gwstate) option" where
  "storeIPCReply st cmsg =
     locked st (\<lambda>st. do {
       let mwid = mw_get_caller_mwid cmsg;
       r \<leftarrow> lookupPendingCall st mwid (ca_handle cmsg);
       case r of
         None \<Rightarrow> Some ((-1, None, None), st)
       | Some pc \<Rightarrow>
           do {
             cn \<leftarrow> srcconn (pcs st pc);
             if conn_cid (conns st cn) \<noteq> mwid \<and> conn_gwid (conns st cn) \<noteq> mwid then Some ((-1, None, None), st)
             else if ca_returncode cmsg = MWMORE
             then Some ((0, Some cn, urlmapdup (callmsg (pcs st pc))), st)
             else do {
               let mp = callmsg (pcs st pc);
               st \<leftarrow> freePendingCall (upd_pc st pc (\<lambda>x. x\<lparr>callmsg := None\<rparr>)) pc;
               Some ((0, Some cn, mp), st)
             }
           }
     })"

end
