(* ===== verification/GwServices.thy ===== *)
theory GwServices
  imports CallStore
begin

unbundle bit_operations_syntax

text \<open>
  Services that gateways provide to each other: \<^verbatim>\<open>src/mwgwd/impexp.c\<close>, the peers and the table
  of gateways of \<^verbatim>\<open>src/mwgwd/gateway.c\<close>, \<^verbatim>\<open>src/mwgwd/remdomains.c\<close>, and the connections of
  \<^verbatim>\<open>src/mwgwd/connections.c\<close> as far as they are opened and closed.
\<close>

section \<open>Names in arrays\<close>

text \<open>
  A name of \<open>n\<close> or more octets fills its array without a final NUL, and a comparison that does
  not find a difference before runs past the end.
\<close>

definition arr_eq :: "nat \<Rightarrow> string \<Rightarrow> string \<Rightarrow> bool option" where
  "arr_eq n stored s = (if length stored < n then Some (stored = s) else if take n s = stored then None else Some False)"

fun arr_find :: "nat \<Rightarrow> string \<Rightarrow> string list \<Rightarrow> nat \<Rightarrow> nat option option" where
  "arr_find n s [] i = Some None"
| "arr_find n s (x # xs) i =
     do {
       b \<leftarrow> arr_eq n x s;
       if b then Some (Some i) else arr_find n s xs (i + 1)
     }"

section \<open>Messages to peers\<close>

definition gw_getcostofservice :: "gwenv \<Rightarrow> gwstate \<Rightarrow> string \<Rightarrow> int" where
  "gw_getcostofservice env st service =
     (case mw_get_services_byname (os (gw_proc env)) st service 0 of
        None \<Rightarrow> -1
      | Some ids \<Rightarrow>
          (let costs = map (\<lambda>i. svc_cost (the (svctbl st) ! nat (SVCID2IDX i))) ids
           in if 0 \<in> set costs then 0 else fold min (filter (\<lambda>c. c > -1) costs) 0x7fffffff))"

definition mw_srbsendprovide :: "gwenv \<Rightarrow> nat \<Rightarrow> string \<Rightarrow> int \<Rightarrow> gwstate \<Rightarrow> int \<times> gwstate" where
  "mw_srbsendprovide env cn service cost st =
     (let cost = (if cost < 0 then gw_getcostofservice env st service else cost)
      in if cost < 0 then (-1, st)
         else let cost = (if cost > 999999 then 999999 else cost);
                  msg = mw_srb_init blank_message (Some ''PROVIDE'') SRB_NOTIFICATIONMARKER
                          [(''SVCNAME'', Some service), (''COST'', Some (int_dec cost))]
              in on_conn cn (\<lambda>co. mw_srbsendmessage (gw_net env) co msg) st)"

definition mw_srbsendunprovide :: "gwenv \<Rightarrow> nat \<Rightarrow> string \<Rightarrow> gwstate \<Rightarrow> int \<times> gwstate" where
  "mw_srbsendunprovide env cn service st =
     (let msg = mw_srb_init blank_message (Some ''UNPROVIDE'') SRB_NOTIFICATIONMARKER [(''SVCNAME'', Some service)]
      in on_conn cn (\<lambda>co. mw_srbsendmessage (gw_net env) co msg) st)"

section \<open>Imports\<close>

definition impfind :: "gwstate \<Rightarrow> string \<Rightarrow> nat option option" where
  "impfind st service = arr_find MWMAXSVCNAME service (map imp_servicename (importlist st)) 0"

definition upd_import :: "nat \<Rightarrow> (peerlink list \<Rightarrow> peerlink list) \<Rightarrow> gwstate \<Rightarrow> gwstate" where
  "upd_import i f st = st\<lparr>importlist := (importlist st)[i := (importlist st ! i)\<lparr>imp_peerlist := f (imp_peerlist (importlist st ! i))\<rparr>]\<rparr>"

fun set_svcid :: "(nat \<Rightarrow> int) \<Rightarrow> int \<Rightarrow> int \<Rightarrow> peerlink list \<Rightarrow> peerlink list option" where
  "set_svcid gwid_of svcid gwid [] = None"
| "set_svcid gwid_of svcid gwid (pl # pls) =
     (if gwid_of (pl_peer pl) = gwid then Some (pl\<lparr>pl_svcid := svcid\<rparr> # pls)
      else map_option ((#) pl) (set_svcid gwid_of svcid gwid pls))"

definition impsetsvcid :: "gwenv \<Rightarrow> string \<Rightarrow> int \<Rightarrow> int \<Rightarrow> gwstate \<Rightarrow> gwstate option" where
  "impsetsvcid env service svcid gwid st =
     do {
       imp \<leftarrow> impfind st service;
       let unprovide = snd (mw_ipcsend_unprovide_for_id (gw_proc env) st gwid service 0);
       case imp of
         None \<Rightarrow> Some unprovide
       | Some i \<Rightarrow>
           (case set_svcid (\<lambda>p. pi_gwid (knownGWs st ! p)) svcid gwid (imp_peerlist (importlist st ! i)) of
              None \<Rightarrow> Some unprovide
            | Some pls \<Rightarrow> Some (upd_import i (\<lambda>_. pls) st))
     }"

text \<open>The entry, by its place in the list, and the state with a new one at the top if there was none.\<close>

definition condnewimport :: "string \<Rightarrow> gwstate \<Rightarrow> (nat \<times> gwstate) option" where
  "condnewimport service st =
     do {
       imp \<leftarrow> impfind st service;
       case imp of
         Some i \<Rightarrow> Some (i, st)
       | None \<Rightarrow> Some (0, st\<lparr>importlist := \<lparr>imp_servicename = strncpy service MWMAXSVCNAME, imp_peerlist = []\<rparr> # importlist st\<rparr>)
     }"

fun take_link :: "nat \<Rightarrow> peerlink list \<Rightarrow> (peerlink \<times> peerlink list) option" where
  "take_link p [] = None"
| "take_link p (pl # pls) =
     (if pl_peer pl = p then Some (pl, pls) else map_option (\<lambda>(x, pls). (x, pl # pls)) (take_link p pls))"

text \<open>
  The loop that takes an entry out of the list moves the head of the list, so the entries in
  front of it are lost. The result is uninitialised except where the peer is missing.
\<close>

definition unimportservice :: "gwenv \<Rightarrow> string \<Rightarrow> nat option \<Rightarrow> gwstate \<Rightarrow> (int \<times> gwstate) option" where
  "unimportservice env service p st =
     (case p of
        None \<Rightarrow> Some (- errno_num EINVAL, st)
      | Some p \<Rightarrow>
          do {
            imp \<leftarrow> impfind st service;
            case imp of
              None \<Rightarrow> Some (junkint env, st)
            | Some i \<Rightarrow>
                (case take_link p (imp_peerlist (importlist st ! i)) of
                   None \<Rightarrow> Some (junkint env, st)
                 | Some (pl, pls) \<Rightarrow>
                     (let st = (if pl_svcid pl \<noteq> UNASSIGNED
                                then snd (mw_ipcsend_unprovide_for_id (gw_proc env) st (pi_gwid (knownGWs st ! p)) service (pl_svcid pl))
                                else st);
                          st = upd_import i (\<lambda>_. pls) st
                      in Some (junkint env, if pls \<noteq> [] then st else st\<lparr>importlist := drop (i + 1) (importlist st)\<rparr>)))
          })"

definition importservice :: "gwenv \<Rightarrow> string \<Rightarrow> int \<Rightarrow> nat option \<Rightarrow> gwstate \<Rightarrow> (int \<times> gwstate) option" where
  "importservice env service cost p st =
     do {
       (i, st) \<leftarrow> condnewimport service st;
       case p of
         None \<Rightarrow> None
       | Some p \<Rightarrow>
           if p \<in> pl_peer ` set (imp_peerlist (importlist st ! i)) then Some (0, st)
           else let st = upd_import i (\<lambda>pls. pls @ [\<lparr>pl_peer = p, pl_svcid = UNASSIGNED\<rparr>]) st;
                    (rc, st) = mw_ipcsend_provide_for_id (gw_proc env) st (pi_gwid (knownGWs st ! p)) service cost 0
                in if rc < 0 then map_option (\<lambda>(_, st). (rc, st)) (unimportservice env service (Some p) st)
                   else Some (0, st)
     }"

fun impclean_loop :: "gwenv \<Rightarrow> nat \<Rightarrow> import list \<Rightarrow> gwstate \<Rightarrow> import list \<times> gwstate" where
  "impclean_loop env p [] st = ([], st)"
| "impclean_loop env p (imp # imps) st =
     (case take_link p (imp_peerlist imp) of
        None \<Rightarrow> map_prod ((#) imp) id (impclean_loop env p imps st)
      | Some (pl, pls) \<Rightarrow>
          if pls \<noteq> [] then map_prod ((#) (imp\<lparr>imp_peerlist := pls\<rparr>)) id (impclean_loop env p imps st)
          else impclean_loop env p imps
                 (if pl_svcid pl \<noteq> UNASSIGNED
                  then snd (mw_ipcsend_unprovide_for_id (gw_proc env) st (pi_gwid (knownGWs st ! p)) (imp_servicename imp) (pl_svcid pl))
                  else st))"

definition impcleanuppeer :: "gwenv \<Rightarrow> nat \<Rightarrow> gwstate \<Rightarrow> gwstate" where
  "impcleanuppeer env p st = (case impclean_loop env p (importlist st) st of (imps, st) \<Rightarrow> st\<lparr>importlist := imps\<rparr>)"

text \<open>The connection a call to an imported service goes out on.\<close>

fun findpeerconn_loop :: "gwstate \<Rightarrow> string \<Rightarrow> int \<Rightarrow> import list \<Rightarrow> nat option option" where
  "findpeerconn_loop st service svcid [] = Some None"
| "findpeerconn_loop st service svcid (imp # imps) =
     do {
       b \<leftarrow> arr_eq MWMAXSVCNAME (imp_servicename imp) service;
       case (if b then List.find (\<lambda>pl. pl_svcid pl = svcid) (imp_peerlist imp) else None) of
         Some pl \<Rightarrow> Some (pi_conn (knownGWs st ! pl_peer pl))
       | None \<Rightarrow> findpeerconn_loop st service svcid imps
     }"

definition impfindpeerconn :: "gwstate \<Rightarrow> string \<Rightarrow> int \<Rightarrow> nat option option" where
  "impfindpeerconn st service svcid = findpeerconn_loop st service svcid (importlist st)"

section \<open>Exports\<close>

definition expfind :: "gwstate \<Rightarrow> string \<Rightarrow> nat option option" where
  "expfind st service = arr_find MWMAXSVCNAME service (map exp_servicename (exportlist st)) 0"

definition condnewexport :: "string \<Rightarrow> gwstate \<Rightarrow> (nat \<times> gwstate) option" where
  "condnewexport service st =
     do {
       e \<leftarrow> expfind st service;
       case e of
         Some i \<Rightarrow> Some (i, st)
       | None \<Rightarrow> Some (length (exportlist st),
           st\<lparr>exportlist := exportlist st @ [\<lparr>exp_servicename = strncpy service MWMAXSVCNAME, exp_peerlist = [], exp_cost = -1\<rparr>]\<rparr>)
     }"

definition upd_export :: "nat \<Rightarrow> (export \<Rightarrow> export) \<Rightarrow> gwstate \<Rightarrow> gwstate" where
  "upd_export i f st = st\<lparr>exportlist := (exportlist st)[i := f (exportlist st ! i)]\<rparr>"

definition exportservicetopeer :: "gwenv \<Rightarrow> string \<Rightarrow> nat \<Rightarrow> gwstate \<Rightarrow> (int \<times> gwstate) option" where
  "exportservicetopeer env service p st =
     (if domainid (knownGWs st ! p) \<noteq> 0 \<or> (service \<noteq> [] \<and> hd service = CHR ''.'') then Some (-1, st)
      else do {
        (i, st) \<leftarrow> condnewexport service st;
        let st = (if exp_cost (exportlist st ! i) = -1
                  then upd_export i (\<lambda>e. e\<lparr>exp_cost := gw_getcostofservice env st service\<rparr>) st else st);
        if p \<in> set (exp_peerlist (exportlist st ! i)) then Some (1, st)
        else do {
          let st = upd_export i (\<lambda>e. e\<lparr>exp_peerlist := exp_peerlist e @ [p]\<rparr>) st;
          cn \<leftarrow> pi_conn (knownGWs st ! p);
          Some (mw_srbsendprovide env cn service (exp_cost (exportlist st ! i)) st)
        }
      })"

fun unprovide_loop :: "gwenv \<Rightarrow> string \<Rightarrow> nat list \<Rightarrow> gwstate \<Rightarrow> gwstate option" where
  "unprovide_loop env service [] st = Some st"
| "unprovide_loop env service (p # ps) st =
     do {
       cn \<leftarrow> pi_conn (knownGWs st ! p);
       unprovide_loop env service ps (snd (mw_srbsendunprovide env cn service st))
     }"

definition unexportservice :: "gwenv \<Rightarrow> string \<Rightarrow> gwstate \<Rightarrow> gwstate option" where
  "unexportservice env service st =
     do {
       e \<leftarrow> expfind st service;
       case e of
         None \<Rightarrow> Some st
       | Some i \<Rightarrow>
           unprovide_loop env service (exp_peerlist (exportlist st ! i))
             (st\<lparr>exportlist := take i (exportlist st) @ drop (i + 1) (exportlist st)\<rparr>)
     }"

definition expcleanuppeer :: "nat \<Rightarrow> gwstate \<Rightarrow> gwstate" where
  "expcleanuppeer p st = st\<lparr>exportlist := map (\<lambda>e. e\<lparr>exp_peerlist := remove1 p (exp_peerlist e)\<rparr>) (exportlist st)\<rparr>"

definition impexp_cleanuppeer :: "gwenv \<Rightarrow> nat \<Rightarrow> gwstate \<Rightarrow> gwstate" where
  "impexp_cleanuppeer env p st = impcleanuppeer env p (expcleanuppeer p st)"

fun to_peers_loop :: "(nat \<Rightarrow> nat \<Rightarrow> gwstate \<Rightarrow> gwstate option) \<Rightarrow> nat list \<Rightarrow> gwstate \<Rightarrow> gwstate option" where
  "to_peers_loop f [] st = Some st"
| "to_peers_loop f (p # ps) st =
     do {
       st \<leftarrow> (case pi_conn (knownGWs st ! p) of
                None \<Rightarrow> Some st
              | Some cn \<Rightarrow> if conn_state (conns st cn) \<noteq> CONNECT_STATE_UP then Some st else f p cn st);
       to_peers_loop f ps st
     }"

definition gw_provideservice_to_peers :: "gwenv \<Rightarrow> string \<Rightarrow> gwstate \<Rightarrow> gwstate option" where
  "gw_provideservice_to_peers env service st =
     to_peers_loop (\<lambda>p cn st. map_option snd (exportservicetopeer env service p st)) [0..<length (knownGWs st)] st"

definition gw_send_to_peers :: "gwenv \<Rightarrow> srbmessage \<Rightarrow> gwstate \<Rightarrow> gwstate option" where
  "gw_send_to_peers env msg st =
     to_peers_loop (\<lambda>p cn st. Some (snd (on_conn cn (\<lambda>co. mw_srbsendmessage (gw_net env) co msg) st))) [0..<length (knownGWs st)] st"

text \<open>When the service has gone, the entry is released before its cost is read.\<close>

definition doprovideevent :: "gwenv \<Rightarrow> string \<Rightarrow> gwstate \<Rightarrow> gwstate option" where
  "doprovideevent env service st =
     do {
       (i, st) \<leftarrow> condnewexport service st;
       let cost = gw_getcostofservice env st service;
       if cost = -1 then None
       else if cost \<noteq> exp_cost (exportlist st ! i)
       then gw_provideservice_to_peers env service (upd_export i (\<lambda>e. e\<lparr>exp_cost := cost\<rparr>) st)
       else Some st
     }"

definition dounprovideevent :: "gwenv \<Rightarrow> string \<Rightarrow> gwstate \<Rightarrow> gwstate option" where
  "dounprovideevent env service st =
     (case mw_get_services_byname (os (gw_proc env)) st service 0 of
        None \<Rightarrow> unexportservice env service st
      | Some _ \<Rightarrow> Some st)"

end
