(* ===== verification/GwPeers.thy ===== *)
theory GwPeers
  imports GwServices
begin

unbundle bit_operations_syntax

text \<open>
  Peers, connections and the clients behind them: the table of gateways and of known peers
  of \<^verbatim>\<open>src/mwgwd/gateway.c\<close>, the connections of \<^verbatim>\<open>src/mwgwd/connections.c\<close> and of
  \<^verbatim>\<open>src/mwgwd/tcpserver.c\<close> as they are opened and closed, the attaching clients of
  \<^verbatim>\<open>src/mwgwd/store.c\<close> and the subscriptions of \<^verbatim>\<open>src/mwgwd/srbevents.c\<close>.
\<close>

abbreviation (input) SRB_ROLE_CLIENT :: int where "SRB_ROLE_CLIENT \<equiv> 1"
abbreviation (input) SRB_ROLE_GATEWAY :: int where "SRB_ROLE_GATEWAY \<equiv> 2"

section \<open>The table of gateways\<close>

definition gw_setmystatus :: "int \<Rightarrow> gwstate \<Rightarrow> gwstate option" where
  "gw_setmystatus status st =
     (let i = GWID2IDX (mygatewayid st)
      in case tbl_at (gwtbl st) i of
           None \<Rightarrow> None
         | Some _ \<Rightarrow> Some (st\<lparr>gwtbl := tbl_upd (\<lambda>e. e\<lparr>gw_status := status\<rparr>) i (gwtbl st)\<rparr>))"

definition allocgwid :: "gwenv \<Rightarrow> int \<Rightarrow> int \<Rightarrow> gwstate \<Rightarrow> int \<times> gwstate" where
  "allocgwid env location role st =
     (case (ipcmain st, gwtbl st) of
        (Some im, Some tbl) \<Rightarrow>
          (case List.find (\<lambda>i. gw_pid (tbl ! i) = UNASSIGNED) (scan_order (gwtbl_nextidx im) (length tbl)) of
             None \<Rightarrow> (UNASSIGNED, st)
           | Some idx \<Rightarrow>
               (int idx OR MWGATEWAYMASK,
                st\<lparr>gwtbl := Some (tbl[idx := (tbl ! idx)\<lparr>srbrole := role, gw_mqid := my_mqid st, gw_pid := ipcserverpid env,
                     gw_status := MWBOOTING, gw_location := location, gw_connected := now (os (gw_proc env)), gw_addr_string := []\<rparr>]),
                   ipcmain := Some (im\<lparr>gwtbl_nextidx := int idx + 1\<rparr>)\<rparr>))
      | _ \<Rightarrow> (-1, st))"

text \<open>The length of the table is an index that passes the test.\<close>

definition freegwid :: "int \<Rightarrow> gwstate \<Rightarrow> gwstate option" where
  "freegwid gwid st =
     (if gwid = UNASSIGNED then Some st
      else let i = gwid AND MWINDEXMASK
           in if i > tbl_length (gwtbl st) then Some st
              else if i = tbl_length (gwtbl st) then None
              else Some (st\<lparr>gwtbl := tbl_upd (\<lambda>e. e\<lparr>srbrole := 0, gw_mqid := UNASSIGNED, gw_status := MWDEAD,
                     gw_location := UNASSIGNED, gw_pid := UNASSIGNED, gw_addr_string := []\<rparr>) i (gwtbl st)\<rparr>))"

definition gw_setipc :: "gwenv \<Rightarrow> nat option \<Rightarrow> gwstate \<Rightarrow> gwstate option" where
  "gw_setipc env p st =
     (case p of
        None \<Rightarrow> Some st
      | Some p \<Rightarrow>
          (let pi = knownGWs st ! p
           in case mw_get_gateway_byid st (pi_gwid pi) of
                None \<Rightarrow> Some st
              | Some i \<Rightarrow>
                  if pi_conn pi = None then None
                  else Some (st\<lparr>gwtbl := tbl_upd (\<lambda>e. e\<lparr>
                         gw_location := (if domainid pi = 0 then GWPEER else GWREMOTE),
                         domainname := (if domainid pi = 0 then strncpy (mydomain env) MWMAXNAMELEN else ''FOREIGN''),
                         gw_status := MWREADY, instancename := strncpy (pi_instance pi) MWMAXNAMELEN\<rparr>) i (gwtbl st)\<rparr>)))"

section \<open>Known peers\<close>

definition remdom_getid :: "gwenv \<Rightarrow> string \<Rightarrow> int" where
  "remdom_getid env domain = (if domain = mydomain env then 0 else - errno_num ENOENT)"

definition getKnownPeerByInstance :: "gwstate \<Rightarrow> string \<Rightarrow> nat option option" where
  "getKnownPeerByInstance st instance_name = arr_find MWMAXNAMELEN instance_name (map pi_instance (knownGWs st)) 0"

definition getKnownPeerByGWID :: "gwstate \<Rightarrow> int \<Rightarrow> nat option" where
  "getKnownPeerByGWID st gwid = List.find (\<lambda>i. pi_gwid (knownGWs st ! i) = gwid) [0..<length (knownGWs st)]"

definition addKnownPeer :: "gwpeerinfo \<Rightarrow> gwstate \<Rightarrow> (nat \<times> gwstate) option" where
  "addKnownPeer peer st =
     do {
       k \<leftarrow> arr_find MWMAXNAMELEN (pi_instance peer) (map pi_instance (knownGWs st)) 0;
       case k of
         Some i \<Rightarrow> Some (i, st)
       | None \<Rightarrow> Some (length (knownGWs st), st\<lparr>knownGWs := knownGWs st @ [peer]\<rparr>)
     }"

definition gw_addknownpeer :: "gwenv \<Rightarrow> string \<Rightarrow> string \<Rightarrow> string option \<Rightarrow> gwstate \<Rightarrow> (int \<times> nat option \<times> gwstate) option" where
  "gw_addknownpeer env instance_name domain peeraddr st =
     (case peeraddr of
        None \<Rightarrow> Some (- errno_num EAFNOSUPPORT, None, st)
      | Some host \<Rightarrow>
          (let domid = remdom_getid env domain
           in if domid < 0 then Some (- errno_num EPERM, None, st)
              else do {
                (p, st) \<leftarrow> addKnownPeer \<lparr>pi_hostname = host, pi_instance = strncpy instance_name MWMAXNAMELEN, domainid = domid,
                              pi_gwid = UNASSIGNED, pi_conn = None, password = None\<rparr> st;
                Some (0, Some p, st)
              }))"

definition gw_peerconnected :: "gwenv \<Rightarrow> string \<Rightarrow> string \<Rightarrow> nat \<Rightarrow> gwstate \<Rightarrow> (int \<times> gwstate) option" where
  "gw_peerconnected env instance_name peerdomain cn st =
     (let domid = remdom_getid env peerdomain
      in if domid < 0 then Some (-1, st)
         else do {
           k \<leftarrow> getKnownPeerByInstance st instance_name;
           (k, st) \<leftarrow> (case k of
                        Some p \<Rightarrow> Some (Some p, st)
                      | None \<Rightarrow> map_option snd (gw_addknownpeer env instance_name peerdomain (peername env (fd (conn (conns st cn)))) st));
           case k of
             None \<Rightarrow> Some (-1, st)
           | Some p \<Rightarrow>
               if pi_conn (knownGWs st ! p) \<noteq> None then Some (-1, st)
               else do {
                 let (gwid, st) = allocgwid env (if domid = 0 then GWPEER else GWREMOTE) SRB_ROLE_GATEWAY st;
                 let st = upd_conn cn (\<lambda>c. c\<lparr>conn_peerinfo := Some p, conn_gwid := gwid\<rparr>) st;
                 let st = upd_peer p (\<lambda>pi. pi\<lparr>domainid := domid, pi_conn := Some cn, pi_gwid := gwid\<rparr>) st;
                 st \<leftarrow> gw_setipc env (Some p) st;
                 Some (0, st)
               }
         })"

text \<open>The names of the services a new peer is told, each once and in the order of the table.\<close>

fun unique_names :: "string list \<Rightarrow> string list \<Rightarrow> string list" where
  "unique_names acc [] = acc"
| "unique_names acc (s # ss) = unique_names (if s \<in> set acc then acc else acc @ [s]) ss"

fun export_loop :: "gwenv \<Rightarrow> nat \<Rightarrow> string list \<Rightarrow> gwstate \<Rightarrow> gwstate option" where
  "export_loop env p [] st = Some st"
| "export_loop env p (s # ss) st =
     do {
       (rc, st) \<leftarrow> exportservicetopeer env s p st;
       export_loop env p ss st
     }"

definition gw_provideservices_to_peer :: "gwenv \<Rightarrow> int \<Rightarrow> gwstate \<Rightarrow> gwstate option" where
  "gw_provideservices_to_peer env gwid st =
     (case (getKnownPeerByGWID st gwid, svctbl st) of
        (Some p, Some tbl) \<Rightarrow>
          export_loop env p (unique_names [] (map servicename
            (filter (\<lambda>e. svc_type e \<noteq> UNASSIGNED \<and> svc_location e \<noteq> GWPEER) tbl))) st
      | _ \<Rightarrow> None)"

section \<open>Connections\<close>

definition fd2conn :: "gwstate \<Rightarrow> int \<Rightarrow> nat option" where
  "fd2conn st f = (if 0 \<le> f \<and> f < int (conntblsize st) then Some (nat f) else None)"

definition conn_clear :: gwconn where
  "conn_clear = \<lparr>conn = \<lparr>fd = UNASSIGNED, rejects = 0, sent = [], messagebuffer = False, som = 0, pending = [], boundary = None\<rparr>,
     connectionid = UNASSIGNED, conn_cid = UNASSIGNED, conn_gwid = UNASSIGNED, conn_role = UNASSIGNED, conn_state = 0,
     conn_type = CONN_TYPE_NONE, conn_cost = 100, conn_peerinfo = None\<rparr>"

definition conn_setinfo :: "int \<Rightarrow> int \<Rightarrow> gwstate \<Rightarrow> gwstate option" where
  "conn_setinfo f i st =
     do {
       cn \<leftarrow> fd2conn st f;
       let st = (if (i AND MWCLIENTMASK) \<noteq> 0 then upd_conn cn (\<lambda>c. c\<lparr>conn_cid := (i AND MWINDEXMASK) OR MWCLIENTMASK\<rparr>) st else st);
       Some (if (i AND MWGATEWAYMASK) \<noteq> 0 then upd_conn cn (\<lambda>c. c\<lparr>conn_gwid := (i AND MWINDEXMASK) OR MWGATEWAYMASK\<rparr>) st else st)
     }"

definition conn_getinfo :: "gwstate \<Rightarrow> nat \<Rightarrow> int" where
  "conn_getinfo st cn =
     (if CLTID (conn_cid (conns st cn)) \<noteq> UNASSIGNED then conn_cid (conns st cn)
      else if GWID (conn_gwid (conns st cn)) \<noteq> UNASSIGNED then conn_gwid (conns st cn)
      else UNASSIGNED)"

text \<open>The address of the peer, as the table of the member shows it.\<close>

definition conn_setpeername :: "gwenv \<Rightarrow> nat \<Rightarrow> gwstate \<Rightarrow> gwstate option" where
  "conn_setpeername env cn st =
     (let c = conns st cn;
          addr = (case getpeername env (fd (conn c)) of
                    None \<Rightarrow> None
                  | Some (AF_INET ip port) \<Rightarrow> Some (''INET:'' @ ip @ '':'' @ int_dec (int port))
                  | Some AF_INET6 \<Rightarrow> Some ''INET6:''
                  | Some (AF_OTHER family) \<Rightarrow> Some (''??Family '' @ int_dec (int family) @ '':''))
      in case addr of
           None \<Rightarrow> Some st
         | Some a \<Rightarrow>
             if conn_cid c \<noteq> UNASSIGNED
             then case mw_getcliententry st (conn_cid c) of
                    None \<Rightarrow> Some st
                  | Some i \<Rightarrow> if tbl_at (clttbl st) i = None then None
                              else Some (st\<lparr>clttbl := tbl_upd (\<lambda>e. e\<lparr>clt_addr_string := take 64 a\<rparr>) i (clttbl st)\<rparr>)
             else if conn_gwid c \<noteq> UNASSIGNED
             then case mw_getgatewayentry st (conn_gwid c) of
                    None \<Rightarrow> Some st
                  | Some i \<Rightarrow> if tbl_at (gwtbl st) i = None then None
                              else Some (st\<lparr>gwtbl := tbl_upd (\<lambda>e. e\<lparr>gw_addr_string := take 64 a\<rparr>) i (gwtbl st)\<rparr>)
             else Some st)"

text \<open>
  A descriptor beyond what \<open>select\<close> can watch is closed again at once. An entry in use is
  left as it is.
\<close>

definition conn_add :: "nat \<Rightarrow> int \<Rightarrow> conntype \<Rightarrow> gwstate \<Rightarrow> gwstate" where
  "conn_add f role type st =
     (let next = lastconnectionid st + 1;
          st = st\<lparr>lastconnectionid := (if next \<le> 0 \<or> next > 0x7fffffff then 100 else next)\<rparr>;
          st = (if conntblsize st \<le> f
                then st\<lparr>conns := (\<lambda>i. if conntblsize st \<le> i \<and> i < (f div 10 + 1) * 10 then conn_clear else conns st i),
                        conntblsize := (f div 10 + 1) * 10\<rparr>
                else st)
      in if fd (conn (conns st f)) \<noteq> UNASSIGNED then st
         else let st = upd_conn f (\<lambda>c. c\<lparr>connectionid := lastconnectionid st, conn_cost := 100,
                          conn := (conn c)\<lparr>fd := int f, messagebuffer := True\<rparr>\<rparr>) st;
                  st = (if f \<ge> 1023 then upd_conn f (\<lambda>_. conn_clear) st else st)
              in upd_conn f (\<lambda>c. c\<lparr>conn_role := role, conn_type := type\<rparr>) st)"

text \<open>
  Closing a connection of a gateway cleans up after the peer first; the connection that is
  closed in the end is the one the peer is known by.
\<close>

definition gw_closegateway :: "gwenv \<Rightarrow> nat \<Rightarrow> gwstate \<Rightarrow> gwstate option" where
  "gw_closegateway env cn st =
     do {
       let gwid = conn_gwid (conns st cn);
       (cn, st) \<leftarrow>
         (if gwid \<noteq> -1
          then case getKnownPeerByGWID st gwid of
                 None \<Rightarrow> map_option (Pair (Some cn)) (freegwid gwid st)
               | Some p \<Rightarrow>
                   (let st = impexp_cleanuppeer env p st;
                        c = pi_conn (knownGWs st ! p);
                        st = upd_peer p (\<lambda>pi. pi\<lparr>pi_gwid := UNASSIGNED, pi_conn := None\<rparr>) st
                    in map_option (Pair c) (freegwid gwid st))
          else Some (Some cn, st));
       case cn of
         None \<Rightarrow> Some st
       | Some cn \<Rightarrow>
           do {
             let f = fd (conn (conns st cn));
             let st = upd_conn cn (\<lambda>c. c\<lparr>conn_gwid := UNASSIGNED\<rparr>) st;
             let st = (case conn_peerinfo (conns st cn) of None \<Rightarrow> st | Some q \<Rightarrow> upd_peer q (\<lambda>pi. pi\<lparr>pi_conn := None\<rparr>) st);
             let st = upd_conn cn (\<lambda>c. c\<lparr>conn_peerinfo := None\<rparr>) st;
             cn \<leftarrow> fd2conn st f;
             Some (upd_conn cn (\<lambda>_. conn_clear) st)
           }
     }"

definition conn_del :: "gwenv \<Rightarrow> int \<Rightarrow> gwstate \<Rightarrow> gwstate option" where
  "conn_del env f st =
     do {
       cn \<leftarrow> fd2conn st f;
       if conn_gwid (conns st cn) \<noteq> UNASSIGNED then gw_closegateway env cn st
       else Some (upd_conn cn (\<lambda>_. conn_clear) st)
     }"

text \<open>
  \<open>held\<close> tells whether the caller holds the mutex of the table of peers, which closing a
  connection that has an id of a gateway takes too.
\<close>

definition gw_connectpeer :: "gwenv \<Rightarrow> bool \<Rightarrow> nat \<Rightarrow> gwstate \<Rightarrow> gwstate option" where
  "gw_connectpeer env held p st =
     (if pi_conn (knownGWs st ! p) \<noteq> None then Some st
      else let s = newsocket env;
               st = conn_add s SRB_ROLE_GATEWAY CONN_TYPE_GATEWAY st;
               st = upd_conn s (\<lambda>c. c\<lparr>conn_state := CONNECT_STATE_CONNWAIT\<rparr>) st;
               give_up = (\<lambda>st. if held \<and> conn_gwid (conns st s) \<noteq> UNASSIGNED then None else conn_del env (int s) st)
           in if \<not> resolves env (pi_hostname (knownGWs st ! p)) then give_up st
              else case allocgwid env GWPEER SRB_ROLE_GATEWAY st of
                     (gwid, st) \<Rightarrow>
                       if gwid = UNASSIGNED then Some st
                       else let st = upd_conn s (\<lambda>c. c\<lparr>conn_gwid := gwid\<rparr>) st;
                                st = upd_peer p (\<lambda>pi. pi\<lparr>pi_gwid := gwid\<rparr>) st
                            in case connects env (pi_hostname (knownGWs st ! p)) of
                                 Some True \<Rightarrow>
                                   Some (upd_conn s (\<lambda>c. c\<lparr>conn_state := CONNECT_STATE_READYWAIT\<rparr>)
                                           (upd_peer p (\<lambda>pi. pi\<lparr>pi_conn := Some s\<rparr>) st))
                               | Some False \<Rightarrow>
                                   Some (upd_conn s (\<lambda>c. c\<lparr>conn_peerinfo := Some p\<rparr>)
                                           (upd_peer p (\<lambda>pi. pi\<lparr>pi_conn := Some s\<rparr>) st))
                               | None \<Rightarrow> give_up st)"

text \<open>Every peer that is not connected is tried, each with a socket of its own.\<close>

fun connectpeers_loop :: "(nat \<Rightarrow> gwenv) \<Rightarrow> nat list \<Rightarrow> gwstate \<Rightarrow> gwstate option" where
  "connectpeers_loop env [] st = Some st"
| "connectpeers_loop env (p # ps) st =
     do {
       st \<leftarrow> (if pi_conn (knownGWs st ! p) = None then gw_connectpeer (env p) True p st else Some st);
       connectpeers_loop env ps st
     }"

definition gw_connectpeers :: "(nat \<Rightarrow> gwenv) \<Rightarrow> gwstate \<Rightarrow> gwstate option" where
  "gw_connectpeers env st = connectpeers_loop env [0..<length (knownGWs st)] st"

section \<open>Clients that attach\<close>

definition storePushAttach :: "string \<Rightarrow> int \<Rightarrow> int \<Rightarrow> urlmap option \<Rightarrow> gwstate \<Rightarrow> gwstate" where
  "storePushAttach cname connid f mp st =
     st\<lparr>attachInProgress := \<lparr>pa_fd = f, pa_connid = connid, pa_cname = cname, pa_map = mp\<rparr> # attachInProgress st\<rparr>"

fun take_attach :: "string \<Rightarrow> pendingattach list \<Rightarrow> (pendingattach \<times> pendingattach list) option" where
  "take_attach cname [] = None"
| "take_attach cname (pa # pas) =
     (if pa_cname pa = cname then Some (pa, pas) else map_option (\<lambda>(x, pas). (x, pa # pas)) (take_attach cname pas))"

definition storePopAttach :: "string \<Rightarrow> gwstate \<Rightarrow> (int \<times> int \<times> int \<times> urlmap option) \<times> gwstate" where
  "storePopAttach cname st =
     (case take_attach cname (attachInProgress st) of
        None \<Rightarrow> ((0, -1, -1, None), st)
      | Some (pa, pas) \<Rightarrow> ((1, pa_connid pa, pa_fd pa, pa_map pa), st\<lparr>attachInProgress := pas\<rparr>))"

text \<open>A send that fails has cleared \<open>errno\<close>, whose negative value is the result.\<close>

definition gwattachclient :: "gwenv \<Rightarrow> nat \<Rightarrow> string \<Rightarrow> urlmap option \<Rightarrow> gwstate \<Rightarrow> int \<times> gwstate" where
  "gwattachclient env cn cname mp st =
     (let st = storePushAttach cname (connectionid (conns st cn)) (fd (conn (conns st cn))) mp st;
          m = Attach \<lparr>at_mtype = ATTACHREQ, at_ipcqid = my_mqid st, at_pid = ipcserverpid env, at_server = False, at_srvname = [],
                at_srvid = 0, at_client = True, at_cltname = strncpy cname MWMAXNAMELEN, at_cltid = 0, at_gwid = mygatewayid st,
                at_flags = 0, at_returncode = 0\<rparr>;
          e = put_errno (os (gw_proc env)) st 0 m;
          (rc, st) = mw_ipc_putmessage (os (gw_proc env)) st 0 m
      in (if rc \<noteq> 0 then - e else 0, set_errno e st))"

definition gwdetachclient :: "gwenv \<Rightarrow> int \<Rightarrow> gwstate \<Rightarrow> int \<times> gwstate" where
  "gwdetachclient env cltid st =
     (let m = Attach \<lparr>at_mtype = DETACHREQ, at_ipcqid = my_mqid st, at_pid = ipcserverpid env, at_server = False, at_srvname = [],
                at_srvid = 0, at_client = True, at_cltname = [], at_cltid = cltid OR MWCLIENTMASK, at_gwid = mygatewayid st,
                at_flags = MWFORCE, at_returncode = 0\<rparr>;
          e = put_errno (os (gw_proc env)) st 0 m;
          (rc, st) = mw_ipc_putmessage (os (gw_proc env)) st 0 m
      in (if rc \<noteq> 0 then - e else 0, set_errno e st))"

section \<open>Subscriptions\<close>

abbreviation (input) MWEVGLOB :: int where "MWEVGLOB \<equiv> 0x00100000"
abbreviation (input) MWEVREGEXP :: int where "MWEVREGEXP \<equiv> 0x00200000"
abbreviation (input) MWEVEREGEXP :: int where "MWEVEREGEXP \<equiv> 0x00400000"

definition findsub :: "gwstate \<Rightarrow> nat \<Rightarrow> int \<Rightarrow> srbsubscription option" where
  "findsub st cn i = List.find (\<lambda>s. sub_conn s = cn \<and> sub_id s = i) (srbsubs st)"

text \<open>The result is uninitialised for a pattern that is not compiled.\<close>

definition srb_subscribe :: "gwenv \<Rightarrow> nat \<Rightarrow> string \<Rightarrow> int \<Rightarrow> int \<Rightarrow> gwstate \<Rightarrow> int \<times> gwstate" where
  "srb_subscribe env cn pat i flags st =
     (let flags = flags AND 0x00700000
      in if findsub st cn i \<noteq> None then (- errno_num EEXIST, st)
         else (if (flags AND (MWEVREGEXP OR MWEVEREGEXP)) \<noteq> 0
               then if regcomp (os (gw_proc env)) ((flags AND MWEVEREGEXP) \<noteq> 0) pat then 0 else 1
               else junkint env,
               st\<lparr>srbsubs := srbsubs st @ [\<lparr>sub_pattern = pat, sub_flags = flags, sub_id = i, sub_conn = cn\<rparr>]\<rparr>))"

fun remove_sub :: "(srbsubscription \<Rightarrow> bool) \<Rightarrow> srbsubscription list \<Rightarrow> srbsubscription list" where
  "remove_sub P [] = []"
| "remove_sub P (s # ss) = (if P s then ss else s # remove_sub P ss)"

definition srb_unsubscribe :: "nat \<Rightarrow> int \<Rightarrow> gwstate \<Rightarrow> gwstate" where
  "srb_unsubscribe cn i st = st\<lparr>srbsubs := remove_sub (\<lambda>s. sub_conn s = cn \<and> sub_id s = i) (srbsubs st)\<rparr>"

definition srb_unsubscribe_all :: "nat \<Rightarrow> gwstate \<Rightarrow> gwstate" where
  "srb_unsubscribe_all cn st = st\<lparr>srbsubs := filter (\<lambda>s. sub_conn s \<noteq> cn) (srbsubs st)\<rparr>"

text \<open>Matching an expression that could not be compiled is undefined.\<close>

definition checkmatch :: "gwenv \<Rightarrow> string \<Rightarrow> srbsubscription \<Rightarrow> bool option" where
  "checkmatch env name s =
     (let e = os (gw_proc env); ext = ((sub_flags s AND MWEVEREGEXP) \<noteq> 0)
      in if (sub_flags s AND MWEVGLOB) \<noteq> 0 then Some (fnmatch e (sub_pattern s) name = Some True)
         else if (sub_flags s AND (MWEVREGEXP OR MWEVEREGEXP)) \<noteq> 0
         then if regcomp e ext (sub_pattern s) then Some (regexec e ext (sub_pattern s) name) else None
         else Some (sub_pattern s = name))"

fun event_loop :: "gwenv \<Rightarrow> event \<Rightarrow> srbsubscription list \<Rightarrow> srbmessage \<Rightarrow> gwstate \<Rightarrow> (srbmessage \<times> gwstate) option" where
  "event_loop env ev [] msg st = Some (msg, st)"
| "event_loop env ev (s # ss) msg st =
     do {
       b \<leftarrow> checkmatch env (ev_event ev) s;
       if b
       then let msg = mw_srb_setfieldi msg (Some ''SUBSCRIPTIONID'') (ev_subscriptionid ev)
            in event_loop env ev ss msg (snd (on_conn (sub_conn s) (\<lambda>co. mw_srbsendmessage (gw_net env) co msg) st))
       else event_loop env ev ss msg st
     }"

definition event_srbmessage :: "gwenv \<Rightarrow> event \<Rightarrow> gwstate \<Rightarrow> srbmessage \<times> gwstate" where
  "event_srbmessage env ev st =
     (let msg = mw_srb_setfield \<lparr>command = strncpy ''EVENT'' SRBMAXCOMMANDLEN, marker = SRB_NOTIFICATIONMARKER, smap = None\<rparr>
                  (Some ''NAME'') (Some (ev_event ev))
      in if ev_datalen ev > 0
         then case mw_getsegment_byid (mmap_file (shm_env (os (gw_proc env)))) (shm st) (ev_datasegmentid ev) of
                (si, h) \<Rightarrow>
                  (mw_srb_nsetfield msg (Some ''DATA'')
                     (Some (map (\<lambda>b. char_of (unat b)) (get_bytes h (mwoffset2adr (ev_data ev) si) (ev_datalen ev)))) (ev_datalen ev),
                   st\<lparr>shm := h\<rparr>)
         else (msg, st))"

definition do_srb_event_dispatch :: "gwenv \<Rightarrow> event \<Rightarrow> gwstate \<Rightarrow> gwstate option" where
  "do_srb_event_dispatch env ev st =
     do {
       let (msg, st) = event_srbmessage env ev st;
       (msg, st) \<leftarrow> event_loop env ev (srbsubs st) msg st;
       st \<leftarrow> (if (ev_flags ev AND MWEVENTPEERGENERATED) = 0
              then let msg = mw_srb_delfield msg (Some ''SUBSCRIPTIONID'');
                       msg = (if ev_username ev \<noteq> [] then mw_srb_setfield msg (Some ''USER'') (Some (ev_username ev)) else msg);
                       msg = (if ev_clientname ev \<noteq> [] then mw_srb_setfield msg (Some ''CLIENTNAME'') (Some (ev_clientname ev)) else msg)
                   in gw_send_to_peers env msg st
              else Some st);
       Some (if ev_datalen ev > 0
             then snd (mw_ipc_putmessage (os (gw_proc env)) st 0 (Event (ev\<lparr>ev_mtype := EVENTACK, senderid := mygatewayid st\<rparr>)))
             else st)
     }"

section \<open>Closing a connection\<close>

definition tcpcloseconnection :: "gwenv \<Rightarrow> nat \<Rightarrow> gwstate \<Rightarrow> gwstate option" where
  "tcpcloseconnection env cn st =
     (let c = conns st cn
      in if conn_cid c \<noteq> UNASSIGNED
         then do {
           (_, st) \<leftarrow> storeSRBClearClient st (conn_cid c);
           let st = srb_unsubscribe_all cn st;
           let st = snd (gwdetachclient env (conn_cid c) st);
           conn_del env (fd (conn c)) st
         }
         else if conn_type c = CONN_TYPE_BROKER then conn_del env (fd (conn c)) (st\<lparr>reconnect_broker := True\<rparr>)
         else if conn_type c = CONN_TYPE_GATEWAY then gw_closegateway env cn st
         else conn_del env (fd (conn c)) st)"

end
