(* ===== verification/SrbServer.thy ===== *)
theory SrbServer
  imports GwPeers
begin

unbundle bit_operations_syntax

text \<open>
  \<^verbatim>\<open>src/mwgwd/SRBprotocolServer.c\<close>: what a gateway does with the messages it receives from
  clients and peers. A handler changes the message it is given (a rejected message is sent
  back), so the message is part of the state it works on. None is a crash.
\<close>

section \<open>Numbers in fields\<close>

text \<open>
  \<^verbatim>\<open>sscanf\<close> of \<open>%d\<close> and \<open>%x\<close>: white space, a sign, and digits, which are converted to 64 bits with
  saturation and stored in 32.
\<close>

definition isspace :: "char \<Rightarrow> bool" where
  "isspace c \<longleftrightarrow> c = CHR '' '' \<or> (9 \<le> ord c \<and> ord c \<le> 13)"

definition sign_of :: "string \<Rightarrow> bool \<times> string" where
  "sign_of s = (case s of [] \<Rightarrow> (False, []) | c # cs \<Rightarrow> if c = CHR ''-'' then (True, cs) else if c = CHR ''+'' then (False, cs) else (False, s))"

definition sscanf_d :: "string \<Rightarrow> int option" where
  "sscanf_d s =
     (case sign_of (dropWhile isspace s) of
        (neg, r) \<Rightarrow>
          (let ds = takeWhile isdigit r; v = int (digits_val ds);
               l = (if neg then max (- (2 ^ 63)) (- v) else min (2 ^ 63 - 1) v)
           in if ds = [] then None else Some (signed_take_bit 31 l)))"

definition xdigit_val :: "char \<Rightarrow> nat" where
  "xdigit_val c = (if isdigit c then ord c - 48 else if isupper c then ord c - 55 else ord c - 87)"

definition xdigits_val :: "string \<Rightarrow> nat" where
  "xdigits_val s = foldl (\<lambda>n c. 16 * n + xdigit_val c) 0 s"

definition sscanf_x :: "string \<Rightarrow> int option" where
  "sscanf_x s =
     (case sign_of (dropWhile isspace s) of
        (neg, r) \<Rightarrow>
          (let r = (if length r > 2 \<and> r ! 0 = CHR ''0'' \<and> (r ! 1 = CHR ''x'' \<or> r ! 1 = CHR ''X'') \<and> isxdigit (r ! 2) then drop 2 r else r);
               ds = takeWhile isxdigit r; v = int (xdigits_val ds);
               l = (if v > 2 ^ 64 - 1 then 2 ^ 64 - 1 else if neg then - v else v)
           in if ds = [] then None else Some (take_bit 32 l)))"

section \<open>Fields\<close>

type_synonym srbwork = "srbmessage \<times> gwstate"

definition sendreject :: "gwenv \<Rightarrow> nat \<Rightarrow> string option \<Rightarrow> string option \<Rightarrow> int \<Rightarrow> srbwork \<Rightarrow> srbwork" where
  "sendreject env cn field val rcode w =
     (case w of (msg, st) \<Rightarrow>
        (case mw_srbsendreject (gw_net env) (conn (conns st cn)) msg field val rcode of
           (_, co, msg) \<Rightarrow> (msg, upd_conn cn (\<lambda>c. c\<lparr>conn := co\<rparr>) st)))"

definition field_value :: "srbmessage \<Rightarrow> string \<Rightarrow> urlpair option" where
  "field_value msg field = (case urlmapget (smap msg) (Some field) of Inl _ \<Rightarrow> None | Inr i \<Rightarrow> Some (the (smap msg) ! i))"

definition szGetReqField :: "gwenv \<Rightarrow> nat \<Rightarrow> string \<Rightarrow> srbwork \<Rightarrow> string option \<times> srbwork" where
  "szGetReqField env cn field w =
     (case field_value (fst w) field of
        None \<Rightarrow> (None, sendreject env cn (Some field) None 401 w)
      | Some p \<Rightarrow>
          (case value p of
             None \<Rightarrow> (None, sendreject env cn (Some field) None 402 w)
           | Some v \<Rightarrow> (Some v, w)))"

definition szGetOptField :: "string \<Rightarrow> srbwork \<Rightarrow> string option" where
  "szGetOptField field w = (case field_value (fst w) field of None \<Rightarrow> None | Some p \<Rightarrow> value p)"

definition vGetOptBinField :: "string \<Rightarrow> srbwork \<Rightarrow> string option \<times> int" where
  "vGetOptBinField field w = (case field_value (fst w) field of None \<Rightarrow> (None, 0) | Some p \<Rightarrow> (value p, valuelen p))"

text \<open>The result is 1 with a value, 0 when the field is missing, and -1 when it is rejected.\<close>

definition iGetOptField :: "gwenv \<Rightarrow> nat \<Rightarrow> string \<Rightarrow> int \<Rightarrow> srbwork \<Rightarrow> int \<times> int \<times> srbwork" where
  "iGetOptField env cn field old w =
     (case field_value (fst w) field of
        None \<Rightarrow> (0, old, w)
      | Some p \<Rightarrow>
          (case value p of
             None \<Rightarrow> (-1, old, sendreject env cn (Some field) None 402 w)
           | Some v \<Rightarrow>
               (case sscanf_d v of
                  None \<Rightarrow> (-1, old, sendreject env cn (Some (key p)) (Some v) 402 w)
                | Some i \<Rightarrow> (1, i, w))))"

definition iGetReqField :: "gwenv \<Rightarrow> nat \<Rightarrow> string \<Rightarrow> int \<Rightarrow> srbwork \<Rightarrow> int \<times> int \<times> srbwork" where
  "iGetReqField env cn field old w =
     (case iGetOptField env cn field old w of
        (rc, v, w) \<Rightarrow> if rc = 0 then (-1, v, sendreject env cn (Some field) None 401 w) else (rc, v, w))"

text \<open>A field without a value is not tested for: \<^verbatim>\<open>sscanf\<close> is given a null pointer.\<close>

definition xGetReqField :: "gwenv \<Rightarrow> nat \<Rightarrow> string \<Rightarrow> int \<Rightarrow> srbwork \<Rightarrow> (int \<times> int \<times> srbwork) option" where
  "xGetReqField env cn field old w =
     (case field_value (fst w) field of
        None \<Rightarrow> Some (-1, old, sendreject env cn (Some field) None 401 w)
      | Some p \<Rightarrow>
          do {
            v \<leftarrow> value p;
            Some (case sscanf_x v of
                    None \<Rightarrow> (-1, old, sendreject env cn (Some (key p)) (Some v) 402 w)
                  | Some i \<Rightarrow> (1, i, w))
          })"

section \<open>Messages only servers send\<close>

definition mw_srbsendinitreply :: "gwenv \<Rightarrow> nat \<Rightarrow> int \<Rightarrow> string option \<Rightarrow> srbwork \<Rightarrow> int \<times> srbwork" where
  "mw_srbsendinitreply env cn rcode field w =
     (case w of (msg, st) \<Rightarrow>
        if smap msg = None then (- errno_num EBADMSG, w)
        else let msg = mw_srb_setfieldi (msg\<lparr>marker := SRB_RESPONSEMARKER\<rparr>) (Some ''RETURNCODE'') rcode;
                 msg = (if rcode \<noteq> 0
                        then let msg = mw_srb_setfield msg (Some ''CAUSE'') (Some (mw_srb_reason rcode))
                             in if field \<noteq> None then mw_srb_setfield msg (Some ''CAUSEFIELD'') field else msg
                        else msg);
                 (rc, st) = on_conn cn (\<lambda>co. mw_srbsendmessage (gw_net env) co msg) st
             in (rc, msg, st))"

text \<open>The data beyond one message follows in data messages under the handle of the call.\<close>

definition callreply_message :: "nat \<Rightarrow> string option \<Rightarrow> int \<Rightarrow> int \<Rightarrow> int \<Rightarrow> srbmessage \<Rightarrow> srbmessage" where
  "callreply_message per data datalen apprcode rcode msg =
     (let msg = msg\<lparr>marker := SRB_RESPONSEMARKER\<rparr>;
          msg = (case data of
                   None \<Rightarrow> mw_srb_delfield msg (Some ''DATA'')
                 | Some d \<Rightarrow>
                     if datalen > int per
                     then mw_srb_nsetfield (mw_srb_setfieldi msg (Some ''DATATOTAL'') datalen) (Some ''DATA'') data (int per)
                     else mw_srb_nsetfield msg (Some ''DATA'') data datalen);
          msg = mw_srb_delfield msg (Some ''APPLICATIONRC'');
          msg = mw_srb_delfield msg (Some ''RETURNCODE'');
          msg = mw_srb_setfieldi msg (Some ''APPLICATIONRC'') apprcode;
          msg = mw_srb_setfieldi msg (Some ''RETURNCODE'') rcode;
          msg = mw_srb_delfield msg (Some ''NOREPLY'')
      in mw_srb_delfield msg (Some ''MULTIPLE''))"

definition mw_srbsendcallreply :: "gwenv \<Rightarrow> nat \<Rightarrow> string option \<Rightarrow> int \<Rightarrow> int \<Rightarrow> int \<Rightarrow> srbwork \<Rightarrow> int \<times> srbwork" where
  "mw_srbsendcallreply env cn data datalen apprcode rcode w =
     (case w of (msg, st) \<Rightarrow>
        if smap msg = None then (- errno_num EBADMSG, w)
        else let datalen = (if data \<noteq> None \<and> datalen = 0 then int (strlen (the data)) else datalen);
                 msg = callreply_message (gw_per env) data datalen apprcode rcode msg;
                 (rc, st) = on_conn cn (\<lambda>co. mw_srbsendmessage (gw_net env) co msg) st
             in if rc \<ge> 0 \<and> data \<noteq> None \<and> datalen > int (gw_per env)
                then let m = mw_srb_init blank_message (Some ''SVCDATA'') SRB_NOTIFICATIONMARKER
                               [(''HANDLE'', mw_srb_getfield msg (Some ''HANDLE''))];
                         (rc2, st) = on_conn cn (\<lambda>co. senddata_loop (gw_net env) (gw_per env) co m
                                       (take (nat datalen - gw_per env) (drop (gw_per env) (the data))) 0) st
                     in (rc + rc2, msg, st)
                else (rc, msg, st))"

definition mw_srbsendready :: "gwenv \<Rightarrow> nat \<Rightarrow> string option \<Rightarrow> string \<Rightarrow> gwstate \<Rightarrow> int \<times> gwstate" where
  "mw_srbsendready env cn domain version st =
     (let msg = mw_srb_init blank_message (Some ''SRB READY'') SRB_NOTIFICATIONMARKER
                  [(''VERSION'', Some ''0.9''), (''AGENT'', Some ''MidWay''), (''AGENTVERSION'', Some version)];
          msg = (if domain \<noteq> None then mw_srb_setfield msg (Some ''DOMAIN'') domain else msg)
      in on_conn cn (\<lambda>co. mw_srbsendmessage (gw_net env) co msg) st)"

definition mw_srbsendgwinit :: "gwenv \<Rightarrow> nat \<Rightarrow> gwstate \<Rightarrow> (int \<times> gwstate) option" where
  "mw_srbsendgwinit env cn st =
     do {
       p \<leftarrow> conn_peerinfo (conns st cn);
       let pi = knownGWs st ! p;
       if domainid pi \<noteq> 0 then None
       else do {
         let msg = mw_srb_init blank_message (Some ''SRB INIT'') SRB_REQUESTMARKER
               [(''VERSION'', Some ''0.9''), (''TYPE'', Some ''GATEWAY''), (''NAME'', Some (myinstance env)),
                (''PEERDOMAIN'', Some (mydomain env)), (''INSTANCE'', Some (pi_instance pi)), (''DOMAIN'', Some (mydomain env))];
         let msg = (case password pi of
                      None \<Rightarrow> mw_srb_setfield msg (Some ''AUTHENTICATION'') (Some ''NONE'')
                    | Some pw \<Rightarrow> mw_srb_setfield (mw_srb_setfield msg (Some ''AUTHENTICATION'') (Some ''PASS'')) (Some ''PASSWORD'') (Some pw));
         Some (on_conn cn (\<lambda>co. mw_srbsendmessage (gw_net env) co msg) (upd_conn cn (\<lambda>c. c\<lparr>conn_state := CONNECT_STATE_INITWAIT\<rparr>) st))
       }
     }"

section \<open>Control messages\<close>

definition srbhello :: "gwenv \<Rightarrow> nat \<Rightarrow> string \<Rightarrow> srbwork \<Rightarrow> srbwork" where
  "srbhello env cn clock w =
     (case w of (msg, st) \<Rightarrow>
        if marker msg = SRB_REQUESTMARKER
        then let msg = (mw_srb_setfield msg (Some ''REMOTETIME'') (Some clock))\<lparr>marker := SRB_RESPONSEMARKER\<rparr>
             in (msg, snd (on_conn cn (\<lambda>co. mw_srbsendmessage (gw_net env) co msg) st))
        else if marker msg = SRB_RESPONSEMARKER then w
        else sendreject env cn None None 413 w)"

definition srbready :: "gwenv \<Rightarrow> nat \<Rightarrow> srbwork \<Rightarrow> srbwork option" where
  "srbready env cn w =
     (let c = conns (snd w) cn
      in if conn_type c = CONN_TYPE_MCAST
         then if marker (fst w) \<noteq> SRB_RESPONSEMARKER then Some w
              else case szGetReqField env cn ''DOMAIN'' w of
                (None, w) \<Rightarrow> Some w
              | (Some domain, w) \<Rightarrow>
                  (case szGetReqField env cn ''INSTANCE'' w of
                     (None, w) \<Rightarrow> Some w
                   | (Some instance_name, w) \<Rightarrow>
                       if instance_name = myinstance env then Some w
                       else do {
                         (rc, p, st) \<leftarrow> gw_addknownpeer env instance_name domain (peername env (fd (conn c))) (snd w);
                         if rc \<noteq> 0 then Some (fst w, st)
                         else do {
                           p \<leftarrow> p;
                           st \<leftarrow> (if pi_conn (knownGWs st ! p) = None then gw_connectpeer env False p st else Some st);
                           Some (fst w, st)
                         }
                       })
         else if conn_type c = CONN_TYPE_GATEWAY \<and> marker (fst w) = SRB_NOTIFICATIONMARKER
         then do {
           st \<leftarrow> gw_setipc env (conn_peerinfo c) (snd w);
           (_, st) \<leftarrow> mw_srbsendgwinit env cn st;
           Some (fst w, st)
         }
         else Some w)"

definition srbterm :: "gwenv \<Rightarrow> nat \<Rightarrow> srbwork \<Rightarrow> srbwork option" where
  "srbterm env cn w =
     (if marker (fst w) = SRB_REQUESTMARKER
      then case iGetOptField env cn ''GRACE'' (junkint env) w of
             (_, _, msg, st) \<Rightarrow> Some (msg, snd (on_conn cn (\<lambda>co. mw_srbsendterm (gw_net env) co (-1)) st))
      else if marker (fst w) = SRB_RESPONSEMARKER \<or> marker (fst w) = SRB_NOTIFICATIONMARKER
      then map_option (Pair (fst w)) (tcpcloseconnection env cn (snd w))
      else Some w)"

section \<open>Services of peers\<close>

text \<open>Anything but a notification is rejected; the rejected marker passes.\<close>

definition only_notification :: "gwenv \<Rightarrow> nat \<Rightarrow> (srbwork \<Rightarrow> srbwork option) \<Rightarrow> srbwork \<Rightarrow> srbwork option" where
  "only_notification env cn f w =
     (if marker (fst w) = SRB_REQUESTMARKER then Some (sendreject env cn None None 412 w)
      else if marker (fst w) = SRB_RESPONSEMARKER then Some (sendreject env cn None None 302 w)
      else f w)"

text \<open>
  The test for a missing cost compares with 0, which is not what is returned then, so the
  cost is uninitialised.
\<close>

definition srbprovide :: "gwenv \<Rightarrow> nat \<Rightarrow> srbwork \<Rightarrow> srbwork option" where
  "srbprovide env cn = only_notification env cn (\<lambda>w.
     if marker (fst w) \<noteq> SRB_NOTIFICATIONMARKER then Some w
     else case iGetReqField env cn ''COST'' (junkint env) w of
       (_, cost, w) \<Rightarrow>
         (case szGetReqField env cn ''SVCNAME'' w of
            (None, w) \<Rightarrow> Some w
          | (Some svcname, msg, st) \<Rightarrow>
              map_option (\<lambda>(_, st). (msg, st))
                (importservice env svcname (cost + conn_cost (conns st cn)) (conn_peerinfo (conns st cn)) st)))"

definition srbunprovide :: "gwenv \<Rightarrow> nat \<Rightarrow> srbwork \<Rightarrow> srbwork option" where
  "srbunprovide env cn = only_notification env cn (\<lambda>w.
     if marker (fst w) \<noteq> SRB_NOTIFICATIONMARKER then Some w
     else case szGetReqField env cn ''SVCNAME'' w of
            (None, w) \<Rightarrow> Some w
          | (Some svcname, msg, st) \<Rightarrow>
              map_option (\<lambda>(_, st). (msg, st)) (unimportservice env svcname (conn_peerinfo (conns st cn)) st))"

section \<open>Calls\<close>

definition store_data :: "gwenv \<Rightarrow> int \<Rightarrow> int \<Rightarrow> string option \<Rightarrow> int \<Rightarrow> gwstate \<Rightarrow> gwstate option" where
  "store_data env mwid hdl data datalen st =
     map_option snd (storeSRBData (gw_proc env) st mwid hdl (octets (take (nat datalen) (case data of None \<Rightarrow> [] | Some d \<Rightarrow> d))))"

definition not_attached :: "gwenv \<Rightarrow> nat \<Rightarrow> srbwork \<Rightarrow> srbwork option" where
  "not_attached env cn w = Some (snd (mw_srbsendcallreply env cn None 0 0 411 w))"

definition srbcall_rpl :: "gwenv \<Rightarrow> nat \<Rightarrow> srbwork \<Rightarrow> srbwork option" where
  "srbcall_rpl env cn w =
     (let mwid = conn_getinfo (snd w) cn
      in if mwid = UNASSIGNED then not_attached env cn w
         else case szGetReqField env cn ''SVCNAME'' w of
           (None, w) \<Rightarrow> Some w
         | (Some svcname, w) \<Rightarrow>
             if strlen svcname > MWMAXSVCNAME then Some (sendreject env cn (Some ''SVCNAME'') (Some svcname) 402 w)
             else do {
               (rc, hdl, w) \<leftarrow> xGetReqField env cn ''HANDLE'' (junkint env) w;
               if rc = -1 then Some w
               else case iGetReqField env cn ''RETURNCODE'' (junkint env) w of
                 (rc, rcode, w) \<Rightarrow>
                   if rc = -1 then Some w
                   else case iGetOptField env cn ''APPLICATIONRC'' (junkint env) w of
                     (rc, apprcode, w) \<Rightarrow>
                       if rc = -1 then Some w
                       else do {
                         let (data, datalen) = vGetOptBinField ''DATA'' w;
                         let (_, datatotal, msg, st) = iGetOptField env cn ''DATATOTAL'' (-1) w;
                         let datatotal = (if datatotal = 0 then datalen else datatotal);
                         (_, st) \<leftarrow> storeSRBReply (gw_proc env) st mwid hdl (smap msg) rcode apprcode datatotal;
                         st \<leftarrow> (if datalen > 0 then store_data env mwid hdl data datalen st else Some st);
                         Some (msg\<lparr>smap := None\<rparr>, st)
                       }
             })"

definition srbsvcdata :: "gwenv \<Rightarrow> nat \<Rightarrow> srbwork \<Rightarrow> srbwork option" where
  "srbsvcdata env cn w =
     do {
       let mwid = conn_getinfo (snd w) cn;
       (rc, hdl, w) \<leftarrow> xGetReqField env cn ''HANDLE'' 0xffffffff w;
       if rc = -1 then Some w
       else do {
         let (data, datalen) = vGetOptBinField ''DATA'' w;
         st \<leftarrow> store_data env mwid hdl data datalen (snd w);
         Some (fst w, st)
       }
     }"

text \<open>
  The handle of a call that is not a request is uninitialised, and so is the text a too long
  name is rejected with. A rejected field changes the marker of the message, and with it the
  way the message is read on.
\<close>

definition call_handle :: "gwenv \<Rightarrow> nat \<Rightarrow> srbwork \<Rightarrow> int option \<times> srbwork" where
  "call_handle env cn w =
     (if marker (fst w) = SRB_REQUESTMARKER
      then case szGetReqField env cn ''HANDLE'' w of
             (None, w) \<Rightarrow> (None, w)
           | (Some v, w) \<Rightarrow>
               (case sscanf_x v of
                  None \<Rightarrow> (None, sendreject env cn (Some ''HANDLE'') (Some v) 402 w)
                | Some h \<Rightarrow> (Some h, w))
      else (Some (junkint env), w))"

definition call_noreply :: "gwenv \<Rightarrow> nat \<Rightarrow> int \<Rightarrow> srbwork \<Rightarrow> int option \<times> srbwork" where
  "call_noreply env cn flags w =
     (case szGetOptField ''NOREPLY'' w of
        None \<Rightarrow> (Some flags, w)
      | Some v \<Rightarrow>
          if strcasecmp_eq v ''YES'' then (Some (flags OR IpcCalls.MWNOREPLY), w)
          else if strcasecmp_eq v ''NO'' then (Some (flags AND NOT IpcCalls.MWNOREPLY), w)
          else (None, sendreject env cn (Some ''NOREPLY'') (Some v) 402 w))"

definition srbcall_req :: "gwenv \<Rightarrow> nat \<Rightarrow> srbwork \<Rightarrow> srbwork option" where
  "srbcall_req env cn w =
     (let mwid = conn_getinfo (snd w) cn
      in if mwid = UNASSIGNED then not_attached env cn w
         else case szGetReqField env cn ''SVCNAME'' w of
           (None, w) \<Rightarrow> Some w
         | (Some svcname, w) \<Rightarrow>
             if strlen svcname > MWMAXSVCNAME
             then if rejects (conn (conns (snd w) cn)) = 0 then Some (sendreject env cn (Some ''SVCNAME'') None 402 w) else None
             else case iGetReqField env cn ''HOPS'' 0 w of
               (_, _, w) \<Rightarrow>
                 (let (data, datalen) = vGetOptBinField ''DATA'' w;
                      (_, datatotal, w) = iGetOptField env cn ''DATATOTAL'' 0 w;
                      datalen = (if data = None then 0 else datalen);
                      datatotal = (if datatotal = 0 then datalen else datatotal);
                      (_, datatotal, w) = iGetOptField env cn ''DATATOTAL'' datatotal w;
                      ins = szGetOptField ''INSTANCE'' w;
                      (_, _, w) = iGetOptField env cn ''SECTOLIVE'' (-1) w;
                      flags = (if marker (fst w) = SRB_NOTIFICATIONMARKER then IpcCalls.MWNOREPLY else 0)
                  in case call_handle env cn w of
                       (None, w) \<Rightarrow> Some w
                     | (Some hdl, w) \<Rightarrow>
                         (case call_noreply env cn flags w of
                            (None, w) \<Rightarrow> Some w
                          | (Some flags, w) \<Rightarrow>
                              do {
                                let domn = szGetOptField ''DOMAIN'' w;
                                let (_, _, msg, st) = iGetOptField env cn ''MAXHOPS'' 30 w;
                                (_, st) \<leftarrow> storeSRBCall (gw_proc env) st mwid hdl (smap msg) cn datatotal svcname ins domn flags;
                                st \<leftarrow> (if datalen > 0 then store_data env mwid hdl data datalen st else Some st);
                                Some (msg\<lparr>smap := None\<rparr>, st)
                              })))"

section \<open>Beginning a session\<close>

definition yesno :: "string option \<Rightarrow> bool" where
  "yesno v \<longleftrightarrow> (case v of None \<Rightarrow> True | Some s \<Rightarrow> strcasecmp_eq s ''YES'' \<or> strcasecmp_eq s ''NO'')"

definition known_auth :: "string option \<Rightarrow> bool" where
  "known_auth v \<longleftrightarrow> (case v of None \<Rightarrow> True | Some s \<Rightarrow> strcasecmp_eq s ''NONE'' \<or> strcasecmp_eq s ''PASS'' \<or> strcasecmp_eq s ''x509'')"

definition init_client :: "gwenv \<Rightarrow> nat \<Rightarrow> string \<Rightarrow> srbwork \<Rightarrow> srbwork option" where
  "init_client env cn name w =
     (case w of (msg, st) \<Rightarrow>
        if conn_cid (conns st cn) \<noteq> UNASSIGNED then Some (snd (mw_srbsendinitreply env cn 301 None w))
        else case gwattachclient env cn name (smap msg) st of
               (rc, st) \<Rightarrow>
                 if rc \<ge> 0
                 then map_option (Pair (msg\<lparr>smap := None\<rparr>)) (conn_setpeername env cn
                       (upd_conn cn (\<lambda>c. c\<lparr>conn_role := SRB_ROLE_CLIENT, conn_type := CONN_TYPE_CLIENT, conn_state := CONNECT_STATE_UP\<rparr>) st))
                 else Some (snd (mw_srbsendinitreply env cn (mw_errno2srbrc (- mw_errno2srbrc (- rc))) None (msg, st))))"

definition init_gateway :: "gwenv \<Rightarrow> nat \<Rightarrow> string \<Rightarrow> srbwork \<Rightarrow> srbwork option" where
  "init_gateway env cn name w =
     (case szGetReqField env cn ''INSTANCE'' w of
        (None, w) \<Rightarrow> Some w
      | (Some instance_name, w) \<Rightarrow>
          (case szGetReqField env cn ''PEERDOMAIN'' w of
             (None, w) \<Rightarrow> Some w
           | (Some peerdomain, w) \<Rightarrow>
               if instance_name \<noteq> myinstance env
               then case snd (mw_srbsendinitreply env cn 500 None w) of
                      (msg, st) \<Rightarrow> map_option (Pair msg) (conn_del env (fd (conn (conns st cn))) st)
               else do {
                 (rc, st) \<leftarrow> gw_peerconnected env name peerdomain cn (snd w);
                 if rc = -1
                 then do {
                   let (_, st) = on_conn cn (\<lambda>co. mw_srbsendterm (gw_net env) co 0) st;
                   st \<leftarrow> (if conn_gwid (conns st cn) \<noteq> UNASSIGNED then gw_closegateway env cn st else Some st);
                   map_option (Pair (fst w)) (conn_del env (fd (conn (conns st cn))) st)
                 }
                 else do {
                   let st = upd_conn cn (\<lambda>c. c\<lparr>conn_role := SRB_ROLE_GATEWAY, conn_type := CONN_TYPE_GATEWAY,
                                               conn_state := CONNECT_STATE_UP\<rparr>) st;
                   st \<leftarrow> conn_setpeername env cn st;
                   let (_, msg, st) = mw_srbsendinitreply env cn 0 None (fst w, st);
                   map_option (Pair msg) (gw_provideservices_to_peer env (conn_gwid (conns st cn)) st)
                 }
               }))"

definition init_request :: "gwenv \<Rightarrow> nat \<Rightarrow> srbwork \<Rightarrow> srbwork option" where
  "init_request env cn w =
     (let refuse = (\<lambda>rcode field w. Some (snd (mw_srbsendinitreply env cn rcode (Some field) w)))
      in case szGetReqField env cn ''VERSION'' w of
        (None, w) \<Rightarrow> Some w
      | (Some version, w) \<Rightarrow>
          if \<not> strcasecmp_eq ''0.9'' version then refuse 410 ''VERSION'' w
          else case szGetReqField env cn ''TYPE'' w of
            (None, w) \<Rightarrow> Some w
          | (Some type, w) \<Rightarrow>
              if \<not> strcasecmp_eq type ''CLIENT'' \<and> \<not> strcasecmp_eq type ''GATEWAY'' then refuse 402 ''TYPE'' w
              else let role = (if strcasecmp_eq type ''CLIENT'' then SRB_ROLE_CLIENT else SRB_ROLE_GATEWAY)
                in if (role AND conn_role (conns (snd w) cn)) = 0 then refuse (if role = SRB_ROLE_CLIENT then 520 else 521) ''TYPE'' w
                   else case szGetReqField env cn ''NAME'' w of
                     (None, w) \<Rightarrow> Some w
                   | (Some name, w) \<Rightarrow>
                       if \<not> yesno (szGetOptField ''REVERSE'' w) then refuse 402 ''REVERSE'' w
                       else if \<not> yesno (szGetOptField ''REJECTS'' w) then refuse 402 ''REJECTS'' w
                       else if \<not> known_auth (szGetOptField ''AUTHENTICATION'' w) then refuse 402 ''AUTHENTICATION'' w
                       else if role = SRB_ROLE_CLIENT then init_client env cn name w
                       else init_gateway env cn name w)"

text \<open>A reply whose return code is missing is read with an uninitialised one.\<close>

definition srbinit :: "gwenv \<Rightarrow> nat \<Rightarrow> srbwork \<Rightarrow> srbwork option" where
  "srbinit env cn w =
     (if smap (fst w) = None then Some (sendreject env cn None None 400 w)
      else if marker (fst w) = SRB_REQUESTMARKER then init_request env cn w
      else if marker (fst w) = SRB_RESPONSEMARKER
      then case iGetReqField env cn ''RETURNCODE'' (junkint env) w of
             (_, rc, msg, st) \<Rightarrow>
               if rc = 0
               then do {
                 st \<leftarrow> conn_setpeername env cn (upd_conn cn (\<lambda>c. c\<lparr>conn_state := CONNECT_STATE_UP\<rparr>) st);
                 if conn_type (conns st cn) = CONN_TYPE_GATEWAY
                 then map_option (Pair msg) (gw_provideservices_to_peer env (conn_gwid (conns st cn)) st)
                 else Some (msg, st)
               }
               else map_option (Pair msg) (gw_closegateway env cn st)
      else Some (snd (mw_srbsendinitreply env cn 413 None w)))"

section \<open>Events\<close>

definition srbevent :: "gwenv \<Rightarrow> nat \<Rightarrow> srbwork \<Rightarrow> srbwork option" where
  "srbevent env cn = only_notification env cn (\<lambda>w.
     case szGetReqField env cn ''NAME'' w of
       (None, w) \<Rightarrow> Some w
     | (Some event, msg, st) \<Rightarrow>
         do {
           let (data, datalen) = vGetOptBinField ''DATA'' (msg, st);
           let st = (case data of None \<Rightarrow> st | Some d \<Rightarrow> st\<lparr>shm := store_bytes (shm st) (msgbuf env) (octets d)\<rparr>);
           let client = (conn_role (conns st cn) = SRB_ROLE_CLIENT);
           (_, st) \<leftarrow> mw_ipcsend_event (gw_proc env) st event (if data = None then 0 else msgbuf env) datalen
                        (szGetOptField ''USER'' (msg, st)) (szGetOptField ''CLIENTNAME'' (msg, st))
                        (if client then conn_cid (conns st cn) else conn_gwid (conns st cn)) (\<not> client);
           Some (msg, st)
         })"

definition match_flags :: "string \<Rightarrow> int" where
  "match_flags m = (if m = ''GLOB'' then MWEVGLOB else if m = ''REGEXP'' then MWEVREGEXP else if m = ''EXTREGEXP'' then MWEVEREGEXP else 0)"

definition srbsubscribe :: "gwenv \<Rightarrow> nat \<Rightarrow> srbwork \<Rightarrow> srbwork option" where
  "srbsubscribe env cn = only_notification env cn (\<lambda>w.
     case szGetReqField env cn ''PATTERN'' w of
       (None, w) \<Rightarrow> Some w
     | (Some pat, w) \<Rightarrow>
         (case szGetReqField env cn ''MATCH'' w of
            (None, w) \<Rightarrow> Some w
          | (Some m, w) \<Rightarrow>
              (case iGetReqField env cn ''SUBSCRIPTIONID'' (junkint env) w of
                 (_, i, msg, st) \<Rightarrow> Some (msg, snd (srb_subscribe env cn pat i (match_flags m) st)))))"

definition srbunsubscribe :: "gwenv \<Rightarrow> nat \<Rightarrow> srbwork \<Rightarrow> srbwork option" where
  "srbunsubscribe env cn = only_notification env cn (\<lambda>w.
     case iGetReqField env cn ''SUBSCRIPTIONID'' (junkint env) w of
       (_, i, msg, st) \<Rightarrow> Some (msg, srb_unsubscribe cn i st))"

section \<open>Dispatch\<close>

text \<open>
  The length of the command selects what it is compared with; a command of one of the
  lengths that is none of those is ignored. \<open>clock\<close> is the time as the gateway writes it.
\<close>

definition srbDoMessage :: "gwenv \<Rightarrow> string \<Rightarrow> nat \<Rightarrow> srbmessage \<Rightarrow> gwstate \<Rightarrow> gwstate option" where
  "srbDoMessage env clock cn msg st =
     (let w = (msg, st); is = strcasecmp_eq (command msg); n = strlen (command msg)
      in map_option snd
        (if conn_state (conns st cn) \<noteq> CONNECT_STATE_UP
         then if is ''SRB INIT'' then srbinit env cn w
              else if is ''SRB READY'' then srbready env cn w
              else Some (sendreject env cn None None 411 w)
         else if n = 4 then if is ''TERM'' then srbterm env cn w else Some w
         else if n = 5
         then if is ''HELLO'' then Some (srbhello env cn clock w) else if is ''EVENT'' then srbevent env cn w else Some w
         else if n = 6 then Some w
         else if n = 7
         then if is ''SVCCALL''
              then if marker msg = SRB_REQUESTMARKER \<or> marker msg = SRB_NOTIFICATIONMARKER then srbcall_req env cn w
                   else if marker msg = SRB_RESPONSEMARKER then srbcall_rpl env cn w
                   else Some w
              else if is ''PROVIDE'' then srbprovide env cn w
              else if is ''SVCDATA'' then srbsvcdata env cn w
              else Some w
         else if n = 8 then if is ''SRB INIT'' then srbinit env cn w else Some w
         else if n = 9
         then if is ''SRB READY'' then srbready env cn w
              else if is ''UNPROVIDE'' then srbunprovide env cn w
              else if is ''SUBSCRIBE'' then srbsubscribe env cn w
              else Some w
         else if n = 11 \<and> is ''UNSUBSCRIBE'' then srbunsubscribe env cn w
         else Some (sendreject env cn None None 400 w)))"

end
