(* ===== verification/GwIpc.thy ===== *)
theory GwIpc
  imports SrbServer
begin

unbundle bit_operations_syntax

text \<open>
  \<^verbatim>\<open>src/mwgwd/ipcserver.c\<close>: what a gateway does with the messages on its queue. A handler works
  on the buffer the message was received in and may change it, and when receiving fails the
  message left there is handled again, so a handler returns the message. None is a crash, or
  a message read as a structure it is not.
\<close>

section \<open>Events\<close>

abbreviation (input) NEWSERVICEEVENT :: string where "NEWSERVICEEVENT \<equiv> ''.mwprovide''"
abbreviation (input) DELSERVICEEVENT :: string where "DELSERVICEEVENT \<equiv> ''.mwunprovide''"

text \<open>The structure \<^verbatim>\<open>mwprovideevent\<close>: a name of 33 octets, and from octet 36 two integers.\<close>

record provideevent =
  pe_name :: string
  pe_provider :: int
  pe_svcid :: int

definition get_int :: "shmstate \<Rightarrow> int \<Rightarrow> int" where
  "get_int h a = signed_take_bit 31 (foldr (\<lambda>b v. uint b + 256 * v) (get_bytes h a 4) 0)"

definition get_provideevent :: "shmstate \<Rightarrow> int \<Rightarrow> provideevent" where
  "get_provideevent h a =
     \<lparr>pe_name = map (\<lambda>b. char_of (unat b)) (takeWhile (\<lambda>b. b \<noteq> 0) (get_bytes h a 44)),
      pe_provider = get_int h (a + 36), pe_svcid = get_int h (a + 40)\<rparr>"

text \<open>The acknowledgement is the message itself: its sender is not set to the gateway.\<close>

definition ack_event :: "gwenv \<Rightarrow> event \<Rightarrow> gwstate \<Rightarrow> event \<times> gwstate" where
  "ack_event env ev st =
     (if ev_data ev \<noteq> 0
      then (ev\<lparr>ev_mtype := EVENTACK\<rparr>, snd (mw_ipc_putmessage (os (gw_proc env)) st 0 (Event (ev\<lparr>ev_mtype := EVENTACK\<rparr>))))
      else (ev, st))"

definition service_event :: "gwenv \<Rightarrow> bool \<Rightarrow> provideevent \<Rightarrow> gwstate \<Rightarrow> gwstate option" where
  "service_event env new pe st =
     (let svcent = mw_get_service_byid st (pe_svcid pe);
          location = (\<lambda>i. svc_location (the (svctbl st) ! nat i))
      in if (case svcent of None \<Rightarrow> False | Some i \<Rightarrow> location i = GWPEER) then Some st
         else if pe_provider pe = mygatewayid st then Some st
         else if new
         then (case svcent of
                 None \<Rightarrow> Some st
               | Some i \<Rightarrow> if location i = GWLOCAL then doprovideevent env (pe_name pe) st else Some st)
         else dounprovideevent env (pe_name pe) st)"

definition do_event_message :: "gwenv \<Rightarrow> event \<Rightarrow> gwstate \<Rightarrow> (event \<times> gwstate) option" where
  "do_event_message env ev st =
     (if ev_event ev = [] \<or> hd (ev_event ev) \<noteq> CHR ''.''
      then map_option (Pair (if ev_datalen ev > 0 then ev\<lparr>ev_mtype := EVENTACK, senderid := mygatewayid st\<rparr> else ev))
             (do_srb_event_dispatch env ev st)
      else if ev_event ev = NEWSERVICEEVENT \<or> ev_event ev = DELSERVICEEVENT
      then if ev_datalen ev \<noteq> 44 then Some (ev, st)
           else case mw_getsegment_byid (mmap_file (shm_env (os (gw_proc env)))) (shm st) (ev_datasegmentid ev) of
                  (si, h) \<Rightarrow>
                    (let st = st\<lparr>shm := h\<rparr>; a = mwoffset2adr (ev_data ev) si
                     in if a = 0 then Some (ev, st)
                        else map_option (ack_event env ev) (service_event env (ev_event ev = NEWSERVICEEVENT) (get_provideevent h a) st))
      else Some (ack_event env ev st))"

section \<open>Calls and replies\<close>

definition free_data :: "gwenv \<Rightarrow> call \<Rightarrow> gwstate \<Rightarrow> gwstate option" where
  "free_data env cmsg st =
     (case mw_getsegment_byid (mmap_file (shm_env (os (gw_proc env)))) (shm st) (datasegmentid cmsg) of
        (si, h) \<Rightarrow> map_option (\<lambda>(_, h). st\<lparr>shm := h\<rparr>) (mwfree h (mwoffset2adr (cdata cmsg) si)))"

definition reply_rcode :: "int \<Rightarrow> int" where
  "reply_rcode rc = (if rc = MWSUCCESS \<or> rc = MWFAIL \<or> rc = MWMORE then rc else mw_errno2srbrc rc)"

definition do_svcreply :: "gwenv \<Rightarrow> call \<Rightarrow> gwstate \<Rightarrow> gwstate option" where
  "do_svcreply env cmsg st =
     do {
       ((rc, cn, mp), st) \<leftarrow> storeIPCReply st cmsg;
       if rc \<noteq> 0 then Some st
       else let mp = snd (urlmapdel mp (Some ''DATATOTAL''))
         in if (ca_flags cmsg AND IpcCalls.MWNOREPLY) \<noteq> 0 then free_data env cmsg st
            else do {
              cn \<leftarrow> cn;
              let (data, len, st) =
                (if cdatalen cmsg = 0 then (None, 0, st)
                 else case mw_getsegment_byid (mmap_file (shm_env (os (gw_proc env)))) (shm st) (datasegmentid cmsg) of
                        (si, h) \<Rightarrow>
                          (let a = mwoffset2adr (cdata cmsg) si
                           in (if a = 0 then None else Some (map (\<lambda>b. char_of (unat b)) (get_bytes h a (cdatalen cmsg))),
                               cdatalen cmsg, st\<lparr>shm := h\<rparr>)));
              let (_, _, st) = mw_srbsendcallreply env cn data len (appreturncode cmsg) (reply_rcode (ca_returncode cmsg))
                    (\<lparr>command = ''SVCCALL'', marker = SRB_RESPONSEMARKER, smap = mp\<rparr>, st);
              free_data env cmsg st
            }
     }"

text \<open>A call that cannot be passed on goes back with an error, but it is still a call.\<close>

definition do_svccall :: "gwenv \<Rightarrow> call \<Rightarrow> gwstate \<Rightarrow> (call \<times> gwstate) option" where
  "do_svccall env cmsg st =
     do {
       cn \<leftarrow> impfindpeerconn st (ca_service cmsg) (ca_svcid cmsg);
       case cn of
         None \<Rightarrow>
           (let cmsg = cmsg\<lparr>ca_returncode := - errno_num ENOENT\<rparr>
            in if ca_gwid cmsg \<noteq> UNASSIGNED
               then if ca_gwid cmsg = mygatewayid st then map_option (Pair cmsg) (do_svcreply env cmsg st)
                    else Some (cmsg, snd (mw_ipc_putmessage (os (gw_proc env)) st (ca_gwid cmsg) (Call cmsg)))
               else Some (cmsg, snd (mw_ipc_putmessage (os (gw_proc env)) st (ca_cltid cmsg) (Call cmsg))))
       | Some cn \<Rightarrow>
           if (case conn_peerinfo (conns st cn) of None \<Rightarrow> False | Some p \<Rightarrow> pi_conn (knownGWs st ! p) \<noteq> Some cn) then None
           else map_option (\<lambda>(_, st). (cmsg, st)) (storeIPCCall (gw_proc env) (gw_net env) (gw_per env) (gw_hdl0 env) st cmsg cn)
     }"

section \<open>Answers to attach requests\<close>

text \<open>The return code of the answer is not read.\<close>

definition attach_reply :: "gwenv \<Rightarrow> attach \<Rightarrow> gwstate \<Rightarrow> (attach \<times> gwstate) option" where
  "attach_reply env am st =
     (case storePopAttach (at_cltname am) st of
        ((rc, connid, f, mp), st) \<Rightarrow>
          if rc \<noteq> 1
          then do {
            let st = (case mw_get_client_byid st (at_cltid am) of
                        None \<Rightarrow> st
                      | Some i \<Rightarrow> st\<lparr>clttbl := tbl_upd (\<lambda>e. e\<lparr>clt_location := UNASSIGNED, clt_type := UNASSIGNED, clt_pid := UNASSIGNED,
                          clt_mqid := UNASSIGNED, clientname := [], cliententry.username := [], clt_status := UNASSIGNED\<rparr>) i (clttbl st)\<rparr>);
            let am = am\<lparr>at_cltid := at_cltid am OR MWCLIENTMASK\<rparr>;
            st \<leftarrow> conn_setinfo f (at_cltid am) st;
            Some (am, st)
          }
          else do {
            st \<leftarrow> conn_setinfo f (at_cltid am) st;
            cn \<leftarrow> fd2conn st f;
            st \<leftarrow> conn_setpeername env cn st;
            let (_, _, st) = mw_srbsendinitreply env cn 0 None (\<lparr>command = ''SRB INIT'', marker = SRB_RESPONSEMARKER, smap = mp\<rparr>, st);
            Some (am, st)
          })"

section \<open>The main loop\<close>

text \<open>What the loop returns with, if the message ends it, the message as it is left, and the state.\<close>

definition ipc_dispatch :: "gwenv \<Rightarrow> ipcmesg \<Rightarrow> gwstate \<Rightarrow> (int option \<times> ipcmesg \<times> gwstate) option" where
  "ipc_dispatch env m st =
     (let ty = mtype_of m; stay = Some (None, m, st)
      in if ty = ATTACHRPL
         then case m of Attach am \<Rightarrow> map_option (\<lambda>(am, st). (None, Attach am, st)) (attach_reply env am st) | _ \<Rightarrow> None
         else if ty = SVCCALL \<or> ty = SVCFORWARD
         then case m of Call c \<Rightarrow> map_option (\<lambda>(c, st). (None, Call c, st)) (do_svccall env c st) | _ \<Rightarrow> None
         else if ty = SVCREPLY
         then case m of Call c \<Rightarrow> map_option (\<lambda>st. (None, m, st)) (do_svcreply env c st) | _ \<Rightarrow> None
         else if ty = ADMREQ
         then case m of Administrative a \<Rightarrow> if ad_opcode a = ADMSHUTDOWN then Some (Some 2, m, st) else stay | _ \<Rightarrow> None
         else if ty = PROVIDEREQ \<or> ty = UNPROVIDEREQ
         then case m of
                Provide p \<Rightarrow> (let p = p\<lparr>pr_returncode := - errno_num EBADRQC\<rparr>
                             in Some (None, Provide p, snd (mw_ipc_putmessage (os (gw_proc env)) st (pr_srvid p) (Provide p))))
              | _ \<Rightarrow> None
         else if ty = PROVIDERPL
         then case m of Provide p \<Rightarrow> map_option (\<lambda>st. (None, m, st)) (impsetsvcid env (pr_svcname p) (pr_svcid p) (pr_gwid p) st) | _ \<Rightarrow> None
         else if ty = EVENT
         then case m of Event ev \<Rightarrow> map_option (\<lambda>(ev, st). (None, Event ev, st)) (do_event_message env ev st) | _ \<Rightarrow> None
         else stay)"

text \<open>
  The loop, with the message in the buffer (\<open>None\<close> is the uninitialised buffer, whose type is
  anything) and the count of errors. A message left from before is sent on in its own size.
\<close>

partial_function (option) ipc_loop :: "gwenv \<Rightarrow> ipcmesg option \<Rightarrow> nat \<Rightarrow> gwstate \<Rightarrow> (int \<times> gwstate) option" where
  "ipc_loop env buf errors st =
     (if shutdownflag st then Some (1, st)
      else case mw_ipc_getmessage (gw_proc env) st (int MWMSGMAX) 0 0 of
             (Inl e, st) \<Rightarrow>
               if e = EIDRM then Some (1, st\<lparr>shutdownflag := True\<rparr>)
               else if e = EINTR then ipc_loop env buf errors st
               else if errors \<ge> 10 then Some (errno_num e, st)
               else (case buf of
                       None \<Rightarrow> None
                     | Some m \<Rightarrow>
                         (case ipc_dispatch env m st of
                            None \<Rightarrow> None
                          | Some (Some rc, m, st) \<Rightarrow> Some (rc, st)
                          | Some (None, m, st) \<Rightarrow> ipc_loop env (Some m) (errors + 1) st))
           | (Inr (m, len), st) \<Rightarrow>
               (case ipc_dispatch env m st of
                  None \<Rightarrow> None
                | Some (Some rc, m, st) \<Rightarrow> Some (rc, st)
                | Some (None, m, st) \<Rightarrow> ipc_loop env (Some m) errors st))"

definition ipcmainloop :: "gwenv \<Rightarrow> gwstate \<Rightarrow> (int \<times> gwstate) option" where
  "ipcmainloop env st =
     do {
       st \<leftarrow> gw_setmystatus MWREADY st;
       ipc_loop env None 0 st
     }"

end
