(* ===== verification/GwTcp.thy ===== *)
theory GwTcp
  imports GwIpc
begin

text \<open>
  \<^verbatim>\<open>src/mwgwd/tcpserver.c\<close>: what a gateway does when a socket needs attention. What arrives on a
  socket, and the descriptor and the message a broker passes on, are arguments.
\<close>

section \<open>New connections\<close>

text \<open>
  \<open>f\<close> is the descriptor \<^verbatim>\<open>accept\<close> returns. The test for \<^verbatim>\<open>tcpshutdown\<close> never holds: it is set when
  the loop that leads here has ended.
\<close>

definition tcpnewconnection :: "gwenv \<Rightarrow> string \<Rightarrow> nat \<Rightarrow> int \<Rightarrow> gwstate \<Rightarrow> gwstate" where
  "tcpnewconnection env version cn f st =
     (if f = -1 then st
      else let st = conn_add (nat f) (conn_role (conns st cn)) CONN_TYPE_CLIENT st
           in snd (mw_srbsendready env (nat f) (Some (mydomain env)) version st))"

section \<open>Messages\<close>

definition gwreadmessage ::
  "gwenv \<Rightarrow> (string \<Rightarrow> string) \<Rightarrow> string \<Rightarrow> nat \<Rightarrow> recv_result list \<Rightarrow> gwstate \<Rightarrow> (recv_result list \<times> gwstate) option" where
  "gwreadmessage env junk clock cn rs st =
     do {
       (r, co, rs) \<leftarrow> mw_srb_recvmessage (gw_net env) junk (conn (conns st cn)) 2 rs;
       let st = upd_conn cn (\<lambda>c. c\<lparr>conn := co\<rparr>) st;
       case r of
         Message msg \<Rightarrow> map_option (Pair rs) (srbDoMessage env clock cn msg st)
       | AssertFailed \<Rightarrow> None
       | NoMessage \<Rightarrow> map_option (Pair rs) (tcpcloseconnection env cn st)
       | Refused e \<Rightarrow> if e = EAGAIN \<or> e = ENOMSG then Some (rs, st) else map_option (Pair rs) (tcpcloseconnection env cn st)
     }"

text \<open>
  What \<^verbatim>\<open>read_with_fd\<close> gives: the text and the descriptor of the new connection, -1 for a message
  from the broker itself. The message of the new connection ends in a carriage return and a
  line feed.
\<close>

definition from_broker :: "gwenv \<Rightarrow> (string \<Rightarrow> string) \<Rightarrow> string \<Rightarrow> int \<Rightarrow> string \<Rightarrow> int \<Rightarrow> gwstate \<Rightarrow> gwstate option" where
  "from_broker env junk clock f text c_fd st =
     (if c_fd = -1 then map_option (\<lambda>st. st\<lparr>reconnect_broker := True\<rparr>) (conn_del env f st)
      else if length text < 2 then None
      else let cn = nat c_fd;
               st = conn_add cn 3 CONN_TYPE_NONE st
           in case mw_srbdecodemessage (gw_net env) junk (conn (conns st cn)) (take (length text - 2) text) of
                (Inr msg, co) \<Rightarrow> srbDoMessage env clock cn msg (upd_conn cn (\<lambda>c. c\<lparr>conn := co\<rparr>) st)
              | (Inl _, co) \<Rightarrow> conn_del env (fd co) (upd_conn cn (\<lambda>c. c\<lparr>conn := co\<rparr>) st))"

section \<open>Conditions of a socket\<close>

text \<open>What a socket that can be read brings: a new connection, a descriptor from the broker, or text.\<close>

datatype arrival = Accepted int | Passed string int | Stream "recv_result list"

definition tcp_do_read_condition ::
  "gwenv \<Rightarrow> (string \<Rightarrow> string) \<Rightarrow> string \<Rightarrow> string \<Rightarrow> nat \<Rightarrow> arrival \<Rightarrow> gwstate \<Rightarrow> gwstate option" where
  "tcp_do_read_condition env junk clock version cn a st =
     (case (conn_type (conns st cn), a) of
        (CONN_TYPE_BROKER, Passed text f) \<Rightarrow> from_broker env junk clock (fd (conn (conns st cn))) text f st
      | (CONN_TYPE_BROKER, _) \<Rightarrow> None
      | (CONN_TYPE_LISTEN, Accepted f) \<Rightarrow> Some (tcpnewconnection env version cn f st)
      | (CONN_TYPE_LISTEN, _) \<Rightarrow> None
      | (_, Stream rs) \<Rightarrow> map_option snd (gwreadmessage env junk clock cn rs st)
      | _ \<Rightarrow> None)"

text \<open>The entry of a broker has been cleared when it is closed again.\<close>

definition tcp_do_error_condition :: "gwenv \<Rightarrow> nat \<Rightarrow> gwstate \<Rightarrow> gwstate option" where
  "tcp_do_error_condition env cn st =
     (if conn_type (conns st cn) = CONN_TYPE_LISTEN then Some (st\<lparr>shutdownflag := True\<rparr>)
      else if conn_type (conns st cn) = CONN_TYPE_BROKER
      then do {
        st \<leftarrow> tcpcloseconnection env cn st;
        st \<leftarrow> conn_del env (fd (conn (conns st cn))) st;
        Some (st\<lparr>reconnect_broker := True\<rparr>)
      }
      else tcpcloseconnection env cn st)"

definition tcp_do_write_condition :: "nat \<Rightarrow> gwstate \<Rightarrow> int \<times> gwstate" where
  "tcp_do_write_condition cn st =
     (if conn_type (conns st cn) = CONN_TYPE_GATEWAY
      then (0, if conn_state (conns st cn) = CONNECT_STATE_CONNWAIT
               then upd_conn cn (\<lambda>c. c\<lparr>conn_state := CONNECT_STATE_READYWAIT\<rparr>) st else st)
      else (-1, st))"

section \<open>Closing down\<close>

definition first_conn :: "(gwconn \<Rightarrow> bool) \<Rightarrow> gwstate \<Rightarrow> nat option" where
  "first_conn P st = List.find (\<lambda>i. fd (conn (conns st i)) \<noteq> UNASSIGNED \<and> P (conns st i)) [0..<conntblsize st]"

definition conn_getbroker :: "gwstate \<Rightarrow> nat option" where
  "conn_getbroker st = first_conn (\<lambda>c. conn_type c = CONN_TYPE_BROKER) st"

definition conn_getfirstlisten :: "gwstate \<Rightarrow> nat option" where
  "conn_getfirstlisten st = first_conn (\<lambda>c. conn_type c = CONN_TYPE_BROKER \<or> conn_type c = CONN_TYPE_LISTEN) st"

definition conn_getfirstclient :: "gwstate \<Rightarrow> nat option" where
  "conn_getfirstclient st = first_conn (\<lambda>c. conn_type c = CONN_TYPE_CLIENT) st"

definition conn_getfirstgateway :: "gwstate \<Rightarrow> nat option" where
  "conn_getfirstgateway st = first_conn (\<lambda>c. conn_gwid c \<noteq> UNASSIGNED \<or> conn_type c = CONN_TYPE_GATEWAY) st"

text \<open>A loop that closes connections as long as there is one of a kind; None is a crash or no end.\<close>

partial_function (option) close_loop ::
  "(gwstate \<Rightarrow> nat option) \<Rightarrow> (nat \<Rightarrow> gwstate \<Rightarrow> gwstate option) \<Rightarrow> gwstate \<Rightarrow> gwstate option" where
  "close_loop get close st =
     (case get st of
        None \<Rightarrow> Some st
      | Some cn \<Rightarrow> (case close cn st of None \<Rightarrow> None | Some st \<Rightarrow> close_loop get close st))"

definition tcpcloseall :: "gwenv \<Rightarrow> gwstate \<Rightarrow> gwstate option" where
  "tcpcloseall env st =
     (let bye = (\<lambda>cn st. snd (on_conn cn (\<lambda>co. mw_srbsendterm (gw_net env) co (-1)) st));
          del = (\<lambda>cn st. conn_del env (fd (conn (conns st cn))) st)
      in do {
        st \<leftarrow> close_loop conn_getbroker (\<lambda>cn st. del cn (bye cn st)) st;
        st \<leftarrow> close_loop conn_getfirstlisten del st;
        st \<leftarrow> close_loop conn_getfirstclient (\<lambda>cn st. del cn (bye cn st)) st;
        close_loop conn_getfirstgateway (\<lambda>cn st. gw_closegateway env cn (bye cn st)) st
      })"

end
