(* ===== verification/Events.thy ===== *)
theory Events
  imports ServerApi
begin

unbundle bit_operations_syntax

text \<open>
  \<^verbatim>\<open>src/mwd/events.c\<close>: the daemon's event queues. Members subscribe with a pattern; posted
  events wait on a queue until the event task sends each to the subscribers it matches. An
  event with data shares one buffer of the heap among its recipients and stays on the ack
  queue until all of them have acknowledged it. A message for a full message queue waits
  on the blocking queue.

  The linked lists are lists, the head first. A read of unmapped memory is the result
  \<open>None\<close>. Where the code reads a field of an entry it has just released, the model reads
  the value it had.
\<close>

section \<open>State\<close>

abbreviation (input) MWEVGLOB :: int where "MWEVGLOB \<equiv> 0x00100000"
abbreviation (input) MWEVREGEXP :: int where "MWEVREGEXP \<equiv> 0x00200000"
abbreviation (input) MWEVEREGEXP :: int where "MWEVEREGEXP \<equiv> 0x00400000"

text \<open>A compiled expression is the syntax, extended or not, and the pattern it was made of.\<close>

record subscribe_event =
  se_pattern :: string
  se_regexp :: "(bool \<times> string) option"
  se_subscriptionid :: int
  se_id :: int
  se_cid :: int
  se_sid :: int
  se_gwid :: int
  se_flags :: int

text \<open>\<open>pending_ack_len\<close> is the length of the list of ids.\<close>

record queued_event =
  evmsg :: event
  pending_ack_ids :: "int list"
  pending_acks :: int

record ipc_msg =
  bq_mwid :: int
  bq_mesg :: ipcmesg

record mwdstate = mwproc +
  subscription_root :: "subscribe_event list"
  eventqueue :: "queued_event list"
  eventqueuelen :: int
  ackqueue :: "queued_event list"
  ackqueuelen :: int
  ipc_blocking_queue :: "ipc_msg list"
  ipc_blocking_queue_len :: int
  last_eventid :: int
  srv_nextidx :: int
  clt_nextidx :: int
  svc_nextidx :: int
  lastallocedid :: int
  bufferfiles :: "int \<Rightarrow> (chunkhead \<times> int) option"
  shutdowntriggers :: "int list"

text \<open>
  The last six fields are those of \<^verbatim>\<open>tables.c\<close> and \<^verbatim>\<open>requestparse.c\<close>: the static cursors of
  the tables, the files of large buffers, each with its head and its number of pages, and
  the delays of the tasks that will start the shutdown.
\<close>

section \<open>Subscriptions\<close>

definition event_subscribe :: "mwenv \<Rightarrow> mwdstate \<Rightarrow> string option \<Rightarrow> int \<Rightarrow> int \<Rightarrow> int \<Rightarrow> int \<times> mwdstate" where
  "event_subscribe env st pattern mwid subid flags =
     (case pattern of
        None \<Rightarrow> (- errno_num EINVAL, st)
      | Some pat \<Rightarrow>
          let re = (if (flags AND MWEVEREGEXP) \<noteq> 0 then Some (True, pat)
                    else if (flags AND MWEVREGEXP) \<noteq> 0 then Some (False, pat)
                    else None);
              se = \<lparr>se_pattern = pat, se_regexp = re, se_subscriptionid = subid, se_id = mwid,
                    se_cid = CLTID mwid, se_sid = SRVID mwid, se_gwid = GWID mwid, se_flags = flags\<rparr>
          in case re of
               Some (ext, p) \<Rightarrow>
                 if \<not> regcomp env ext p then (- errno_num EINVAL, st)
                 else (0, st\<lparr>subscription_root := se # subscription_root st\<rparr>)
             | None \<Rightarrow> (0, st\<lparr>subscription_root := se # subscription_root st\<rparr>))"

text \<open>
  After an entry is taken out the loop advances from the link that now holds its successor,
  so the successor is not examined.
\<close>

fun unsubscribe_loop :: "int \<Rightarrow> int \<Rightarrow> subscribe_event list \<Rightarrow> subscribe_event list" where
  "unsubscribe_loop subid mwid [] = []"
| "unsubscribe_loop subid mwid (se # rest) =
     (if se_id se = mwid \<and> \<not> (subid \<noteq> UNASSIGNED \<and> se_subscriptionid se \<noteq> subid)
      then case rest of
             [] \<Rightarrow> []
           | se2 # rest2 \<Rightarrow>
               if subid \<noteq> UNASSIGNED then rest
               else se2 # unsubscribe_loop subid mwid rest2
      else se # unsubscribe_loop subid mwid rest)"

definition event_unsubscribe :: "mwdstate \<Rightarrow> int \<Rightarrow> int \<Rightarrow> int \<times> mwdstate" where
  "event_unsubscribe st subid mwid =
     (if subid < UNASSIGNED then (- errno_num EINVAL, st)
      else (0, st\<lparr>subscription_root := unsubscribe_loop subid mwid (subscription_root st)\<rparr>))"

section \<open>Acknowledgements\<close>

definition next_eventid :: "mwdstate \<Rightarrow> int \<times> mwdstate" where
  "next_eventid st =
     (let l = (if last_eventid st > 100000000 then 0 else last_eventid st)
      in (l + 1, st\<lparr>last_eventid := l + 1\<rparr>))"

text \<open>The first pending acknowledgement of a member is struck out.\<close>

fun strike :: "int \<Rightarrow> int list \<Rightarrow> int list option" where
  "strike i [] = None"
| "strike i (x # xs) = (if x = i then Some (UNASSIGNED # xs) else map_option ((#) x) (strike i xs))"

text \<open>
  Clearing the pending acknowledgements of a member that has left. When the last one of an
  event is struck out the event leaves the queue, and again the loop advances past its
  successor: without a successor it follows a NULL pointer.
\<close>

fun clear_pending_loop :: "int \<Rightarrow> queued_event list \<Rightarrow> shmstate \<Rightarrow> int \<Rightarrow> (queued_event list \<times> shmstate \<times> int) option" where
  "clear_pending_loop i [] h n = Some ([], h, n)"
| "clear_pending_loop i (ev # rest) h n =
     (case strike i (pending_ack_ids ev) of
        None \<Rightarrow>
          do {
            (q, h, n) \<leftarrow> clear_pending_loop i rest h n;
            Some (ev # q, h, n)
          }
      | Some ids \<Rightarrow>
          if pending_acks ev - 1 = 0
          then do {
            (rc, h) \<leftarrow> mwfree h (mwoffset2adr (ev_data (evmsg ev)) None);
            (case rest of
               [] \<Rightarrow> None
             | ev2 # rest2 \<Rightarrow>
                 do {
                   (q, h, n) \<leftarrow> clear_pending_loop i rest2 h (n - 1);
                   Some (ev2 # q, h, n)
                 })
          }
          else do {
            (q, h, n) \<leftarrow> clear_pending_loop i rest h n;
            Some (ev\<lparr>pending_ack_ids := ids, pending_acks := pending_acks ev - 1\<rparr> # q, h, n)
          })"

definition clear_pendingack_byid :: "mwdstate \<Rightarrow> int \<Rightarrow> mwdstate option" where
  "clear_pendingack_byid st i =
     do {
       (q, h, n) \<leftarrow> clear_pending_loop i (ackqueue st) (shm st) (ackqueuelen st);
       Some (st\<lparr>ackqueue := q, shm := h, ackqueuelen := n\<rparr>)
     }"

section \<open>The blocking queue\<close>

definition push_blockingqueue :: "mwdstate \<Rightarrow> int \<Rightarrow> ipcmesg \<Rightarrow> mwdstate" where
  "push_blockingqueue st i m =
     st\<lparr>ipc_blocking_queue := ipc_blocking_queue st @ [\<lparr>bq_mwid = i, bq_mesg = m\<rparr>],
        ipc_blocking_queue_len := ipc_blocking_queue_len st + 1\<rparr>"

fun flush_loop :: "mwenv \<Rightarrow> ipc_msg list \<Rightarrow> mwdstate \<Rightarrow> ipc_msg list \<times> mwdstate" where
  "flush_loop env [] st = ([], st)"
| "flush_loop env (ent # rest) st =
     (case mw_ipc_putmessage env st (bq_mwid ent) (bq_mesg ent) of
        (rc, st) \<Rightarrow>
          if rc = 0
          then flush_loop env rest (st\<lparr>ipc_blocking_queue_len := ipc_blocking_queue_len st - 1\<rparr>)
          else (case flush_loop env rest st of (q, st) \<Rightarrow> (ent # q, st)))"

definition flush_blockingqueue :: "mwenv \<Rightarrow> mwdstate \<Rightarrow> mwdstate" where
  "flush_blockingqueue env st =
     (case flush_loop env (ipc_blocking_queue st) st of (q, st) \<Rightarrow> st\<lparr>ipc_blocking_queue := q\<rparr>)"

fun clear_blocking_loop :: "int \<Rightarrow> ipc_msg list \<Rightarrow> int \<Rightarrow> ipc_msg list \<times> int" where
  "clear_blocking_loop i [] n = ([], n)"
| "clear_blocking_loop i (ent # rest) n =
     (if bq_mwid ent = i then clear_blocking_loop i rest (n - 1)
      else (case clear_blocking_loop i rest n of (q, n) \<Rightarrow> (ent # q, n)))"

definition clear_blockingqueue_byid :: "mwdstate \<Rightarrow> int \<Rightarrow> mwdstate" where
  "clear_blockingqueue_byid st i =
     (case clear_blocking_loop i (ipc_blocking_queue st) (ipc_blocking_queue_len st) of
        (q, n) \<Rightarrow> st\<lparr>ipc_blocking_queue := q, ipc_blocking_queue_len := n\<rparr>)"

definition event_clear_id :: "mwdstate \<Rightarrow> int \<Rightarrow> mwdstate option" where
  "event_clear_id st i =
     do {
       st \<leftarrow> clear_pendingack_byid (clear_blockingqueue_byid st i) i;
       Some (snd (event_unsubscribe st UNASSIGNED i))
     }"

fun ack_loop :: "mwenv \<Rightarrow> event \<Rightarrow> queued_event list \<Rightarrow> shmstate \<Rightarrow> int \<Rightarrow> (queued_event list \<times> shmstate \<times> int) option" where
  "ack_loop env m [] h n = Some ([], h, n)"
| "ack_loop env m (ev # rest) h n =
     (if eventid m \<noteq> eventid (evmsg ev)
      then do {
        (q, h, n) \<leftarrow> ack_loop env m rest h n;
        Some (ev # q, h, n)
      }
      else case strike (senderid m) (pending_ack_ids ev) of
             None \<Rightarrow> Some (ev # rest, h, n)
           | Some ids \<Rightarrow>
               if pending_acks ev - 1 = 0
               then case mw_getsegment_byid (mmap_file (shm_env env)) h (ev_datasegmentid (evmsg ev)) of
                      (si, h) \<Rightarrow>
                        do {
                          (rc, h) \<leftarrow> mwfree h (mwoffset2adr (ev_data (evmsg ev)) si);
                          Some (rest, h, n - 1)
                        }
               else Some (ev\<lparr>pending_ack_ids := ids, pending_acks := pending_acks ev - 1\<rparr> # rest, h, n))"

definition event_ack :: "mwenv \<Rightarrow> mwdstate \<Rightarrow> event \<Rightarrow> (int \<times> mwdstate) option" where
  "event_ack env st m =
     do {
       (q, h, n) \<leftarrow> ack_loop env m (ackqueue st) (shm st) (ackqueuelen st);
       Some (0, st\<lparr>ackqueue := q, shm := h, ackqueuelen := n\<rparr>)
     }"

section \<open>Posting\<close>

definition event_enqueue :: "mwdstate \<Rightarrow> event \<Rightarrow> int \<times> mwdstate" where
  "event_enqueue st m =
     (case (if eventid m \<le> 0 then next_eventid st else (eventid m, st)) of
        (i, st) \<Rightarrow>
          (0, st\<lparr>eventqueue := eventqueue st @
                    [\<lparr>evmsg = m\<lparr>eventid := i\<rparr>, pending_ack_ids = [], pending_acks = 0\<rparr>],
                 eventqueuelen := eventqueuelen st + 1\<rparr>))"

text \<open>
  Events of the daemon itself. The fields of the message the code leaves uninitialised are
  0 here; the octet copied from behind the data is overwritten at once.
\<close>

definition internal_event_enqueue ::
  "mwenv \<Rightarrow> mwdstate \<Rightarrow> string option \<Rightarrow> 8 word list option \<Rightarrow> nat \<Rightarrow> string option \<Rightarrow> string option
   \<Rightarrow> (int \<times> mwdstate) option" where
  "internal_event_enqueue env st ev data datalen user client =
     (case ev of
        None \<Rightarrow> Some (- errno_num EINVAL, st)
      | Some name \<Rightarrow>
          let m = \<lparr>ev_mtype = EVENT, ev_event = strncpy name MWMAXSVCNAME, eventid = UNASSIGNED,
                   ev_subscriptionid = 0, senderid = 0, ev_datasegmentid = 0, ev_data = 0, ev_datalen = 0,
                   ev_username = (case user of None \<Rightarrow> [] | Some u \<Rightarrow> strncpy u MWMAXSVCNAME),
                   ev_clientname = (case client of None \<Rightarrow> [] | Some c \<Rightarrow> strncpy c MWMAXSVCNAME),
                   ev_flags = 0, ev_returncode = 0\<rparr>
          in case data of
               None \<Rightarrow> Some (event_enqueue st m)
             | Some d \<Rightarrow>
                 let dl = (if datalen = 0 then length (takeWhile (\<lambda>b. b \<noteq> 0) d) else datalen)
                 in do {
                      (dbuf, h) \<leftarrow> mwalloc (shm_env env) (shm st) (int dl + 1);
                      if dbuf = 0 then Some (- errno_num ENOMEM, st\<lparr>shm := h\<rparr>)
                      else let h = store_bytes h dbuf (take dl d @ [0])
                           in do {
                                si \<leftarrow> findsegment_byaddr (segments h) dbuf;
                                Some (event_enqueue (st\<lparr>shm := h\<rparr>)
                                  (m\<lparr>ev_datasegmentid := segmentid si,
                                     ev_data := mwadr2offset (segments h) dbuf (Some si),
                                     ev_datalen := int dl\<rparr>))
                              }
                    })"

section \<open>Delivery\<close>

definition client_wanted :: "mwdstate \<Rightarrow> subscribe_event \<Rightarrow> event \<Rightarrow> bool" where
  "client_wanted st se m \<longleftrightarrow>
     (if se_cid se \<noteq> UNASSIGNED
      then case mw_get_client_byid st (se_cid se) of
             None \<Rightarrow> False
           | Some i \<Rightarrow>
               (let ce = the (clttbl st) ! nat i
                in (ev_username m \<noteq> [] \<longrightarrow> ev_username m = username ce)
                   \<and> (ev_clientname m \<noteq> [] \<longrightarrow> ev_clientname m = clientname ce))
      else True)"

definition pattern_matches :: "mwenv \<Rightarrow> subscribe_event \<Rightarrow> string \<Rightarrow> bool" where
  "pattern_matches env se name \<longleftrightarrow>
     (if (se_flags se AND MWEVGLOB) \<noteq> 0 then fnmatch env (se_pattern se) name = Some True
      else if (se_flags se AND (MWEVREGEXP OR MWEVEREGEXP)) \<noteq> 0
      then (case se_regexp se of None \<Rightarrow> False | Some (ext, p) \<Rightarrow> regexec env ext p name)
      else se_pattern se = name)"

fun deliver_loop :: "mwenv \<Rightarrow> subscribe_event list \<Rightarrow> queued_event \<Rightarrow> mwdstate \<Rightarrow> queued_event \<times> mwdstate" where
  "deliver_loop env [] ev st = (ev, st)"
| "deliver_loop env (se # rest) ev st =
     (if \<not> client_wanted st se (evmsg ev) then deliver_loop env rest ev st
      else if \<not> pattern_matches env se (ev_event (evmsg ev)) then deliver_loop env rest ev st
      else let ev = ev\<lparr>evmsg := (evmsg ev)\<lparr>ev_subscriptionid := se_subscriptionid se\<rparr>\<rparr>
           in case mw_ipc_putmessage env st (se_id se) (Event (evmsg ev)) of
                (rc, st) \<Rightarrow>
                  if rc < 0 \<and> rc \<noteq> - errno_num EAGAIN then deliver_loop env rest ev st
                  else let st = (if rc < 0 then push_blockingqueue st (se_id se) (Event (evmsg ev)) else st);
                           ev = (if ev_data (evmsg ev) \<noteq> 0
                                 then ev\<lparr>pending_ack_ids := pending_ack_ids ev @ [se_id se],
                                         pending_acks := pending_acks ev + 1\<rparr>
                                 else ev)
                       in deliver_loop env rest ev st)"

definition do_event :: "mwenv \<Rightarrow> mwdstate \<Rightarrow> (int \<times> mwdstate) option" where
  "do_event env st =
     (case eventqueue st of
        [] \<Rightarrow> Some (- errno_num ENOENT, st\<lparr>eventqueuelen := 0\<rparr>)
      | ev # rest \<Rightarrow>
          (case deliver_loop env (subscription_root st) (ev\<lparr>evmsg := (evmsg ev)\<lparr>senderid := 0\<rparr>\<rparr>)
                  (st\<lparr>eventqueue := rest, eventqueuelen := eventqueuelen st - 1\<rparr>) of
             (ev, st) \<Rightarrow>
               if pending_acks ev \<noteq> 0
               then Some (0, st\<lparr>ackqueue := ev # ackqueue st, ackqueuelen := ackqueuelen st + 1\<rparr>)
               else if ev_data (evmsg ev) \<noteq> 0
               then (case mw_getsegment_byid (mmap_file (shm_env env)) (shm st) 0 of
                       (si, h) \<Rightarrow>
                         do {
                           (rc, h) \<leftarrow> mwfree h (mwoffset2adr (ev_data (evmsg ev)) si);
                           Some (0, st\<lparr>shm := h\<rparr>)
                         })
               else Some (0, st)))"

text \<open>
  The task: the processor clock allows a number of rounds, at least one.
\<close>

primrec do_events_loop :: "mwenv \<Rightarrow> nat \<Rightarrow> mwdstate \<Rightarrow> mwdstate option" where
  "do_events_loop env 0 st = Some st"
| "do_events_loop env (Suc n) st =
     (if eventqueuelen st = 0 then Some st
      else do {
        (rc, st) \<leftarrow> do_event env st;
        if rc = - errno_num ENOENT then Some st else do_events_loop env n st
      })"

definition do_events :: "mwenv \<Rightarrow> nat \<Rightarrow> mwdstate \<Rightarrow> (int \<times> mwdstate) option" where
  "do_events env rounds st =
     do {
       st \<leftarrow> do_events_loop env rounds (flush_blockingqueue env st);
       Some (eventqueuelen st, st)
     }"

end
