(* ===== verification/Tables.thy ===== *)
theory Tables
  imports Events
begin

unbundle bit_operations_syntax

text \<open>
  \<^verbatim>\<open>src/mwd/tables.c\<close>: the daemon's side of the tables. Members are given the next free
  entry, going round the table; services are added for a server or a gateway and removed
  with it, each change being posted as an event; the watchdog clears the entries of
  processes that have died.
\<close>

section \<open>Emptying the tables\<close>

definition init_tables :: "mwdstate \<Rightarrow> mwdstate" where
  "init_tables st =
     (case ipcmain st of
        None \<Rightarrow> st
      | Some im \<Rightarrow>
          st\<lparr>clttbl := map_option (map (\<lambda>e. e\<lparr>clt_type := UNASSIGNED, clt_mqid := UNASSIGNED,
                  clt_pid := UNASSIGNED, clt_status := UNASSIGNED,
                  clientname := [], username := [], clt_addr_string := []\<rparr>)) (clttbl st),
             srvtbl := map_option (map (\<lambda>e. e\<lparr>srv_mqid := UNASSIGNED, srv_pid := UNASSIGNED,
                  srv_status := UNASSIGNED, servername := []\<rparr>)) (srvtbl st),
             svctbl := map_option (map (\<lambda>e. e\<lparr>svc_type := UNASSIGNED, svc_server := UNASSIGNED,
                  svc_gateway := UNASSIGNED, servicename := [], mwname := []\<rparr>)) (svctbl st),
             gwtbl := map_option (map (\<lambda>e. e\<lparr>gw_status := UNASSIGNED, gw_mqid := UNASSIGNED,
                  gw_pid := UNASSIGNED, instancename := [], domainname := [],
                  gw_addr_string := []\<rparr>)) (gwtbl st),
             ipcmain := Some (im\<lparr>gwtbl_nextidx := 0\<rparr>),
             convtbl := map_option (map (\<lambda>e. e\<lparr>cv_srvid := UNASSIGNED, cv_cltid := UNASSIGNED,
                  cv_gwid := UNASSIGNED\<rparr>)) (convtbl st)\<rparr>)"

section \<open>Servers\<close>

text \<open>The first index from \<open>i\<close> below \<open>n\<close> that is free, or \<open>UNASSIGNED\<close>.\<close>

function scan_free :: "(int \<Rightarrow> bool) \<Rightarrow> int \<Rightarrow> int \<Rightarrow> int" where
  "scan_free p i n = (if i < n then if p i then i else scan_free p (i + 1) n else UNASSIGNED)"
  by pat_completeness auto
termination by (relation "measure (\<lambda>(p, i, n). nat (n - i))") auto

declare scan_free.simps [simp del]

definition next_free :: "(int \<Rightarrow> bool) \<Rightarrow> int \<Rightarrow> int \<Rightarrow> int" where
  "next_free p nextidx n =
     (let i = scan_free p nextidx n
      in if i = UNASSIGNED then scan_free p 0 nextidx else i)"

definition srv_free :: "serverentry list option \<Rightarrow> int \<Rightarrow> bool" where
  "srv_free t i = (case tbl_at t i of None \<Rightarrow> False | Some e \<Rightarrow> srv_status e = UNASSIGNED)"

definition new_server :: "string \<Rightarrow> int \<Rightarrow> int \<Rightarrow> int \<Rightarrow> serverentry \<Rightarrow> serverentry" where
  "new_server name mq pid t e =
     e\<lparr>servername := strncpy name MWMAXNAMELEN, srv_mqid := mq, srv_status := 0, booted := t,
       lastsvccall := -1, mwdblock := False, srv_pid := pid, nowserving := UNASSIGNED,
       srv_load := \<lparr>percbusy1 = 0, percbusy5 = 0, percbusy15 = 0, count1 = 0, count5 = 0, count15 = 0,
                    qlenbusy1 = 0, qlenbusy5 = 0, qlenbusy15 = 0, avserv1 = 0, avserv5 = 0,
                    avserv15 = 0, avwait1 = 0, avwait5 = 0, avwait15 = 0\<rparr>\<rparr>"

definition addserver :: "mwenv \<Rightarrow> mwdstate \<Rightarrow> string \<Rightarrow> int \<Rightarrow> int \<Rightarrow> int \<times> mwdstate" where
  "addserver env st name mq pid =
     (if ipcmain st = None then (- errno_num EUCLEAN, st)
      else let srvidx = next_free (srv_free (srvtbl st)) (srv_nextidx st) (tbl_length (srvtbl st))
           in if srvidx = UNASSIGNED then (- errno_num ENOSPC, st)
              else (srvidx OR MWSERVERMASK,
                    st\<lparr>srv_nextidx := srvidx + 1,
                       srvtbl := tbl_upd (new_server name mq pid (now env)) srvidx (srvtbl st)\<rparr>))"

definition delserver :: "mwdstate \<Rightarrow> int \<Rightarrow> (int \<times> mwdstate) option" where
  "delserver st sid =
     (if ipcmain st = None then Some (- errno_num EUCLEAN, st)
      else do {
        st \<leftarrow> event_clear_id st sid;
        let srvidx = SRVID2IDX sid;
        e \<leftarrow> tbl_at (srvtbl st) srvidx;
        Some (0, st\<lparr>srvtbl := tbl_upd (\<lambda>e. e\<lparr>srv_status := UNASSIGNED, srv_mqid := UNASSIGNED,
                                             srv_pid := UNASSIGNED, servername := []\<rparr>) srvidx (srvtbl st)\<rparr>)
      })"

section \<open>Clients\<close>


definition clt_free :: "cliententry list option \<Rightarrow> int \<Rightarrow> bool" where
  "clt_free t i = (case tbl_at t i of None \<Rightarrow> False | Some e \<Rightarrow> clt_status e = UNASSIGNED)"

definition new_client :: "int \<Rightarrow> string \<Rightarrow> int \<Rightarrow> int \<Rightarrow> int \<Rightarrow> cliententry \<Rightarrow> cliententry" where
  "new_client ty name mq pid t e =
     e\<lparr>clt_type := ty, clt_mqid := mq, clt_pid := pid, clientname := strncpy name MWMAXNAMELEN,
       authtype := UNASSIGNED, clt_status := 0, clt_connected := t, clt_requests := 0\<rparr>"

definition addclient :: "mwenv \<Rightarrow> mwdstate \<Rightarrow> int \<Rightarrow> string \<Rightarrow> int \<Rightarrow> int \<Rightarrow> int \<Rightarrow> int \<times> mwdstate" where
  "addclient env st ty name mq pid gwid =
     (if ipcmain st = None then (- errno_num EUCLEAN, st)
      else let cltidx = next_free (clt_free (clttbl st)) (clt_nextidx st) (tbl_length (clttbl st))
           in if cltidx = UNASSIGNED then (- errno_num ENOSPC, st)
              else let st = st\<lparr>clt_nextidx := cltidx + 1\<rparr>
                   in if ty = MWIPCCLIENT \<or> ty = MWIPCSERVER
                      then (cltidx OR MWCLIENTMASK,
                            st\<lparr>clttbl := tbl_upd (\<lambda>e. new_client ty name mq pid (now env)
                                 (e\<lparr>clt_location := GWLOCAL, clt_gwid := UNASSIGNED\<rparr>)) cltidx (clttbl st)\<rparr>)
                      else if ty = MWNETCLIENT
                      then (cltidx OR MWCLIENTMASK,
                            st\<lparr>clttbl := tbl_upd (\<lambda>e. new_client ty name mq pid (now env)
                                 (e\<lparr>clt_location := GWCLIENT, clt_gwid := gwid\<rparr>)) cltidx (clttbl st)\<rparr>)
                      else (- errno_num ENOSYS, st))"

definition delclient :: "mwdstate \<Rightarrow> int \<Rightarrow> (int \<times> mwdstate) option" where
  "delclient st cid =
     (if ipcmain st = None then Some (- errno_num EUCLEAN, st)
      else do {
        st \<leftarrow> event_clear_id st cid;
        let st = snd (event_unsubscribe st UNASSIGNED cid);
        case mw_getcliententry st cid of
          None \<Rightarrow> Some (- errno_num EINVAL, st)
        | Some i \<Rightarrow>
            do {
              e \<leftarrow> tbl_at (clttbl st) i;
              Some (0, st\<lparr>clttbl := tbl_upd (\<lambda>e. e\<lparr>clt_type := UNASSIGNED, clt_mqid := UNASSIGNED,
                      clt_pid := UNASSIGNED, clt_status := UNASSIGNED, clientname := [],
                      username := [], clt_addr_string := []\<rparr>) i (clttbl st)\<rparr>)
            }
      })"

section \<open>Services\<close>

text \<open>The event of a service: the name, the provider and the id, as the structure in memory.\<close>

abbreviation (input) NEWSERVICEEVENT :: string where "NEWSERVICEEVENT \<equiv> ''.mwprovide''"
abbreviation (input) DELSERVICEEVENT :: string where "DELSERVICEEVENT \<equiv> ''.mwunprovide''"
abbreviation (input) sizeof_mwprovideevent :: nat where "sizeof_mwprovideevent \<equiv> 44"

definition le32 :: "int \<Rightarrow> 8 word list" where
  "le32 v = map (\<lambda>i. word_of_int (v div 2 ^ (8 * i))) [0..<4]"

definition mwprovideevent :: "string \<Rightarrow> int \<Rightarrow> int \<Rightarrow> 8 word list" where
  "mwprovideevent name provider svcid =
     take MWMAXSVCNAME (map byte_of name @ replicate MWMAXSVCNAME 0) @ replicate 3 0
       @ le32 provider @ le32 svcid"

definition addservice :: "mwdstate \<Rightarrow> string \<Rightarrow> int \<Rightarrow> (int \<times> mwdstate) option" where
  "addservice st name ty =
     (case svctbl st of
        None \<Rightarrow> None
      | Some [] \<Rightarrow> None
      | Some tbl \<Rightarrow>
          (case find (\<lambda>i. svc_type (tbl ! i) = UNASSIGNED) (scan_order (svc_nextidx st) (length tbl)) of
             None \<Rightarrow> Some (- errno_num ENOSPC, st)
           | Some i \<Rightarrow>
               Some (int i, st\<lparr>svc_nextidx := int i + 1,
                       svctbl := tbl_upd (\<lambda>e. e\<lparr>servicename := strncpy name MWMAXSVCNAME, svc_type := ty\<rparr>)
                                   (int i) (svctbl st)\<rparr>)))"

definition addlocalservice :: "mwenv \<Rightarrow> mwdstate \<Rightarrow> int \<Rightarrow> string \<Rightarrow> int \<Rightarrow> (int \<times> mwdstate) option" where
  "addlocalservice env st srvid name ty =
     (if SRVID srvid = UNASSIGNED then Some (UNASSIGNED, st)
      else case mw_getserverentry st srvid of
             None \<Rightarrow> Some (UNASSIGNED, st)
           | Some si \<Rightarrow>
               do {
                 srvent \<leftarrow> tbl_at (srvtbl st) si;
                 if srv_status srvent = UNASSIGNED then Some (- errno_num EINVAL, st)
                 else do {
                   (svcidx, st) \<leftarrow> addservice st name ty;
                   if svcidx < 0 then Some (svcidx, st)
                   else do {
                     let st = st\<lparr>svctbl := tbl_upd (\<lambda>e. e\<lparr>svc_server := srvid, svc_location := GWLOCAL\<rparr>)
                                             svcidx (svctbl st)\<rparr>;
                     (rc, st) \<leftarrow> internal_event_enqueue env st (Some NEWSERVICEEVENT)
                       (Some (mwprovideevent name srvid (IDX2SVCID svcidx))) sizeof_mwprovideevent None None;
                     Some (IDX2SVCID svcidx, st)
                   }
                 }
               })"

definition addremoteservice :: "mwenv \<Rightarrow> mwdstate \<Rightarrow> int \<Rightarrow> string \<Rightarrow> int \<Rightarrow> int \<Rightarrow> (int \<times> mwdstate) option" where
  "addremoteservice env st gwid name cost ty =
     (if GWID gwid = UNASSIGNED then Some (UNASSIGNED, st)
      else do {
        gi \<leftarrow> mw_getgatewayentry st gwid;
        gwent \<leftarrow> tbl_at (gwtbl st) gi;
        if gw_status gwent = UNASSIGNED then Some (- errno_num EINVAL, st)
        else do {
          (svcidx, st) \<leftarrow> addservice st name ty;
          if svcidx < 0 then Some (svcidx, st)
          else do {
            let st = st\<lparr>svctbl := tbl_upd (\<lambda>e. e\<lparr>svc_gateway := gwid, svc_location := gw_location gwent,
                                                svc_cost := cost\<rparr>) svcidx (svctbl st)\<rparr>;
            (rc, st) \<leftarrow> internal_event_enqueue env st (Some NEWSERVICEEVENT)
              (Some (mwprovideevent name gwid (IDX2SVCID svcidx))) sizeof_mwprovideevent None None;
            Some (IDX2SVCID svcidx, st)
          }
        }
      })"

definition delservice :: "mwenv \<Rightarrow> mwdstate \<Rightarrow> int \<Rightarrow> (int \<times> mwdstate) option" where
  "delservice env st svcid =
     (if SVCID svcid = UNASSIGNED then Some (UNASSIGNED, st)
      else do {
        let idx = SVCID2IDX svcid;
        e \<leftarrow> tbl_at (svctbl st) idx;
        let provider = (if svc_server e \<noteq> UNASSIGNED then svc_server e
                        else if svc_gateway e \<noteq> 0 then svc_gateway e
                        else UNASSIGNED);
        (rc, st) \<leftarrow> internal_event_enqueue env st (Some DELSERVICEEVENT)
          (Some (mwprovideevent (servicename e) provider idx)) sizeof_mwprovideevent None None;
        Some (0, st\<lparr>svctbl := tbl_upd (\<lambda>e. e\<lparr>svc_type := UNASSIGNED, svc_server := UNASSIGNED,
                svc_gateway := UNASSIGNED, servicename := [], mwname := []\<rparr>) idx (svctbl st)\<rparr>)
      })"

text \<open>The loop over the table: \<open>n\<close> entries to go, from index \<open>idx\<close>.\<close>

primrec delall_loop :: "mwenv \<Rightarrow> int \<Rightarrow> nat \<Rightarrow> nat \<Rightarrow> mwdstate \<Rightarrow> (int \<times> mwdstate) option" where
  "delall_loop env srvid 0 idx st = Some (0, st)"
| "delall_loop env srvid (Suc n) idx st =
     do {
       e \<leftarrow> tbl_at (svctbl st) (int idx);
       if svc_server e = srvid
       then do {
         (rc, st) \<leftarrow> delservice env st (IDX2SVCID (int idx));
         (k, st) \<leftarrow> delall_loop env srvid n (idx + 1) st;
         Some (k + 1, st)
       }
       else delall_loop env srvid n (idx + 1) st
     }"

definition delallservices :: "mwenv \<Rightarrow> mwdstate \<Rightarrow> int \<Rightarrow> (int \<times> mwdstate) option" where
  "delallservices env st srvid =
     (if ipcmain st = None then Some (-1, st)
      else delall_loop env srvid (nat (tbl_length (svctbl st))) 0 st)"

section \<open>Stopping and cleaning up\<close>

definition get_pids :: "mwdstate \<Rightarrow> errno + int list" where
  "get_pids st =
     (case ipcmain st of
        None \<Rightarrow> Inl ENOTCONN
      | Some im \<Rightarrow>
          Inr ((case srvtbl st of
                  None \<Rightarrow> []
                | Some t \<Rightarrow> filter (\<lambda>p. p > 1 \<and> p \<noteq> mwdpid im) (map srv_pid t))
               @ (case gwtbl st of
                    None \<Rightarrow> []
                  | Some t \<Rightarrow> filter (\<lambda>p. p > 1) (map gw_pid t))))"

primrec stop_loop :: "int \<Rightarrow> bool \<Rightarrow> int \<Rightarrow> nat \<Rightarrow> nat \<Rightarrow> mwdstate \<Rightarrow> int \<times> mwdstate" where
  "stop_loop mq allsrv sid 0 i st = (0, st)"
| "stop_loop mq allsrv sid (Suc n) i st =
     (let e = the (srvtbl st) ! i
      in if srv_mqid e \<le> 0 then stop_loop mq allsrv sid n (i + 1) st
         else if srv_mqid e = mq then stop_loop mq allsrv sid n (i + 1) st
         else if allsrv \<or> sid = int i
         then (case stop_loop mq allsrv sid n (i + 1)
                      (msgctl_rmid (st\<lparr>srvtbl := tbl_upd (\<lambda>e. e\<lparr>mwdblock := True\<rparr>) (int i) (srvtbl st)\<rparr>)
                         (srv_mqid e)) of
                 (k, st) \<Rightarrow> (k + 1, st))
         else stop_loop mq allsrv sid n (i + 1) st)"

definition stop_server :: "mwdstate \<Rightarrow> int \<Rightarrow> int \<times> mwdstate" where
  "stop_server st sid =
     (case ipcmain st of
        None \<Rightarrow> (- errno_num ENOTCONN, st)
      | Some im \<Rightarrow>
          stop_loop (mwd_mqid im) (sid = -1) (sid AND MWINDEXMASK) (nat (tbl_length (srvtbl st))) 0 st)"

definition hard_disconnect_ipc :: "mwdstate \<Rightarrow> mwdstate" where
  "hard_disconnect_ipc st =
     (let st = (case clttbl st of
                  None \<Rightarrow> st
                | Some t \<Rightarrow> foldl (\<lambda>st e. if clt_mqid e > 1 then msgctl_rmid st (clt_mqid e) else st) st t)
      in case gwtbl st of
           None \<Rightarrow> st
         | Some t \<Rightarrow> foldl (\<lambda>st e. if gw_mqid e > 1 then msgctl_rmid st (gw_mqid e) else st) st t)"

text \<open>The four passes of the watchdog.\<close>

primrec check_clients :: "mwenv \<Rightarrow> nat \<Rightarrow> nat \<Rightarrow> mwdstate \<Rightarrow> mwdstate option" where
  "check_clients env 0 i st = Some st"
| "check_clients env (Suc n) i st =
     do {
       e \<leftarrow> tbl_at (clttbl st) (int i);
       if clt_pid e > 1 \<and> procowner env (clt_pid e) = 0
       then do {
         (rc, st) \<leftarrow> delclient (msgctl_rmid st (clt_mqid e)) (MWCLIENTMASK OR int i);
         check_clients env n (i + 1) st
       }
       else check_clients env n (i + 1) st
     }"

primrec check_servers :: "mwenv \<Rightarrow> nat \<Rightarrow> nat \<Rightarrow> mwdstate \<Rightarrow> mwdstate option" where
  "check_servers env 0 i st = Some st"
| "check_servers env (Suc n) i st =
     do {
       e \<leftarrow> tbl_at (srvtbl st) (int i);
       if srv_pid e > 1 \<and> kill_err env (srv_pid e) \<noteq> None
       then do {
         (rc, st) \<leftarrow> delserver (msgctl_rmid st (srv_mqid e)) (MWSERVERMASK OR int i);
         (rc, st) \<leftarrow> delallservices env st (IDX2SRVID (int i));
         check_servers env n (i + 1) st
       }
       else check_servers env n (i + 1) st
     }"

primrec del_gw_clients :: "int \<Rightarrow> nat \<Rightarrow> nat \<Rightarrow> mwdstate \<Rightarrow> mwdstate option" where
  "del_gw_clients gwid 0 j st = Some st"
| "del_gw_clients gwid (Suc n) j st =
     do {
       e \<leftarrow> tbl_at (clttbl st) (int j);
       if clt_gwid e = gwid
       then do {
         (rc, st) \<leftarrow> delclient st (IDX2CLTID (int j));
         del_gw_clients gwid n (j + 1) st
       }
       else del_gw_clients gwid n (j + 1) st
     }"

primrec check_gateways :: "mwenv \<Rightarrow> nat \<Rightarrow> nat \<Rightarrow> mwdstate \<Rightarrow> mwdstate option" where
  "check_gateways env 0 i st = Some st"
| "check_gateways env (Suc n) i st =
     do {
       e \<leftarrow> tbl_at (gwtbl st) (int i);
       if gw_pid e > 1 \<and> kill_err env (gw_pid e) \<noteq> None
       then do {
         st \<leftarrow> del_gw_clients (IDX2GWID (int i)) (nat (tbl_length (clttbl st))) 0
                 (msgctl_rmid st (gw_mqid e));
         check_gateways env n (i + 1)
           (st\<lparr>gwtbl := tbl_upd (\<lambda>e. e\<lparr>gw_pid := UNASSIGNED, srbrole := UNASSIGNED, gw_location := UNASSIGNED,
                                       gw_mqid := UNASSIGNED, gw_status := UNASSIGNED\<rparr>) (int i) (gwtbl st)\<rparr>)
       }
       else check_gateways env n (i + 1) st
     }"

text \<open>The last pass compares the type of a service, and not its location, with \<open>GWLOCAL\<close>.\<close>

primrec check_services :: "mwenv \<Rightarrow> nat \<Rightarrow> nat \<Rightarrow> mwdstate \<Rightarrow> mwdstate option" where
  "check_services env 0 i st = Some st"
| "check_services env (Suc n) i st =
     do {
       e \<leftarrow> tbl_at (svctbl st) (int i);
       if svc_type e = UNASSIGNED then check_services env n (i + 1) st
       else if svc_type e = GWLOCAL \<and> svc_server e > 0
       then do {
         se \<leftarrow> tbl_at (srvtbl st) (SRVID2IDX (svc_server e));
         if srv_pid se = UNASSIGNED
         then do {
           (rc, st) \<leftarrow> delservice env st (IDX2SVCID (int i));
           check_services env n (i + 1) st
         }
         else check_services env n (i + 1) st
       }
       else if svc_gateway e > 0
       then do {
         ge \<leftarrow> tbl_at (gwtbl st) (GWID2IDX (svc_gateway e));
         if gw_pid ge = UNASSIGNED
         then do {
           (rc, st) \<leftarrow> delservice env st (IDX2SVCID (int i));
           check_services env n (i + 1) st
         }
         else check_services env n (i + 1) st
       }
       else check_services env n (i + 1) st
     }"

definition check_tables :: "mwenv \<Rightarrow> mwdstate \<Rightarrow> (int \<times> mwdstate) option" where
  "check_tables env st =
     do {
       st \<leftarrow> check_clients env (nat (tbl_length (clttbl st))) 0 st;
       st \<leftarrow> check_servers env (nat (tbl_length (srvtbl st))) 0 st;
       st \<leftarrow> check_gateways env (nat (tbl_length (gwtbl st))) 0 st;
       st \<leftarrow> check_services env (nat (tbl_length (svctbl st))) 0 st;
       Some (0, st)
     }"

end
