(* ===== verification/Requests.thy ===== *)
theory Requests
  imports Tables
begin

unbundle bit_operations_syntax

text \<open>
  \<^verbatim>\<open>src/mwd/requestparse.c\<close>: what the daemon does with a request. Attaching and detaching
  of members, providing and unproviding of services, subscriptions and events, large
  buffers, the daemon's own service, administration, and \<open>parse_request\<close>, which receives a
  message and dispatches it. The message is changed in place and sent back as the reply.
\<close>

section \<open>Attaching and detaching\<close>

text \<open>A reply is sent without waiting, and an error in sending it is only logged.\<close>

definition send_reply :: "mwenv \<Rightarrow> mwdstate \<Rightarrow> ipcmesg \<Rightarrow> int \<Rightarrow> int \<times> mwdstate" where
  "send_reply env st m mq = (0, snd (msgsnd env st mq m))"

definition attach_server :: "mwenv \<Rightarrow> mwdstate \<Rightarrow> attach \<Rightarrow> attach \<times> mwdstate" where
  "attach_server env st areq =
     (case addserver env st (at_srvname areq) (at_ipcqid areq) (at_pid areq) of
        (sid, st) \<Rightarrow>
          if sid < 0 then (areq\<lparr>at_returncode := sid, at_srvid := UNASSIGNED\<rparr>, st)
          else (areq\<lparr>at_srvid := sid\<rparr>, st))"

definition attach_client :: "mwenv \<Rightarrow> mwdstate \<Rightarrow> attach \<Rightarrow> attach \<times> mwdstate" where
  "attach_client env st areq =
     (case (if at_gwid areq \<noteq> -1 then (MWNETCLIENT, at_gwid areq)
            else if at_srvid areq > 0 then (MWIPCSERVER, at_srvid areq)
            else (MWIPCCLIENT, at_cltid areq)) of
        (ty, i) \<Rightarrow>
          (case addclient env st ty (at_cltname areq) (at_ipcqid areq) (at_pid areq) i of
             (cid, st) \<Rightarrow>
               if cid < 0 then (areq\<lparr>at_returncode := cid, at_cltid := UNASSIGNED\<rparr>, st)
               else (areq\<lparr>at_cltid := cid\<rparr>, st)))"

definition do_attach :: "mwenv \<Rightarrow> mwdstate \<Rightarrow> attach \<Rightarrow> (int \<times> mwdstate) option" where
  "do_attach env st areq =
     do {
       im \<leftarrow> ipcmain st;
       let areq = areq\<lparr>at_mtype := ATTACHRPL, at_srvid := UNASSIGNED, at_cltid := UNASSIGNED\<rparr>;
       let reply = (\<lambda>areq st. Some (send_reply env st (Attach areq) (at_ipcqid areq)));
       if im_status im = MWDEAD
       then Some (- errno_num ESHUTDOWN,
                  snd (send_reply env st (Attach (areq\<lparr>at_returncode := - errno_num ESHUTDOWN\<rparr>)) (at_ipcqid areq)))
       else if im_status im = MWSHUTDOWN \<and> at_server areq
       then reply (areq\<lparr>at_returncode := - errno_num ESHUTDOWN\<rparr>) st
       else let areq = areq\<lparr>at_returncode := 0\<rparr>
            in if at_server areq \<and> at_gwid areq \<noteq> -1
               then reply (areq\<lparr>at_returncode := - errno_num EUCLEAN\<rparr>) st
               else case (if at_server areq then attach_server env st areq else (areq, st)) of
                      (areq, st) \<Rightarrow>
                        if at_server areq \<and> at_srvid areq = UNASSIGNED then reply areq st
                        else case (if at_client areq then attach_client env st areq else (areq, st)) of
                               (areq, st) \<Rightarrow> reply areq st
     }"

definition detach_server :: "mwenv \<Rightarrow> mwdstate \<Rightarrow> int \<Rightarrow> mwdstate option" where
  "detach_server env st srvid =
     do {
       (rc, st) \<leftarrow> delserver st srvid;
       (n, st) \<leftarrow> delallservices env st srvid;
       Some st
     }"

definition do_detach :: "mwenv \<Rightarrow> mwdstate \<Rightarrow> attach \<Rightarrow> (int \<times> mwdstate) option" where
  "do_detach env st dm =
     (if at_mtype dm \<noteq> DETACHREQ then Some (- errno_num EUCLEAN, st)
      else do {
        let dm = dm\<lparr>at_mtype := DETACHRPL\<rparr>;
        st \<leftarrow> (if at_server dm then detach_server env st (at_srvid dm) else Some st);
        st \<leftarrow> (if at_client dm then map_option snd (delclient st (at_cltid dm)) else Some st);
        let dm = dm\<lparr>at_returncode := 0\<rparr>;
        if (at_flags dm AND MWFORCE) \<noteq> 0 then Some (0, st)
        else Some (send_reply env st (Attach dm) (at_ipcqid dm))
      })"

section \<open>Services\<close>

definition provide_type :: "int \<Rightarrow> int" where
  "provide_type flags = (if (flags AND MWCONV) = MWCONV then MWCONVSVC else MWCALLSVC)"

text \<open>The end of \<open>do_provide\<close>, once the service has been added or refused.\<close>

definition provide_reply :: "mwenv \<Rightarrow> mwdstate \<Rightarrow> provide \<Rightarrow> int \<Rightarrow> int \<Rightarrow> int \<times> mwdstate" where
  "provide_reply env st pmesg svcid rmqid =
     send_reply env st
       (Provide (if svcid < 0 then pmesg\<lparr>pr_returncode := svcid, pr_svcid := UNASSIGNED\<rparr>
                 else pmesg\<lparr>pr_svcid := svcid\<rparr>)) rmqid"

text \<open>
  During a shutdown the reply goes to the queue of an entry that has not been looked up,
  and without an id the queue is an uninitialised variable.
\<close>

definition do_provide :: "mwenv \<Rightarrow> mwdstate \<Rightarrow> provide \<Rightarrow> (int \<times> mwdstate) option" where
  "do_provide env st pmesg =
     do {
       im \<leftarrow> ipcmain st;
       let pmesg = pmesg\<lparr>pr_mtype := PROVIDERPL\<rparr>;
       if im_status im = MWSHUTDOWN then None
       else let pmesg = pmesg\<lparr>pr_returncode := 0\<rparr>;
                ty = provide_type (pr_flags pmesg)
            in if pr_srvid pmesg \<noteq> -1
               then case mw_get_server_byid st (pr_srvid pmesg) of
                      None \<Rightarrow> Some (- errno_num ENOENT, st)
                    | Some i \<Rightarrow>
                        do {
                          let rmqid = srv_mqid (the (srvtbl st) ! nat i);
                          (svcid, st) \<leftarrow> addlocalservice env st (pr_srvid pmesg) (pr_svcname pmesg) ty;
                          Some (provide_reply env st pmesg svcid rmqid)
                        }
               else if pr_gwid pmesg \<noteq> -1
               then case mw_get_gateway_byid st (pr_gwid pmesg) of
                      None \<Rightarrow> Some (- errno_num ENOENT, st)
                    | Some i \<Rightarrow>
                        do {
                          let rmqid = gw_mqid (the (gwtbl st) ! nat i);
                          (svcid, st) \<leftarrow> addremoteservice env st (pr_gwid pmesg) (pr_svcname pmesg) (pr_cost pmesg) ty;
                          Some (provide_reply env st pmesg svcid rmqid)
                        }
               else None
     }"

definition do_unprovide :: "mwenv \<Rightarrow> mwdstate \<Rightarrow> provide \<Rightarrow> (int \<times> mwdstate) option" where
  "do_unprovide env st pmesg =
     (case mw_getserviceentry st (SVCID (pr_svcid pmesg)) of
        None \<Rightarrow> Some (- errno_num ENOENT, st)
      | Some i \<Rightarrow>
          do {
            svcent \<leftarrow> tbl_at (svctbl st) i;
            mq \<leftarrow> (if svc_server svcent \<noteq> UNASSIGNED
                    then case mw_getserverentry st (svc_server svcent) of
                           None \<Rightarrow> Some (-1)
                         | Some j \<Rightarrow> map_option srv_mqid (tbl_at (srvtbl st) j)
                    else case mw_getgatewayentry st (svc_gateway svcent) of
                           None \<Rightarrow> Some (-1)
                         | Some j \<Rightarrow> map_option gw_mqid (tbl_at (gwtbl st) j));
            (rc, st) \<leftarrow> delservice env st (pr_svcid pmesg);
            Some (send_reply env st (Provide (pmesg\<lparr>pr_returncode := rc, pr_mtype := UNPROVIDERPL\<rparr>)) mq)
          })"

section \<open>Large buffers\<close>

text \<open>
  The next buffer id without a file: \<open>n\<close> counts the tries, 32 bit integers that become
  negative after the largest.
\<close>

function alloc_id_loop :: "(int \<Rightarrow> bool) \<Rightarrow> int \<Rightarrow> int \<Rightarrow> errno + int" where
  "alloc_id_loop exists i n =
     (let i = (if i + 1 \<ge> 2 ^ 31 then LOW_LARGE_BUFFER_NUMBER + 1 else i + 1)
      in if n + 1 \<ge> 2 ^ 31 then Inl ENOMEM
         else if exists i then alloc_id_loop exists i (n + 1)
         else Inr i)"
  by pat_completeness auto
termination by (relation "measure (\<lambda>(e, i, n). nat (2 ^ 31 - n))") auto

declare alloc_id_loop.simps [simp del]

definition getnextallocid :: "mwdstate \<Rightarrow> int \<times> mwdstate" where
  "getnextallocid st =
     (case alloc_id_loop (\<lambda>i. bufferfiles st i \<noteq> None) (lastallocedid st) 0 of
        Inl e \<Rightarrow> (- errno_num e, st)
      | Inr i \<Rightarrow> (i, st\<lparr>lastallocedid := i\<rparr>))"

definition do_alloc :: "mwenv \<Rightarrow> mwdstate \<Rightarrow> alloc_req \<Rightarrow> (int \<times> mwdstate) option" where
  "do_alloc env st m =
     (case getnextallocid st of
        (i, st) \<Rightarrow>
          if i < LOW_LARGE_BUFFER_NUMBER
          then Some (- errno_num EINVAL,
                     snd (mw_ipc_putmessage env st (al_mwid m) (Alloc (m\<lparr>al_mtype := ALLOCRPL, al_bufferid := -1\<rparr>))))
          else if al_size m > 2 ^ 63 - 1 then Some (- errno_num ENOMEM, st)
          else let s = al_size m + sizeof_chunkhead;
                   ps = s sdiv pagesize env + (if s smod pagesize env \<noteq> 0 then 1 else 0)
               in if bufferfiles st i \<noteq> None \<or> \<not> open_ok env i then Some (- errno_num ENOMEM, st)
                  else if ps * pagesize env - 1 < 0 then None
                  else Some (0, snd (mw_ipc_putmessage env
                         (st\<lparr>bufferfiles := (bufferfiles st)(i \<mapsto> (\<lparr>ownerid = al_mwid m, csize = al_size m\<rparr>, ps))\<rparr>)
                         (al_mwid m) (Alloc (m\<lparr>al_mtype := ALLOCRPL, al_bufferid := i, al_pages := ps\<rparr>)))))"

definition do_free :: "mwdstate \<Rightarrow> alloc_req \<Rightarrow> int \<times> mwdstate" where
  "do_free st m = (0, st\<lparr>bufferfiles := (bufferfiles st)(al_bufferid m := None)\<rparr>)"

section \<open>Events\<close>

definition do_post :: "mwdstate \<Rightarrow> event \<Rightarrow> int \<times> mwdstate" where
  "do_post st m = event_enqueue st m"

definition do_eventack :: "mwenv \<Rightarrow> mwdstate \<Rightarrow> event \<Rightarrow> (int \<times> mwdstate) option" where
  "do_eventack env st m = event_ack env st m"

definition do_subscribe :: "mwenv \<Rightarrow> mwdstate \<Rightarrow> event \<Rightarrow> int \<times> mwdstate" where
  "do_subscribe env st m =
     (case event_subscribe env st (Some (ev_event m)) (senderid m) (ev_subscriptionid m) (ev_flags m) of
        (rc, st) \<Rightarrow>
          (0, snd (mw_ipc_putmessage env st (senderid m)
                     (Event (m\<lparr>ev_mtype := EVENTSUBSCRIBERPL, ev_returncode := rc\<rparr>)))))"

definition do_unsubscribe :: "mwenv \<Rightarrow> mwdstate \<Rightarrow> event \<Rightarrow> int \<times> mwdstate" where
  "do_unsubscribe env st m =
     (case event_unsubscribe st (ev_subscriptionid m) (senderid m) of
        (rc, st) \<Rightarrow>
          (0, snd (mw_ipc_putmessage env st (senderid m)
                     (Event (m\<lparr>ev_mtype := EVENTUNSUBSCRIBERPL, ev_returncode := rc\<rparr>)))))"

section \<open>Administration and services of the daemon\<close>

definition do_admin :: "mwenv \<Rightarrow> mwdstate \<Rightarrow> administrative \<Rightarrow> (int \<times> mwdstate) option" where
  "do_admin env st m =
     (if ad_opcode m = ADMSHUTDOWN
      then map_option (\<lambda>im. (0, st\<lparr>ipcmain := Some (im\<lparr>shutdowntime := now env + ad_delay m\<rparr>),
                                   shutdowntriggers := shutdowntriggers st @ [ad_delay m]\<rparr>)) (ipcmain st)
      else Some (- errno_num EBADRQC, st))"

text \<open>
  A call of a service of the daemon. The gateway id, the user and the client in what the
  routine gets are uninitialised, here 0 and empty; whether the data was there is not looked at.
\<close>

definition do_call :: "mwdstate procenv \<Rightarrow> mwdstate \<Rightarrow> call \<Rightarrow> (int \<times> mwdstate) option" where
  "do_call env st c =
     (let st = st\<lparr>srv_buffer := Some (Call c)\<rparr>
      in case mw_set_deadline env c of
           (remain, dl, udl) \<Rightarrow>
             if remain < 0
             then let st = snd (mw_ipc_putmessage (os env) st (ca_cltid c) (Call c))
                  in Some (- errno_num ETIME, set_errno (errno_num ETIME) (mw_set_my_status st None))
             else do {
               (rc, data, len, h) \<leftarrow> mw_getbuffer_from_call (shm_env (os env)) (shm st) c;
               let st = mw_set_my_status (st\<lparr>shm := h\<rparr>) (Some (ca_service c));
               let st = (if (ca_flags c AND MWNOREPLY) = 0 then st\<lparr>requestpending := True\<rparr> else st);
               mwCallCServiceFunction env st
                 \<lparr>si_cltid = ca_cltid c, si_gwid = 0, si_srvid = ca_srvid c, si_svcid = ca_svcid c, si_data = data,
                  si_datalen = len, si_flags = ca_flags c, si_service = strncpy (ca_service c) MWMAXSVCNAME,
                  si_deadline = dl, si_udeadline = udl, si_authentication = 0, si_username = [], si_clientname = []\<rparr>
             })"

section \<open>The next request\<close>

text \<open>
  The type of a message says what it is; one that is too short for its type is refused, one
  of the wrong structure would be misread. No message is longer than the buffer. When its
  queue is gone, the daemon makes a new one, which is the argument \<open>renew\<close>.
\<close>

definition dispatch :: "mwdstate procenv \<Rightarrow> mwdstate \<Rightarrow> ipcmesg \<Rightarrow> (int \<times> mwdstate) option" where
  "dispatch env st m =
     (let ty = mtype_of m;
          misfit = (\<lambda>n. if mesg_size m < n then Some (- errno_num EMSGSIZE, st) else None)
      in if ty = ATTACHREQ then (case m of Attach a \<Rightarrow> do_attach (os env) st a | _ \<Rightarrow> misfit 184)
         else if ty = DETACHREQ then (case m of Attach a \<Rightarrow> do_detach (os env) st a | _ \<Rightarrow> misfit 184)
         else if ty = PROVIDEREQ then (case m of Provide p \<Rightarrow> do_provide (os env) st p | _ \<Rightarrow> misfit 72)
         else if ty = UNPROVIDEREQ then (case m of Provide p \<Rightarrow> do_unprovide (os env) st p | _ \<Rightarrow> misfit 72)
         else if ty = EVENTSUBSCRIBEREQ then (case m of Event e \<Rightarrow> Some (do_subscribe (os env) st e) | _ \<Rightarrow> misfit 256)
         else if ty = EVENTUNSUBSCRIBEREQ then (case m of Event e \<Rightarrow> Some (do_unsubscribe (os env) st e) | _ \<Rightarrow> misfit 256)
         else if ty = EVENT then (case m of Event e \<Rightarrow> Some (do_post st e) | _ \<Rightarrow> misfit 256)
         else if ty = EVENTACK then (case m of Event e \<Rightarrow> do_eventack (os env) st e | _ \<Rightarrow> misfit 256)
         else if ty = ADMREQ then (case m of Administrative a \<Rightarrow> do_admin (os env) st a | _ \<Rightarrow> misfit 24)
         else if ty = SVCCALL \<or> ty = SVCFORWARD then (case m of Call c \<Rightarrow> do_call env st c | _ \<Rightarrow> misfit 296)
         else if ty = 0x1200 then (case m of Alloc a \<Rightarrow> do_alloc (os env) st a | _ \<Rightarrow> misfit 40)
         else if ty = 0x1220 then (case m of Alloc a \<Rightarrow> Some (do_free st a) | _ \<Rightarrow> misfit 40)
         else Some (- errno_num EBADMSG, st))"

definition parse_request ::
  "mwdstate procenv \<Rightarrow> (mwdstate \<Rightarrow> mwdstate) \<Rightarrow> mwdstate \<Rightarrow> bool \<Rightarrow> (int \<times> mwdstate) option" where
  "parse_request env renew st nonblock =
     (case msgrcv (wait env) st (case ipcmain st of None \<Rightarrow> - errno_num EUCLEAN | Some im \<Rightarrow> mwd_mqid im)
             (int MWMSGMAX) 0 nonblock of
        (Inr m, st) \<Rightarrow> dispatch env st m
      | (Inl e, st) \<Rightarrow>
          if e = EINTR \<or> e = ENOMSG
          then map_option (\<lambda>im. (if im_status im = MWDEAD then - errno_num ESHUTDOWN else - errno_num e, st)) (ipcmain st)
          else Some (- errno_num e, if e = EINVAL then renew st else st))"

end
