(* ===== verification/ShmPool.thy ===== *)
theory ShmPool
  imports ShmHeap
begin

text \<open>
  The invariant of the shared memory heap and what its operations do to it: the free
  chunks of each bin form a doubly linked ring in shared memory, refined here to a list,
  and every chunk is either in the ring of its bin or owned by a process.
\<close>

section \<open>Rings\<close>

fun chain :: "('a \<Rightarrow> 'a) \<Rightarrow> ('a \<Rightarrow> 'a) \<Rightarrow> 'a list \<Rightarrow> bool" where
  "chain nx pv (a # b # xs) \<longleftrightarrow> nx a = b \<and> pv b = a \<and> chain nx pv (b # xs)"
| "chain nx pv _ \<longleftrightarrow> True"

definition ring :: "('a \<Rightarrow> 'a) \<Rightarrow> ('a \<Rightarrow> 'a) \<Rightarrow> 'a list \<Rightarrow> bool" where
  "ring nx pv xs \<longleftrightarrow> xs = [] \<or> chain nx pv (xs @ [hd xs])"

lemma chain_append: "chain nx pv (xs @ a # ys) \<longleftrightarrow> chain nx pv (xs @ [a]) \<and> chain nx pv (a # ys)"
  by (induction nx pv xs rule: chain.induct) (cases ys; auto)+

lemma chain_cong:
  assumes "\<And>x. x \<in> set (butlast xs) \<Longrightarrow> nx x = nx' x" and "\<And>x. x \<in> set (tl xs) \<Longrightarrow> pv x = pv' x"
  shows "chain nx pv xs = chain nx' pv' xs"
  using assms by (induction nx pv xs rule: chain.induct) auto

lemma ring_cong:
  assumes "\<And>x. x \<in> set xs \<Longrightarrow> nx x = nx' x" and "\<And>x. x \<in> set xs \<Longrightarrow> pv x = pv' x"
  shows "ring nx pv xs = ring nx' pv' xs"
  unfolding ring_def by (intro disj_cong refl chain_cong) (use assms in \<open>cases xs; auto\<close>)+

lemma chain_snoc:
  "chain nx pv (ys @ [r]) \<longleftrightarrow> ys = [] \<or> chain nx pv ys \<and> nx (last ys) = r \<and> pv r = last ys"
  by (cases ys rule: rev_cases) (auto simp: chain_append [of nx pv _ _ "[r]"])

lemma ring_snoc: "ring nx pv xs \<longleftrightarrow> xs = [] \<or> chain nx pv xs \<and> nx (last xs) = hd xs \<and> pv (hd xs) = last xs"
  by (auto simp: ring_def chain_snoc)

lemma ring_two: "ring nx pv (r # y # zs) \<Longrightarrow> nx r = y" "ring nx pv (r # y # zs) \<Longrightarrow> pv r = last (y # zs)"
  by (simp_all add: ring_snoc)

lemma last_notin_butlast: "distinct xs \<Longrightarrow> xs \<noteq> [] \<Longrightarrow> last xs \<notin> set (butlast xs)"
  by (cases xs rule: rev_cases) auto

lemma ring_pop:
  assumes "ring nx pv (r # y # zs)" and "distinct (r # y # zs)"
    and "\<And>x. x \<in> set (y # zs) \<Longrightarrow> nx' x = (if x = last (y # zs) then y else nx x)"
    and "\<And>x. x \<in> set (y # zs) \<Longrightarrow> pv' x = (if x = y then last (y # zs) else pv x)"
  shows "ring nx' pv' (y # zs)"
proof -
  have l: "last (y # zs) \<notin> set (butlast (y # zs))"
    by (rule last_notin_butlast) (use assms(2) in simp_all)
  have "chain nx' pv' (y # zs) = chain nx pv (y # zs)"
  proof (rule chain_cong)
    show "nx' x = nx x" if "x \<in> set (butlast (y # zs))" for x
      using that l assms(3) [of x] in_set_butlastD [OF that] by metis
    show "pv' x = pv x" if "x \<in> set (tl (y # zs))" for x
      using that assms(2) assms(4) [of x] by auto
  qed
  then show ?thesis
    using assms(1) assms(3) [of "last (y # zs)"] assms(4) [of y] by (simp add: ring_snoc)
qed

lemma ring_push:
  assumes "ring nx pv (r # zs)" and "distinct (r # x # zs)"
    and "\<And>a. a \<in> set (r # x # zs) \<Longrightarrow> nx' a = (if a = r then x else if a = x then nx r else nx a)"
    and "\<And>a. a \<in> set (r # x # zs) \<Longrightarrow> pv' a = (if a = nx r then x else if a = x then r else pv a)"
  shows "ring nx' pv' (r # x # zs)"
proof (cases zs)
  case Nil
  then show ?thesis using assms by (auto simp: ring_def)
next
  case (Cons z zs')
  have c: "chain nx pv (z # zs' @ [r])" "nx r = z" using assms(1) Cons by (simp_all add: ring_def)
  have "chain nx' pv' (z # zs' @ [r]) = chain nx pv (z # zs' @ [r])"
    using assms(2,3,4) Cons c(2) by (intro chain_cong) (auto simp: butlast_append)
  with c assms(2,3,4) Cons show ?thesis by (auto simp: ring_def)
qed


section \<open>The chunks of a heap\<close>

definition stride :: "segmenthdr \<Rightarrow> nat \<Rightarrow> int" where
  "stride h b = 2 ^ b * basechunksize h + 40"

definition chunks :: "segmenthdr \<Rightarrow> nat \<Rightarrow> int set" where
  "chunks h b = (if b < 5
     then (\<lambda>j. mw_gettopofbin h b + int j * stride h b) ` {0..<chunks_in_bin (chunkspersize h) b} else {})"

definition header_ok :: "segmenthdr \<Rightarrow> bool" where
  "header_ok h \<longleftrightarrow> 0 < basechunksize h \<and> 0 < chunkspersize h \<and> 16 * basechunksize h < 2 ^ 31 \<and>
     numbins h = BINS \<and> length (chunk h) = BINS \<and> length (freecount h) = BINS \<and>
     top h = sizeof_segmenthdr \<and> bottom h = segmentsize h - sizeof_segmenthdr \<and>
     mw_gettopofbin h 5 \<le> segmentsize h - 88"

lemma chunksE:
  assumes "c \<in> chunks h b"
  obtains j where "b < 5" "c = mw_gettopofbin h b + int j * stride h b" "j < chunks_in_bin (chunkspersize h) b"
proof -
  have b: "b < 5" using assms by (auto simp: chunks_def split: if_splits)
  with assms have "c \<in> (\<lambda>j. mw_gettopofbin h b + int j * stride h b) ` {0..<chunks_in_bin (chunkspersize h) b}"
    by (simp add: chunks_def)
  then show ?thesis by (rule imageE) (rule that [OF b], simp_all)
qed

lemma stride_pos: "header_ok h \<Longrightarrow> 40 < stride h b"
  by (simp add: header_ok_def stride_def)

lemma gettopofbin_Suc:
  "header_ok h \<Longrightarrow> mw_gettopofbin h (Suc b) = mw_gettopofbin h b + int (chunks_in_bin (chunkspersize h) b) * stride h b"
  by (simp add: stride_def chunks_in_bin_def Let_def header_ok_def algebra_simps)

lemma gettopofbin_mono: "header_ok h \<Longrightarrow> a \<le> b \<Longrightarrow> mw_gettopofbin h a \<le> mw_gettopofbin h b"
proof (induction b)
  case (Suc b)
  have "0 \<le> int (chunks_in_bin (chunkspersize h) b) * stride h b"
    using stride_pos [OF Suc.prems(1), of b] by simp
  with Suc gettopofbin_Suc [OF Suc.prems(1), of b] show ?case by (cases "a = Suc b") auto
qed simp

lemma chunk_bounds:
  assumes "header_ok h" and "c \<in> chunks h b"
  shows "b < 5" and "mw_gettopofbin h b \<le> c" and "c + stride h b \<le> mw_gettopofbin h (Suc b)"
    and "112 \<le> c" and "c + stride h b \<le> segmentsize h - 88"
proof -
  obtain j where b: "b < 5" and j: "c = mw_gettopofbin h b + int j * stride h b" "j < chunks_in_bin (chunkspersize h) b"
    using assms(2) by (rule chunksE)
  show "b < 5" by (rule b)
  have "0 \<le> int j * stride h b" using stride_pos [OF assms(1), of b] by simp
  with j show top: "mw_gettopofbin h b \<le> c" by simp
  have "(int j + 1) * stride h b \<le> int (chunks_in_bin (chunkspersize h) b) * stride h b"
    using j(2) stride_pos [OF assms(1), of b] by (intro mult_right_mono) auto
  with j show end1: "c + stride h b \<le> mw_gettopofbin h (Suc b)"
    unfolding gettopofbin_Suc [OF assms(1)] by (simp add: algebra_simps)
  show "112 \<le> c" using gettopofbin_mono [OF assms(1), of 0 b] top by simp
  have "mw_gettopofbin h (Suc b) \<le> mw_gettopofbin h 5"
    by (rule gettopofbin_mono [OF assms(1)]) (use b in simp)
  with end1 assms(1) show "c + stride h b \<le> segmentsize h - 88"
    by (simp add: header_ok_def)
qed

lemma chunks_disjoint:
  assumes "header_ok h" and "c \<in> chunks h b" and "c' \<in> chunks h b'" and "c \<noteq> c' \<or> b \<noteq> b'"
  shows "c + stride h b \<le> c' \<or> c' + stride h b' \<le> c"
proof (cases "b = b'")
  case True
  obtain j where j: "c = mw_gettopofbin h b + int j * stride h b"
    using assms(2) by (rule chunksE)
  obtain j' where j': "c' = mw_gettopofbin h b + int j' * stride h b"
    using assms(3) unfolding True by (rule chunksE)
  have *: "int i * stride h b + stride h b \<le> int k * stride h b" if "i < k" for i k
    using mult_right_mono [of "int i + 1" "int k" "stride h b"] that stride_pos [OF assms(1), of b]
    by (simp add: algebra_simps)
  have "j < j' \<or> j' < j" using j j' assms(4) True by (cases j j' rule: linorder_cases) auto
  then show ?thesis using * [of j j'] * [of j' j] j j' True by auto
next
  case False
  have "c + stride h b \<le> c'" if "b < b'" "c \<in> chunks h b" "c' \<in> chunks h b'" for b b' c c'
    using chunk_bounds [OF assms(1) that(2)] chunk_bounds [OF assms(1) that(3)]
      gettopofbin_mono [OF assms(1), of "Suc b" b'] that(1) by linarith
  with False assms(2,3) show ?thesis by (cases b b' rule: linorder_cases) auto
qed


section \<open>The pool of free chunks\<close>

definition foot_of :: "shmstate \<Rightarrow> int \<Rightarrow> chunkfoot" where
  "foot_of st c = feet st (mwfooter st (heapinfo st + c))"

definition heap_seg :: "shmstate \<Rightarrow> seginfo \<Rightarrow> bool" where
  "heap_seg st si \<longleftrightarrow> 0 < heapinfo st \<and> segmentid si = 0 \<and> segstart si = heapinfo st \<and>
     segend si = heapinfo st + segmentsize (hdr st) \<and> findsegment_byid (segments st) 0 = Some si \<and>
     (\<forall>a. heapinfo st \<le> a \<and> a \<le> segend si \<longrightarrow> findsegment_byaddr (segments st) a = Some si)"

definition chunks_ok :: "shmstate \<Rightarrow> bool" where
  "chunks_ok st \<longleftrightarrow> (\<forall>b. \<forall>c \<in> chunks (hdr st) b.
     csize (heads st (heapinfo st + c)) = 2 ^ b \<and> above (foot_of st c) = c)"

definition bin_ring :: "shmstate \<Rightarrow> nat \<Rightarrow> int list \<Rightarrow> bool" where
  "bin_ring st b xs \<longleftrightarrow> distinct xs \<and> set xs \<subseteq> chunks (hdr st) b \<and>
     ring (\<lambda>c. nextc (foot_of st c)) (\<lambda>c. prevc (foot_of st c)) xs \<and>
     chunk (hdr st) ! b = (if xs = [] then 0 else hd xs) \<and> freecount (hdr st) ! b = int (length xs)"

definition pool :: "shmstate \<Rightarrow> seginfo \<Rightarrow> (nat \<Rightarrow> int list) \<Rightarrow> bool" where
  "pool st si fr \<longleftrightarrow> header_ok (hdr st) \<and> heap_seg st si \<and> chunks_ok st \<and> (\<forall>b < BINS. bin_ring st b (fr b))"

lemma upd_foot_simps [simp]:
  "heapinfo (upd_foot st f g) = heapinfo st" "hdr (upd_foot st f g) = hdr st"
  "heads (upd_foot st f g) = heads st" "segments (upd_foot st f g) = segments st"
  "bytes (upd_foot st f g) = bytes st" "requests (upd_foot st f g) = requests st"
  "mwfooter (upd_foot st f g) = mwfooter st"
  by (simp_all add: upd_foot_def mwfooter_def fun_eq_iff)

lemma set_root_simps [simp]:
  "heapinfo (set_root st i r n) = heapinfo st" "heads (set_root st i r n) = heads st"
  "segments (set_root st i r n) = segments st" "feet (set_root st i r n) = feet st"
  "bytes (set_root st i r n) = bytes st" "requests (set_root st i r n) = requests st"
  "mwfooter (set_root st i r n) = mwfooter st" "foot_of (set_root st i r n) = foot_of st"
  by (simp_all add: set_root_def mwfooter_def foot_of_def fun_eq_iff)

text \<open>The layout depends on two fields of the header only.\<close>

lemma layout_cong:
  assumes "basechunksize h = basechunksize h'" and "chunkspersize h = chunkspersize h'"
  shows "mw_gettopofbin h b = mw_gettopofbin h' b" and "stride h b = stride h' b" and "chunks h b = chunks h' b"
proof -
  show top: "mw_gettopofbin h b = mw_gettopofbin h' b" for b
    using assms by (induction b) (simp_all add: Let_def)
  show st: "stride h b = stride h' b" for b
    using assms by (simp add: stride_def)
  show "chunks h b = chunks h' b" using assms by (simp add: chunks_def top st)
qed

lemma set_root_layout [simp]:
  "chunks (hdr (set_root st i r n)) b = chunks (hdr st) b"
  "header_ok (hdr (set_root st i r n)) \<longleftrightarrow> header_ok (hdr st)"
proof -
  show "chunks (hdr (set_root st i r n)) b = chunks (hdr st) b"
    by (rule layout_cong) (simp_all add: set_root_def)
  have "mw_gettopofbin (hdr (set_root st i r n)) 5 = mw_gettopofbin (hdr st) 5"
    by (rule layout_cong) (simp_all add: set_root_def)
  then show "header_ok (hdr (set_root st i r n)) \<longleftrightarrow> header_ok (hdr st)"
    by (simp add: header_ok_def set_root_def)
qed

lemma set_root_ring:
  "i < length (chunk (hdr st)) \<Longrightarrow> i < length (freecount (hdr st)) \<Longrightarrow>
   chunk (hdr (set_root st i r n)) ! b = (if b = i then r else chunk (hdr st) ! b) \<and>
   freecount (hdr (set_root st i r n)) ! b = (if b = i then n else freecount (hdr st) ! b)"
  by (simp add: set_root_def)

text \<open>No two chunks have their feet at the same place.\<close>

lemma foot_of_upd:
  assumes "header_ok (hdr st)" and "chunks_ok st" and "c \<in> chunks (hdr st) b" and "c' \<in> chunks (hdr st) b'"
  shows "foot_of (upd_foot st (mwfooter st (heapinfo st + c)) g) c' = (if c' = c then g (foot_of st c) else foot_of st c')"
proof (cases "c' = c")
  case False
  have f: "mwfooter st (heapinfo st + x) = heapinfo st + x + stride (hdr st) d - 24" if "x \<in> chunks (hdr st) d" for x d
    using assms(2) that by (simp add: chunks_ok_def mwfooter_def stride_def)
  have "mwfooter st (heapinfo st + c') \<noteq> mwfooter st (heapinfo st + c)"
    using chunks_disjoint [OF assms(1,3,4)] False f [OF assms(3)] f [OF assms(4)]
      stride_pos [OF assms(1), of b] stride_pos [OF assms(1), of b'] by auto
  with False show ?thesis by (simp add: foot_of_def) (simp add: upd_foot_def)
qed (simp add: foot_of_def, simp add: upd_foot_def)

lemma chunk_address:
  assumes "header_ok (hdr st)" and "heap_seg st si" and "c \<in> chunks (hdr st) b"
  shows "mwoffset2adr c (Some si) = heapinfo st + c" and "heapinfo st + c \<noteq> 0" and "c \<noteq> 0"
    and "mwadr2offset (segments st) (heapinfo st + c) (Some si) = c"
  using chunk_bounds [OF assms(1,3)] assms(2) stride_pos [OF assms(1), of b]
  by (auto simp: mwoffset2adr_def mwadr2offset_def heap_seg_def)


text \<open>What moving chunks in and out of the rings leaves alone.\<close>

definition frame :: "shmstate \<Rightarrow> shmstate \<Rightarrow> bool" where
  "frame st st' \<longleftrightarrow> heapinfo st' = heapinfo st \<and> heads st' = heads st \<and> segments st' = segments st \<and>
     bytes st' = bytes st \<and> requests st' = requests st \<and>
     basechunksize (hdr st') = basechunksize (hdr st) \<and> chunkspersize (hdr st') = chunkspersize (hdr st) \<and>
     segmentsize (hdr st') = segmentsize (hdr st) \<and> inusecount (hdr st') = inusecount (hdr st) \<and>
     numbins (hdr st') = numbins (hdr st)"

lemma frame_simps:
  assumes "frame st st'"
  shows "heapinfo st' = heapinfo st" "heads st' = heads st" "segments st' = segments st" "bytes st' = bytes st"
    "basechunksize (hdr st') = basechunksize (hdr st)" "chunkspersize (hdr st') = chunkspersize (hdr st)"
    "segmentsize (hdr st') = segmentsize (hdr st)" "inusecount (hdr st') = inusecount (hdr st)"
    "requests st' = requests st" "numbins (hdr st') = numbins (hdr st)" "chunks (hdr st') b = chunks (hdr st) b"
  using assms layout_cong(3) [of "hdr st'" "hdr st" b] by (simp_all add: frame_def)

lemma frame_upd_foot: "frame st st' \<Longrightarrow> frame st (upd_foot st' f g)"
  by (simp add: frame_def)

lemma frame_set_root: "frame st st' \<Longrightarrow> frame st (set_root st' i r n)"
  by (simp add: frame_def) (simp add: set_root_def)

lemma frame_refl: "frame st st"
  by (simp add: frame_def)

lemmas frame_intros = frame_upd_foot frame_set_root frame_refl

lemma chunk_bin_unique:
  "header_ok h \<Longrightarrow> c \<in> chunks h b \<Longrightarrow> c \<in> chunks h b' \<Longrightarrow> b = b'"
  using chunks_disjoint [of h c b c b'] stride_pos [of h b] stride_pos [of h b'] by force

lemma pool_update:
  assumes "pool st si fr" and "b < BINS" and "frame st st'" and "hdr st' = hdr (set_root st b r n)"
    and "\<And>d x. x \<in> chunks (hdr st) d \<Longrightarrow> above (foot_of st' x) = above (foot_of st x)"
    and "\<And>d x. x \<in> chunks (hdr st) d \<Longrightarrow> d \<noteq> b \<Longrightarrow> foot_of st' x = foot_of st x"
    and "distinct xs" and "set xs \<subseteq> chunks (hdr st) b"
    and "ring (\<lambda>c. nextc (foot_of st' c)) (\<lambda>c. prevc (foot_of st' c)) xs"
    and "r = (if xs = [] then 0 else hd xs)" and "n = int (length xs)"
  shows "pool st' si (fr(b := xs))"
proof -
  note fs = frame_simps [OF assms(3)]
  have h: "header_ok (hdr st)" and len: "b < length (chunk (hdr st))" "b < length (freecount (hdr st))"
    using assms(1,2) by (auto simp: pool_def header_ok_def)
  have "bin_ring st' d ((fr(b := xs)) d)" if "d < BINS" for d
  proof (cases "d = b")
    case True
    then show ?thesis
      using assms(7-11) set_root_ring [OF len, of r n b] by (simp add: bin_ring_def assms(4))
  next
    case False
    have old: "bin_ring st d (fr d)" using assms(1) that by (simp add: pool_def)
    then have "ring (\<lambda>c. nextc (foot_of st' c)) (\<lambda>c. prevc (foot_of st' c)) (fr d)"
      using assms(6) [OF _ False]
      by (subst ring_cong [of _ _ "\<lambda>c. nextc (foot_of st c)" _ "\<lambda>c. prevc (foot_of st c)"])
        (auto simp: bin_ring_def)
    with old False show ?thesis
      using set_root_ring [OF len, of r n d] by (simp add: bin_ring_def assms(4))
  qed
  moreover have "header_ok (hdr st')" using h by (simp add: assms(4))
  moreover have "heap_seg st' si" using assms(1) by (simp add: pool_def heap_seg_def fs)
  moreover have "chunks_ok st'"
    using assms(1) assms(5) by (fastforce simp: pool_def chunks_ok_def fs)
  ultimately show ?thesis by (simp add: pool_def)
qed

lemma popchunk_pool:
  assumes "pool st si fr" and "b < BINS" and "fr b = c # cs"
  shows "\<exists>st'. popchunk st b si = Some (heapinfo st + c, st') \<and> pool st' si (fr(b := cs)) \<and> frame st st'"
proof -
  have h: "header_ok (hdr st)" and seg: "heap_seg st si" and ok: "chunks_ok st" and br: "bin_ring st b (c # cs)"
    using assms by (auto simp: pool_def dest: spec [of _ b])
  have sub: "set (c # cs) \<subseteq> chunks (hdr st) b" and dist: "distinct (c # cs)"
    and rt: "chunk (hdr st) ! b = c" "freecount (hdr st) ! b = int (length cs) + 1"
    and rg: "ring (\<lambda>c. nextc (foot_of st c)) (\<lambda>c. prevc (foot_of st c)) (c # cs)"
    using br by (simp_all add: bin_ring_def)
  have mem: "x \<in> chunks (hdr st) b" if "x \<in> set (c # cs)" for x using that sub by blast
  note adr = chunk_address [OF h seg mem] and fu = foot_of_upd [OF h ok mem]
  let ?f = "\<lambda>c. mwfooter st (heapinfo st + c)"
  show ?thesis
  proof (cases cs)
    case Nil
    let ?st = "set_root (upd_foot st (?f c) (\<lambda>x. x\<lparr>nextc := 0, prevc := 0\<rparr>)) b 0 0"
    have "popchunk st b si = Some (heapinfo st + c, ?st)"
      using adr [of c] Nil by (simp add: popchunk_def rt Let_def)
    moreover have "pool ?st si (fr(b := cs))"
    proof (rule pool_update [OF assms(1,2)])
      show "foot_of ?st x = foot_of st x" if "x \<in> chunks (hdr st) d" "d \<noteq> b" for d x
        using that fu [of c x d] chunk_bin_unique [OF h mem [of c]] by auto
      show "above (foot_of ?st x) = above (foot_of st x)" if "x \<in> chunks (hdr st) d" for d x
        using fu [of c x d] that by simp
      show "frame st ?st" by (intro frame_intros)
      show "hdr ?st = hdr (set_root st b 0 0)" by (simp add: set_root_def)
    qed (simp_all add: Nil ring_def)
    moreover have "frame st ?st" by (intro frame_intros)
    ultimately show ?thesis by blast
  next
    case (Cons y zs)
    let ?l = "last (y # zs)"
    have y: "y \<in> set (c # cs)" and l: "?l \<in> set (c # cs)" and ne: "y \<noteq> c" "?l \<noteq> c"
      using Cons dist by (auto simp: last_in_set [of "y # zs"])
    have links: "nextc (foot_of st c) = y" "prevc (foot_of st c) = ?l"
      using ring_two [OF rg [unfolded Cons]] by simp_all
    let ?s1 = "upd_foot st (?f ?l) (\<lambda>x. x\<lparr>nextc := y\<rparr>)"
    let ?s2 = "upd_foot ?s1 (?f y) (\<lambda>x. x\<lparr>prevc := ?l\<rparr>)"
    let ?s3 = "set_root ?s2 b y (int (length cs))"
    let ?st = "upd_foot ?s3 (?f c) (\<lambda>x. x\<lparr>nextc := 0, prevc := 0\<rparr>)"
    have k1: "chunks_ok ?s1" using ok fu [OF l] by (auto simp: chunks_ok_def)
    then have k2: "chunks_ok ?s2" using foot_of_upd [OF _ k1, of y b] h mem [OF y] by (auto simp: chunks_ok_def)
    then have k3: "chunks_ok ?s3" by (simp add: chunks_ok_def)
    have F1: "foot_of ?s1 x = (if x = ?l then (foot_of st x)\<lparr>nextc := y\<rparr> else foot_of st x)"
      if "x \<in> chunks (hdr st) d" for x d
      using fu [OF l that] by simp
    have F2: "foot_of ?s2 x = (if x = y then (foot_of ?s1 x)\<lparr>prevc := ?l\<rparr> else foot_of ?s1 x)"
      if "x \<in> chunks (hdr st) d" for x d
      using foot_of_upd [OF _ k1, of y b x d] h mem [OF y] that by simp
    have F: "foot_of ?st x = (if x = c then (foot_of ?s2 x)\<lparr>nextc := 0, prevc := 0\<rparr> else foot_of ?s2 x)"
      if "x \<in> chunks (hdr st) d" for x d
      using foot_of_upd [OF _ k3, of c b x d] h mem [of c] that by simp
    have "nextc (feet ?s2 (?f c)) = y"
      using F2 [OF mem [of c]] F1 [OF mem [of c]] links ne by (simp add: foot_of_def)
    then have "popchunk st b si = Some (heapinfo st + c, ?st)"
      using adr [of c] adr [OF y] adr [OF l] links Cons
      by (simp add: popchunk_def rt foot_of_def Let_def)
    moreover have "pool ?st si (fr(b := cs))"
    proof (rule pool_update [OF assms(1,2)])
      show "frame st ?st" by (intro frame_intros)
      show "hdr ?st = hdr (set_root st b y (int (length cs)))" by (simp add: set_root_def)
      show "above (foot_of ?st x) = above (foot_of st x)" if "x \<in> chunks (hdr st) d" for d x
      proof -
        have "above (foot_of ?st x) = above (foot_of ?s2 x)" using F [OF that] by simp
        also have "\<dots> = above (foot_of ?s1 x)" using F2 [OF that] by simp
        also have "\<dots> = above (foot_of st x)" using F1 [OF that] by simp
        finally show ?thesis .
      qed
      show "foot_of ?st x = foot_of st x" if "x \<in> chunks (hdr st) d" "d \<noteq> b" for d x
        using F [OF that(1)] F2 [OF that(1)] F1 [OF that(1)] chunk_bin_unique [OF h that(1)] mem [OF y] mem [OF l]
          mem [of c] that(2) by auto
      have "nextc (foot_of ?st x) = (if x = ?l then y else nextc (foot_of st x)) \<and>
            prevc (foot_of ?st x) = (if x = y then ?l else prevc (foot_of st x))" if "x \<in> set (y # zs)" for x
        using that F [OF mem [of x]] F2 [OF mem [of x]] F1 [OF mem [of x]] Cons dist by auto
      then show "ring (\<lambda>c. nextc (foot_of ?st c)) (\<lambda>c. prevc (foot_of ?st c)) cs"
        unfolding Cons by (intro ring_pop [OF rg [unfolded Cons]]) (use dist Cons in auto)
    qed (use Cons dist sub in auto)
    moreover have "frame st ?st" by (intro frame_intros)
    ultimately show ?thesis by blast
  qed
qed


fun ring_insert :: "'a \<Rightarrow> 'a list \<Rightarrow> 'a list" where
  "ring_insert c [] = [c]"
| "ring_insert c (r # xs) = r # c # xs"

lemma ring_insert_set [simp]: "set (ring_insert c xs) = insert c (set xs)" "ring_insert c xs \<noteq> []"
  "length (ring_insert c xs) = Suc (length xs)" "distinct (ring_insert c xs) \<longleftrightarrow> c \<notin> set xs \<and> distinct xs"
  by (cases xs; auto)+

lemma pushchunk_pool:
  assumes "pool st si fr" and "b < BINS" and "c \<in> chunks (hdr st) b" and "c \<notin> set (fr b)"
  shows "\<exists>st'. pushchunk st (heapinfo st + c) b si = Some (0, st') \<and>
           pool st' si (fr(b := ring_insert c (fr b))) \<and> frame st st'"
proof -
  have h: "header_ok (hdr st)" and seg: "heap_seg st si" and ok: "chunks_ok st" and br: "bin_ring st b (fr b)"
    using assms by (auto simp: pool_def dest: spec [of _ b])
  have mem: "x \<in> chunks (hdr st) b" if "x \<in> set (c # fr b)" for x
    using that br assms(3) by (auto simp: bin_ring_def)
  note adr = chunk_address [OF h seg mem]
  let ?f = "\<lambda>c. mwfooter st (heapinfo st + c)"
  have "above (feet st (?f c)) = c" using ok assms(3) by (simp add: chunks_ok_def foot_of_def)
  then have ab: "\<not> mwoffset2adr (above (feet st (?f c))) (Some si) \<noteq> heapinfo st + c" using adr [of c] by simp
  show ?thesis
  proof (cases "fr b")
    case Nil
    let ?st = "set_root (upd_foot st (?f c) (\<lambda>x. x\<lparr>nextc := c, prevc := c\<rparr>)) b c 1"
    have rt: "chunk (hdr st) ! b = 0" "freecount (hdr st) ! b = 0" using br Nil by (simp_all add: bin_ring_def)
    note F = foot_of_upd [OF h ok assms(3)]
    have "pushchunk st (heapinfo st + c) b si = Some (0, ?st)"
      using ab adr [of c] rt by (simp add: pushchunk_def Let_def)
    moreover have "pool ?st si (fr(b := ring_insert c (fr b)))"
    proof (rule pool_update [OF assms(1,2)])
      show "frame st ?st" by (intro frame_intros)
      show "hdr ?st = hdr (set_root st b c 1)" by (simp add: set_root_def)
      show "foot_of ?st x = foot_of st x" if "x \<in> chunks (hdr st) d" "d \<noteq> b" for d x
        using that F [of x d] chunk_bin_unique [OF h assms(3)] by auto
      show "above (foot_of ?st x) = above (foot_of st x)" if "x \<in> chunks (hdr st) d" for d x
        using F that by simp
      show "ring (\<lambda>c. nextc (foot_of ?st c)) (\<lambda>c. prevc (foot_of ?st c)) (ring_insert c (fr b))"
        using F [OF assms(3)] Nil by (simp add: ring_def)
    qed (use Nil assms(3) in auto)
    moreover have "frame st ?st" by (intro frame_intros)
    ultimately show ?thesis by blast
  next
    case (Cons r zs)
    let ?n = "nextc (foot_of st r)"
    have rt: "chunk (hdr st) ! b = r" "freecount (hdr st) ! b = int (length zs) + 1"
      and rg: "ring (\<lambda>c. nextc (foot_of st c)) (\<lambda>c. prevc (foot_of st c)) (r # zs)"
      using br Cons by (simp_all add: bin_ring_def)
    have r: "r \<in> set (c # fr b)" using Cons by simp
    have n: "?n \<in> set (c # fr b)" "?n \<noteq> c"
      using rg Cons assms(4) by (cases zs; auto simp: ring_def)+
    have ne: "r \<noteq> c" using Cons assms(4) by auto
    let ?s1 = "upd_foot st (?f c) (\<lambda>x. x\<lparr>nextc := ?n, prevc := r\<rparr>)"
    let ?s2 = "upd_foot ?s1 (?f ?n) (\<lambda>x. x\<lparr>prevc := c\<rparr>)"
    let ?s3 = "upd_foot ?s2 (?f r) (\<lambda>x. x\<lparr>nextc := c\<rparr>)"
    let ?st = "set_root ?s3 b r (2 + int (length zs))"
    have k1: "chunks_ok ?s1" using ok foot_of_upd [OF h ok assms(3)] by (auto simp: chunks_ok_def)
    then have k2: "chunks_ok ?s2" using foot_of_upd [OF _ k1, of ?n b] h mem [OF n(1)] by (auto simp: chunks_ok_def)
    have F1: "foot_of ?s1 x = (if x = c then (foot_of st x)\<lparr>nextc := ?n, prevc := r\<rparr> else foot_of st x)"
      if "x \<in> chunks (hdr st) d" for x d
      using foot_of_upd [OF h ok assms(3) that] by simp
    have F2: "foot_of ?s2 x = (if x = ?n then (foot_of ?s1 x)\<lparr>prevc := c\<rparr> else foot_of ?s1 x)"
      if "x \<in> chunks (hdr st) d" for x d
      using foot_of_upd [OF _ k1, of ?n b x d] h mem [OF n(1)] that by simp
    have F: "foot_of ?st x = (if x = r then (foot_of ?s2 x)\<lparr>nextc := c\<rparr> else foot_of ?s2 x)"
      if "x \<in> chunks (hdr st) d" for x d
      using foot_of_upd [OF _ k2, of r b x d] h mem [OF r] that by simp
    have "pushchunk st (heapinfo st + c) b si = Some (0, ?st)"
      using ab adr [of c] adr [OF r] adr [OF n(1)] rt
      by (simp add: pushchunk_def Let_def foot_of_def)
    moreover have "pool ?st si (fr(b := ring_insert c (fr b)))"
    proof (rule pool_update [OF assms(1,2)])
      show "frame st ?st" by (intro frame_intros)
      show "hdr ?st = hdr (set_root st b r (2 + int (length zs)))" by (simp add: set_root_def)
      show "above (foot_of ?st x) = above (foot_of st x)" if "x \<in> chunks (hdr st) d" for d x
      proof -
        have "above (foot_of ?st x) = above (foot_of ?s2 x)" using F [OF that] by simp
        also have "\<dots> = above (foot_of ?s1 x)" using F2 [OF that] by simp
        also have "\<dots> = above (foot_of st x)" using F1 [OF that] by simp
        finally show ?thesis .
      qed
      show "foot_of ?st x = foot_of st x" if "x \<in> chunks (hdr st) d" "d \<noteq> b" for d x
        using F [OF that(1)] F2 [OF that(1)] F1 [OF that(1)] chunk_bin_unique [OF h that(1)] mem [OF r] mem [OF n(1)]
          assms(3) that(2) by auto
      have "nextc (foot_of ?st x) = (if x = r then c else if x = c then ?n else nextc (foot_of st x)) \<and>
            prevc (foot_of ?st x) = (if x = ?n then c else if x = c then r else prevc (foot_of st x))"
        if "x \<in> set (r # c # zs)" for x
        using that F [OF mem [of x]] F2 [OF mem [of x]] F1 [OF mem [of x]] Cons ne n(2) by auto
      then show "ring (\<lambda>c. nextc (foot_of ?st c)) (\<lambda>c. prevc (foot_of ?st c)) (ring_insert c (fr b))"
        unfolding Cons ring_insert.simps
        by (intro ring_push [OF rg]) (use br assms(4) Cons in \<open>auto simp: bin_ring_def\<close>)
    qed (use Cons br assms(3,4) in \<open>auto simp: bin_ring_def\<close>)
    moreover have "frame st ?st" by (intro frame_intros)
    ultimately show ?thesis by blast
  qed
qed


section \<open>The contract of the free lists\<close>

text \<open>
  What the allocator relies on: for each bin a list of free items, \<open>pop\<close> takes its head,
  \<open>push\<close> puts an item of the bin in second place.
\<close>

locale free_lists =
  fixes inv :: "'s \<Rightarrow> (nat \<Rightarrow> 'c list) \<Rightarrow> bool"
    and items :: "'s \<Rightarrow> nat \<Rightarrow> 'c set"
    and pop :: "'s \<Rightarrow> nat \<Rightarrow> ('c \<times> 's) option"
    and push :: "'s \<Rightarrow> 'c \<Rightarrow> nat \<Rightarrow> 's option"
  assumes free_items: "inv s fr \<Longrightarrow> b < BINS \<Longrightarrow> distinct (fr b) \<and> set (fr b) \<subseteq> items s b"
    and pop_head: "inv s fr \<Longrightarrow> b < BINS \<Longrightarrow> fr b = c # cs \<Longrightarrow>
      \<exists>s'. pop s b = Some (c, s') \<and> inv s' (fr(b := cs)) \<and> items s' = items s"
    and push_second: "inv s fr \<Longrightarrow> b < BINS \<Longrightarrow> c \<in> items s b \<Longrightarrow> c \<notin> set (fr b) \<Longrightarrow>
      \<exists>s'. push s c b = Some s' \<and> inv s' (fr(b := ring_insert c (fr b))) \<and> items s' = items s"
begin

primrec pops :: "nat \<Rightarrow> 's \<Rightarrow> nat \<Rightarrow> ('c list \<times> 's) option" where
  "pops 0 s b = Some ([], s)"
| "pops (Suc n) s b =
     (case pop s b of None \<Rightarrow> None
      | Some (c, s) \<Rightarrow> map_option (\<lambda>(cs, s). (c # cs, s)) (pops n s b))"

text \<open>Popping until a bin is empty hands out each of its free items once, in order.\<close>

lemma pops_drain:
  assumes "inv s fr" and "b < BINS" and "n \<le> length (fr b)"
  shows "\<exists>s'. pops n s b = Some (take n (fr b), s') \<and> inv s' (fr(b := drop n (fr b))) \<and> items s' = items s"
  using assms
proof (induction n arbitrary: s fr)
  case (Suc n)
  then obtain c cs where c: "fr b = c # cs" by (cases "fr b") auto
  obtain s1 where s1: "pop s b = Some (c, s1)" "inv s1 (fr(b := cs))" "items s1 = items s"
    using pop_head [OF Suc.prems(1,2) c] by blast
  have "n \<le> length ((fr(b := cs)) b)" using Suc.prems(3) c by simp
  from Suc.IH [OF s1(2) Suc.prems(2) this] obtain s' where
    "pops n s1 b = Some (take n cs, s')" "inv s' (fr(b := drop n cs))" "items s' = items s1"
    unfolding fun_upd_upd fun_upd_same by blast
  moreover have "fr(b := drop (Suc n) (fr b)) = fr(b := drop n cs)" by (simp add: c)
  ultimately show ?case using s1 c by (metis (mono_tags, lifting) case_prod_conv option.case(2) option.map(2) pops.simps(2) take_Suc_Cons)
qed (auto simp: fun_upd_idem)

text \<open>An item given back is handed out again after the head of the list.\<close>

lemma push_pops:
  assumes "inv s fr" and "b < BINS" and "fr b = r # cs" and "c \<in> items s b" and "c \<notin> set (fr b)"
  shows "\<exists>s' s''. push s c b = Some s' \<and> pops 2 s' b = Some ([r, c], s'') \<and> inv s'' (fr(b := cs))"
proof -
  obtain s' where s': "push s c b = Some s'" "inv s' (fr(b := r # c # cs))"
    using push_second [OF assms(1,2,4,5)] assms(3) by auto
  with pops_drain [OF s'(2) assms(2), of 2] show ?thesis
    by (auto simp: numeral_2_eq_2)
qed

end

text \<open>The rings in shared memory keep the contract; chunks are named by their offsets.\<close>

definition ring_pop_op :: "seginfo \<times> shmstate \<Rightarrow> nat \<Rightarrow> (int \<times> seginfo \<times> shmstate) option" where
  "ring_pop_op s b =
     (case s of (si, st) \<Rightarrow> map_option (\<lambda>(p, st'). (p - heapinfo st, si, st')) (popchunk st b si))"

definition ring_push_op :: "seginfo \<times> shmstate \<Rightarrow> int \<Rightarrow> nat \<Rightarrow> (seginfo \<times> shmstate) option" where
  "ring_push_op s c b =
     (case s of (si, st) \<Rightarrow> map_option (\<lambda>(rc, st'). (si, st')) (pushchunk st (heapinfo st + c) b si))"

interpretation shm: free_lists "\<lambda>(si, st) fr. pool st si fr" "\<lambda>(si, st). chunks (hdr st)" ring_pop_op ring_push_op
proof (unfold_locales, goal_cases)
  case (1 s fr b)
  then show ?case by (cases s) (auto simp: pool_def bin_ring_def)
next
  case (2 s fr b c cs)
  then obtain st si where s: "s = (si, st)" "pool st si fr" by (cases s) auto
  obtain st' where "popchunk st b si = Some (heapinfo st + c, st')" "pool st' si (fr(b := cs))" "frame st st'"
    using popchunk_pool [of st si fr b c cs] 2 s by blast
  then show ?case using s by (auto simp: ring_pop_op_def frame_simps fun_eq_iff)
next
  case (3 s fr b c)
  then obtain st si where s: "s = (si, st)" "pool st si fr" by (cases s) auto
  obtain st' where "pushchunk st (heapinfo st + c) b si = Some (0, st')"
    "pool st' si (fr(b := ring_insert c (fr b)))" "frame st st'"
    using pushchunk_pool [of st si fr b c] 3 s by auto
  then show ?case using s by (auto simp: ring_push_op_def frame_simps fun_eq_iff)
qed

section \<open>Allocating\<close>

definition heap_ok :: "shmstate \<Rightarrow> seginfo \<Rightarrow> (nat \<Rightarrow> int list) \<Rightarrow> bool" where
  "heap_ok st si fr \<longleftrightarrow> pool st si fr \<and>
     (\<forall>b. \<forall>c \<in> chunks (hdr st) b. ownerid (heads st (heapinfo st + c)) = UNASSIGNED \<longleftrightarrow> c \<in> set (fr b)) \<and>
     inusecount (hdr st) = (\<Sum>b < 5. int (card (chunks (hdr st) b)) - int (length (fr b)))"

text \<open>Changing owners and counters does not touch the rings.\<close>

definition with_owner :: "shmstate \<Rightarrow> int \<Rightarrow> int \<Rightarrow> int \<Rightarrow> int \<Rightarrow> shmstate" where
  "with_owner st head i n hw = set_owner (st\<lparr>hdr := (hdr st)\<lparr>inusecount := n, inusehighwater := hw\<rparr>\<rparr>) head i"

lemma with_owner_simps:
  "heapinfo (with_owner st a i n hw) = heapinfo st" "segments (with_owner st a i n hw) = segments st"
  "bytes (with_owner st a i n hw) = bytes st" "feet (with_owner st a i n hw) = feet st"
  "hdr (with_owner st a i n hw) = (hdr st)\<lparr>inusecount := n, inusehighwater := hw\<rparr>"
  "heads (with_owner st a i n hw) = (heads st)(a := (heads st a)\<lparr>ownerid := i\<rparr>)"
  "requests (with_owner st a i n hw) = requests st"
  by (simp_all add: with_owner_def set_owner_def)

lemma with_owner_chunks: "chunks (hdr (with_owner st a i n hw)) b = chunks (hdr st) b"
  by (rule layout_cong) (simp_all add: with_owner_simps)

lemma pool_with_owner: "pool st si fr \<Longrightarrow> pool (with_owner st a i n hw) si fr"
proof -
  assume p: "pool st si fr"
  have "csize (heads (with_owner st a i n hw) x) = csize (heads st x)" for x
    by (simp add: with_owner_simps)
  then have f: "mwfooter (with_owner st a i n hw) = mwfooter st"
    by (simp add: mwfooter_def fun_eq_iff) (simp add: with_owner_simps)
  then have "foot_of (with_owner st a i n hw) = foot_of st"
    by (simp add: foot_of_def fun_eq_iff with_owner_simps)
  moreover have "mw_gettopofbin (hdr (with_owner st a i n hw)) 5 = mw_gettopofbin (hdr st) 5"
    by (rule layout_cong) (simp_all add: with_owner_simps)
  ultimately show ?thesis
    using p by (auto simp: pool_def header_ok_def heap_seg_def chunks_ok_def bin_ring_def with_owner_chunks)
      (auto simp: with_owner_simps)
qed


text \<open>What one successful allocation from bin \<open>b\<close> does.\<close>

definition allocated :: "int \<Rightarrow> shmstate \<Rightarrow> shmstate \<Rightarrow> int \<Rightarrow> bool" where
  "allocated me st st' c \<longleftrightarrow> heapinfo st' = heapinfo st \<and> segments st' = segments st \<and> bytes st' = bytes st \<and>
     basechunksize (hdr st') = basechunksize (hdr st) \<and> chunkspersize (hdr st') = chunkspersize (hdr st) \<and>
     heads st' = (heads st)(heapinfo st + c := (heads st (heapinfo st + c))\<lparr>ownerid := me\<rparr>)"

lemma sum_upd: 
  fixes f :: "nat \<Rightarrow> int"
  shows "b < n \<Longrightarrow> (\<Sum>d < n. f d - int (length ((fr(b := xs)) d))) =
    (\<Sum>d < n. f d - int (length (fr d))) + int (length (fr b)) - int (length xs)"
proof (induction n)
  case (Suc n)
  show ?case
  proof (cases "b = n")
    case True
    have "(\<Sum>d < n. f d - int (length ((fr(b := xs)) d))) = (\<Sum>d < n. f d - int (length (fr d)))"
      by (rule sum.cong) (auto simp: True)
    then show ?thesis by (simp add: True)
  next
    case False
    with Suc show ?thesis by simp
  qed
qed simp

lemma alloc_step:
  assumes "heap_ok st si fr" and "b < BINS" and "fr b = c # cs" and "me \<noteq> UNASSIGNED"
  shows "\<exists>st'. popchunk st b si = Some (heapinfo st + c, st') \<and>
    heap_ok (set_owner (count_alloc st') (heapinfo st + c) me) si (fr(b := cs)) \<and>
    allocated me st (set_owner (count_alloc st') (heapinfo st + c) me) c \<and> c \<in> chunks (hdr st) b"
proof -
  have p: "pool st si fr" using assms(1) by (simp add: heap_ok_def)
  then have h: "header_ok (hdr st)" and br: "bin_ring st b (c # cs)" using assms(2,3) by (auto simp: pool_def dest: spec [of _ b])
  then have c: "c \<in> chunks (hdr st) b" "c \<notin> set cs" by (simp_all add: bin_ring_def)
  have b5: "b < 5" using chunk_bounds(1) [OF h c(1)] .
  obtain st' where st': "popchunk st b si = Some (heapinfo st + c, st')" "pool st' si (fr(b := cs))" "frame st st'"
    using popchunk_pool [OF p assms(2,3)] by blast
  note fs = frame_simps [OF st'(3)]
  let ?n = "inusecount (hdr st) + 1" and ?hw = "max (inusehighwater (hdr st')) (inusecount (hdr st) + 1)"
  let ?w = "with_owner st' (heapinfo st + c) me ?n ?hw"
  have w: "set_owner (count_alloc st') (heapinfo st + c) me = ?w"
    by (simp add: with_owner_def count_alloc_def fs)
  have ch: "chunks (hdr ?w) d = chunks (hdr st) d" for d by (simp add: with_owner_chunks fs)
  have own: "ownerid (heads ?w (heapinfo ?w + x)) = UNASSIGNED \<longleftrightarrow> x \<in> set ((fr(b := cs)) d)"
    if "x \<in> chunks (hdr st) d" for x d
  proof -
    have old: "ownerid (heads st (heapinfo st + x)) = UNASSIGNED \<longleftrightarrow> x \<in> set (fr d)"
      using assms(1) that by (auto simp: heap_ok_def)
    show ?thesis
    proof (cases "x = c")
      case True
      then have "d = b" using chunk_bin_unique [OF h that] c(1) by blast
      with True c(2) assms(4) show ?thesis by (simp add: with_owner_simps fs)
    next
      case False
      then show ?thesis using old assms(3) by (cases "d = b") (simp_all add: with_owner_simps fs)
    qed
  qed
  have cnt: "inusecount (hdr ?w) = (\<Sum>d < 5. int (card (chunks (hdr ?w) d)) - int (length ((fr(b := cs)) d)))"
  proof -
    have n: "inusecount (hdr ?w) = ?n" by (simp add: with_owner_simps)
    show ?thesis unfolding n ch sum_upd [OF b5] using assms(1,3) by (simp add: heap_ok_def)
  qed
  have "heap_ok ?w si (fr(b := cs))"
    unfolding heap_ok_def ch by (intro conjI allI ballI pool_with_owner [OF st'(2)] own cnt [unfolded ch])
  moreover have "allocated me st ?w c" by (simp add: allocated_def with_owner_simps fs)
  ultimately show ?thesis using st'(1) c(1) by (intro exI [of _ st'] conjI) (simp_all only: w)
qed

lemma alloc_loop_skip:
  assumes "pool st si fr" and "\<forall>d. i \<le> d \<and> d < b \<longrightarrow> fr d = []" and "i \<le> b" and "b \<le> BINS"
  shows "alloc_loop env si (BINS - i) i st = alloc_loop env si (BINS - b) b st"
  using assms(2-4)
proof (induction "b - i" arbitrary: i)
  case (Suc k)
  then have i: "i < b" "BINS - i = Suc (BINS - (i + 1))" by auto
  have "freecount (hdr st) ! i = 0"
    using assms(1) Suc.prems i by (auto simp: pool_def bin_ring_def dest!: spec [of _ i])
  then have "alloc_loop env si (BINS - i) i st = alloc_loop env si (BINS - (i + 1)) (i + 1) st"
    unfolding i(2) by simp
  also have "\<dots> = alloc_loop env si (BINS - b) b st"
    using Suc by (intro Suc.hyps(1)) auto
  finally show ?case .
qed simp

lemma alloc_loop_take:
  assumes "heap_ok st si fr" and "\<forall>d. i \<le> d \<and> d < b \<longrightarrow> fr d = []" and "i \<le> b" and "b < BINS"
    and "fr b = c # cs" and "lock_ok env b" and "my_mwid env \<noteq> UNASSIGNED"
  shows "\<exists>st'. alloc_loop env si (BINS - i) i st = Some (Inr (heapinfo st + c + 16), st') \<and>
    heap_ok st' si (fr(b := cs)) \<and> allocated (my_mwid env) st st' c \<and> c \<in> chunks (hdr st) b"
proof -
  have p: "pool st si fr" using assms(1) by (simp add: heap_ok_def)
  have br: "bin_ring st b (c # cs)" and h: "header_ok (hdr st)" and seg: "heap_seg st si"
    using p assms(4,5) by (auto simp: pool_def dest: spec [of _ b])
  obtain st' where st': "popchunk st b si = Some (heapinfo st + c, st')"
    "heap_ok (set_owner (count_alloc st') (heapinfo st + c) (my_mwid env)) si (fr(b := cs))"
    "allocated (my_mwid env) st (set_owner (count_alloc st') (heapinfo st + c) (my_mwid env)) c"
    "c \<in> chunks (hdr st) b"
    using alloc_step [OF assms(1,4,5,7)] by blast
  have b: "BINS - b = Suc (BINS - (b + 1))" using assms(4) by simp
  have "heapinfo st + c \<noteq> 0" by (rule chunk_address [OF h seg st'(4)])
  then have "alloc_loop env si (BINS - b) b st =
      Some (Inr (heapinfo st + c + 16), set_owner (count_alloc st') (heapinfo st + c) (my_mwid env))"
    using br assms(6) st'(1) unfolding b by (simp add: bin_ring_def)
  with st' show ?thesis
    using alloc_loop_skip [OF p assms(2,3)] assms(4) by auto
qed


lemma find_bin_size:
  assumes "0 < basechunksize (hdr st)" and "0 < sz" and "find_bin st sz si \<le> b" and "segmentid si = 0"
  shows "sz \<le> 2 ^ b * basechunksize (hdr st)"
proof -
  let ?B = "basechunksize (hdr st)"
  let ?n = "nat ((sz + ?B - 1) div ?B)"
  have "?n \<le> 2 ^ ceillog2 ?n" by (rule le_two_power_ceillog2)
  also have "\<dots> \<le> 2 ^ b" using assms(3,4) by (intro power_increasing) (simp_all add: find_bin_def)
  finally have "int ?n \<le> int (2 ^ b)" by (simp only: of_nat_le_iff)
  then have "(sz + ?B - 1) div ?B \<le> 2 ^ b"
    using int_nat_eq [of "(sz + ?B - 1) div ?B"] by (simp split: if_splits) (metis dual_order.trans linear zero_le_numeral zero_le_power)
  then have "(sz + ?B - 1) div ?B * ?B \<le> 2 ^ b * ?B" using assms(1) by (intro mult_right_mono) auto
  moreover have "sz \<le> (sz + ?B - 1) div ?B * ?B"
    using div_mult_mod_eq [of "sz + ?B - 1" ?B] pos_mod_bound [OF assms(1), of "sz + ?B - 1"] by linarith
  ultimately show ?thesis by linarith
qed

lemma mwalloc_take:
  assumes "heap_ok st si fr" and "0 < sz" and "find_bin st sz si \<le> b" and "b < BINS"
    and "\<forall>d. find_bin st sz si \<le> d \<and> d < b \<longrightarrow> fr d = []" and "fr b = c # cs"
    and "lock_ok env b" and "my_mwid env \<noteq> UNASSIGNED"
  shows "\<exists>st'. mwalloc env st sz = Some (heapinfo st + c + 16, st') \<and> heap_ok st' si (fr(b := cs)) \<and>
    allocated (my_mwid env) st st' c \<and> c \<in> chunks (hdr st) b \<and> sz \<le> 2 ^ b * basechunksize (hdr st)"
proof -
  have p: "header_ok (hdr st)" "heap_seg st si" using assms(1) by (simp_all add: heap_ok_def pool_def)
  obtain st' where "alloc_loop env si (BINS - find_bin st sz si) (find_bin st sz si) st =
      Some (Inr (heapinfo st + c + 16), st')" "heap_ok st' si (fr(b := cs))" "allocated (my_mwid env) st st' c"
      "c \<in> chunks (hdr st) b"
    using alloc_loop_take [OF assms(1,5,3,4,6,7,8)] by blast
  moreover have "sz \<le> 2 ^ b * basechunksize (hdr st)"
    using p assms(2,3) by (intro find_bin_size) (auto simp: header_ok_def heap_seg_def)
  ultimately show ?thesis
    using p assms(2) by (intro exI [of _ st']) (simp add: mwalloc_def heap_seg_def header_ok_def)
qed

section \<open>Freeing\<close>

lemma pool_bytes: "pool (st\<lparr>bytes := x\<rparr>) si fr \<longleftrightarrow> pool st si fr"
proof -
  have "foot_of (st\<lparr>bytes := x\<rparr>) = foot_of st"
    by (simp add: foot_of_def mwfooter_def fun_eq_iff)
  then show ?thesis
    by (simp add: pool_def heap_seg_def chunks_ok_def bin_ring_def)
qed

lemma pool_set_owner: "pool st si fr \<Longrightarrow> pool (set_owner st a i) si fr"
proof -
  have "set_owner st a i = with_owner st a i (inusecount (hdr st)) (inusehighwater (hdr st))"
    by (simp add: with_owner_def)
  then show "pool st si fr \<Longrightarrow> pool (set_owner st a i) si fr" by (simp add: pool_with_owner)
qed

lemma pool_count: "pool st si fr \<Longrightarrow> pool (st\<lparr>hdr := (hdr st)\<lparr>inusecount := n\<rparr>\<rparr>) si fr"
proof -
  have "st\<lparr>hdr := (hdr st)\<lparr>inusecount := n\<rparr>\<rparr> =
      with_owner st 0 (ownerid (heads st 0)) n (inusehighwater (hdr st))"
    by (simp add: with_owner_def set_owner_def fun_upd_idem)
  then show "pool st si fr \<Longrightarrow> pool (st\<lparr>hdr := (hdr st)\<lparr>inusecount := n\<rparr>\<rparr>) si fr" by (simp add: pool_with_owner)
qed

lemma log2_trunc_power: "log2_trunc (2 ^ b) = int b"
proof -
  have "floorlog 2 (1 * 2 ^ b) = floorlog 2 1 + b" by (rule floorlog_power) simp_all
  moreover have "floorlog 2 1 = 1" by (simp add: floorlog_def)
  ultimately have "floorlog 2 (2 ^ b) = Suc b" by simp
  then show ?thesis by (simp add: log2_trunc_def nat_power_eq)
qed

lemma sint32_id: "0 \<le> x \<Longrightarrow> x < 2 ^ 31 \<Longrightarrow> sint (word_of_int x :: 32 word) = x"
  by (simp add: signed_of_int signed_take_bit_int_eq_self)

text \<open>The checks of \<open>_mwfree0\<close> on the address of a buffer.\<close>

lemma mwfree0_checks:
  assumes "heap_ok st si fr" and "c \<in> chunks (hdr st) b"
  shows "\<not> (c + 16 < top (hdr st) \<or> c + 16 > bottom (hdr st))"
    and "csize (heads st (heapinfo st + c)) = 2 ^ b"
    and "\<not> sint (word_of_int (getchunksizebyadr st (heapinfo st + c + 16) (Some si)) :: 32 word) < 0"
    and "(c - mw_gettopofbin (hdr st) b) smod stride (hdr st) b = 0"
    and "\<not> ((c - mw_gettopofbin (hdr st) b) sdiv stride (hdr st) b < 0 \<or>
            (c - mw_gettopofbin (hdr st) b) sdiv stride (hdr st) b >
              (if b \<noteq> 0 then chunkspersize (hdr st) else chunkspersize (hdr st) * 2))"
proof -
  have h: "header_ok (hdr st)" and seg: "heap_seg st si" and ok: "chunks_ok st"
    using assms(1) by (auto simp: heap_ok_def pool_def)
  have b: "b < 5" "112 \<le> c" "c + stride (hdr st) b \<le> segmentsize (hdr st) - 88"
    using chunk_bounds [OF h assms(2)] by auto
  have sp: "40 < stride (hdr st) b" by (rule stride_pos [OF h])
  show "\<not> (c + 16 < top (hdr st) \<or> c + 16 > bottom (hdr st))"
    using b sp h by (auto simp: header_ok_def)
  show sz: "csize (heads st (heapinfo st + c)) = 2 ^ b" using ok assms(2) by (simp add: chunks_ok_def)
  have "(2 :: int) ^ b \<le> 2 ^ 4" using b(1) by (intro power_increasing) auto
  then have "2 ^ b * basechunksize (hdr st) \<le> 16 * basechunksize (hdr st)"
    using h by (intro mult_right_mono) (auto simp: header_ok_def)
  moreover have "16 * basechunksize (hdr st) < 2 ^ 31" "0 < basechunksize (hdr st)"
    using h by (auto simp: header_ok_def)
  ultimately have pos: "0 \<le> 2 ^ b * basechunksize (hdr st)" "2 ^ b * basechunksize (hdr st) < 2 ^ 31"
    by (simp_all only: zero_le_mult_iff) auto
  from pos have "sint (word_of_int (2 ^ b * basechunksize (hdr st)) :: 32 word) = 2 ^ b * basechunksize (hdr st)"
    by (rule sint32_id)
  moreover have "getchunksizebyadr st (heapinfo st + c + 16) (Some si) = 2 ^ b * basechunksize (hdr st)"
    using sz seg b(2) by (simp add: getchunksizebyadr_def heap_seg_def)
  ultimately show "\<not> sint (word_of_int (getchunksizebyadr st (heapinfo st + c + 16) (Some si)) :: 32 word) < 0"
    using pos(1) by simp
  obtain j where j: "c = mw_gettopofbin (hdr st) b + int j * stride (hdr st) b"
    "j < chunks_in_bin (chunkspersize (hdr st)) b"
    using assms(2) by (rule chunksE)
  then have q: "(c - mw_gettopofbin (hdr st) b) sdiv stride (hdr st) b = int j"
    using sp by (cases "j = 0") (simp_all add: signed_divide_int_def abs_mult sgn_mult)
  show "(c - mw_gettopofbin (hdr st) b) smod stride (hdr st) b = 0"
    using j sp by (simp add: signed_modulo_int_def abs_mult)
  show "\<not> ((c - mw_gettopofbin (hdr st) b) sdiv stride (hdr st) b < 0 \<or>
            (c - mw_gettopofbin (hdr st) b) sdiv stride (hdr st) b >
              (if b \<noteq> 0 then chunkspersize (hdr st) else chunkspersize (hdr st) * 2))"
    using j(2) h unfolding q by (auto simp: chunks_in_bin_def header_ok_def split: if_splits)
qed


text \<open>What freeing the chunk at offset \<open>c\<close> of bin \<open>b\<close> does.\<close>

definition freed :: "shmstate \<Rightarrow> shmstate \<Rightarrow> int \<Rightarrow> nat \<Rightarrow> bool" where
  "freed st st' c b \<longleftrightarrow> heapinfo st' = heapinfo st \<and> segments st' = segments st \<and>
     basechunksize (hdr st') = basechunksize (hdr st) \<and> chunkspersize (hdr st') = chunkspersize (hdr st) \<and>
     heads st' = (heads st)(heapinfo st + c := (heads st (heapinfo st + c))\<lparr>ownerid := UNASSIGNED\<rparr>) \<and>
     bytes st' = (\<lambda>x. if heapinfo st + c + 16 \<le> x \<and> x < heapinfo st + c + 16 + 2 ^ b * basechunksize (hdr st)
                      then 0 else bytes st x)"

lemma mwfree0_eq:
  assumes "heap_ok st si fr" and "c \<in> chunks (hdr st) b"
  shows "mwfree0 st si (heapinfo st + c + 16) =
    (if c \<in> set (fr b) then Some (-1, st)
     else case pushchunk (clear_bytes (set_owner st (heapinfo st + c) UNASSIGNED) (heapinfo st + c + 16)
                 (2 ^ b * basechunksize (hdr st))) (heapinfo st + c) b si of
            None \<Rightarrow> None
          | Some (rc, st) \<Rightarrow> Some (0, st\<lparr>hdr := (hdr st)\<lparr>inusecount := inusecount (hdr st) - 1\<rparr>\<rparr>))"
proof -
  have h: "header_ok (hdr st)" and ow: "ownerid (heads st (heapinfo st + c)) = UNASSIGNED \<longleftrightarrow> c \<in> set (fr b)"
    using assms by (auto simp: heap_ok_def pool_def)
  have b: "b < 5" using chunk_bounds [OF h assms(2)] by simp
  note ck = mwfree0_checks [OF assms]
  have s: "basechunksize (hdr st) * csize (heads st (heapinfo st + c)) + 16 + 24 = stride (hdr st) b"
    by (simp add: ck(2) stride_def mult.commute)
  have sp: "stride (hdr st) b \<noteq> 0" using stride_pos [OF h, of b] by simp
  have bin: "log2_trunc (csize (heads st (heapinfo st + c))) = int b" by (simp add: ck(2) log2_trunc_power)
  have adr: "heapinfo st + c + 16 - heapinfo st = c + 16" "heapinfo st + c + 16 - 16 = heapinfo st + c"
    "c + 16 - 16 = c" by simp_all
  show ?thesis
    unfolding mwfree0_def Let_def adr if_not_P [OF ck(1)] if_not_P [OF ck(3)] s bin if_not_P [OF sp]
    using ck(4,5) ow b by (simp add: ck(2) mult.commute)
qed

lemma mwfree_chunk:
  assumes "heap_ok st si fr" and "c \<in> chunks (hdr st) b" and "c \<notin> set (fr b)"
  shows "\<exists>st'. mwfree st (heapinfo st + c + 16) = Some (0, st') \<and>
    heap_ok st' si (fr(b := ring_insert c (fr b))) \<and> freed st st' c b"
proof -
  let ?n = "2 ^ b * basechunksize (hdr st)"
  let ?a = "heapinfo st + c" and ?fr = "fr(b := ring_insert c (fr b))"
  let ?s = "clear_bytes (set_owner st ?a UNASSIGNED) (?a + 16) ?n"
  have p: "pool st si fr" and h: "header_ok (hdr st)" and seg: "heap_seg st si"
    using assms(1) by (auto simp: heap_ok_def pool_def)
  have b: "b < BINS" "b < 5" using chunk_bounds [OF h assms(2)] by auto
  have hs: "hdr ?s = hdr st" "heapinfo ?s = heapinfo st" "segments ?s = segments st"
    by (simp_all add: clear_bytes_def set_owner_def)
  have "pool ?s si fr" unfolding clear_bytes_def pool_bytes by (rule pool_set_owner [OF p])
  then obtain st' where st': "pushchunk ?s ?a b si = Some (0, st')" "pool st' si ?fr" "frame ?s st'"
    using pushchunk_pool [of ?s si fr b c] b assms(2,3) by (auto simp: hs)
  let ?t = "st'\<lparr>hdr := (hdr st')\<lparr>inusecount := inusecount (hdr st') - 1\<rparr>\<rparr>"
  note fs = frame_simps [OF st'(3)]
  have hds: "heads st' = (heads st)(?a := (heads st ?a)\<lparr>ownerid := UNASSIGNED\<rparr>)"
    by (simp add: fs) (simp add: clear_bytes_def set_owner_def)
  have ch: "chunks (hdr ?t) d = chunks (hdr st) d" for d
    using layout_cong(3) [of "hdr ?t" "hdr st" d] fs by (simp add: hs)
  have own: "ownerid (heads ?t (heapinfo ?t + x)) = UNASSIGNED \<longleftrightarrow> x \<in> set (?fr d)" if "x \<in> chunks (hdr st) d" for x d
  proof -
    have old: "ownerid (heads st (heapinfo st + x)) = UNASSIGNED \<longleftrightarrow> x \<in> set (fr d)"
      using assms(1) that by (auto simp: heap_ok_def)
    show ?thesis
    proof (cases "x = c")
      case True
      then have "d = b" using chunk_bin_unique [OF h that] assms(2) by blast
      with True show ?thesis by (simp add: hds fs hs)
    next
      case False
      then show ?thesis using old by (cases "d = b") (simp_all add: hds fs hs)
    qed
  qed
  have cnt: "inusecount (hdr ?t) = (\<Sum>d < 5. int (card (chunks (hdr st) d)) - int (length (?fr d)))"
  proof -
    have n: "inusecount (hdr ?t) = inusecount (hdr st) - 1" by (simp add: fs hs)
    show ?thesis unfolding n sum_upd [OF b(2)] using assms(1) by (simp add: heap_ok_def)
  qed
  have "heap_ok ?t si ?fr"
    unfolding heap_ok_def ch by (intro conjI allI ballI pool_count [OF st'(2)] own cnt)
  moreover have "freed st ?t c b"
    using hds by (simp add: freed_def fs hs) (simp add: clear_bytes_def set_owner_def cong: if_cong)
  moreover have "findsegment_byaddr (segments st) (?a + 16) = Some si"
  proof -
    have "112 \<le> c" "c + stride (hdr st) b \<le> segmentsize (hdr st) - 88" "40 < stride (hdr st) b"
      using chunk_bounds [OF h assms(2)] stride_pos [OF h, of b] by auto
    then show ?thesis using seg by (simp add: heap_seg_def)
  qed
  ultimately show ?thesis
    using mwfree0_eq [OF assms(1,2)] assms(3) st'(1) seg
    by (intro exI [of _ ?t] conjI) (simp_all add: mwfree_def heap_seg_def)
qed

end
