(* ===== verification/ShmFormat.thy ===== *)
theory ShmFormat
  imports ShmPool
begin

text \<open>
  What \<open>shmb_format\<close> of \<^verbatim>\<open>src/mwd/shmallocfmt.c\<close> leaves in a new segment: every bin a ring
  of its chunks, all of them free.
\<close>

section \<open>Formatting one bin\<close>

definition same_heap :: "shmstate \<Rightarrow> shmstate \<Rightarrow> bool" where
  "same_heap st st' \<longleftrightarrow> heapinfo st' = heapinfo st \<and> segments st' = segments st \<and> hdr st' = hdr st \<and>
     bytes st' = bytes st"

text \<open>The memory below an address is left alone.\<close>

definition below :: "int \<Rightarrow> shmstate \<Rightarrow> shmstate \<Rightarrow> bool" where
  "below l st st' \<longleftrightarrow> (\<forall>a < l. heads st' a = heads st a \<and> feet st' a = feet st a)"

lemma below_trans: "below l st st' \<Longrightarrow> below l' st' st'' \<Longrightarrow> l \<le> l' \<Longrightarrow> below l st st''"
  by (auto simp: below_def)

lemma format_loop_spec:
  fixes s C :: int
  defines "D \<equiv> C + 16 + 24"
  assumes "0 < segstart si" and "0 \<le> s" and "0 \<le> C" and "segstart si + s + int (i + n) * D \<le> segend si"
    and "C = sz * basechunksize (hdr st)"
  shows "\<exists>st'. format_loop si s C sz n i st = Some st' \<and> same_heap st st' \<and>
    below (segstart si + s + int i * D) st st' \<and>
    (\<forall>k. i \<le> k \<and> k < i + n \<longrightarrow>
       heads st' (segstart si + (s + int k * D)) = \<lparr>ownerid = -1, csize = sz\<rparr> \<and>
       feet st' (segstart si + (s + int k * D) + 16 + C) =
         \<lparr>above = s + int k * D, nextc = s + int k * D + D, prevc = s + int k * D - D\<rparr>)"
  using assms(5,6)
proof (induction n arbitrary: i st)
  case 0
  show ?case by (simp add: same_heap_def below_def)
next
  case (Suc n)
  let ?c = "s + int i * D" and ?A = "segstart si"
  have D: "0 < D" "40 \<le> D" using assms(1,4) by auto
  have c0: "0 \<le> ?c" using assms(3) D by simp
  have "int (i + Suc n) * D = int i * D + D + int n * D" by (simp add: algebra_simps)
  moreover have "0 \<le> int n * D" using D by simp
  ultimately have le: "?A + ?c \<le> segend si" using Suc.prems(1) D by linarith
  have adr: "mwoffset2adr ?c (Some si) = ?A + ?c" "?A + ?c \<noteq> 0"
    using c0 le assms(2) by (simp_all add: mwoffset2adr_def)
  let ?s1 = "st\<lparr>heads := (heads st)(?A + ?c := \<lparr>ownerid = -1, csize = sz\<rparr>)\<rparr>"
  have ft: "mwfooter ?s1 (?A + ?c) = ?A + ?c + 16 + C" by (simp add: mwfooter_def Suc.prems(2))
  let ?s2 = "upd_foot ?s1 (?A + ?c + 16 + C) (\<lambda>x. x\<lparr>above := ?c, nextc := ?c + D, prevc := ?c - D\<rparr>)"
  have step: "format_loop si s C sz (Suc n) i st = format_loop si s C sz n (i + 1) ?s2"
    using adr ft by (simp add: Let_def D_def add.assoc)
  have s2: "same_heap st ?s2" "below (?A + ?c) st ?s2"
    "heads ?s2 (?A + ?c) = \<lparr>ownerid = -1, csize = sz\<rparr>"
    "feet ?s2 (?A + ?c + 16 + C) = \<lparr>above = ?c, nextc = ?c + D, prevc = ?c - D\<rparr>"
    using assms(4) by (auto simp: same_heap_def below_def upd_foot_def)
  have next_c: "s + int (i + 1) * D = ?c + D" by (simp add: algebra_simps)
  obtain st' where st': "format_loop si s C sz n (i + 1) ?s2 = Some st'" "same_heap ?s2 st'"
    "below (?A + (?c + D)) ?s2 st'"
    "\<forall>k. i + 1 \<le> k \<and> k < i + 1 + n \<longrightarrow>
       heads st' (?A + (s + int k * D)) = \<lparr>ownerid = -1, csize = sz\<rparr> \<and>
       feet st' (?A + (s + int k * D) + 16 + C) = \<lparr>above = s + int k * D, nextc = s + int k * D + D, prevc = s + int k * D - D\<rparr>"
    using Suc.IH [of "i + 1" ?s2] Suc.prems s2(1) next_c by (auto simp: same_heap_def add.assoc)
  have k: "heads st' (?A + (s + int k * D)) = \<lparr>ownerid = -1, csize = sz\<rparr> \<and>
       feet st' (?A + (s + int k * D) + 16 + C) = \<lparr>above = s + int k * D, nextc = s + int k * D + D, prevc = s + int k * D - D\<rparr>"
    if "i \<le> k" "k < i + Suc n" for k
  proof (cases "k = i")
    case True
    have "?A + ?c < ?A + (?c + D)" "?A + ?c + 16 + C < ?A + (?c + D)" using D by (auto simp: D_def)
    with st'(3) s2(3,4) True show ?thesis by (simp add: below_def)
  next
    case False
    with that st'(4) show ?thesis by auto
  qed
  have "below (?A + ?c) st st'" by (rule below_trans [OF s2(2) st'(3)]) (use D in simp)
  moreover have "same_heap st st'" using s2(1) st'(2) by (simp add: same_heap_def)
  ultimately show ?case unfolding step using st'(1) k by (auto simp: add.assoc)
qed


text \<open>The ring of the \<open>n\<close> chunks of size \<open>sz\<close> at \<open>c 0\<close>, \<open>c 1\<close> and so on.\<close>

definition formatted :: "shmstate \<Rightarrow> int \<Rightarrow> int \<Rightarrow> nat \<Rightarrow> (nat \<Rightarrow> int) \<Rightarrow> bool" where
  "formatted st A sz n c \<longleftrightarrow> (\<forall>k < n.
     heads st (A + c k) = \<lparr>ownerid = -1, csize = sz\<rparr> \<and>
     feet st (A + c k + 16 + sz * basechunksize (hdr st)) =
       \<lparr>above = c k, nextc = (if Suc k = n then c 0 else c (Suc k)), prevc = (if k = 0 then c (n - 1) else c (k - 1))\<rparr>)"

lemma formatfreelist_spec:
  assumes D_def: "D = basechunksize (hdr st) * sz + 16 + 24" and c_def: "c = (\<lambda>k :: nat. s + int k * D)"
    and "0 < segstart si" and "0 \<le> s" and "0 \<le> basechunksize (hdr st) * sz" and "0 < n"
    and "segstart si + s + int n * D \<le> segend si"
  shows "\<exists>st'. formatfreelist si s sz n st = Some (s + int n * D, st') \<and> same_heap st st' \<and>
    below (segstart si + s) st st' \<and> formatted st' (segstart si) sz n c"
proof -
  let ?A = "segstart si" and ?C = "basechunksize (hdr st) * sz"
  have D: "40 \<le> D" using assms(1,5) by simp
  obtain st1 where st1: "format_loop si s ?C sz n 0 st = Some st1" "same_heap st st1" "below (?A + s) st st1"
    and all: "\<forall>k < n. heads st1 (?A + c k) = \<lparr>ownerid = -1, csize = sz\<rparr> \<and>
      feet st1 (?A + c k + 16 + ?C) = \<lparr>above = c k, nextc = c k + D, prevc = c k - D\<rparr>"
    using format_loop_spec [of si s ?C 0 n sz st] assms by (auto simp: mult.commute)
  have k1: "heads st1 (?A + c k) = \<lparr>ownerid = -1, csize = sz\<rparr>"
    "feet st1 (?A + c k + 16 + ?C) = \<lparr>above = c k, nextc = c k + D, prevc = c k - D\<rparr>" if "k < n" for k
    using all that by auto
  have step: "c k + D = c (Suc k)" for k by (simp add: c_def algebra_simps)
  have mono: "c j < c k" if "j < k" for j k using that D by (simp add: c_def)
  have le: "int k * D \<le> int n * D" if "k \<le> n" for k using that D by (intro mult_right_mono) auto
  have adr: "mwoffset2adr (c k) (Some si) = ?A + c k" "?A + c k \<noteq> 0" if "k < n" for k
  proof -
    have "0 \<le> int k * D" "int k * D \<le> int n * D" using that le [of k] D by auto
    then have "0 \<le> c k" "?A + c k \<le> segend si" using assms(4,7) unfolding c_def by linarith+
    then show "mwoffset2adr (c k) (Some si) = ?A + c k" "?A + c k \<noteq> 0"
      using assms(3) by (auto simp: mwoffset2adr_def)
  qed
  have ft: "mwfooter st1 (?A + c k) = ?A + c k + 16 + ?C" if "k < n" for k
    using k1(1) [OF that] st1(2) by (simp add: mwfooter_def same_heap_def mult.commute)
  let ?l = "n - 1"
  have lastc: "s + (int n - 1) * D = c ?l" using assms(6) by (simp add: c_def of_nat_diff)
  have c0: "s = c 0" by (simp add: c_def)
  let ?s2 = "upd_foot st1 (?A + c 0 + 16 + ?C) (\<lambda>x. x\<lparr>prevc := c ?l\<rparr>)"
  let ?s3 = "upd_foot ?s2 (?A + c ?l + 16 + ?C) (\<lambda>x. x\<lparr>nextc := c 0\<rparr>)"
  have "formatfreelist si s sz n st = Some (s + int n * D, ?s3)"
  proof -
    have eqD: "?C + 16 + 24 = D" by (simp add: D_def)
    have "mwoffset2adr s (Some si) = ?A + c 0" "mwfooter st1 (?A + c 0) = ?A + c 0 + 16 + ?C"
      using adr(1) [of 0] ft [of 0] assms(6) by (simp_all flip: c0)
    then show ?thesis
      unfolding formatfreelist_def Let_def st1(1) option.case eqD lastc
      using adr [of 0] adr [of ?l] ft [of ?l] assms(6) by (simp flip: c0)
  qed
  moreover have "same_heap st ?s3" using st1(2) by (simp add: same_heap_def)
  moreover have "below (?A + s) st ?s3"
  proof -
    have "s \<le> c ?l" using D by (simp add: c_def)
    then show ?thesis using st1(3) assms(5) by (auto simp: below_def upd_foot_def c0 [symmetric])
  qed
  moreover have "formatted ?s3 ?A sz n c"
    unfolding formatted_def
  proof (intro allI impI conjI)
    fix k assume k: "k < n"
    show "heads ?s3 (?A + c k) = \<lparr>ownerid = -1, csize = sz\<rparr>" using k1(1) [OF k] by simp
    have inj: "c i = c j \<longleftrightarrow> i = j" for i j using mono [of i j] mono [of j i] by (cases i j rule: linorder_cases) auto
    have hd: "basechunksize (hdr ?s3) = basechunksize (hdr st)" using st1(2) by (simp add: same_heap_def)
    have prv: "c k - D = c (k - 1)" if "k \<noteq> 0" using that step [of "k - 1"] by simp
    show "feet ?s3 (?A + c k + 16 + sz * basechunksize (hdr ?s3)) =
       \<lparr>above = c k, nextc = (if Suc k = n then c 0 else c (Suc k)), prevc = (if k = 0 then c (n - 1) else c (k - 1))\<rparr>"
    proof -
      have "feet ?s3 (?A + c k + 16 + ?C) =
          (if k = ?l then nextc_update (\<lambda>_. c 0) else id)
            ((if k = 0 then prevc_update (\<lambda>_. c ?l) else id) (feet st1 (?A + c k + 16 + ?C)))"
        by (simp add: upd_foot_def inj)
      also have "\<dots> = \<lparr>above = c k, nextc = (if k = ?l then c 0 else c k + D), prevc = (if k = 0 then c ?l else c k - D)\<rparr>"
        using k1(2) [OF k] by simp
      also have "k = ?l \<longleftrightarrow> Suc k = n" using k by auto
      finally show ?thesis
        unfolding hd using prv step [of k] k by (cases "k = 0"; cases "Suc k = n") (simp_all add: mult.commute)
    qed
  qed
  ultimately show ?thesis by blast
qed


section \<open>Formatting all bins\<close>

definition chunk_at :: "segmenthdr \<Rightarrow> nat \<Rightarrow> nat \<Rightarrow> int" where
  "chunk_at h b k = mw_gettopofbin h b + int k * stride h b"

abbreviation bin_count :: "segmenthdr \<Rightarrow> nat \<Rightarrow> nat" where
  "bin_count h b \<equiv> chunks_in_bin (chunkspersize h) b"

lemma chunk_at_in: "k < bin_count h b \<Longrightarrow> b < 5 \<Longrightarrow> chunk_at h b k \<in> chunks h b"
  by (auto simp: chunks_def chunk_at_def)

text \<open>The bins from \<open>i\<close> on are formatted, the roots and counters of the bins point at them.\<close>

definition bins_formatted :: "segmenthdr \<Rightarrow> int \<Rightarrow> nat \<Rightarrow> nat \<Rightarrow> shmstate \<Rightarrow> bool" where
  "bins_formatted h A i j st \<longleftrightarrow> (\<forall>b. i \<le> b \<and> b < j \<longrightarrow>
     formatted st A (2 ^ b) (bin_count h b) (chunk_at h b) \<and>
     chunk (hdr st) ! b = mw_gettopofbin h b \<and> freecount (hdr st) ! b = int (bin_count h b))"

definition header_like :: "segmenthdr \<Rightarrow> segmenthdr \<Rightarrow> bool" where
  "header_like h h' \<longleftrightarrow> (\<exists>r n. h' = h\<lparr>chunk := r, freecount := n\<rparr> \<and> length r = length (chunk h) \<and>
     length n = length (freecount h))"

lemma header_like_trans: "header_like h h' \<Longrightarrow> header_like h' h'' \<Longrightarrow> header_like h h''"
  unfolding header_like_def
  by (elim exE conjE, rule exI [of _ "chunk h''"], rule exI [of _ "freecount h''"]) simp

lemma header_like_set_root: "header_like (hdr st) (hdr (set_root st i r n))"
  unfolding header_like_def set_root_def
  by (rule exI [of _ "(chunk (hdr st))[i := r]"], rule exI [of _ "(freecount (hdr st))[i := n]"]) simp

lemma header_like_simps:
  assumes "header_like h h'"
  shows "basechunksize h' = basechunksize h" "chunkspersize h' = chunkspersize h" "segmentsize h' = segmentsize h"
    "top h' = top h" "bottom h' = bottom h" "inusecount h' = inusecount h" "numbins h' = numbins h"
    "length (chunk h') = length (chunk h)" "length (freecount h') = length (freecount h)"
  using assms by (auto simp: header_like_def)

text \<open>What is needed of the segment to format it.\<close>

definition format_room :: "segmenthdr \<Rightarrow> seginfo \<Rightarrow> bool" where
  "format_room h si \<longleftrightarrow> 0 < segstart si \<and> header_ok h \<and> segstart si + segmentsize h = segend si"

lemma format_bins_spec:
  assumes "format_room h si" and "i + n \<le> 5" and "header_like h (hdr st)" and "cps = chunkspersize h"
  shows "\<exists>st'. format_bins si cps n i (mw_gettopofbin h i) st = Some st' \<and>
    heapinfo st' = heapinfo st \<and> segments st' = segments st \<and> bytes st' = bytes st \<and> header_like h (hdr st') \<and>
    below (segstart si + mw_gettopofbin h i) st st' \<and>
    (\<forall>b < i. chunk (hdr st') ! b = chunk (hdr st) ! b \<and> freecount (hdr st') ! b = freecount (hdr st) ! b) \<and>
    bins_formatted h (segstart si) i (i + n) st'"
  using assms(2,3)
proof (induction n arbitrary: i st)
  case 0
  then show ?case by (auto simp: below_def bins_formatted_def)
next
  case (Suc n)
  let ?A = "segstart si" and ?T = "mw_gettopofbin h i" and ?n = "bin_count h i"
  have h: "header_ok h" using assms(1) by (simp add: format_room_def)
  have B: "basechunksize (hdr st) = basechunksize h" using header_like_simps [OF Suc.prems(2)] by simp
  have np: "0 < ?n" using h by (simp add: chunks_in_bin_def header_ok_def)
  have T: "112 \<le> ?T" "?T + int ?n * stride h i = mw_gettopofbin h (Suc i)" "mw_gettopofbin h (Suc i) \<le> segmentsize h"
    using gettopofbin_mono [OF h, of 0 i] gettopofbin_Suc [OF h, of i] gettopofbin_mono [OF h, of "Suc i" 5]
      Suc.prems(1) h by (auto simp: header_ok_def)
  have sd: "basechunksize h * 2 ^ i + 16 + 24 = stride h i" by (simp add: stride_def mult.commute)
  let ?s0 = "set_root st i ?T (int ?n)"
  have b0: "basechunksize (hdr ?s0) = basechunksize h" using B by (simp add: set_root_def)
  have pos: "0 \<le> basechunksize h * 2 ^ i" using h by (simp add: header_ok_def)
  obtain s1 where s1: "formatfreelist si ?T (2 ^ i) ?n ?s0 = Some (mw_gettopofbin h (Suc i), s1)" "same_heap ?s0 s1"
    "below (?A + ?T) ?s0 s1" "formatted s1 ?A (2 ^ i) ?n (chunk_at h i)"
    using formatfreelist_spec [of "stride h i" ?s0 "2 ^ i" "chunk_at h i" ?T si ?n] T np pos sd assms(1)
    by (auto simp: b0 chunk_at_def fun_eq_iff format_room_def)
  have h1: "header_like h (hdr s1)"
    using header_like_trans [OF Suc.prems(2) header_like_set_root] s1(2) by (simp add: same_heap_def)
  obtain st' where st': "format_bins si cps n (i + 1) (mw_gettopofbin h (i + 1)) s1 = Some st'"
    "heapinfo st' = heapinfo s1" "segments st' = segments s1" "bytes st' = bytes s1" "header_like h (hdr st')"
    "below (?A + mw_gettopofbin h (i + 1)) s1 st'"
    "\<forall>b < i + 1. chunk (hdr st') ! b = chunk (hdr s1) ! b \<and> freecount (hdr st') ! b = freecount (hdr s1) ! b"
    "bins_formatted h ?A (i + 1) (i + 1 + n) st'"
    using Suc.IH [of "i + 1" s1] Suc.prems h1 by auto
  have hs1: "hdr s1 = hdr ?s0" using s1(2) by (simp add: same_heap_def)
  have len: "i < length (chunk (hdr st))" "i < length (freecount (hdr st))"
    using header_like_simps [OF Suc.prems(2)] h Suc.prems(1) by (auto simp: header_ok_def)
  have rt: "chunk (hdr st') ! i = ?T" "freecount (hdr st') ! i = int ?n"
    using st'(7) set_root_ring [OF len, of ?T "int ?n" i] by (simp_all add: hs1)
  have f: "formatted st' ?A (2 ^ i) ?n (chunk_at h i)"
  proof -
    have b1: "basechunksize (hdr st') = basechunksize (hdr s1)"
      using header_like_simps(1) [OF st'(5)] header_like_simps(1) [OF h1] by simp
    have "?A + chunk_at h i k + 16 + 2 ^ i * basechunksize (hdr s1) < ?A + mw_gettopofbin h (i + 1)" if "k < ?n" for k
      using chunk_bounds(3) [OF h chunk_at_in [OF that]] Suc.prems(1) header_like_simps(1) [OF h1]
      by (simp add: stride_def)
    moreover have "0 \<le> 2 ^ i * basechunksize (hdr s1)" using pos header_like_simps(1) [OF h1] by (simp add: mult.commute)
    ultimately show ?thesis
      using s1(4) st'(6) b1 unfolding formatted_def below_def by force
  qed
  have "bins_formatted h ?A i (i + Suc n) st'"
    unfolding bins_formatted_def
  proof (intro allI impI)
    fix b assume "i \<le> b \<and> b < i + Suc n"
    then show "formatted st' ?A (2 ^ b) (bin_count h b) (chunk_at h b) \<and>
      chunk (hdr st') ! b = mw_gettopofbin h b \<and> freecount (hdr st') ! b = int (bin_count h b)"
      using f rt st'(8) by (cases "b = i") (auto simp: bins_formatted_def)
  qed
  moreover have "below (?A + ?T) st st'"
    using s1(3) st'(6) gettopofbin_mono [OF h, of i "i + 1"] by (auto simp: below_def)
  moreover have "\<forall>b < i. chunk (hdr st') ! b = chunk (hdr st) ! b \<and> freecount (hdr st') ! b = freecount (hdr st) ! b"
    using st'(7) set_root_ring [OF len, of ?T "int ?n"] by (auto simp: hs1)
  moreover have "format_bins si cps (Suc n) i ?T st = Some st'"
    using s1(1) st'(1) assms(4) by simp
  ultimately show ?case using st' s1(2) by (auto simp: same_heap_def)
qed


section \<open>The heap after formatting\<close>

definition all_chunks :: "segmenthdr \<Rightarrow> nat \<Rightarrow> int list" where
  "all_chunks h b = (if b < 5 then map (chunk_at h b) [0..<bin_count h b] else [])"

lemma set_all_chunks: "set (all_chunks h b) = chunks h b"
  by (auto simp: all_chunks_def chunks_def chunk_at_def)

lemma chunk_at_inj: "header_ok h \<Longrightarrow> chunk_at h b j = chunk_at h b k \<longleftrightarrow> j = k"
  using stride_pos [of h b] by (auto simp: chunk_at_def)

lemma distinct_all_chunks: "header_ok h \<Longrightarrow> distinct (all_chunks h b)"
  by (auto simp: all_chunks_def distinct_map inj_on_def chunk_at_inj)

lemma chain_map:
  "(\<And>k. Suc k < n \<Longrightarrow> nx (c k) = c (Suc k) \<and> pv (c (Suc k)) = c k) \<Longrightarrow> chain nx pv (map c [0..<n])"
proof (induction n)
  case (Suc n)
  then have IH: "chain nx pv (map c [0..<n])" by simp
  have eq: "map c [0..<Suc n] = map c [0..<n] @ [c n]" by simp
  show ?case
  proof (cases n)
    case (Suc m)
    then have "last (map c [0..<n]) = c m" by (simp add: last_map)
    with IH Suc.prems [of m] Suc show ?thesis unfolding eq chain_snoc by simp
  qed simp
qed simp

lemma ring_map:
  assumes "0 < n" and "\<And>k. k < n \<Longrightarrow> nx (c k) = (if Suc k = n then c 0 else c (Suc k))"
    and "\<And>k. k < n \<Longrightarrow> pv (c k) = (if k = 0 then c (n - 1) else c (k - 1))"
  shows "ring nx pv (map c [0..<n])"
proof -
  have "chain nx pv (map c [0..<n])" by (rule chain_map) (use assms(2,3) in auto)
  moreover have "last (map c [0..<n]) = c (n - 1)" "hd (map c [0..<n]) = c 0"
    using assms(1) by (simp_all add: last_map hd_map)
  ultimately show ?thesis
    using assms(1) assms(2) [of "n - 1"] assms(3) [of 0] by (simp add: ring_snoc)
qed

lemma formatted_ring:
  assumes "header_ok (hdr st)" and "b < 5"
    and "formatted st (heapinfo st) (2 ^ b) (bin_count (hdr st) b) (chunk_at (hdr st) b)"
  shows "ring (\<lambda>c. nextc (foot_of st c)) (\<lambda>c. prevc (foot_of st c)) (all_chunks (hdr st) b)"
    and "c \<in> chunks (hdr st) b \<Longrightarrow> csize (heads st (heapinfo st + c)) = 2 ^ b \<and> above (foot_of st c) = c \<and>
      ownerid (heads st (heapinfo st + c)) = UNASSIGNED"
proof -
  have n: "0 < bin_count (hdr st) b" using assms(1) by (simp add: chunks_in_bin_def header_ok_def)
  have k: "heads st (heapinfo st + chunk_at (hdr st) b k) = \<lparr>ownerid = -1, csize = 2 ^ b\<rparr> \<and>
      foot_of st (chunk_at (hdr st) b k) =
       \<lparr>above = chunk_at (hdr st) b k,
        nextc = (if Suc k = bin_count (hdr st) b then chunk_at (hdr st) b 0 else chunk_at (hdr st) b (Suc k)),
        prevc = (if k = 0 then chunk_at (hdr st) b (bin_count (hdr st) b - 1) else chunk_at (hdr st) b (k - 1))\<rparr>"
    if "k < bin_count (hdr st) b" for k
    using assms(3) that by (simp add: formatted_def foot_of_def mwfooter_def)
  show "ring (\<lambda>c. nextc (foot_of st c)) (\<lambda>c. prevc (foot_of st c)) (all_chunks (hdr st) b)"
    using assms(2) by (simp only: all_chunks_def if_True) (rule ring_map [OF n]; use k in simp)
  show "csize (heads st (heapinfo st + c)) = 2 ^ b \<and> above (foot_of st c) = c \<and>
      ownerid (heads st (heapinfo st + c)) = UNASSIGNED" if "c \<in> chunks (hdr st) b"
    using that k by (elim chunksE) (simp flip: chunk_at_def)
qed

lemma header_ok_like: "header_like h h' \<Longrightarrow> header_ok h \<Longrightarrow> header_ok h'"
  using layout_cong(1) [of h' h 5] header_like_simps [of h h'] by (simp add: header_ok_def)

lemma bins_formatted_heap_ok:
  assumes "header_ok (hdr st)" and "heap_seg st si" and "bins_formatted (hdr st) (heapinfo st) 0 5 st"
    and "chunk (hdr st) ! 5 = 0" and "freecount (hdr st) ! 5 = 0" and "inusecount (hdr st) = 0"
  shows "heap_ok st si (all_chunks (hdr st))"
proof -
  have f: "formatted st (heapinfo st) (2 ^ b) (bin_count (hdr st) b) (chunk_at (hdr st) b)"
    "chunk (hdr st) ! b = mw_gettopofbin (hdr st) b" "freecount (hdr st) ! b = int (bin_count (hdr st) b)" if "b < 5" for b
    using assms(3) that by (auto simp: bins_formatted_def)
  have cf: "csize (heads st (heapinfo st + c)) = 2 ^ b \<and> above (foot_of st c) = c \<and>
      ownerid (heads st (heapinfo st + c)) = UNASSIGNED" if "c \<in> chunks (hdr st) b" for c b
    using formatted_ring(2) [OF assms(1) chunk_bounds(1) [OF assms(1) that] f(1) that]
      chunk_bounds(1) [OF assms(1) that] by blast
  have "bin_ring st b (all_chunks (hdr st) b)" if "b < BINS" for b
  proof (cases "b < 5")
    case True
    have "0 < bin_count (hdr st) b" using assms(1) by (simp add: chunks_in_bin_def header_ok_def)
    then have "hd (all_chunks (hdr st) b) = mw_gettopofbin (hdr st) b" "all_chunks (hdr st) b \<noteq> []"
      "length (all_chunks (hdr st) b) = bin_count (hdr st) b"
      using True by (simp_all add: all_chunks_def hd_map chunk_at_def)
    with True f(2,3) formatted_ring(1) [OF assms(1) True f(1)] distinct_all_chunks [OF assms(1)] show ?thesis
      by (simp add: bin_ring_def set_all_chunks)
  next
    case False
    with that have "b = 5" by simp
    with assms(4,5) show ?thesis by (simp add: bin_ring_def all_chunks_def ring_def)
  qed
  then have "pool st si (all_chunks (hdr st))"
    using assms(1,2) cf by (auto simp: pool_def chunks_ok_def)
  moreover have "card (chunks (hdr st) b) = length (all_chunks (hdr st) b)" for b
    using distinct_card [OF distinct_all_chunks [OF assms(1), of b]] by (simp add: set_all_chunks)
  ultimately show ?thesis
    using cf assms(6) by (auto simp: heap_ok_def set_all_chunks)
qed

end
