(* ===== verification/ShmProps.thy ===== *)
theory ShmProps
  imports ShmFormat
begin

text \<open>
  The properties of the shared memory heap: what formatting, allocating, freeing and
  reallocating do, the reachable states of the heap, and the passing of data between
  processes in the buffers of call messages.
\<close>

section \<open>From a new segment\<close>

lemma format_header_ok:
  assumes "1 \<le> cs" and "16 * cs < 2 ^ 31" and "1 \<le> cps" and "cps \<le> 694"
  shows "chunkspersize (format_header cs cps) = cps" and "basechunksize (format_header cs cps) = cs"
    and "header_ok (format_header cs cps)"
proof -
  show c: "chunkspersize (format_header cs cps) = cps"
    using assms by (simp add: format_header_def signed_of_int signed_take_bit_int_eq_self)
  show b: "basechunksize (format_header cs cps) = cs"
    using assms by (simp add: format_header_def sint32_id)
  have "mw_gettopofbin (format_header cs cps) 5 = 112 + 240 * cps + 32 * cs * cps"
    by (simp add: eval_nat_numeral Let_def b c algebra_simps)
  then show "header_ok (format_header cs cps)"
    using assms by (simp add: header_ok_def b c) (simp add: format_header_def segment_size_def)
qed

definition heap_segment :: "int \<Rightarrow> int \<Rightarrow> int \<Rightarrow> seginfo" where
  "heap_segment a cs cps = \<lparr>segmentid = 0, segfd = -1, segstart = a, segend = a + segment_size cs cps\<rparr>"

lemma shmb_format_heap_ok:
  assumes "0 < a" and "1 \<le> cs" and "16 * cs < 2 ^ 31" and "1 \<le> cps" and "cps \<le> 694" and "segments st = []"
  shows "\<exists>st'. shmb_format a cs cps st = Some st' \<and> heap_ok st' (heap_segment a cs cps) (all_chunks (hdr st')) \<and>
    heapinfo st' = a \<and> chunkspersize (hdr st') = cps \<and> basechunksize (hdr st') = cs"
proof -
  let ?h = "format_header cs cps" and ?sz = "segment_size cs cps"
  let ?si = "\<lparr>segmentid = 0, segfd = -1, segstart = a, segend = a + ?sz\<rparr>"
  let ?s0 = "(mw_addsegment st 0 (-1) a (a + ?sz))\<lparr>heapinfo := a, hdr := ?h\<rparr>"
  note h = format_header_ok [OF assms(2-5)]
  have sz: "segmentsize ?h = ?sz" by (simp add: format_header_def)
  have room: "format_room ?h ?si" using h(3) assms(1) by (simp add: format_room_def sz)
  have like: "header_like ?h (hdr ?s0)"
    unfolding header_like_def by (rule exI [of _ "chunk ?h"], rule exI [of _ "freecount ?h"]) simp
  obtain s1 where s1: "format_bins ?si cps 5 0 (mw_gettopofbin ?h 0) ?s0 = Some s1" "heapinfo s1 = heapinfo ?s0"
    "segments s1 = segments ?s0" "header_like ?h (hdr s1)" "bins_formatted ?h (segstart ?si) 0 (0 + 5) s1"
    using format_bins_spec [OF room _ like, of 0 5 cps] h(1) by auto
  let ?t = "set_root s1 5 0 0"
  note ls = header_like_simps [OF s1(4)]
  have eq: "shmb_format a cs cps st = Some ?t"
    using s1(1) by (simp add: shmb_format_def Let_def)
  have ok: "header_ok (hdr ?t)" using header_ok_like [OF s1(4) h(3)] by simp
  have lay: "mw_gettopofbin (hdr ?t) b = mw_gettopofbin ?h b" "stride (hdr ?t) b = stride ?h b"
    "chunkspersize (hdr ?t) = cps" "basechunksize (hdr ?t) = cs" for b
    using layout_cong(1,2) [of "hdr ?t" ?h b] ls h(1,2) by (simp_all add: set_root_def)
  have len: "5 < length (chunk (hdr s1))" "5 < length (freecount (hdr s1))"
    using ls h(3) by (simp_all add: header_ok_def)
  note rt = set_root_ring [OF len, of 0 0]
  have "bins_formatted (hdr ?t) a 0 5 ?t"
    unfolding bins_formatted_def
  proof (intro allI impI)
    fix b :: nat assume b: "0 \<le> b \<and> b < 5"
    have f: "formatted s1 a (2 ^ b) (bin_count ?h b) (chunk_at ?h b)" "chunk (hdr s1) ! b = mw_gettopofbin ?h b"
      "freecount (hdr s1) ! b = int (bin_count ?h b)"
      using s1(5) b by (auto simp: bins_formatted_def)
    have "chunk_at (hdr ?t) b = chunk_at ?h b" by (simp add: chunk_at_def fun_eq_iff lay)
    moreover have "formatted ?t a (2 ^ b) (bin_count ?h b) (chunk_at ?h b)"
      using f(1) by (simp add: formatted_def) (simp add: set_root_def)
    ultimately show "formatted ?t a (2 ^ b) (bin_count (hdr ?t) b) (chunk_at (hdr ?t) b) \<and>
        chunk (hdr ?t) ! b = mw_gettopofbin (hdr ?t) b \<and> freecount (hdr ?t) ! b = int (bin_count (hdr ?t) b)"
      using f rt [of b] b by (simp add: lay h(1))
  qed
  moreover have "heap_seg ?t ?si"
    using assms(1,6) s1(2,3) ls sz
    by (auto simp: heap_seg_def mw_addsegment_def addsegment_def findsegment_byid_def findsegment_byaddr_def)
      (simp add: set_root_def)
  moreover have "inusecount (hdr ?t) = 0" using ls by (simp add: set_root_def format_header_def)
  ultimately have "heap_ok ?t ?si (all_chunks (hdr ?t))"
    using ok rt [of 5] s1(2) by (intro bins_formatted_heap_ok) simp_all
  then have "heap_ok ?t (heap_segment a cs cps) (all_chunks (hdr ?t))" by (simp add: heap_segment_def)
  then show ?thesis using eq lay(3,4) s1(2) by (intro exI [of _ ?t]) simp
qed

section \<open>Outcomes of an allocation\<close>

lemma first_bin:
  assumes "i \<le> BINS"
  obtains (none) "\<forall>d. i \<le> d \<and> d < BINS \<longrightarrow> fr d = []"
  | (some) b c cs where "i \<le> b" "b < BINS" "\<forall>d. i \<le> d \<and> d < b \<longrightarrow> fr d = []" "fr b = c # cs"
proof (cases "\<exists>d. i \<le> d \<and> d < BINS \<and> fr d \<noteq> []")
  case True
  define b where "b = (LEAST d. i \<le> d \<and> d < BINS \<and> fr d \<noteq> [])"
  have b: "i \<le> b \<and> b < BINS \<and> fr b \<noteq> []" unfolding b_def by (rule LeastI_ex [OF True])
  have "\<forall>d. i \<le> d \<and> d < b \<longrightarrow> fr d = []"
    using not_less_Least [of _ "\<lambda>d. i \<le> d \<and> d < BINS \<and> fr d \<noteq> []"] b unfolding b_def [symmetric] by force
  with b some show ?thesis by (cases "fr b") blast+
qed (use none in blast)

lemma heap_ok_env: "heap_ok (st\<lparr>requests := r, last_errno := e\<rparr>) si fr \<longleftrightarrow> heap_ok st si fr"
proof -
  let ?t = "st\<lparr>requests := r, last_errno := e\<rparr>"
  have "foot_of ?t = foot_of st" by (simp add: foot_of_def mwfooter_def fun_eq_iff)
  then show ?thesis by (simp add: heap_ok_def pool_def heap_seg_def chunks_ok_def bin_ring_def)
qed

lemma heap_ok_bytes: "heap_ok (st\<lparr>bytes := x\<rparr>) si fr \<longleftrightarrow> heap_ok st si fr"
  by (simp add: heap_ok_def pool_bytes)

lemma heap_ok_errno: "heap_ok (st\<lparr>last_errno := e\<rparr>) si fr \<longleftrightarrow> heap_ok st si fr"
  using heap_ok_env [where st = st and r = "requests st" and e = e] by simp

text \<open>With a daemon that grants no large buffers an allocation comes from the heap or fails.\<close>

lemma mwalloc_cases:
  assumes "heap_ok st si fr" and "my_mwid env \<noteq> UNASSIGNED" and "mwd_alloc env sz < LOW_LARGE_BUFFER_NUMBER"
  obtains (null) r e where "mwalloc env st sz = Some (0, st\<lparr>requests := r, last_errno := e\<rparr>)"
  | (chunk) b c cs st' where "mwalloc env st sz = Some (heapinfo st + c + 16, st')" "fr b = c # cs" "b < BINS"
      "heap_ok st' si (fr(b := cs))" "allocated (my_mwid env) st st' c" "c \<in> chunks (hdr st) b"
      "sz \<le> 2 ^ b * basechunksize (hdr st)"
proof (cases "0 < sz")
  case False
  then show ?thesis using null [where r = "requests st"] by (simp add: mwalloc_def)
next
  case True
  let ?i = "find_bin st sz si"
  have p: "pool st si fr" and seg: "findsegment_byid (segments st) 0 = Some si" and nb: "numbins (hdr st) = BINS"
    using assms(1) by (auto simp: heap_ok_def pool_def heap_seg_def header_ok_def)
  have refused: ?thesis if "alloc_loop env si (BINS - ?i) ?i st = Some (Inl q, st)" for q
    using that True seg nb assms(3) null [where r = "requests st"] null [where r = "requests st @ [ALLOCREQ sz]"]
    by (cases q) (simp_all add: mwalloc_def Let_def)
  show ?thesis
  proof (cases "?i \<le> BINS")
    case False
    then show ?thesis using refused [of False] by simp
  next
    case True
    then show ?thesis
    proof (cases rule: first_bin [where fr = fr])
      case none
      have "alloc_loop env si (BINS - ?i) ?i st = Some (Inl False, st)"
        using alloc_loop_skip [OF p none True] by simp
      then show ?thesis by (rule refused)
    next
      case (some b c cs)
      show ?thesis
      proof (cases "lock_ok env b")
        case True
        from mwalloc_take [OF assms(1) \<open>0 < sz\<close> some(1,2,3,4) True assms(2)] show ?thesis
          using chunk some by blast
      next
        case False
        have "bin_ring st b (c # cs)" using p some(2,4) by (auto simp: pool_def dest: spec [of _ b])
        then have "freecount (hdr st) ! b > 0" by (simp add: bin_ring_def)
        moreover have "BINS - b = Suc (BINS - (b + 1))" using some(2) by simp
        ultimately have "alloc_loop env si (BINS - b) b st = Some (Inl True, st)"
          using False by simp
        then show ?thesis using alloc_loop_skip [OF p some(3,1)] some(2) refused by simp
      qed
    qed
  qed
qed

section \<open>The heap as a state machine\<close>

text \<open>
  The operations of the processes on the heap, one after the other as the semaphores make
  them: allocations, writes to data of a buffer, and calls of \<open>_mwfree\<close> with the address of
  a buffer, whether it is in use or has been freed before.
\<close>

inductive heap_step :: "shmstate \<Rightarrow> shmstate \<Rightarrow> bool" where
  alloc: "mwalloc env st sz = Some (r, st') \<Longrightarrow> my_mwid env \<noteq> UNASSIGNED \<Longrightarrow>
    mwd_alloc env sz < LOW_LARGE_BUFFER_NUMBER \<Longrightarrow> heap_step st st'"
| free: "c \<in> chunks (hdr st) b \<Longrightarrow> mwfree st (heapinfo st + c + sizeof_chunkhead) = Some (rc, st') \<Longrightarrow> heap_step st st'"
| setowner: "c \<in> chunks (hdr st) b \<Longrightarrow> mwshmgetowner st (heapinfo st + c + sizeof_chunkhead) \<noteq> UNASSIGNED \<Longrightarrow>
    i \<noteq> UNASSIGNED \<Longrightarrow> heap_step st (mwshmsetowner st (heapinfo st + c + sizeof_chunkhead) i)"
| store: "heap_step st (st\<lparr>bytes := x\<rparr>)"

inductive heap_reach :: "shmstate \<Rightarrow> shmstate \<Rightarrow> bool" where
  start: "heap_reach st st"
| step: "heap_reach st st' \<Longrightarrow> heap_step st' st'' \<Longrightarrow> heap_reach st st''"

lemma set_owner_heap_ok:
  assumes "heap_ok st si fr" and "c \<in> chunks (hdr st) b" and "c \<notin> set (fr b)" and "i \<noteq> UNASSIGNED"
  shows "heap_ok (set_owner st (heapinfo st + c) i) si fr"
proof -
  have h: "header_ok (hdr st)" and p: "pool st si fr" using assms(1) by (auto simp: heap_ok_def pool_def)
  have "ownerid (heads (set_owner st (heapinfo st + c) i) (heapinfo st + x)) = UNASSIGNED \<longleftrightarrow> x \<in> set (fr d)"
    if "x \<in> chunks (hdr st) d" for x d
    using assms that chunk_bin_unique [OF h that, of b] by (auto simp: heap_ok_def set_owner_def)
  then show ?thesis
    using pool_set_owner [OF p] assms(1) by (simp add: heap_ok_def) (simp add: set_owner_def)
qed

lemma heap_step_ok:
  assumes "heap_step st st'" and "heap_ok st si fr"
  shows "\<exists>fr'. heap_ok st' si fr'"
  using assms(1)
proof cases
  case (alloc env sz r)
  from assms(2) alloc(2,3) show ?thesis
  proof (cases rule: mwalloc_cases)
    case (null r' e)
    with alloc(1) assms(2) have "heap_ok st' si fr" by (auto simp: heap_ok_env)
    then show ?thesis by blast
  next
    case (chunk b c cs st1)
    with alloc(1) show ?thesis by auto
  qed
next
  case (free c b rc)
  show ?thesis
  proof (cases "c \<in> set (fr b)")
    case True
    have "findsegment_byaddr (segments st) (heapinfo st + c + 16) = Some si" "segmentid si = 0"
      using assms(2) chunk_bounds [of "hdr st" c b] stride_pos [of "hdr st" b] free(1)
      by (auto simp: heap_ok_def pool_def heap_seg_def)
    then have "st' = st" using free(2) mwfree0_eq [OF assms(2) free(1)] True by (simp add: mwfree_def)
    with assms(2) show ?thesis by blast
  next
    case False
    from mwfree_chunk [OF assms(2) free(1) this] free(2) show ?thesis by auto
  qed
next
  case (setowner c b i)
  have "c \<notin> set (fr b)" using assms(2) setowner(2,3) by (auto simp: heap_ok_def mwshmgetowner_def)
  from set_owner_heap_ok [OF assms(2) setowner(2) this setowner(4)] show ?thesis
    unfolding setowner(1) by (auto simp: mwshmsetowner_def)
next
  case (store x)
  then show ?thesis using assms(2) by (auto simp: heap_ok_bytes)
qed

lemma heap_reach_ok: "heap_reach st st' \<Longrightarrow> heap_ok st si fr \<Longrightarrow> \<exists>fr'. heap_ok st' si fr'"
  by (induction rule: heap_reach.induct) (blast dest: heap_step_ok)+


section \<open>Reallocating and passing buffers\<close>

lemma buffer_address:
  assumes "heap_ok st si fr" and "c \<in> chunks (hdr st) b"
  shows "findsegment_byaddr (segments st) (heapinfo st + c + 16) = Some si" and "heapinfo st + c + 16 \<noteq> 0"
    and "mwshmgetsizeofchunk st (heapinfo st + c + 16) = 2 ^ b * basechunksize (hdr st)"
    and "0 < 2 ^ b * basechunksize (hdr st)"
    and "mwshmcheck st (heapinfo st + c + 16) = c + 16" and "mwoffset2adr (c + 16) (Some si) = heapinfo st + c + 16"
proof -
  have h: "header_ok (hdr st)" and seg: "heap_seg st si" and ok: "chunks_ok st"
    using assms(1) by (auto simp: heap_ok_def pool_def)
  note cb = chunk_bounds [OF h assms(2)] stride_pos [OF h, of b]
  show f: "findsegment_byaddr (segments st) (heapinfo st + c + 16) = Some si" and nz: "heapinfo st + c + 16 \<noteq> 0"
    using cb seg by (auto simp: heap_seg_def)
  have sz: "getchunksizebyadr st (heapinfo st + c + 16) (Some si) = 2 ^ b * basechunksize (hdr st)"
    using ok assms(2) nz seg by (simp add: chunks_ok_def getchunksizebyadr_def heap_seg_def)
  then show "mwshmgetsizeofchunk st (heapinfo st + c + 16) = 2 ^ b * basechunksize (hdr st)"
    by (simp add: mwshmgetsizeofchunk_def f)
  show pos: "0 < 2 ^ b * basechunksize (hdr st)" using h by (simp add: header_ok_def)
  show "mwshmcheck st (heapinfo st + c + 16) = c + 16"
    using sz h seg by (auto simp: mwshmcheck_def f mwadr2offset_def heap_seg_def header_ok_def)
  show "mwoffset2adr (c + 16) (Some si) = heapinfo st + c + 16"
    using cb seg by (auto simp: mwoffset2adr_def heap_seg_def)
qed

lemma allocated_layout:
  assumes "allocated me st st' c"
  shows "chunks (hdr st') b = chunks (hdr st) b" "stride (hdr st') b = stride (hdr st) b"
    "basechunksize (hdr st') = basechunksize (hdr st)" "heapinfo st' = heapinfo st" "bytes st' = bytes st"
    "segments st' = segments st"
  using assms layout_cong(2,3) [of "hdr st'" "hdr st" b] by (auto simp: allocated_def)

text \<open>The data areas of two chunks do not meet.\<close>

lemma data_disjoint:
  assumes "header_ok h" and "c \<in> chunks h b" and "e \<in> chunks h d" and "e \<noteq> c"
    and "0 \<le> i" and "i < 2 ^ d * basechunksize h"
  shows "\<not> (c + 16 \<le> e + 16 + i \<and> e + 16 + i < c + 16 + 2 ^ b * basechunksize h)"
  using chunks_disjoint [OF assms(1,2,3)] assms(4-6) by (auto simp: stride_def)

lemma copy_bytes_simps [simp]:
  "heapinfo (copy_bytes st d s n) = heapinfo st" "hdr (copy_bytes st d s n) = hdr st"
  "segments (copy_bytes st d s n) = segments st" "heads (copy_bytes st d s n) = heads st"
  "heap_ok (copy_bytes st d s n) si fr = heap_ok st si fr"
  by (simp_all add: copy_bytes_def heap_ok_bytes)

lemma mwrealloc_moves:
  assumes "heap_ok st si fr" and "c \<in> chunks (hdr st) b" and "c \<notin> set (fr b)"
    and "2 ^ b * basechunksize (hdr st) \<le> newsize"
    and "find_bin st newsize si \<le> d" and "d < BINS" and "\<forall>k. find_bin st newsize si \<le> k \<and> k < d \<longrightarrow> fr k = []"
    and "fr d = e # es" and "lock_ok env d" and "my_mwid env \<noteq> UNASSIGNED"
  shows "\<exists>st' fr'. mwrealloc env st (heapinfo st + c + 16) newsize = Some (heapinfo st + e + 16, st') \<and>
    heap_ok st' si fr' \<and> newsize \<le> 2 ^ d * basechunksize (hdr st') \<and>
    (\<forall>i. 0 \<le> i \<and> i < 2 ^ b * basechunksize (hdr st) \<longrightarrow>
       bytes st' (heapinfo st + e + 16 + i) = bytes st (heapinfo st + c + 16 + i))"
proof -
  let ?n = "2 ^ b * basechunksize (hdr st)" and ?old = "heapinfo st + c + 16" and ?new = "heapinfo st + e + 16"
  note ba = buffer_address [OF assms(1,2)]
  have "0 < newsize" using ba(4) assms(4) by linarith
  then obtain s1 where s1: "mwalloc env st newsize = Some (?new, s1)" "heap_ok s1 si (fr(d := es))"
    "allocated (my_mwid env) st s1 e" "e \<in> chunks (hdr st) d" "newsize \<le> 2 ^ d * basechunksize (hdr st)"
    using mwalloc_take [OF assms(1) _ assms(5,6,7,8,9,10)] by blast
  note al = allocated_layout [OF s1(3)]
  let ?s2 = "copy_bytes s1 ?new ?old ?n"
  have h: "header_ok (hdr st)" using assms(1) by (simp add: heap_ok_def pool_def)
  have ec: "e \<noteq> c"
  proof
    assume "e = c"
    then have "d = b" using chunk_bin_unique [OF h s1(4)] assms(2) by blast
    then show False using \<open>e = c\<close> assms(3,8) by simp
  qed
  have "c \<in> chunks (hdr ?s2) b" "c \<notin> set ((fr(d := es)) b)" "heap_ok ?s2 si (fr(d := es))"
    using assms(2,3,8) s1(2) al by auto
  then obtain st' where st': "mwfree ?s2 ?old = Some (0, st')"
    "heap_ok st' si ((fr(d := es))(b := ring_insert c ((fr(d := es)) b)))" "freed ?s2 st' c b"
    using mwfree_chunk [of ?s2 si "fr(d := es)" c b] al by auto
  have new: "?new \<noteq> 0" by (rule buffer_address [OF assms(1) s1(4)])
  have "mwrealloc env st ?old newsize = Some (?new, st')"
    using ba assms(4) s1(1) st'(1) new by (simp add: mwrealloc_def Let_def min_absorb1)
  moreover have "bytes st' (?new + i) = bytes st (?old + i)" if "0 \<le> i" "i < ?n" for i
  proof -
    have "i < 2 ^ d * basechunksize (hdr st)" using that assms(4) s1(5) by linarith
    then have "\<not> (?old \<le> ?new + i \<and> ?new + i < ?old + ?n)"
      using data_disjoint [OF h assms(2) s1(4) ec that(1)] by simp
    then have "bytes st' (?new + i) = bytes ?s2 (?new + i)" using st'(3) al by (simp add: freed_def) blast
    also have "\<dots> = bytes st (?old + i)" using that al by (simp add: copy_bytes_def)
    finally show ?thesis .
  qed
  moreover have "basechunksize (hdr st') = basechunksize (hdr st)" using st'(3) al by (simp add: freed_def)
  ultimately show ?thesis using st'(2) s1(5) by auto
qed

text \<open>Data that is not in a shared buffer is put in one of the heap's.\<close>

lemma putbuffer_heap:
  assumes "heap_ok st si fr" and "0 < len" and "data \<noteq> 0" and "mwshmcheck st data = -1"
    and "find_bin st len si \<le> b" and "b < BINS" and "\<forall>k. find_bin st len si \<le> k \<and> k < b \<longrightarrow> fr k = []"
    and "fr b = c # cs" and "lock_ok env b" and "my_mwid env \<noteq> UNASSIGNED"
  shows "\<exists>st'. mw_putbuffer_to_call env st call data len slen =
      Some (0, call\<lparr>datasegmentid := 0, cdata := c + 16, cdatalen := len\<rparr>, st') \<and>
    heap_ok st' si (fr(b := cs)) \<and> c \<in> chunks (hdr st') b \<and> basechunksize (hdr st') = basechunksize (hdr st) \<and>
    heapinfo st' = heapinfo st \<and> c \<notin> set cs \<and> c \<in> chunks (hdr st) b \<and> len \<le> 2 ^ b * basechunksize (hdr st) \<and>
    bytes st' = bytes (copy_bytes st (heapinfo st + c + 16) data len) \<and> segments st' = segments st"
proof -
  obtain s1 where s1: "mwalloc env st len = Some (heapinfo st + c + 16, s1)" "heap_ok s1 si (fr(b := cs))"
    "allocated (my_mwid env) st s1 c" "c \<in> chunks (hdr st) b" "len \<le> 2 ^ b * basechunksize (hdr st)"
    using mwalloc_take [OF assms(1,2,5,6,7,8,9,10)] by blast
  note al = allocated_layout [OF s1(3)]
  let ?s2 = "copy_bytes s1 (heapinfo st + c + 16) data len"
  have ok2: "heap_ok ?s2 si (fr(b := cs))" and c2: "c \<in> chunks (hdr ?s2) b" using s1(2,4) al by auto
  note ba = buffer_address [OF ok2 c2]
  have "distinct (fr b)" "segmentid si = 0"
    using assms(1,6) by (auto simp: heap_ok_def pool_def bin_ring_def heap_seg_def)
  then have "c \<notin> set cs" "segmentid si = 0" using assms(8) by auto
  with ba assms(2,3,4) s1 al c2 ok2 show ?thesis
    by (intro exI [of _ ?s2]) (auto simp: mw_putbuffer_to_call_def Let_def copy_bytes_def)
qed


lemma getbuffer_heap:
  assumes "heap_ok st si fr" and "c \<in> chunks (hdr st) b" and "c \<notin> set (fr b)" and "0 < len"
    and "len < 2 ^ b * basechunksize (hdr st)" and "len \<le> c + 16"
    and "datasegmentid call = 0" and "cdata call = c + 16" and "cdatalen call = len"
  shows "\<exists>st'. mw_getbuffer_from_call env st call = Some (0, Some (get_bytes st (heapinfo st + c + 16) len), len, st')
    \<and> heap_ok st' si (fr(b := ring_insert c (fr b))) \<and> freed st st' c b"
proof -
  obtain s where s: "mwfree st (heapinfo st + c + 16) = Some (0, s)" "heap_ok s si (fr(b := ring_insert c (fr b)))"
    "freed st s c b"
    using mwfree_chunk [OF assms(1-3)] by blast
  have "findsegment_byid (segments st) 0 = Some si"
    using assms(1) by (simp add: heap_ok_def pool_def heap_seg_def)
  then show ?thesis using assms(4-) buffer_address [OF assms(1,2)] s
    by (simp add: mw_getbuffer_from_call_def mw_getsegment_byid_def Let_def)
qed

section \<open>A small heap\<close>

text \<open>For the examples: one chunk per size, two of the smallest, of 64 octets.\<close>

definition blank_state :: shmstate where
  "blank_state = \<lparr>heapinfo = 0, hdr = format_header 64 1, heads = (\<lambda>_. \<lparr>ownerid = 0, csize = 0\<rparr>),
     feet = (\<lambda>_. \<lparr>above = 0, nextc = 0, prevc = 0\<rparr>), bytes = (\<lambda>_. 0), segments = [], requests = [], last_errno = 0\<rparr>"

definition demo_heap :: shmstate where
  "demo_heap = the (shmb_format 4096 64 1 blank_state)"

definition demo_env :: shmenv where
  "demo_env = \<lparr>my_mwid = 7, lock_ok = (\<lambda>_. True), mwd_alloc = (\<lambda>_. -1), os_errno = 0, mmap_file = (\<lambda>_. None)\<rparr>"

abbreviation demo_seg :: seginfo where "demo_seg \<equiv> heap_segment 4096 64 1"

lemma demo_heap_ok:
  "heap_ok demo_heap demo_seg (all_chunks (hdr demo_heap))" "heapinfo demo_heap = 4096"
  "basechunksize (hdr demo_heap) = 64" "chunkspersize (hdr demo_heap) = 1"
  using shmb_format_heap_ok [of 4096 64 1 blank_state] by (auto simp: demo_heap_def blank_state_def)

lemma demo_chunks: "all_chunks (hdr demo_heap) 0 = [112, 216]" "chunks (hdr demo_heap) 0 = {112, 216}"
proof -
  show l: "all_chunks (hdr demo_heap) 0 = [112, 216]"
    by (simp add: all_chunks_def chunk_at_def chunks_in_bin_def demo_heap_ok stride_def upt_rec numeral_2_eq_2)
  show "chunks (hdr demo_heap) 0 = {112, 216}" by (simp flip: set_all_chunks add: l)
qed

lemma demo_find_bin: "0 < sz \<Longrightarrow> sz \<le> 64 \<Longrightarrow> find_bin demo_heap sz demo_seg = 0"
proof -
  assume "0 < sz" "sz \<le> 64"
  then have "(sz + 63) div 64 = 1" by auto
  then show ?thesis by (simp add: find_bin_def heap_segment_def demo_heap_ok)
qed

text \<open>The same heap after an allocation of ten octets.\<close>

definition demo_used :: shmstate where
  "demo_used = snd (the (mwalloc demo_env demo_heap 10))"

lemma demo_used_ok:
  "heap_ok demo_used demo_seg ((all_chunks (hdr demo_heap))(0 := [216]))" "heapinfo demo_used = 4096"
  "basechunksize (hdr demo_used) = 64" "chunks (hdr demo_used) b = chunks (hdr demo_heap) b"
  "112 \<in> chunks (hdr demo_used) 0"
proof -
  obtain st' where st': "mwalloc demo_env demo_heap 10 = Some (heapinfo demo_heap + 112 + 16, st')"
    "heap_ok st' demo_seg ((all_chunks (hdr demo_heap))(0 := [216]))" "allocated (my_mwid demo_env) demo_heap st' 112"
    using mwalloc_take [OF demo_heap_ok(1), of 10 0 112 "[216]" demo_env]
    by (auto simp: demo_find_bin demo_chunks demo_env_def)
  then have u: "demo_used = st'" by (simp add: demo_used_def)
  note al = allocated_layout [OF st'(3)]
  show "heap_ok demo_used demo_seg ((all_chunks (hdr demo_heap))(0 := [216]))" using st'(2) u by simp
  show "heapinfo demo_used = 4096" "basechunksize (hdr demo_used) = 64"
    "chunks (hdr demo_used) b = chunks (hdr demo_heap) b" "112 \<in> chunks (hdr demo_used) 0"
    using al u demo_heap_ok demo_chunks by simp_all
qed

section \<open>Properties\<close>

text \<open>
  A new heap is in order: for 1 to 694 chunks per size \<open>shmb_format\<close> returns, every
  chunk of the five formatted bins is in the ring of its bin, linked in both directions,
  has the size of the bin and no owner, and lies inside the segment.
\<close>

theorem shm_format_establishes:
  assumes "0 < a" and "1 \<le> cs" and "16 * cs < 2 ^ 31" and "1 \<le> cps" and "cps \<le> 694" and "segments st = []"
  shows "\<exists>st'. shmb_format a cs cps st = Some st' \<and> heap_ok st' (heap_segment a cs cps) (all_chunks (hdr st')) \<and>
    (\<forall>b. \<forall>c \<in> chunks (hdr st') b. 112 \<le> c \<and> c + stride (hdr st') b \<le> segmentsize (hdr st'))"
proof -
  obtain st' where st': "shmb_format a cs cps st = Some st'"
    "heap_ok st' (heap_segment a cs cps) (all_chunks (hdr st'))"
    using shmb_format_heap_ok [OF assms] by blast
  then have "header_ok (hdr st')" by (simp add: heap_ok_def pool_def)
  with st' chunk_bounds show ?thesis by (fastforce intro: exI [of _ st'])
qed

theorem shm_format_establishes_witness:
  "\<exists>st'. shmb_format 4096 64 1 blank_state = Some st' \<and> heap_ok st' (heap_segment 4096 64 1) (all_chunks (hdr st')) \<and>
    (\<forall>b. \<forall>c \<in> chunks (hdr st') b. 112 \<le> c \<and> c + stride (hdr st') b \<le> segmentsize (hdr st'))"
  by (rule shm_format_establishes) (simp_all add: blank_state_def)

text \<open>
  The segment is created too small for more than 694 chunks per size: the end of the
  chunks, as \<open>_mw_gettopofbin\<close> computes it for the end of the last formatted bin, lies
  within the size asked for exactly up to that number, because the macro for the overhead
  is a sum without parentheses.
\<close>

theorem shm_segment_too_small:
  assumes "1 \<le> cs" and "16 * cs < 2 ^ 31" and "1 \<le> cps" and "cps < 2 ^ 15"
  shows "mw_gettopofbin (format_header cs cps) 5 \<le> segment_size cs cps \<longleftrightarrow> cps \<le> 694"
proof -
  have c: "chunkspersize (format_header cs cps) = cps" and b: "basechunksize (format_header cs cps) = cs"
    using assms by (simp_all add: format_header_def signed_of_int signed_take_bit_int_eq_self)
  have "mw_gettopofbin (format_header cs cps) 5 = 112 + 240 * cps + 32 * cs * cps"
    by (simp add: eval_nat_numeral Let_def b c algebra_simps)
  then show ?thesis by (simp add: segment_size_def) auto
qed

theorem shm_segment_too_small_witness:
  "mw_gettopofbin (format_header 1024 1000) 5 \<le> segment_size 1024 1000 \<longleftrightarrow> (1000 :: int) \<le> 694"
  by (rule shm_segment_too_small) simp_all

text \<open>
  C16. Allocation: when a bin that is large enough has a free chunk, \<open>_mwalloc\<close> returns
  the buffer of the first chunk in the ring of the first such bin. The buffer holds the
  requested size, was owned by nobody and is now owned by the caller, no other owner and
  no data changed, and the heap stays in order with that chunk taken out.
\<close>

theorem shm_alloc:
  assumes "heap_ok st si fr" and "0 < sz" and "find_bin st sz si \<le> b" and "b < BINS"
    and "\<forall>d. find_bin st sz si \<le> d \<and> d < b \<longrightarrow> fr d = []" and "fr b = c # cs"
    and "lock_ok env b" and "my_mwid env \<noteq> UNASSIGNED"
  shows "\<exists>st'. mwalloc env st sz = Some (heapinfo st + c + sizeof_chunkhead, st') \<and>
    heap_ok st' si (fr(b := cs)) \<and> sz \<le> mwshmgetsizeofchunk st' (heapinfo st + c + sizeof_chunkhead) \<and>
    mwshmgetowner st (heapinfo st + c + sizeof_chunkhead) = UNASSIGNED \<and>
    mwshmgetowner st' (heapinfo st + c + sizeof_chunkhead) = my_mwid env \<and>
    (\<forall>a. a \<noteq> heapinfo st + c \<longrightarrow> heads st' a = heads st a) \<and> bytes st' = bytes st"
proof -
  obtain st' where st': "mwalloc env st sz = Some (heapinfo st + c + 16, st')" "heap_ok st' si (fr(b := cs))"
    "allocated (my_mwid env) st st' c" "c \<in> chunks (hdr st) b" "sz \<le> 2 ^ b * basechunksize (hdr st)"
    using mwalloc_take [OF assms] by blast
  note al = allocated_layout [OF st'(3)]
  have "ownerid (heads st (heapinfo st + c)) = UNASSIGNED" using assms(1,6) st'(4) by (auto simp: heap_ok_def)
  moreover have "mwshmgetsizeofchunk st' (heapinfo st + c + 16) = 2 ^ b * basechunksize (hdr st)"
    using buffer_address(3) [OF st'(2), of c b] st'(4) al by simp
  ultimately show ?thesis using st' al by (auto simp: mwshmgetowner_def allocated_def)
qed

theorem shm_alloc_witness:
  "\<exists>st'. mwalloc demo_env demo_heap 10 = Some (heapinfo demo_heap + 112 + sizeof_chunkhead, st') \<and>
    heap_ok st' demo_seg ((all_chunks (hdr demo_heap))(0 := [216])) \<and>
    10 \<le> mwshmgetsizeofchunk st' (heapinfo demo_heap + 112 + sizeof_chunkhead) \<and>
    mwshmgetowner demo_heap (heapinfo demo_heap + 112 + sizeof_chunkhead) = UNASSIGNED \<and>
    mwshmgetowner st' (heapinfo demo_heap + 112 + sizeof_chunkhead) = my_mwid demo_env \<and>
    (\<forall>a. a \<noteq> heapinfo demo_heap + 112 \<longrightarrow> heads st' a = heads demo_heap a) \<and> bytes st' = bytes demo_heap"
  by (rule shm_alloc [OF demo_heap_ok(1)]) (simp_all add: demo_find_bin demo_chunks demo_env_def)


text \<open>
  C17. Freeing: \<open>_mwfree\<close> with the address of a buffer in use returns 0, clears the
  buffer and no other octet, takes the owner away, and puts the chunk second in the ring
  of its bin; a second call for the same address is refused and changes nothing.
\<close>

theorem shm_free:
  assumes "heap_ok st si fr" and "c \<in> chunks (hdr st) b" and "c \<notin> set (fr b)"
  shows "\<exists>st'. mwfree st (heapinfo st + c + sizeof_chunkhead) = Some (0, st') \<and>
    heap_ok st' si (fr(b := ring_insert c (fr b))) \<and>
    mwshmgetowner st' (heapinfo st + c + sizeof_chunkhead) = UNASSIGNED \<and>
    (\<forall>a. bytes st' a = (if heapinfo st + c + sizeof_chunkhead \<le> a \<and>
        a < heapinfo st + c + sizeof_chunkhead + mwshmgetsizeofchunk st (heapinfo st + c + sizeof_chunkhead)
      then 0 else bytes st a)) \<and>
    mwfree st' (heapinfo st + c + sizeof_chunkhead) = Some (-1, st')"
proof -
  obtain st' where st': "mwfree st (heapinfo st + c + 16) = Some (0, st')"
    "heap_ok st' si (fr(b := ring_insert c (fr b)))" "freed st st' c b"
    using mwfree_chunk [OF assms] by blast
  have eq: "heapinfo st' = heapinfo st" "chunks (hdr st') b = chunks (hdr st) b"
    using st'(3) layout_cong(3) [of "hdr st'" "hdr st" b] by (simp_all add: freed_def)
  have "mwfree st' (heapinfo st + c + 16) = Some (-1, st')"
    using mwfree0_eq [OF st'(2), of c b] buffer_address(1) [OF st'(2), of c b] st'(2) assms(2) eq
    by (simp add: mwfree_def heap_ok_def pool_def heap_seg_def)
  then show ?thesis
    using st' buffer_address(3) [OF assms(1,2)] by (auto simp: freed_def mwshmgetowner_def)
qed

theorem shm_free_witness:
  "\<exists>st'. mwfree demo_used (heapinfo demo_used + 112 + sizeof_chunkhead) = Some (0, st') \<and>
    heap_ok st' demo_seg ((all_chunks (hdr demo_heap))(0 := [216], 0 := ring_insert 112 [216])) \<and>
    mwshmgetowner st' (heapinfo demo_used + 112 + sizeof_chunkhead) = UNASSIGNED \<and>
    (\<forall>a. bytes st' a = (if heapinfo demo_used + 112 + sizeof_chunkhead \<le> a \<and>
        a < heapinfo demo_used + 112 + sizeof_chunkhead +
            mwshmgetsizeofchunk demo_used (heapinfo demo_used + 112 + sizeof_chunkhead)
      then 0 else bytes demo_used a)) \<and>
    mwfree st' (heapinfo demo_used + 112 + sizeof_chunkhead) = Some (-1, st')"
  using shm_free [OF demo_used_ok(1) demo_used_ok(5)] by simp

text \<open>
  C9. The heap stays in order: in every state that allocations, calls of \<open>_mwfree\<close> on
  addresses of buffers (used, free or freed twice), changes of owner and writes to the
  data reach from a formatted heap, every chunk is either in the ring of its bin or owned,
  never both, the rings are linked in both directions, and the counter of buffers in use
  is right.
\<close>

theorem shm_heap_invariant:
  assumes "0 < a" and "1 \<le> cs" and "16 * cs < 2 ^ 31" and "1 \<le> cps" and "cps \<le> 694" and "segments st = []"
    and "shmb_format a cs cps st = Some st'" and "heap_reach st' st''"
  shows "\<exists>fr. heap_ok st'' (heap_segment a cs cps) fr"
proof -
  have "heap_ok st' (heap_segment a cs cps) (all_chunks (hdr st'))"
    using shmb_format_heap_ok [OF assms(1-6)] assms(7) by auto
  from heap_reach_ok [OF assms(8) this] show ?thesis .
qed

theorem shm_heap_invariant_witness:
  "\<exists>fr. heap_ok demo_used demo_seg fr"
proof (rule shm_heap_invariant [of 4096 64 1 blank_state demo_heap])
  show "shmb_format 4096 64 1 blank_state = Some demo_heap"
    using shmb_format_heap_ok [of 4096 64 1 blank_state] by (auto simp: demo_heap_def blank_state_def)
  obtain st' where "mwalloc demo_env demo_heap 10 = Some (heapinfo demo_heap + 112 + 16, st')"
    using mwalloc_take [OF demo_heap_ok(1), of 10 0 112 "[216]" demo_env]
    by (auto simp: demo_find_bin demo_chunks demo_env_def)
  then have "heap_step demo_heap demo_used"
    by (intro heap_step.alloc [of demo_env _ 10]) (auto simp: demo_used_def demo_env_def)
  then show "heap_reach demo_heap demo_used" by (blast intro: heap_reach.intros)
qed (simp_all add: blank_state_def)

text \<open>
  A bin is handed out once: taking chunks from the ring of a bin as long as it has any
  yields each free chunk of the bin exactly once and in the order of the ring, and then
  nothing; a chunk put back is the second to be taken again.
\<close>

theorem shm_ring_drain:
  assumes "heap_ok st si fr" and "b < BINS"
  shows "\<exists>st'. shm.pops (length (fr b)) (si, st) b = Some (fr b, si, st') \<and> distinct (fr b) \<and>
    popchunk st' b si = Some (0, st') \<and>
    (\<forall>r cs c. fr b = r # cs \<longrightarrow> c \<in> chunks (hdr st) b \<longrightarrow> c \<notin> set (fr b) \<longrightarrow>
      (\<exists>s' s''. ring_push_op (si, st) c b = Some s' \<and> shm.pops 2 s' b = Some ([r, c], s'')))"
proof -
  have p: "pool st si fr" using assms(1) by (simp add: heap_ok_def)
  obtain si' st' where st': "shm.pops (length (fr b)) (si, st) b = Some (fr b, si', st')"
    "pool st' si' (fr(b := []))"
    using shm.pops_drain [of "(si, st)" fr b "length (fr b)"] p assms(2) by auto
  have keep: "shm.pops n s b = Some (cs, s') \<Longrightarrow> fst s' = fst s" for n s cs s'
    by (induction n arbitrary: s cs s') (auto simp: ring_pop_op_def split: option.splits)
  have si: "si' = si" using keep [OF st'(1)] by simp
  have "bin_ring st' b []" using st'(2) assms(2) by (auto simp: pool_def dest: spec [of _ b])
  then have "popchunk st' b si = Some (0, st')" by (simp add: popchunk_def bin_ring_def)
  moreover have "\<exists>s' s''. ring_push_op (si, st) c b = Some s' \<and> shm.pops 2 s' b = Some ([r, c], s'')"
    if "fr b = r # cs" "c \<in> chunks (hdr st) b" "c \<notin> set (fr b)" for r cs c
    using shm.push_pops [of "(si, st)" fr b r cs c] p assms(2) that by auto
  moreover have "distinct (fr b)" using p assms(2) by (simp add: pool_def bin_ring_def)
  ultimately show ?thesis using st'(1) si by blast
qed

theorem shm_ring_drain_witness:
  "\<exists>st'. shm.pops (length ((all_chunks (hdr demo_heap)) 0)) (demo_seg, demo_heap) 0 =
      Some (all_chunks (hdr demo_heap) 0, demo_seg, st') \<and> popchunk st' 0 demo_seg = Some (0, st')"
  using shm_ring_drain [OF demo_heap_ok(1), of 0] by auto




text \<open>
  C28. Data passes from caller to service: what \<open>_mw_putbuffer_to_call\<close> copies from the
  caller's memory into a heap buffer is what \<open>_mw_getbuffer_from_call\<close> returns for that
  message, and the chunk is free again after it, provided the data is shorter than the
  chunk and not longer than the chunk's offset in the segment.
\<close>

theorem shm_call_roundtrip:
  assumes "heap_ok st si fr" and "0 < len" and "data \<noteq> 0" and "mwshmcheck st data = -1"
    and "find_bin st len si \<le> b" and "b < BINS" and "\<forall>k. find_bin st len si \<le> k \<and> k < b \<longrightarrow> fr k = []"
    and "fr b = c # cs" and "lock_ok env b" and "my_mwid env \<noteq> UNASSIGNED"
    and "len < 2 ^ b * basechunksize (hdr st)" and "len \<le> c + sizeof_chunkhead"
  shows "\<exists>call' st1 st2. mw_putbuffer_to_call env st call data len slen = Some (0, call', st1) \<and>
    mw_getbuffer_from_call env st1 call' = Some (0, Some (get_bytes st data len), len, st2) \<and>
    heap_ok st2 si (fr(b := ring_insert c cs))"
proof -
  let ?call = "call\<lparr>datasegmentid := 0, cdata := c + 16, cdatalen := len\<rparr>" and ?p = "heapinfo st + c + 16"
  obtain s1 where s1: "mw_putbuffer_to_call env st call data len slen = Some (0, ?call, s1)"
    "heap_ok s1 si (fr(b := cs))" "c \<in> chunks (hdr s1) b" "basechunksize (hdr s1) = basechunksize (hdr st)"
    "heapinfo s1 = heapinfo st" "c \<notin> set cs" "bytes s1 = bytes (copy_bytes st ?p data len)"
    using putbuffer_heap [OF assms(1-10)] by blast
  have "get_bytes s1 ?p len = get_bytes st data len" by (auto simp: get_bytes_def s1(7) copy_bytes_def)
  moreover obtain s2 where "mw_getbuffer_from_call env s1 ?call = Some (0, Some (get_bytes s1 ?p len), len, s2)"
    "heap_ok s2 si (fr(b := ring_insert c cs))"
    using getbuffer_heap [OF s1(2,3), of len ?call env] s1(4-6) assms(2,11,12) by auto
  ultimately show ?thesis using s1(1) by auto
qed

lemma demo_segments: "segments demo_heap = [demo_seg]"
proof -
  obtain st' where "format_bins demo_seg 1 5 0 112
      ((mw_addsegment blank_state 0 (-1) 4096 (4096 + segment_size 64 1))\<lparr>heapinfo := 4096, hdr := format_header 64 1\<rparr>) = Some st'"
    "segments st' = [demo_seg]"
    using format_bins_spec [of "format_header 64 1" demo_seg 0 5
        "(mw_addsegment blank_state 0 (-1) 4096 (4096 + segment_size 64 1))\<lparr>heapinfo := 4096, hdr := format_header 64 1\<rparr>" 1]
      format_header_ok [of 64 1]
    by (auto simp: format_room_def heap_segment_def mw_addsegment_def addsegment_def blank_state_def
        format_header_def header_like_def)
  then show ?thesis
    by (simp add: demo_heap_def shmb_format_def Let_def heap_segment_def set_root_def)
qed

lemma demo_foreign: "mwshmcheck demo_heap 10 = -1"
  using demo_segments by (simp add: mwshmcheck_def findsegment_byaddr_def heap_segment_def)

theorem shm_call_roundtrip_witness:
  "\<exists>call' st1 st2. mw_putbuffer_to_call demo_env demo_heap \<lparr>datasegmentid = 0, cdata = 0, cdatalen = 0\<rparr> 10 20 0 =
      Some (0, call', st1) \<and>
    mw_getbuffer_from_call demo_env st1 call' = Some (0, Some (get_bytes demo_heap 10 20), 20, st2) \<and>
    heap_ok st2 demo_seg ((all_chunks (hdr demo_heap))(0 := ring_insert 112 [216]))"
  by (rule shm_call_roundtrip [OF demo_heap_ok(1)])
    (simp_all add: demo_find_bin demo_chunks demo_env_def demo_foreign demo_heap_ok)


text \<open>
  Data that fills its chunk never arrives: the check of the receiving side asks for a
  chunk larger than the data, so for data of exactly the size of the chunk it was given
  the receiver gets an error and no data, and the chunk stays in use.
\<close>

theorem shm_call_full_buffer_lost:
  assumes "heap_ok st si fr" and "0 < len" and "data \<noteq> 0" and "mwshmcheck st data = -1"
    and "find_bin st len si \<le> b" and "b < BINS" and "\<forall>k. find_bin st len si \<le> k \<and> k < b \<longrightarrow> fr k = []"
    and "fr b = c # cs" and "lock_ok env b" and "my_mwid env \<noteq> UNASSIGNED"
    and "len = 2 ^ b * basechunksize (hdr st)"
  shows "\<exists>call' st1 rc. mw_putbuffer_to_call env st call data len slen = Some (0, call', st1) \<and>
    mw_getbuffer_from_call env st1 call' = Some (rc, None, len, st1) \<and> rc < 0 \<and> heap_ok st1 si (fr(b := cs))"
proof -
  let ?call = "call\<lparr>datasegmentid := 0, cdata := c + 16, cdatalen := len\<rparr>" and ?p = "heapinfo st + c + 16"
  obtain s1 where s1: "mw_putbuffer_to_call env st call data len slen = Some (0, ?call, s1)"
    "heap_ok s1 si (fr(b := cs))" "c \<in> chunks (hdr s1) b" "basechunksize (hdr s1) = basechunksize (hdr st)"
    "heapinfo s1 = heapinfo st"
    using putbuffer_heap [OF assms(1-10)] by blast
  note ba = buffer_address [OF s1(2,3), unfolded s1(4,5)]
  have "findsegment_byid (segments s1) 0 = Some si"
    using s1(2) by (simp add: heap_ok_def pool_def heap_seg_def)
  then have "\<exists>rc. mw_getbuffer_from_call env s1 ?call = Some (rc, None, len, s1) \<and> rc < 0"
    using assms(2,11) ba by (auto simp: mw_getbuffer_from_call_def mw_getsegment_byid_def Let_def)
  then show ?thesis using s1(1,2) by blast
qed

theorem shm_call_full_buffer_lost_witness:
  "\<exists>call' st1 rc. mw_putbuffer_to_call demo_env demo_heap \<lparr>datasegmentid = 0, cdata = 0, cdatalen = 0\<rparr> 10 64 0 =
      Some (0, call', st1) \<and>
    mw_getbuffer_from_call demo_env st1 call' = Some (rc, None, 64, st1) \<and> rc < 0 \<and>
    heap_ok st1 demo_seg ((all_chunks (hdr demo_heap))(0 := [216]))"
  by (rule shm_call_full_buffer_lost [OF demo_heap_ok(1)])
    (simp_all add: demo_find_bin demo_chunks demo_env_def demo_foreign demo_heap_ok)

text \<open>
  Large buffers are refused by every receiver: the data of a buffer file lies at
  offset 16, and the receiver compares that offset with the length of the data where the
  size of the chunk is meant, so a message with more than 16 octets in such a buffer gets
  the error of a corrupt message.
\<close>

theorem shm_call_large_refused:
  assumes "0 < segstart si" and "segstart si + sizeof_chunkhead \<le> segend si" and "segmentid si \<noteq> 0"
    and "findsegment_byid (segments st) (segmentid si) = Some si"
    and "findsegment_byaddr (segments st) (segstart si + sizeof_chunkhead) = Some si"
    and "datasegmentid call = segmentid si" and "cdata call = mwadr2offset (segments st) (segstart si + sizeof_chunkhead) (Some si)"
    and "sizeof_chunkhead < cdatalen call"
  shows "mw_getbuffer_from_call env st call = Some (- errno_num EBADMSG, None, cdatalen call, st)"
proof -
  have "cdata call = 16" using assms(7) by (simp add: mwadr2offset_def)
  then have ptr: "mwoffset2adr (cdata call) (Some si) = segstart si + 16"
    using assms(1,2) by (simp add: mwoffset2adr_def)
  have "mwshmcheck st (segstart si + 16) \<in> {-1, 16}" by (simp add: mwshmcheck_def assms(5) mwadr2offset_def)
  then have "mwshmcheck st (segstart si + 16) < cdatalen call" using assms(8) by auto
  then show ?thesis
    using assms(4,6,8) by (simp add: mw_getbuffer_from_call_def mw_getsegment_byid_def ptr Let_def)
qed

theorem shm_call_large_refused_witness:
  "mw_getbuffer_from_call demo_env
     (blank_state\<lparr>segments := [\<lparr>segmentid = 1000, segfd = 4, segstart = 65536, segend = 131072\<rparr>],
        heads := (\<lambda>_. \<lparr>ownerid = 7, csize = 65000\<rparr>)\<rparr>)
     \<lparr>datasegmentid = 1000, cdata = 16, cdatalen = 60000\<rparr> =
   Some (- errno_num EBADMSG, None, cdatalen \<lparr>datasegmentid = 1000, cdata = 16, cdatalen = 60000\<rparr>,
     blank_state\<lparr>segments := [\<lparr>segmentid = 1000, segfd = 4, segstart = 65536, segend = 131072\<rparr>],
        heads := (\<lambda>_. \<lparr>ownerid = 7, csize = 65000\<rparr>)\<rparr>)"
  by (rule shm_call_large_refused [of "\<lparr>segmentid = 1000, segfd = 4, segstart = 65536, segend = 131072\<rparr>"])
    (simp_all add: findsegment_byid_def findsegment_byaddr_def mwadr2offset_def)

end
