(* ===== verification/EventProps.thy ===== *)
theory EventProps
  imports Events ShmProps "HOL-Library.Multiset"
begin

text \<open>
  Properties of the event queues: what a delivery puts on the message queues, when the
  buffer of an event is released, what unsubscribing and clearing leave behind, and the
  invariant of the queues.
\<close>

section \<open>Sending is independent of the queues\<close>

text \<open>Look-ups depend on the tables only.\<close>

lemma get_client_cong:
  assumes "ipcmain st' = ipcmain st" "clttbl st' = clttbl st"
  shows "mw_get_client_byid st' i = mw_get_client_byid st i"
  by (simp only: mw_get_client_byid_def assms)

lemma get_server_cong:
  assumes "ipcmain st' = ipcmain st" "srvtbl st' = srvtbl st"
  shows "mw_get_server_byid st' i = mw_get_server_byid st i"
  by (simp only: mw_get_server_byid_def assms)

lemma get_mqid_cong:
  assumes "ipcmain st' = ipcmain st" "clttbl st' = clttbl st" "srvtbl st' = srvtbl st" "gwtbl st' = gwtbl st"
  shows "mw_get_mqid_by_mwid st' i = mw_get_mqid_by_mwid st i"
  by (simp only: mw_get_mqid_by_mwid_def mw_get_client_byid_def mw_get_server_byid_def
      mw_get_gateway_byid_def mw_mwd_mqid_def assms)

lemma client_wanted_cong:
  assumes "ipcmain st' = ipcmain st" "clttbl st' = clttbl st"
    and "ev_username m' = ev_username m" "ev_clientname m' = ev_clientname m"
  shows "client_wanted st' se m' = client_wanted st se m"
  by (simp only: client_wanted_def get_client_cong [OF assms(1,2)] assms)

lemma get_mqid_simps [simp]:
  "mw_get_mqid_by_mwid (st\<lparr>msgq := q\<rparr>) i = mw_get_mqid_by_mwid st i"
  "mw_get_mqid_by_mwid (st\<lparr>eventqueue := x, eventqueuelen := n\<rparr>) i = mw_get_mqid_by_mwid st i"
  by (rule get_mqid_cong; simp)+

lemma client_wanted_simps [simp]:
  "client_wanted (st\<lparr>msgq := q\<rparr>) se m = client_wanted st se m"
  "client_wanted (st\<lparr>eventqueue := x, eventqueuelen := n\<rparr>) se m = client_wanted st se m"
  "client_wanted (push_blockingqueue st i m') se m = client_wanted st se m"
  "client_wanted st se (m\<lparr>ev_subscriptionid := i\<rparr>) = client_wanted st se m"
  "client_wanted st se (m\<lparr>senderid := i\<rparr>) = client_wanted st se m"
  by (rule client_wanted_cong; simp add: push_blockingqueue_def)+

section \<open>Delivery\<close>

text \<open>
  The reference: the subscriptions that ask for an event, and those of them whose member
  has a message queue.
\<close>

definition wants :: "mwenv \<Rightarrow> mwdstate \<Rightarrow> event \<Rightarrow> subscribe_event \<Rightarrow> bool" where
  "wants env st m se \<longleftrightarrow> client_wanted st se m \<and> pattern_matches env se (ev_event m)"

definition reachable :: "mwdstate \<Rightarrow> subscribe_event \<Rightarrow> bool" where
  "reachable st se \<longleftrightarrow>
     0 \<le> mw_get_mqid_by_mwid st (se_id se) \<and> msgq st (mw_get_mqid_by_mwid st (se_id se)) \<noteq> None"

definition recipients :: "mwenv \<Rightarrow> mwdstate \<Rightarrow> event \<Rightarrow> subscribe_event list \<Rightarrow> subscribe_event list" where
  "recipients env st m ses = filter (\<lambda>se. wants env st m se \<and> reachable st se) ses"

definition event_for :: "event \<Rightarrow> subscribe_event \<Rightarrow> ipcmesg" where
  "event_for m se = Event (m\<lparr>ev_subscriptionid := se_subscriptionid se\<rparr>)"

definition put_on :: "mwdstate \<Rightarrow> event \<Rightarrow> subscribe_event list \<Rightarrow> int \<Rightarrow> ipcmesg list option" where
  "put_on st m rs q =
     map_option (\<lambda>l. l @ map (event_for m) (filter (\<lambda>se. mw_get_mqid_by_mwid st (se_id se) = q) rs)) (msgq st q)"

text \<open>A system whose message queues have room.\<close>

definition accepting :: "mwenv \<Rightarrow> bool" where
  "accepting env \<longleftrightarrow> (\<forall>q l m. msgsnd_err env q l m = None)"

lemma put_on_Nil [simp]: "put_on st m [] = msgq st"
  by (rule ext) (simp add: put_on_def option.map_id [unfolded id_def])

lemma put_on_Cons:
  assumes "reachable st se"
  shows "put_on st m (se # rs) =
    put_on (st\<lparr>msgq := (msgq st)(mw_get_mqid_by_mwid st (se_id se) :=
       map_option (\<lambda>l. l @ [event_for m se]) (msgq st (mw_get_mqid_by_mwid st (se_id se))))\<rparr>) m rs"
  by (rule ext) (auto simp: put_on_def option.map_comp comp_def)

lemma event_for_subid [simp]: "event_for (m\<lparr>ev_subscriptionid := i\<rparr>) = event_for m"
  by (rule ext) (simp add: event_for_def)

lemma put_on_subid [simp]: "put_on st (m\<lparr>ev_subscriptionid := i\<rparr>) rs = put_on st m rs"
  by (rule ext) (simp add: put_on_def)

lemma putmessage_accepting:
  assumes "accepting env"
  shows "mw_ipc_putmessage env st (se_id se) (event_for m se) =
    (if reachable st se
     then (0, st\<lparr>msgq := (msgq st)(mw_get_mqid_by_mwid st (se_id se) :=
              map_option (\<lambda>l. l @ [event_for m se]) (msgq st (mw_get_mqid_by_mwid st (se_id se))))\<rparr>)
     else (fst (mw_ipc_putmessage env st (se_id se) (event_for m se)), st))"
  using assms
  by (auto simp: mw_ipc_putmessage_def msgsnd_def reachable_def accepting_def event_for_def Let_def
      split: option.split)

lemma recipients_cong:
  assumes "\<And>se. wants env st' m' se = wants env st m se" "\<And>se. reachable st' se = reachable st se"
  shows "recipients env st' m' ses = recipients env st m ses"
  by (simp add: recipients_def assms)

lemma wants_simps [simp]:
  "wants env (st\<lparr>msgq := q\<rparr>) m se = wants env st m se"
  "wants env st (m\<lparr>ev_subscriptionid := i\<rparr>) se = wants env st m se"
  "wants env st (m\<lparr>senderid := i\<rparr>) se = wants env st m se"
  by (simp_all add: wants_def)

lemma reachable_put [simp]:
  "reachable (st\<lparr>msgq := (msgq st)(q := map_option f (msgq st q))\<rparr>) se = reachable st se"
  by (simp add: reachable_def)

text \<open>The delivery loop against the reference.\<close>

definition delivered :: "queued_event \<Rightarrow> subscribe_event list \<Rightarrow> queued_event \<Rightarrow> bool" where
  "delivered ev rs ev' \<longleftrightarrow>
     (\<exists>i. evmsg ev' = (evmsg ev)\<lparr>ev_subscriptionid := i\<rparr>)
     \<and> (if ev_data (evmsg ev) \<noteq> 0
        then pending_ack_ids ev' = pending_ack_ids ev @ map se_id rs
             \<and> pending_acks ev' = pending_acks ev + int (length rs)
        else pending_ack_ids ev' = pending_ack_ids ev \<and> pending_acks ev' = pending_acks ev)"

lemma delivered_refl: "delivered ev [] ev"
  by (auto simp: delivered_def intro!: exI [of _ "ev_subscriptionid (evmsg ev)"])

lemma deliver_loop_accepting:
  assumes acc: "accepting env"
    and "\<And>se. se \<in> set ses \<Longrightarrow> mw_get_mqid_by_mwid st (se_id se) \<noteq> - errno_num EAGAIN"
  shows "\<exists>ev'. deliver_loop env ses ev st =
      (ev', st\<lparr>msgq := put_on st (evmsg ev) (recipients env st (evmsg ev) ses)\<rparr>)
    \<and> delivered ev (recipients env st (evmsg ev) ses) ev'"
  using assms(2)
proof (induction ses arbitrary: ev st)
  case Nil
  then show ?case by (simp add: recipients_def delivered_refl)
next
  case (Cons se ses)
  let ?m = "evmsg ev"
  let ?ev = "ev\<lparr>evmsg := ?m\<lparr>ev_subscriptionid := se_subscriptionid se\<rparr>\<rparr>"
  note ih = Cons.IH
  show ?case
  proof (cases "wants env st ?m se")
    case False
    then have "deliver_loop env (se # ses) ev st = deliver_loop env ses ev st"
      by (auto simp: wants_def)
    moreover have "recipients env st ?m (se # ses) = recipients env st ?m ses"
      using False by (simp add: recipients_def)
    ultimately show ?thesis using ih [of st ev] Cons.prems by auto
  next
    case want: True
    show ?thesis
    proof (cases "reachable st se")
      case False
      have put: "mw_ipc_putmessage env st (se_id se) (event_for ?m se) =
          (fst (mw_ipc_putmessage env st (se_id se) (event_for ?m se)), st)"
        using putmessage_accepting [OF acc, of st se ?m] False by simp
      have rc: "fst (mw_ipc_putmessage env st (se_id se) (event_for ?m se)) < 0"
        "fst (mw_ipc_putmessage env st (se_id se) (event_for ?m se)) \<noteq> - errno_num EAGAIN"
        using False acc Cons.prems [of se]
        by (auto simp: mw_ipc_putmessage_def msgsnd_def reachable_def accepting_def event_for_def Let_def
            split: option.splits)
      have "deliver_loop env (se # ses) ev st = deliver_loop env ses ?ev st"
        using want put rc
        by (cases "mw_ipc_putmessage env st (se_id se) (event_for ?m se)")
          (simp add: wants_def event_for_def)
      moreover obtain ev' where "deliver_loop env ses ?ev st =
          (ev', st\<lparr>msgq := put_on st (evmsg ?ev) (recipients env st (evmsg ?ev) ses)\<rparr>)"
        "delivered ?ev (recipients env st (evmsg ?ev) ses) ev'"
        using ih [of st ?ev] Cons.prems by auto
      moreover have "recipients env st (evmsg ?ev) ses = recipients env st ?m (se # ses)"
        using False by (simp add: recipients_def)
      ultimately show ?thesis
        by (auto simp: delivered_def intro!: exI [of _ ev'])
    next
      case reach: True
      let ?st = "st\<lparr>msgq := (msgq st)(mw_get_mqid_by_mwid st (se_id se) :=
          map_option (\<lambda>l. l @ [event_for ?m se]) (msgq st (mw_get_mqid_by_mwid st (se_id se))))\<rparr>"
      let ?ev2 = "if ev_data ?m \<noteq> 0
          then ?ev\<lparr>pending_ack_ids := pending_ack_ids ev @ [se_id se], pending_acks := pending_acks ev + 1\<rparr>
          else ?ev"
      have step: "deliver_loop env (se # ses) ev st = deliver_loop env ses ?ev2 ?st"
        using want putmessage_accepting [OF acc, of st se ?m] reach
        by (simp add: wants_def event_for_def)
      have m2: "evmsg ?ev2 = ?m\<lparr>ev_subscriptionid := se_subscriptionid se\<rparr>" by simp
      obtain ev' where loop: "deliver_loop env ses ?ev2 ?st =
          (ev', ?st\<lparr>msgq := put_on ?st (evmsg ?ev2) (recipients env ?st (evmsg ?ev2) ses)\<rparr>)"
        "delivered ?ev2 (recipients env ?st (evmsg ?ev2) ses) ev'"
        using ih [of ?st ?ev2] Cons.prems by auto
      have rs: "recipients env ?st (evmsg ?ev2) ses = recipients env st ?m ses"
        unfolding m2 by (rule recipients_cong) simp_all
      have rs2: "recipients env st ?m (se # ses) = se # recipients env st ?m ses"
        using want reach by (simp add: recipients_def)
      have "put_on st ?m (se # recipients env st ?m ses) = put_on ?st ?m (recipients env st ?m ses)"
        by (rule put_on_Cons [OF reach])
      moreover have "delivered ev (se # recipients env st ?m ses) ev'"
        using loop(2) unfolding rs by (auto simp: delivered_def)
      moreover have "deliver_loop env (se # ses) ev st =
          (ev', st\<lparr>msgq := put_on ?st ?m (recipients env st ?m ses)\<rparr>)"
        using loop(1) unfolding step rs by (simp add: m2 del: deliver_loop.simps)
      ultimately show ?thesis unfolding rs2 by auto
    qed
  qed
qed

section \<open>The invariant of the queues\<close>

text \<open>
  The counters are the lengths of the queues; an event that has not been sent awaits no
  acknowledgement, and one on the ack queue has data and awaits as many as its list has
  members that have not answered, at least one.
\<close>

definition awaiting :: "queued_event \<Rightarrow> bool" where
  "awaiting ev \<longleftrightarrow>
     pending_acks ev = int (length (filter (\<lambda>i. i \<noteq> UNASSIGNED) (pending_ack_ids ev)))
     \<and> 0 < pending_acks ev \<and> ev_data (evmsg ev) \<noteq> 0"

definition events_ok :: "mwdstate \<Rightarrow> bool" where
  "events_ok st \<longleftrightarrow>
     eventqueuelen st = int (length (eventqueue st))
     \<and> (\<forall>ev \<in> set (eventqueue st). pending_ack_ids ev = [] \<and> pending_acks ev = 0)
     \<and> ackqueuelen st = int (length (ackqueue st))
     \<and> (\<forall>ev \<in> set (ackqueue st). awaiting ev)
     \<and> ipc_blocking_queue_len st = int (length (ipc_blocking_queue st))"

lemma events_ok_cong:
  assumes "eventqueue st' = eventqueue st" "eventqueuelen st' = eventqueuelen st"
    and "ackqueue st' = ackqueue st" "ackqueuelen st' = ackqueuelen st"
    and "ipc_blocking_queue st' = ipc_blocking_queue st" "ipc_blocking_queue_len st' = ipc_blocking_queue_len st"
  shows "events_ok st' = events_ok st"
  by (simp only: events_ok_def assms)

lemma strike_count:
  "strike i ids = Some ids' \<Longrightarrow> i \<noteq> UNASSIGNED
   \<Longrightarrow> length (filter (\<lambda>j. j \<noteq> UNASSIGNED) ids) = Suc (length (filter (\<lambda>j. j \<noteq> UNASSIGNED) ids'))"
  by (induction ids arbitrary: ids') (auto split: if_splits)

lemma awaiting_strike:
  assumes "awaiting ev" "strike i (pending_ack_ids ev) = Some ids" "i \<noteq> UNASSIGNED" "pending_acks ev - 1 \<noteq> 0"
  shows "awaiting (ev\<lparr>pending_ack_ids := ids, pending_acks := pending_acks ev - 1\<rparr>)"
  using assms strike_count [OF assms(2,3)] by (simp add: awaiting_def)

lemma clear_pending_loop_ok:
  assumes "clear_pending_loop i q h n = Some (q', h', n')" "i \<noteq> UNASSIGNED" "\<forall>ev \<in> set q. awaiting ev"
  shows "(\<forall>ev \<in> set q'. awaiting ev) \<and> n' - int (length q') = n - int (length q)"
  using assms
proof (induction i q h n arbitrary: q' h' n' rule: clear_pending_loop.induct)
  case (2 i ev rest h n)
  show ?case
  proof (cases "strike i (pending_ack_ids ev)")
    case None
    with "2.prems"(1) obtain q1 where
      "clear_pending_loop i rest h n = Some (q1, h', n')" "q' = ev # q1"
      by (auto simp: bind_eq_Some_conv)
    then show ?thesis using "2.IH"(1) [OF None] "2.prems" by auto
  next
    case (Some ids)
    show ?thesis
    proof (cases "pending_acks ev - 1 = 0")
      case True
      with "2.prems"(1) Some obtain rc h1 ev2 rest2 q1 where step:
        "mwfree h (mwoffset2adr (ev_data (evmsg ev)) None) = Some (rc, h1)" "rest = ev2 # rest2"
        "clear_pending_loop i rest2 h1 (n - 1) = Some (q1, h', n')" "q' = ev2 # q1"
        by (cases rest) (auto simp: bind_eq_Some_conv)
      then show ?thesis
        using "2.IH"(2) [OF Some True step(1) _ step(2)] "2.prems" by auto
    next
      case False
      with "2.prems"(1) Some obtain q1 where
        "clear_pending_loop i rest h n = Some (q1, h', n')"
        "q' = ev\<lparr>pending_ack_ids := ids, pending_acks := pending_acks ev - 1\<rparr> # q1"
        by (auto simp: bind_eq_Some_conv)
      then show ?thesis
        using "2.IH"(3) [OF Some False] "2.prems" awaiting_strike [OF _ Some _ False] by auto
    qed
  qed
qed auto

lemma ack_loop_ok:
  assumes "ack_loop env m q h n = Some (q', h', n')" "senderid m \<noteq> UNASSIGNED" "\<forall>ev \<in> set q. awaiting ev"
  shows "(\<forall>ev \<in> set q'. awaiting ev) \<and> n' - int (length q') = n - int (length q)"
  using assms
proof (induction env m q h n arbitrary: q' h' n' rule: ack_loop.induct)
  case (2 env m ev rest h n)
  show ?case
  proof (cases "eventid m = eventid (evmsg ev)")
    case False
    with "2.prems"(1) obtain q1 where
      "ack_loop env m rest h n = Some (q1, h', n')" "q' = ev # q1"
      by (auto simp: bind_eq_Some_conv)
    then show ?thesis using "2.IH" False "2.prems" by auto
  next
    case True
    then show ?thesis
      using "2.prems" awaiting_strike [of ev "senderid m"]
      by (auto simp: bind_eq_Some_conv split: option.splits if_splits prod.splits)
  qed
qed auto

lemma clear_blocking_loop_ok:
  "clear_blocking_loop i q n = (filter (\<lambda>e. bq_mwid e \<noteq> i) q, n - int (length (filter (\<lambda>e. bq_mwid e = i) q)))"
  by (induction i q n rule: clear_blocking_loop.induct) auto

lemma flush_loop_ok:
  "flush_loop env q st = (q', st')
   \<Longrightarrow> (\<exists>m n. st' = st\<lparr>msgq := m, ipc_blocking_queue_len := n\<rparr> \<and> n - int (length q') = ipc_blocking_queue_len st - int (length q))"
proof (induction env q st arbitrary: q' st' rule: flush_loop.induct)
  case (1 env st)
  then show ?case by (auto intro!: exI [of _ "msgq st"] exI [of _ "ipc_blocking_queue_len st"])
next
  case (2 env ent rest st)
  obtain rc st1 where put: "mw_ipc_putmessage env st (bq_mwid ent) (bq_mesg ent) = (rc, st1)"
    by fastforce
  then obtain m1 where st1: "st1 = st\<lparr>msgq := m1\<rparr>"
    using putmessage_frame [of env st "bq_mwid ent" "bq_mesg ent"] by auto
  show ?case
  proof (cases "rc = 0")
    case True
    have loop: "flush_loop env rest (st1\<lparr>ipc_blocking_queue_len := ipc_blocking_queue_len st1 - 1\<rparr>) = (q', st')"
      using "2.prems" put True by simp
    obtain m n where "st' = st\<lparr>msgq := m, ipc_blocking_queue_len := n\<rparr>"
      "n - int (length q') = ipc_blocking_queue_len st - 1 - int (length rest)"
      using "2.IH"(1) [OF put [symmetric] True loop] st1 by auto
    then show ?thesis by (intro exI [of _ m] exI [of _ n]) simp
  next
    case False
    then obtain q1 where "flush_loop env rest st1 = (q1, st')" "q' = ent # q1"
      using "2.prems" put by (auto split: prod.splits)
    then show ?thesis using "2.IH"(2) [OF put [symmetric] False] st1 by fastforce
  qed
qed

section \<open>Every operation keeps the invariant\<close>

lemma event_subscribe_ok: "events_ok st \<Longrightarrow> events_ok (snd (event_subscribe env st p i s f))"
  by (auto simp: event_subscribe_def Let_def events_ok_def split: option.split prod.split)

lemma event_unsubscribe_ok: "events_ok st \<Longrightarrow> events_ok (snd (event_unsubscribe st s i))"
  by (auto simp: event_unsubscribe_def events_ok_def)

lemma event_enqueue_ok: "events_ok st \<Longrightarrow> events_ok (snd (event_enqueue st m))"
  by (auto simp: event_enqueue_def next_eventid_def Let_def events_ok_def)

lemma event_clear_id_ok:
  assumes "event_clear_id st i = Some st'" "i \<noteq> UNASSIGNED" "events_ok st"
  shows "events_ok st'"
proof -
  let ?st = "clear_blockingqueue_byid st i"
  have ok: "events_ok ?st"
    using assms(3) sum_length_filter_compl [of "\<lambda>e. bq_mwid e = i" "ipc_blocking_queue st"]
    by (simp add: events_ok_def clear_blockingqueue_byid_def clear_blocking_loop_ok)
  obtain q h n where loop: "clear_pending_loop i (ackqueue ?st) (shm ?st) (ackqueuelen ?st) = Some (q, h, n)"
    and st': "st' = snd (event_unsubscribe (?st\<lparr>ackqueue := q, shm := h, ackqueuelen := n\<rparr>) UNASSIGNED i)"
    using assms(1) by (auto simp: event_clear_id_def clear_pendingack_byid_def bind_eq_Some_conv)
  have "events_ok (?st\<lparr>ackqueue := q, shm := h, ackqueuelen := n\<rparr>)"
    using ok clear_pending_loop_ok [OF loop assms(2)] by (simp add: events_ok_def)
  then show ?thesis unfolding st' by (rule event_unsubscribe_ok)
qed

lemma event_ack_ok:
  assumes "event_ack env st m = Some (rc, st')" "senderid m \<noteq> UNASSIGNED" "events_ok st"
  shows "events_ok st'"
proof -
  obtain q h n where loop: "ack_loop env m (ackqueue st) (shm st) (ackqueuelen st) = Some (q, h, n)"
    and st': "st' = st\<lparr>ackqueue := q, shm := h, ackqueuelen := n\<rparr>"
    using assms(1) by (auto simp: event_ack_def bind_eq_Some_conv)
  show ?thesis
    using assms(3) ack_loop_ok [OF loop assms(2)] by (simp add: st' events_ok_def)
qed

lemma flush_blockingqueue_ok: "events_ok st \<Longrightarrow> events_ok (flush_blockingqueue env st)"
proof -
  assume ok: "events_ok st"
  obtain q st1 where loop: "flush_loop env (ipc_blocking_queue st) st = (q, st1)" by fastforce
  from flush_loop_ok [OF loop] ok show ?thesis
    by (auto simp: flush_blockingqueue_def loop events_ok_def)
qed

text \<open>An event of the daemon takes a buffer of the heap and is queued, or is dropped.\<close>

lemma internal_event_enqueue_cases:
  assumes "internal_event_enqueue env st ev d n u c = Some (rc, st')"
  obtains h where "st' = st\<lparr>shm := h\<rparr>"
  | h m where "st' = snd (event_enqueue (st\<lparr>shm := h\<rparr>) m)"
proof (cases ev)
  case None
  then have "st' = st\<lparr>shm := shm st\<rparr>" using assms by (simp add: internal_event_enqueue_def)
  then show thesis by (rule that(1))
next
  case ev: (Some name)
  show thesis
  proof (cases d)
    case None
    with ev assms have "\<exists>m. event_enqueue st m = (rc, st')"
      unfolding internal_event_enqueue_def Let_def by auto
    then obtain m where "event_enqueue (st\<lparr>shm := shm st\<rparr>) m = (rc, st')" by auto
    then show thesis using that(2) [of "shm st" m] by simp
  next
    case (Some bs)
    let ?dl = "if n = 0 then length (takeWhile (\<lambda>b. b \<noteq> 0) bs) else n"
    obtain dbuf h where al: "mwalloc (shm_env env) (shm st) (int ?dl + 1) = Some (dbuf, h)"
      using assms ev Some by (auto simp: internal_event_enqueue_def Let_def bind_eq_Some_conv)
    show thesis
    proof (cases "dbuf = 0")
      case True
      then have "st' = st\<lparr>shm := h\<rparr>"
        using assms ev Some al by (simp add: internal_event_enqueue_def Let_def)
      then show thesis by (rule that(1))
    next
      case False
      let ?h = "store_bytes h dbuf (take ?dl bs @ [0])"
      have "\<exists>m. event_enqueue (st\<lparr>shm := ?h\<rparr>) m = (rc, st')"
        using assms ev Some al False
        by (simp add: internal_event_enqueue_def Let_def) (auto simp: bind_eq_Some_conv split: if_splits)
      then obtain m where "event_enqueue (st\<lparr>shm := ?h\<rparr>) m = (rc, st')" ..
      then show thesis using that(2) [of ?h m] by simp
    qed
  qed
qed

lemma internal_event_enqueue_ok:
  assumes "internal_event_enqueue env st ev d n u c = Some (rc, st')" "events_ok st"
  shows "events_ok st'"
proof -
  have *: "events_ok (st\<lparr>shm := h\<rparr>)" for h
    using assms(2) by (simp add: events_ok_def)
  from assms(1) show ?thesis
    by (cases rule: internal_event_enqueue_cases) (simp_all add: * event_enqueue_ok)
qed

text \<open>
  During a delivery the event at hand counts the recipients so far; nobody is recorded
  under the id \<open>UNASSIGNED\<close>, to which nothing can be sent.
\<close>

definition counted :: "queued_event \<Rightarrow> bool" where
  "counted ev \<longleftrightarrow>
     pending_acks ev = int (length (filter (\<lambda>i. i \<noteq> UNASSIGNED) (pending_ack_ids ev)))
     \<and> (0 < pending_acks ev \<longrightarrow> ev_data (evmsg ev) \<noteq> 0)"

lemma deliver_loop_ok:
  assumes "deliver_loop env ses ev st = (ev', st')" "counted ev" "events_ok st"
    and "ipcmain st \<noteq> None" "tbl_length (srvtbl st) \<le> MWINDEXMASK"
  shows "counted ev' \<and> events_ok st'
    \<and> (\<exists>q b n. st' = st\<lparr>msgq := q, ipc_blocking_queue := b, ipc_blocking_queue_len := n\<rparr>)"
  using assms
proof (induction env ses ev st arbitrary: ev' st' rule: deliver_loop.induct)
  case (1 env ev st)
  then show ?case
    by (auto intro!: exI [of _ "msgq st"] exI [of _ "ipc_blocking_queue st"] exI [of _ "ipc_blocking_queue_len st"])
next
  case (2 env se rest ev st)
  let ?ev = "ev\<lparr>evmsg := (evmsg ev)\<lparr>ev_subscriptionid := se_subscriptionid se\<rparr>\<rparr>"
  obtain rc st1 where put: "mw_ipc_putmessage env st (se_id se) (Event (evmsg ?ev)) = (rc, st1)"
    by fastforce
  then obtain q1 where st1: "st1 = st\<lparr>msgq := q1\<rparr>"
    using putmessage_frame [of env st "se_id se" "Event (evmsg ?ev)"] by auto
  have ok1: "events_ok st1" using "2.prems"(3) by (simp add: st1 events_ok_def)
  have cnt: "counted ?ev" using "2.prems"(2) by (simp add: counted_def)
  show ?case
  proof (cases "client_wanted st se (evmsg ev) \<and> pattern_matches env se (ev_event (evmsg ev))")
    case False
    then have "deliver_loop env rest ev st = (ev', st')"
      using "2.prems"(1) by (auto split: if_splits)
    then show ?thesis using "2.IH"(1,2) False "2.prems"(2-5) by blast
  next
    case True
    show ?thesis
    proof (cases "rc < 0 \<and> rc \<noteq> - errno_num EAGAIN")
      case skip: True
      have "deliver_loop env rest ?ev st1 = (ev', st')"
        using "2.prems"(1) True put skip by simp
      then show ?thesis
        using "2.IH"(3) [OF _ _ refl put [symmetric] skip] True cnt ok1 "2.prems"(4,5) st1 by fastforce
    next
      case sent: False
      have notU: "se_id se \<noteq> UNASSIGNED"
        using put putmessage_unassigned [OF "2.prems"(4,5), of env "Event (evmsg ?ev)"] sent by auto
      let ?st = "if rc < 0 then push_blockingqueue st1 (se_id se) (Event (evmsg ?ev)) else st1"
      let ?ev2 = "if ev_data (evmsg ?ev) \<noteq> 0
          then ?ev\<lparr>pending_ack_ids := pending_ack_ids ?ev @ [se_id se], pending_acks := pending_acks ?ev + 1\<rparr>
          else ?ev"
      have loop: "deliver_loop env rest ?ev2 ?st = (ev', st')"
        using "2.prems"(1) True put sent
        by (cases "rc < 0"; cases "ev_data (evmsg ev) = 0") (simp_all add: Let_def)
      have "counted ?ev2" using cnt notU by (auto simp: counted_def)
      moreover have "events_ok ?st" using ok1 by (simp add: push_blockingqueue_def events_ok_def)
      ultimately show ?thesis
        using "2.IH"(4) [OF _ _ refl put [symmetric] sent refl refl loop] True "2.prems"(4,5) st1
        by (auto simp: push_blockingqueue_def split: if_splits)
    qed
  qed
qed

section \<open>The tables are left alone\<close>

definition tables_of :: "mwdstate \<Rightarrow> ipcmaininfo option \<times> cliententry list option \<times> serverentry list option
    \<times> serviceentry list option \<times> gatewayentry list option \<times> int \<times> int \<times> int" where
  "tables_of st = (ipcmain st, clttbl st, srvtbl st, svctbl st, gwtbl st,
     srv_nextidx st, clt_nextidx st, svc_nextidx st)"

lemma tables_of_frame [simp]:
  "tables_of (st\<lparr>msgq := q\<rparr>) = tables_of st"
  "tables_of (st\<lparr>shm := h\<rparr>) = tables_of st"
  "tables_of (st\<lparr>subscription_root := s\<rparr>) = tables_of st"
  "tables_of (st\<lparr>bufferfiles := f\<rparr>) = tables_of st"
  "tables_of (st\<lparr>lastallocedid := i\<rparr>) = tables_of st"
  by (simp_all add: tables_of_def)

lemma tables_of_clear_id: "event_clear_id st i = Some st' \<Longrightarrow> tables_of st' = tables_of st"
  by (auto simp: event_clear_id_def clear_pendingack_byid_def clear_blockingqueue_byid_def
      event_unsubscribe_def bind_eq_Some_conv tables_of_def split: prod.splits)

lemma tables_of_enqueue [simp]: "tables_of (snd (event_enqueue st m)) = tables_of st"
  by (simp add: event_enqueue_def next_eventid_def Let_def tables_of_def)

lemma tables_of_internal_enqueue:
  "internal_event_enqueue env st ev d n u c = Some (rc, st') \<Longrightarrow> tables_of st' = tables_of st"
  by (erule internal_event_enqueue_cases) simp_all

lemma tables_of_ack: "event_ack env st m = Some (rc, st') \<Longrightarrow> tables_of st' = tables_of st"
  by (auto simp: event_ack_def bind_eq_Some_conv tables_of_def)

lemma tables_of_unsubscribe [simp]: "tables_of (snd (event_unsubscribe st s i)) = tables_of st"
  by (simp add: event_unsubscribe_def)

lemma tables_of_subscribe [simp]: "tables_of (snd (event_subscribe env st p i s f)) = tables_of st"
  by (auto simp: event_subscribe_def Let_def split: option.split prod.split)

lemma tables_of_putmessage [simp]: "tables_of (snd (mw_ipc_putmessage env st d m)) = tables_of st"
  using putmessage_frame [of env st d m] by auto

lemma tables_of_flush [simp]: "tables_of (flush_blockingqueue env st) = tables_of st"
proof -
  obtain q st1 where loop: "flush_loop env (ipc_blocking_queue st) st = (q, st1)" by fastforce
  from flush_loop_ok [OF loop] show ?thesis
    by (auto simp: flush_blockingqueue_def loop tables_of_def)
qed

lemma do_event_ok:
  assumes "do_event env st = Some (rc, st')" "events_ok st"
    and "ipcmain st \<noteq> None" "tbl_length (srvtbl st) \<le> MWINDEXMASK"
  shows "events_ok st' \<and> tables_of st' = tables_of st"
proof (cases "eventqueue st")
  case Nil
  then have "st' = st\<lparr>eventqueuelen := 0\<rparr>" using assms(1) by (simp add: do_event_def)
  then show ?thesis
    using assms(2) Nil
    by (simp add: events_ok_def tables_of_def)
next
  case (Cons ev rest)
  let ?ev = "ev\<lparr>evmsg := (evmsg ev)\<lparr>senderid := 0\<rparr>\<rparr>"
  let ?st = "st\<lparr>eventqueue := rest, eventqueuelen := eventqueuelen st - 1\<rparr>"
  obtain ev1 st1 where loop: "deliver_loop env (subscription_root st) ?ev ?st = (ev1, st1)"
    by fastforce
  have "counted ?ev" "events_ok ?st"
    using assms(2) Cons by (simp_all add: counted_def events_ok_def)
  from deliver_loop_ok [OF loop this] assms(3,4)
  obtain q b n where cnt: "counted ev1" and ok: "events_ok st1"
    and st1: "st1 = ?st\<lparr>msgq := q, ipc_blocking_queue := b, ipc_blocking_queue_len := n\<rparr>"
    by auto
  have st': "if pending_acks ev1 \<noteq> 0
      then st' = st1\<lparr>ackqueue := ev1 # ackqueue st1, ackqueuelen := ackqueuelen st1 + 1\<rparr>
      else \<exists>h. st' = st1\<lparr>shm := h\<rparr>"
    using assms(1) Cons loop
    by (auto simp: do_event_def bind_eq_Some_conv split: if_splits prod.splits intro: exI [of _ "shm st1"])
  show ?thesis
  proof (cases "pending_acks ev1 = 0")
    case True
    then obtain h where "st' = st1\<lparr>shm := h\<rparr>" using st' by auto
    then show ?thesis using ok st1 by (simp add: events_ok_def tables_of_def)
  next
    case False
    moreover from False have "awaiting ev1" using cnt by (auto simp: counted_def awaiting_def)
    ultimately show ?thesis using ok st1 st' by (simp add: events_ok_def tables_of_def)
  qed
qed

lemma do_events_ok:
  assumes "do_events env n st = Some (rc, st')" "events_ok st"
    and "ipcmain st \<noteq> None" "tbl_length (srvtbl st) \<le> MWINDEXMASK"
  shows "events_ok st' \<and> tables_of st' = tables_of st"
proof -
  have loop: "events_ok s' \<and> tables_of s' = tables_of s"
    if "do_events_loop env n s = Some s'" "events_ok s" "ipcmain s \<noteq> None"
      "tbl_length (srvtbl s) \<le> MWINDEXMASK" for s s'
    using that
  proof (induction n arbitrary: s)
    case (Suc n)
    show ?case
    proof (cases "eventqueuelen s = 0")
      case False
      with Suc.prems(1) obtain rc s1 where ev: "do_event env s = Some (rc, s1)"
        and rest: "s' = s1 \<or> do_events_loop env n s1 = Some s'"
        by (auto simp: bind_eq_Some_conv split: if_splits)
      have s1: "events_ok s1" "tables_of s1 = tables_of s"
        using do_event_ok [OF ev Suc.prems(2-4)] by simp_all
      moreover have "ipcmain s1 \<noteq> None" "tbl_length (srvtbl s1) \<le> MWINDEXMASK"
        using s1(2) Suc.prems(3,4) by (simp_all add: tables_of_def)
      ultimately show ?thesis using rest Suc.IH by metis
    qed (use Suc.prems in simp)
  qed simp
  obtain s1 where "do_events_loop env n (flush_blockingqueue env st) = Some s1" "st' = s1"
    using assms(1) by (auto simp: do_events_def bind_eq_Some_conv)
  moreover have "ipcmain (flush_blockingqueue env st) \<noteq> None"
    "tbl_length (srvtbl (flush_blockingqueue env st)) \<le> MWINDEXMASK"
    using assms(3,4) tables_of_flush [of env st] by (simp_all add: tables_of_def)
  ultimately show ?thesis
    using loop [of "flush_blockingqueue env st" s1] flush_blockingqueue_ok [OF assms(2)] by auto
qed

section \<open>Releasing an event\<close>

text \<open>The acknowledgements of a list of members for one event, one after the other.\<close>

primrec ack_all :: "mwenv \<Rightarrow> (int \<Rightarrow> event) \<Rightarrow> int list \<Rightarrow> mwdstate \<Rightarrow> mwdstate option" where
  "ack_all env mk [] st = Some st"
| "ack_all env mk (s # ss) st =
     do {
       (rc, st) \<leftarrow> event_ack env st (mk s);
       ack_all env mk ss st
     }"

definition release :: "mwenv \<Rightarrow> event \<Rightarrow> shmstate \<Rightarrow> (int \<times> shmstate) option" where
  "release env m h =
     (case mw_getsegment_byid (mmap_file (shm_env env)) h (ev_datasegmentid m) of
        (si, h) \<Rightarrow> mwfree h (mwoffset2adr (ev_data m) si))"

lemma strike_mset:
  "i \<in> set ids \<Longrightarrow> \<exists>ids'. strike i ids = Some ids'
     \<and> mset (filter (\<lambda>j. j \<noteq> UNASSIGNED) ids') = mset (filter (\<lambda>j. j \<noteq> UNASSIGNED) ids) - {#i#}"
proof (induction ids)
  case (Cons x xs)
  show ?case
  proof (cases "x = i")
    case False
    then obtain ids' where "strike i xs = Some ids'"
      "mset (filter (\<lambda>j. j \<noteq> UNASSIGNED) ids') = mset (filter (\<lambda>j. j \<noteq> UNASSIGNED) xs) - {#i#}"
      using Cons by auto
    with False show ?thesis by auto
  qed auto
qed simp

lemma ack_loop_skip:
  "\<forall>e \<in> set pre. eventid (evmsg e) \<noteq> eventid m
   \<Longrightarrow> ack_loop env m (pre @ q) h n = do { (q', h', n') \<leftarrow> ack_loop env m q h n; Some (pre @ q', h', n') }"
proof (induction pre)
  case Nil
  show ?case by (cases "ack_loop env m q h n") auto
next
  case (Cons e pre)
  then show ?case by (cases "ack_loop env m q h n") auto
qed

lemma event_ack_step:
  assumes q: "ackqueue st = pre @ ev # post"
    and pre: "\<forall>e \<in> set pre. eventid (evmsg e) \<noteq> eventid m" and "eventid (evmsg ev) = eventid m"
    and str: "strike (senderid m) (pending_ack_ids ev) = Some ids"
  shows "event_ack env st m =
    (if pending_acks ev = 1
     then map_option (\<lambda>(rc, h). (0, st\<lparr>ackqueue := pre @ post, shm := h, ackqueuelen := ackqueuelen st - 1\<rparr>))
            (release env (evmsg ev) (shm st))
     else Some (0, st\<lparr>ackqueue := pre @ ev\<lparr>pending_ack_ids := ids, pending_acks := pending_acks ev - 1\<rparr> # post\<rparr>))"
  using assms
  by (cases "mw_getsegment_byid (mmap_file (shm_env env)) (shm st) (ev_datasegmentid (evmsg ev))")
    (auto simp: event_ack_def ack_loop_skip [OF pre] release_def map_option_case case_prod_beta split: option.split)

lemma ack_all_prefix:
  assumes "ackqueue st = pre @ ev # post" "\<forall>e \<in> set pre. eventid (evmsg e) \<noteq> i" "eventid (evmsg ev) = i"
    and "\<And>s. eventid (mk s) = i" "\<And>s. senderid (mk s) = s"
    and "mset ss \<subset># mset (filter (\<lambda>j. j \<noteq> UNASSIGNED) (pending_ack_ids ev))"
    and "awaiting ev"
  shows "\<exists>ev'. ack_all env mk ss st = Some (st\<lparr>ackqueue := pre @ ev' # post\<rparr>)
    \<and> evmsg ev' = evmsg ev \<and> awaiting ev'
    \<and> mset (filter (\<lambda>j. j \<noteq> UNASSIGNED) (pending_ack_ids ev')) =
        mset (filter (\<lambda>j. j \<noteq> UNASSIGNED) (pending_ack_ids ev)) - mset ss"
  using assms(1,3,6,7)
proof (induction ss arbitrary: st ev)
  case Nil
  then show ?case by (intro exI [of _ ev]) simp
next
  case (Cons s ss)
  let ?F = "filter (\<lambda>j. j \<noteq> UNASSIGNED)"
  have "s \<in># mset (?F (pending_ack_ids ev))"
    using mset_subset_eqD [OF subset_mset.less_imp_le [OF Cons.prems(3)], of s] by simp
  then have s: "s \<in> set (pending_ack_ids ev)" "s \<noteq> UNASSIGNED" by auto
  obtain ids where ids: "strike s (pending_ack_ids ev) = Some ids"
    "mset (?F ids) = mset (?F (pending_ack_ids ev)) - {#s#}"
    using strike_mset [OF s(1)] by auto
  have "length (s # ss) < length (?F (pending_ack_ids ev))"
    using mset_subset_size [OF Cons.prems(3)] by (simp only: size_mset)
  then have more: "pending_acks ev \<noteq> 1" using Cons.prems(4) by (auto simp: awaiting_def)
  let ?ev = "ev\<lparr>pending_ack_ids := ids, pending_acks := pending_acks ev - 1\<rparr>"
  let ?st = "st\<lparr>ackqueue := pre @ ?ev # post\<rparr>"
  have ack: "event_ack env st (mk s) = Some (0, ?st)"
    using event_ack_step [of st pre ev post "mk s" ids env] Cons.prems(1,2) assms(2,4,5) ids(1) more by simp
  have sub: "mset ss \<subset># mset (?F (pending_ack_ids ?ev))"
    using Cons.prems(3) ids(2) by (simp add: insert_subset_eq_iff subset_mset.less_le_not_le subset_eq_diff_conv)
  have aw: "awaiting ?ev"
    using awaiting_strike [OF Cons.prems(4) ids(1) s(2)] more by simp
  obtain ev' where "ack_all env mk ss ?st = Some (?st\<lparr>ackqueue := pre @ ev' # post\<rparr>)"
    "evmsg ev' = evmsg ?ev" "awaiting ev'"
    "mset (?F (pending_ack_ids ev')) = mset (?F (pending_ack_ids ?ev)) - mset ss"
    using Cons.IH [of ?st ?ev] Cons.prems(2) sub aw by auto
  then show ?case
    using ack ids(2) by (intro exI [of _ ev']) simp
qed

lemma ack_all_append:
  "ack_all env mk (ss @ ts) st = do { st \<leftarrow> ack_all env mk ss st; ack_all env mk ts st }"
proof (induction ss arbitrary: st)
  case (Cons s ss)
  then show ?case by (cases "event_ack env st (mk s)") auto
qed simp

lemma ack_all_last:
  assumes "ackqueue st = pre @ ev # post" "\<forall>e \<in> set pre. eventid (evmsg e) \<noteq> i" "eventid (evmsg ev) = i"
    and mk: "\<And>s. eventid (mk s) = i" "\<And>s. senderid (mk s) = s"
    and perm: "mset ss = mset (filter (\<lambda>j. j \<noteq> UNASSIGNED) (pending_ack_ids ev))"
    and "awaiting ev"
  shows "ack_all env mk ss st =
    map_option (\<lambda>(rc, h). st\<lparr>ackqueue := pre @ post, shm := h, ackqueuelen := ackqueuelen st - 1\<rparr>)
      (release env (evmsg ev) (shm st))"
proof -
  let ?F = "filter (\<lambda>j. j \<noteq> UNASSIGNED)"
  have "ss \<noteq> []" using perm assms(7) by (auto simp: awaiting_def)
  then obtain ts t where ss: "ss = ts @ [t]" by (metis rev_exhaust)
  have "mset ts \<subset># mset (?F (pending_ack_ids ev))"
    using perm by (metis ss mset_append multi_psub_of_add_self add_mset_add_single mset_single_iff_right)
  from ack_all_prefix [OF assms(1-3) mk this assms(7), of env]
  obtain ev' where pre': "ack_all env mk ts st = Some (st\<lparr>ackqueue := pre @ ev' # post\<rparr>)"
    and m: "evmsg ev' = evmsg ev" and aw: "awaiting ev'"
    and rest: "mset (?F (pending_ack_ids ev')) = mset (?F (pending_ack_ids ev)) - mset ts"
    by auto
  have rest: "mset (?F (pending_ack_ids ev')) = {#t#}"
    using rest perm [unfolded ss] by (metis add_diff_cancel_left' mset.simps mset_append)
  have "length (?F (pending_ack_ids ev')) = 1"
    using arg_cong [OF rest, of size] by (simp only: size_mset size_single)
  then have one: "pending_acks ev' = 1" using aw by (simp add: awaiting_def)
  have "t \<in># mset (?F (pending_ack_ids ev'))" by (simp only: rest) simp
  then have "t \<in> set (pending_ack_ids ev')" by simp
  then obtain ids where "strike t (pending_ack_ids ev') = Some ids" using strike_mset by blast
  then have "event_ack env (st\<lparr>ackqueue := pre @ ev' # post\<rparr>) (mk t) =
      map_option (\<lambda>(rc, h). (0, st\<lparr>ackqueue := pre @ post, shm := h, ackqueuelen := ackqueuelen st - 1\<rparr>))
        (release env (evmsg ev) (shm st))"
    using event_ack_step [of "st\<lparr>ackqueue := pre @ ev' # post\<rparr>" pre ev' post "mk t" ids env] assms(2,3) mk one m
    by simp
  then show ?thesis
    unfolding ss ack_all_append pre' by (cases "release env (evmsg ev) (shm st)") auto
qed

section \<open>A system with one client and one server\<close>

definition demo_mwenv :: mwenv where
  "demo_mwenv = \<lparr>msgsnd_err = (\<lambda>_ _ _. None), kill_err = (\<lambda>_. None), procowner = (\<lambda>_. 1), rand_val = 0,
     now = 0, fnmatch = (\<lambda>p s. Some (p = s)), regcomp = (\<lambda>_ _. True), regexec = (\<lambda>_ p s. p = s),
     pagesize = 4096, open_ok = (\<lambda>_. True), shm_env = demo_env\<rparr>"

definition demo_client :: cliententry where
  "demo_client = \<lparr>clt_type = 1, clt_location = GWLOCAL, clt_status = 0, clt_pid = 100, clt_mqid = 7,
     clt_gwid = UNASSIGNED, clt_srvid = UNASSIGNED, clientname = ''joe'', username = [], clt_addr_string = [],
     authtype = UNASSIGNED, authref = 0, clt_connected = 0, clt_last_request = 0, clt_idle_timeout = 0,
     clt_requests = 0\<rparr>"

definition demo_server :: serverentry where
  "demo_server = \<lparr>servername = ''srv'', srv_mqid = 8, srv_pid = 101, srv_status = 0, statustext = [],
     nowserving = UNASSIGNED, mwdblock = False, srv_trace = 0, booted = 0, lastsvccall = -1,
     srv_load = \<lparr>percbusy1 = 0, percbusy5 = 0, percbusy15 = 0, count1 = 0, count5 = 0, count15 = 0,
       qlenbusy1 = 0, qlenbusy5 = 0, qlenbusy15 = 0, avserv1 = 0, avserv5 = 0, avserv15 = 0,
       avwait1 = 0, avwait5 = 0, avwait15 = 0\<rparr>\<rparr>"

definition demo_service :: serviceentry where
  "demo_service = \<lparr>svc_type = UNASSIGNED, svc_location = UNASSIGNED, svc_server = UNASSIGNED,
     svc_gateway = UNASSIGNED, mwname = [], svc_cost = 0, svcfunc = 0, servicename = []\<rparr>"

definition demo_main :: ipcmaininfo where
  "demo_main = \<lparr>im_status = MWREADY, mwdpid = 99, mwwdpid = 98, mwd_mqid = 3, mw_bufferdir = ''/tmp'',
     shutdowntime = 0, gwtbl_nextidx = 0\<rparr>"

definition demo_event :: event where
  "demo_event = \<lparr>ev_mtype = EVENT, ev_event = ''news'', eventid = 5, ev_subscriptionid = 0, senderid = 0,
     ev_datasegmentid = 0, ev_data = 128, ev_datalen = 10, ev_username = [], ev_clientname = [],
     ev_flags = 0, ev_returncode = 0\<rparr>"

definition demo_subscription :: "int \<Rightarrow> int \<Rightarrow> subscribe_event" where
  "demo_subscription i n = \<lparr>se_pattern = ''news'', se_regexp = None, se_subscriptionid = n, se_id = i,
     se_cid = CLTID i, se_sid = SRVID i, se_gwid = GWID i, se_flags = 0\<rparr>"

text \<open>The client has the id \<open>0x02000000\<close> and the server the id \<open>0x01000000\<close>; both subscribe to \<open>news\<close>.\<close>

definition demo_mwd :: mwdstate where
  "demo_mwd = \<lparr>ipcmain = Some demo_main, clttbl = Some [demo_client], srvtbl = Some [demo_server],
     svctbl = Some [demo_service], gwtbl = Some [], convtbl = Some [], my_mqid = 3,
     myserverid = UNASSIGNED, myclientid = UNASSIGNED, mygatewayid = UNASSIGNED, shm = demo_used,
     msgq = (\<lambda>q. if q = 3 \<or> q = 7 \<or> q = 8 then Some [] else None),
     callReplyQueue = [], srv_buffer = None, handle = -1, isattached = True, serviceFuncList = [],
     provided = 0, requestpending = False, subscriptions = [], next_subscriptionid = 0,
     subscription_root = [demo_subscription 0x02000000 11, demo_subscription 0x01000000 12],
     eventqueue = [], eventqueuelen = 0, ackqueue = [], ackqueuelen = 0, ipc_blocking_queue = [],
     ipc_blocking_queue_len = 0, last_eventid = 0, srv_nextidx = 0, clt_nextidx = 0, svc_nextidx = 0,
     lastallocedid = 999, bufferfiles = (\<lambda>_. None), shutdowntriggers = []\<rparr>"

definition demo_posted :: mwdstate where
  "demo_posted = demo_mwd\<lparr>eventqueue := [\<lparr>evmsg = demo_event, pending_ack_ids = [], pending_acks = 0\<rparr>],
     eventqueuelen := 1\<rparr>"

definition demo_awaiting :: mwdstate where
  "demo_awaiting = demo_mwd\<lparr>ackqueue := [\<lparr>evmsg = demo_event, pending_ack_ids = [0x02000000, 0x01000000],
     pending_acks = 2\<rparr>], ackqueuelen := 1\<rparr>"

lemmas demo_defs = demo_mwenv_def demo_client_def demo_server_def demo_service_def demo_main_def demo_event_def
  demo_subscription_def demo_mwd_def demo_posted_def demo_awaiting_def

lemma demo_accepting: "accepting demo_mwenv"
  by (simp add: accepting_def demo_mwenv_def)

lemma demo_mqid:
  "mw_get_mqid_by_mwid demo_posted 0x02000000 = 7" "mw_get_mqid_by_mwid demo_posted 0x01000000 = 8"
  by (simp_all add: mw_get_mqid_by_mwid_def mw_get_client_byid_def mw_get_server_byid_def tbl_at_def
      tbl_length_def demo_defs)

lemma demo_recipients:
  "recipients demo_mwenv demo_posted demo_event (subscription_root demo_posted) =
     [demo_subscription 0x02000000 11, demo_subscription 0x01000000 12]"
proof -
  have "wants demo_mwenv demo_posted demo_event (demo_subscription i n)"
    if "i = 0x02000000 \<or> i = 0x01000000" for i n
    using that
    by (auto simp: wants_def client_wanted_def pattern_matches_def mw_get_client_byid_def tbl_at_def
        tbl_length_def id_kind_def demo_defs)
  moreover have "reachable demo_posted (demo_subscription i n)"
    if "i = 0x02000000 \<or> i = 0x01000000" for i n
    using that demo_mqid by (auto simp: reachable_def demo_subscription_def demo_posted_def demo_mwd_def)
  moreover have "subscription_root demo_posted = [demo_subscription 0x02000000 11, demo_subscription 0x01000000 12]"
    by (simp add: demo_posted_def demo_mwd_def)
  ultimately show ?thesis by (simp add: recipients_def)
qed

section \<open>Properties\<close>

text \<open>
  C11. The event task takes the oldest event and, when the message queues have room, puts it
  with the subscriber's own subscription id on the queue of every member that asks for it
  (the client's user and client name are those the event names, if it names any, and the
  event's name matches the pattern as a string, a glob or a regular expression) and on no
  other queue, in the order of the subscriptions. An event with data waits on the ack queue
  for exactly these members.
\<close>

theorem event_delivery:
  assumes "events_ok st" "eventqueue st = ev # rest" "accepting env"
    and "\<forall>se \<in> set (subscription_root st). mw_get_mqid_by_mwid st (se_id se) \<noteq> - errno_num EAGAIN"
    and "ev_data (evmsg ev) = 0 \<or> recipients env st (evmsg ev) (subscription_root st) \<noteq> []"
  shows "\<exists>st'. do_event env st = Some (0, st') \<and> eventqueue st' = rest
    \<and> msgq st' = put_on st ((evmsg ev)\<lparr>senderid := 0\<rparr>) (recipients env st (evmsg ev) (subscription_root st))
    \<and> ipc_blocking_queue st' = ipc_blocking_queue st
    \<and> (if ev_data (evmsg ev) = 0 then ackqueue st' = ackqueue st
       else \<exists>aev. ackqueue st' = aev # ackqueue st \<and> eventid (evmsg aev) = eventid (evmsg ev)
         \<and> pending_ack_ids aev = map se_id (recipients env st (evmsg ev) (subscription_root st)))"
proof -
  let ?m = "(evmsg ev)\<lparr>senderid := 0\<rparr>"
  let ?ev = "ev\<lparr>evmsg := ?m\<rparr>"
  let ?st = "st\<lparr>eventqueue := rest, eventqueuelen := eventqueuelen st - 1\<rparr>"
  let ?rs = "recipients env st (evmsg ev) (subscription_root st)"
  have rs: "recipients env ?st ?m (subscription_root st) = ?rs"
    by (rule recipients_cong) (simp_all add: wants_def reachable_def)
  have put: "put_on ?st ?m ?rs = put_on st ?m ?rs" by (rule ext) (simp add: put_on_def)
  obtain ev' where loop: "deliver_loop env (subscription_root st) ?ev ?st = (ev', ?st\<lparr>msgq := put_on st ?m ?rs\<rparr>)"
    and del: "delivered ?ev ?rs ev'"
    using deliver_loop_accepting [OF assms(3), of "subscription_root st" ?st ?ev] assms(4) rs put by auto
  have "pending_ack_ids ev = []" "pending_acks ev = 0"
    using assms(1,2) by (simp_all add: events_ok_def)
  with del have ev': "eventid (evmsg ev') = eventid (evmsg ev)" "ev_data (evmsg ev') = ev_data (evmsg ev)"
    "if ev_data (evmsg ev) \<noteq> 0 then pending_ack_ids ev' = map se_id ?rs \<and> pending_acks ev' = int (length ?rs)
     else pending_acks ev' = 0"
    by (auto simp: delivered_def)
  show ?thesis
    using assms(2,5) loop ev' by (auto simp: do_event_def)
qed

theorem event_delivery_witness:
  "\<exists>st'. do_event demo_mwenv demo_posted = Some (0, st')
    \<and> msgq st' 7 = Some [event_for demo_event (demo_subscription 0x02000000 11)]
    \<and> msgq st' 8 = Some [event_for demo_event (demo_subscription 0x01000000 12)]
    \<and> msgq st' 3 = Some [] \<and> length (ackqueue st') = 1"
proof -
  have "events_ok demo_posted" by (simp add: events_ok_def demo_defs)
  moreover have "eventqueue demo_posted = \<lparr>evmsg = demo_event, pending_ack_ids = [], pending_acks = 0\<rparr> # []"
    by (simp add: demo_posted_def)
  moreover have "\<forall>se \<in> set (subscription_root demo_posted).
      mw_get_mqid_by_mwid demo_posted (se_id se) \<noteq> - errno_num EAGAIN"
  proof -
    have "set (subscription_root demo_posted) = {demo_subscription 0x02000000 11, demo_subscription 0x01000000 12}"
      by (simp add: demo_posted_def demo_mwd_def)
    then show ?thesis using demo_mqid by (simp add: demo_subscription_def)
  qed
  moreover have "demo_event\<lparr>senderid := 0\<rparr> = demo_event" by (simp add: demo_event_def)
  moreover have "ev_data demo_event \<noteq> 0" by (simp add: demo_event_def)
  moreover have "msgq demo_posted q = (if q = 3 \<or> q = 7 \<or> q = 8 then Some [] else None)"
    "ackqueue demo_posted = []" for q
    by (simp_all add: demo_posted_def demo_mwd_def)
  ultimately show ?thesis
    using event_delivery [OF _ _ demo_accepting, of demo_posted "\<lparr>evmsg = demo_event, pending_ack_ids = [], pending_acks = 0\<rparr>" "[]"]
      demo_mqid
    by (auto simp: demo_recipients put_on_def demo_subscription_def)
qed

text \<open>
  C12. The buffer of an event is released exactly once, with the last acknowledgement: when
  the members that have not answered acknowledge in any order, the event stays on the queue
  with its buffer untouched until the last of them, which takes it off the queue and frees
  the buffer.
\<close>

theorem event_released:
  assumes "ackqueue st = pre @ ev # post" "\<forall>e \<in> set pre. eventid (evmsg e) \<noteq> i" "eventid (evmsg ev) = i"
    and "\<And>s. eventid (mk s) = i" "\<And>s. senderid (mk s) = s"
    and "mset ss = mset (filter (\<lambda>j. j \<noteq> UNASSIGNED) (pending_ack_ids ev))" "awaiting ev"
  shows "ack_all env mk ss st =
      map_option (\<lambda>(rc, h). st\<lparr>ackqueue := pre @ post, shm := h, ackqueuelen := ackqueuelen st - 1\<rparr>)
        (release env (evmsg ev) (shm st))
    \<and> (\<forall>k < length ss. \<exists>ev'. ack_all env mk (take k ss) st = Some (st\<lparr>ackqueue := pre @ ev' # post\<rparr>)
        \<and> evmsg ev' = evmsg ev)"
proof (intro conjI allI impI)
  show "ack_all env mk ss st =
      map_option (\<lambda>(rc, h). st\<lparr>ackqueue := pre @ post, shm := h, ackqueuelen := ackqueuelen st - 1\<rparr>)
        (release env (evmsg ev) (shm st))"
    by (rule ack_all_last [OF assms])
next
  fix k assume k: "k < length ss"
  have "mset ss = mset (take k ss) + mset (drop k ss)"
    by (metis append_take_drop_id mset_append)
  moreover have "mset (drop k ss) \<noteq> {#}" using k by simp
  ultimately have "mset (take k ss) \<subset># mset (filter (\<lambda>j. j \<noteq> UNASSIGNED) (pending_ack_ids ev))"
    using assms(6) by (metis mset_subset_eq_add_left subset_mset.le_neq_trans add_cancel_right_right)
  then show "\<exists>ev'. ack_all env mk (take k ss) st = Some (st\<lparr>ackqueue := pre @ ev' # post\<rparr>) \<and> evmsg ev' = evmsg ev"
    using ack_all_prefix [OF assms(1-5) _ assms(7), of "take k ss" env] by blast
qed

theorem event_released_witness:
  "ack_all demo_mwenv (\<lambda>s. demo_event\<lparr>senderid := s\<rparr>) [0x01000000, 0x02000000] demo_awaiting =
      map_option (\<lambda>(rc, h). demo_awaiting\<lparr>ackqueue := [], shm := h, ackqueuelen := 0\<rparr>)
        (release demo_mwenv demo_event demo_used)
    \<and> (\<exists>ev'. ack_all demo_mwenv (\<lambda>s. demo_event\<lparr>senderid := s\<rparr>) [0x01000000] demo_awaiting =
          Some (demo_awaiting\<lparr>ackqueue := [ev']\<rparr>) \<and> evmsg ev' = demo_event)"
proof -
  let ?ev = "\<lparr>evmsg = demo_event, pending_ack_ids = [0x02000000, 0x01000000], pending_acks = 2\<rparr>"
  have q: "ackqueue demo_awaiting = [] @ ?ev # []" "shm demo_awaiting = demo_used" "ackqueuelen demo_awaiting = 1"
    by (simp_all add: demo_awaiting_def demo_mwd_def)
  have i: "eventid demo_event = 5" by (simp add: demo_event_def)
  have aw: "awaiting ?ev" by (simp add: awaiting_def demo_event_def)
  note R = event_released [OF q(1), of 5 "\<lambda>s. demo_event\<lparr>senderid := s\<rparr>" "[0x01000000, 0x02000000]" demo_mwenv]
  have "take 1 [0x01000000, 0x02000000 :: int] = [0x01000000]" by simp
  then show ?thesis using R aw i q by (auto dest!: spec [of _ 1])
qed

end
