(* ===== verification/TableProps.thy ===== *)
theory TableProps
  imports Requests EventProps
begin

unbundle bit_operations_syntax

text \<open>
  Properties of the daemon's tables: the members' tables hand out ids that are not in use
  and refuse only when they are full; the services of a server are removed with it.
\<close>

section \<open>Free entries\<close>

lemma scan_free_spec:
  assumes "0 \<le> i"
  shows "(scan_free p i n \<noteq> UNASSIGNED \<longrightarrow> i \<le> scan_free p i n \<and> scan_free p i n < n \<and> p (scan_free p i n))
    \<and> (scan_free p i n = UNASSIGNED \<longrightarrow> (\<forall>k. i \<le> k \<and> k < n \<longrightarrow> \<not> p k))"
  using assms
proof (induction p i n rule: scan_free.induct)
  case (1 p i n)
  show ?case
  proof (cases "i < n \<and> \<not> p i")
    case True
    then have eq: "scan_free p i n = scan_free p (i + 1) n" by (simp add: scan_free.simps [of p i n])
    have "i \<le> k \<longleftrightarrow> k = i \<or> i + 1 \<le> k" for k by auto
    then show ?thesis unfolding eq using 1 True by auto
  next
    case False
    then show ?thesis using 1 by (auto simp: scan_free.simps [of p i n])
  qed
qed

lemma next_free_spec:
  assumes "0 \<le> x" "x \<le> n"
  shows "(next_free p x n \<noteq> UNASSIGNED \<longrightarrow> 0 \<le> next_free p x n \<and> next_free p x n < n \<and> p (next_free p x n))
    \<and> (next_free p x n = UNASSIGNED \<longrightarrow> (\<forall>k. 0 \<le> k \<and> k < n \<longrightarrow> \<not> p k))"
proof (cases "scan_free p x n = UNASSIGNED")
  case True
  then have eq: "next_free p x n = scan_free p 0 x" by (simp add: next_free_def)
  have upper: "\<not> p k" if "x \<le> k" "k < n" for k
    using scan_free_spec [of x p n] assms(1) True that by blast
  have "\<not> p k" if "scan_free p 0 x = UNASSIGNED" "0 \<le> k" "k < n" for k
    using scan_free_spec [of 0 p x] that upper [of k] by (cases "k < x") auto
  then show ?thesis
    unfolding eq using scan_free_spec [of 0 p x] assms(2) by auto
next
  case False
  then show ?thesis
    using scan_free_spec [of x p n] assms by (simp add: next_free_def)
qed

lemma next_free_slot:
  assumes "0 \<le> x" "x \<le> tbl_length t"
    and p: "\<And>i. p i = (case tbl_at t i of None \<Rightarrow> False | Some e \<Rightarrow> status e = UNASSIGNED)"
  shows "next_free p x (tbl_length t) = UNASSIGNED \<and> (\<forall>i e. tbl_at t i = Some e \<longrightarrow> status e \<noteq> UNASSIGNED)
    \<or> next_free p x (tbl_length t) \<noteq> UNASSIGNED
      \<and> (\<exists>e. tbl_at t (next_free p x (tbl_length t)) = Some e \<and> status e = UNASSIGNED)"
proof (cases "next_free p x (tbl_length t) = UNASSIGNED")
  case True
  have "status e \<noteq> UNASSIGNED" if e: "tbl_at t i = Some e" for i e
  proof -
    have "\<not> p i" using next_free_spec [OF assms(1,2), of p] True e by (auto simp: tbl_at_Some_iff)
    then show ?thesis using e p by simp
  qed
  then show ?thesis using True by auto
next
  case False
  then have "p (next_free p x (tbl_length t))" using next_free_spec [OF assms(1,2), of p] by auto
  then show ?thesis using False p by (auto split: option.splits)
qed

section \<open>Member tables\<close>

text \<open>
  The interface of a table of members: ids are made of indices, a look-up finds the entries
  in use, and adding takes a free entry or reports a full table.
\<close>

locale slot_table =
  fixes tbl :: "mwdstate \<Rightarrow> 'e list option"
    and status :: "'e \<Rightarrow> int"
    and m :: int
    and lookup :: "mwdstate \<Rightarrow> int \<Rightarrow> int option"
    and add :: "mwdstate \<Rightarrow> 'x \<Rightarrow> int \<times> mwdstate"
    and legal :: "'x \<Rightarrow> bool"
    and ok :: "mwdstate \<Rightarrow> bool"
  assumes lookup: "ok st \<Longrightarrow> 0 \<le> i \<Longrightarrow> i < 2 ^ 24 \<Longrightarrow> lookup st (idx2id m i) =
      (case tbl_at (tbl st) i of None \<Rightarrow> None | Some e \<Rightarrow> if status e = UNASSIGNED then None else Some i)"
    and small: "ok st \<Longrightarrow> tbl_length (tbl st) \<le> MWINDEXMASK"
    and id_inject: "0 \<le> i \<Longrightarrow> i < 2 ^ 24 \<Longrightarrow> idx2id m i AND MWINDEXMASK = i"
    and id_pos: "0 \<le> i \<Longrightarrow> i < 2 ^ 24 \<Longrightarrow> 0 < idx2id m i"
    and add: "ok st \<Longrightarrow> legal x \<Longrightarrow>
      (\<forall>i e. tbl_at (tbl st) i = Some e \<longrightarrow> status e \<noteq> UNASSIGNED) \<and> add st x = (- errno_num ENOSPC, st)
      \<or> (\<exists>i e f st'. tbl_at (tbl st) i = Some e \<and> status e = UNASSIGNED \<and> status (f e) \<noteq> UNASSIGNED
           \<and> add st x = (idx2id m i, st') \<and> tbl st' = tbl_upd f i (tbl st) \<and> ok st')"
begin

lemma range: "ok st \<Longrightarrow> tbl_at (tbl st) i = Some e \<Longrightarrow> 0 \<le> i \<and> i < 2 ^ 24"
  using small [of st] by (auto simp: tbl_at_Some_iff)

text \<open>A new id was not in use, is found afterwards, and no other id is affected.\<close>

lemma add_new:
  assumes "ok st" "legal x" "add st x = (r, st')" "0 \<le> r"
  shows "lookup st r = None \<and> lookup st' r = Some (r AND MWINDEXMASK) \<and> ok st'
    \<and> (\<forall>j. 0 \<le> j \<and> j < 2 ^ 24 \<and> idx2id m j \<noteq> r \<longrightarrow> lookup st' (idx2id m j) = lookup st (idx2id m j))"
proof -
  have "- errno_num ENOSPC < 0" by simp
  with add [OF assms(1,2)] assms(3,4) obtain i e f where i: "tbl_at (tbl st) i = Some e"
    "status e = UNASSIGNED" "status (f e) \<noteq> UNASSIGNED" "r = idx2id m i" "tbl st' = tbl_upd f i (tbl st)" "ok st'"
    by auto
  note r = range [OF assms(1) i(1)]
  have at: "tbl_at (tbl st') j = (if j = i then Some (f e) else tbl_at (tbl st) j)" for j
    using tbl_at_upd [of i f "tbl st" j] r i by simp
  have "lookup st' (idx2id m j) = lookup st (idx2id m j)" if "0 \<le> j" "j < 2 ^ 24" "idx2id m j \<noteq> r" for j
  proof -
    have "j \<noteq> i" using that i(4) by auto
    then show ?thesis
      using lookup [OF assms(1) that(1,2)] lookup [OF i(6) that(1,2)] at [of j] by simp
  qed
  then show ?thesis
    using lookup [OF assms(1), of i] lookup [OF i(6), of i] id_inject [of i] r i at [of i] by simp
qed

text \<open>The table is reported full only when every entry is in use.\<close>

lemma add_full:
  assumes "ok st" "legal x"
  shows "fst (add st x) < 0 \<longleftrightarrow> (\<forall>i. 0 \<le> i \<and> i < tbl_length (tbl st) \<longrightarrow> lookup st (idx2id m i) \<noteq> None)"
proof -
  have look: "lookup st (idx2id m i) = (if status (the (tbl st) ! nat i) = UNASSIGNED then None else Some i)"
    if "0 \<le> i" "i < tbl_length (tbl st)" for i
    using lookup [OF assms(1), of i] small [OF assms(1)] that by (simp add: tbl_at_def)
  from add [OF assms] show ?thesis
  proof (elim disjE exE conjE)
    assume "add st x = (- errno_num ENOSPC, st)" "\<forall>i e. tbl_at (tbl st) i = Some e \<longrightarrow> status e \<noteq> UNASSIGNED"
    then show ?thesis using look by (auto simp: tbl_at_Some_iff)
  next
    fix i e f st'
    assume i: "tbl_at (tbl st) i = Some e" "status e = UNASSIGNED" "add st x = (idx2id m i, st')"
    then have "\<not> fst (add st x) < 0" using id_pos range [OF assms(1) i(1)] by (simp add: not_less less_imp_le)
    moreover have "lookup st (idx2id m i) = None" using i look [of i] by (simp add: tbl_at_Some_iff)
    ultimately show ?thesis using i(1) by (auto simp: tbl_at_Some_iff)
  qed
qed

end

section \<open>The invariant of the tables\<close>

text \<open>
  The tables are attached and their indices leave the value 24 set bits free, which the
  look-up of \<open>UNASSIGNED\<close> would read; the cursors stay within the tables.
\<close>

definition tables_ok :: "mwdstate \<Rightarrow> bool" where
  "tables_ok st \<longleftrightarrow>
     ipcmain st \<noteq> None
     \<and> clttbl st \<noteq> None \<and> tbl_length (clttbl st) \<le> MWINDEXMASK
     \<and> srvtbl st \<noteq> None \<and> tbl_length (srvtbl st) \<le> MWINDEXMASK
     \<and> svctbl st \<noteq> None \<and> tbl_length (svctbl st) \<le> MWINDEXMASK
     \<and> gwtbl st \<noteq> None
     \<and> 0 \<le> clt_nextidx st \<and> clt_nextidx st \<le> tbl_length (clttbl st)
     \<and> 0 \<le> srv_nextidx st \<and> srv_nextidx st \<le> tbl_length (srvtbl st)"

lemma tables_ok_cong: "tables_of st' = tables_of st \<Longrightarrow> tables_ok st' = tables_ok st"
  by (simp add: tables_ok_def tables_of_def)

lemma addserver_cases:
  assumes "tables_ok st"
  shows "(\<forall>i e. tbl_at (srvtbl st) i = Some e \<longrightarrow> srv_status e \<noteq> UNASSIGNED)
      \<and> addserver env st name mq pid = (- errno_num ENOSPC, st)
    \<or> (\<exists>i e. tbl_at (srvtbl st) i = Some e \<and> srv_status e = UNASSIGNED
         \<and> addserver env st name mq pid = (IDX2SRVID i,
             st\<lparr>srv_nextidx := i + 1, srvtbl := tbl_upd (new_server name mq pid (now env)) i (srvtbl st)\<rparr>))"
proof -
  let ?i = "next_free (srv_free (srvtbl st)) (srv_nextidx st) (tbl_length (srvtbl st))"
  have ok: "ipcmain st \<noteq> None" "0 \<le> srv_nextidx st" "srv_nextidx st \<le> tbl_length (srvtbl st)"
    "tbl_length (srvtbl st) \<le> MWINDEXMASK"
    using assms by (auto simp: tables_ok_def)
  from next_free_slot [OF ok(2,3) srv_free_def] show ?thesis
  proof (elim disjE exE conjE)
    assume "?i = UNASSIGNED" "\<forall>i e. tbl_at (srvtbl st) i = Some e \<longrightarrow> srv_status e \<noteq> UNASSIGNED"
    then show ?thesis using ok(1) by (auto simp: addserver_def)
  next
    fix e assume e: "?i \<noteq> UNASSIGNED" "tbl_at (srvtbl st) ?i = Some e" "srv_status e = UNASSIGNED"
    then have "?i OR MWSERVERMASK = IDX2SRVID ?i" using ok(4) by (simp add: id_simps tbl_at_Some_iff)
    then show ?thesis using e ok(1) by (auto simp: addserver_def Let_def)
  qed
qed

lemma addclient_cases:
  assumes "tables_ok st" "ty = MWIPCCLIENT \<or> ty = MWIPCSERVER \<or> ty = MWNETCLIENT"
  shows "(\<forall>i e. tbl_at (clttbl st) i = Some e \<longrightarrow> clt_status e \<noteq> UNASSIGNED)
      \<and> addclient env st ty name mq pid gwid = (- errno_num ENOSPC, st)
    \<or> (\<exists>i e f. tbl_at (clttbl st) i = Some e \<and> clt_status e = UNASSIGNED \<and> clt_status (f e) = 0
         \<and> clt_mqid (f e) = mq \<and> clientname (f e) = strncpy name MWMAXNAMELEN
         \<and> addclient env st ty name mq pid gwid =
             (IDX2CLTID i, st\<lparr>clt_nextidx := i + 1, clttbl := tbl_upd f i (clttbl st)\<rparr>))"
proof -
  let ?i = "next_free (clt_free (clttbl st)) (clt_nextidx st) (tbl_length (clttbl st))"
  have ok: "ipcmain st \<noteq> None" "0 \<le> clt_nextidx st" "clt_nextidx st \<le> tbl_length (clttbl st)"
    "tbl_length (clttbl st) \<le> MWINDEXMASK"
    using assms by (auto simp: tables_ok_def)
  from next_free_slot [OF ok(2,3) clt_free_def] show ?thesis
  proof (elim disjE exE conjE)
    assume "?i = UNASSIGNED" "\<forall>i e. tbl_at (clttbl st) i = Some e \<longrightarrow> clt_status e \<noteq> UNASSIGNED"
    then show ?thesis using ok(1) by (auto simp: addclient_def)
  next
    fix e assume e: "?i \<noteq> UNASSIGNED" "tbl_at (clttbl st) ?i = Some e" "clt_status e = UNASSIGNED"
    let ?f = "\<lambda>e. new_client ty name mq pid (now env)
        (if ty = MWNETCLIENT then e\<lparr>clt_location := GWCLIENT, clt_gwid := gwid\<rparr>
         else e\<lparr>clt_location := GWLOCAL, clt_gwid := UNASSIGNED\<rparr>)"
    have "?i OR MWCLIENTMASK = IDX2CLTID ?i" using e ok(4) by (simp add: id_simps tbl_at_Some_iff)
    then have "addclient env st ty name mq pid gwid =
        (IDX2CLTID ?i, st\<lparr>clt_nextidx := ?i + 1, clttbl := tbl_upd ?f ?i (clttbl st)\<rparr>)"
      using e ok(1) assms(2) by (auto simp: addclient_def Let_def)
    moreover have "clt_status (?f e) = 0" "clt_mqid (?f e) = mq" "clientname (?f e) = strncpy name MWMAXNAMELEN"
      by (simp_all add: new_client_def)
    ultimately show ?thesis
      using e by (intro disjI2 exI [of _ ?i] exI [of _ e] exI [of _ ?f] conjI)
  qed
qed

lemma addserver_tables_ok: "tables_ok st \<Longrightarrow> tables_ok (snd (addserver env st name mq pid))"
  using addserver_cases [of st env name mq pid]
  by (auto simp: tables_ok_def tbl_at_Some_iff)

lemma addclient_tables_ok:
  assumes "tables_ok st" "ty = MWIPCCLIENT \<or> ty = MWIPCSERVER \<or> ty = MWNETCLIENT"
  shows "tables_ok (snd (addclient env st ty name mq pid gwid))"
  using addclient_cases [OF assms, of env name mq pid gwid] assms(1)
  by (auto simp: tables_ok_def tbl_at_Some_iff)

interpretation srv: slot_table srvtbl srv_status MWSERVERMASK mw_get_server_byid
    "\<lambda>st (name, mq, pid). addserver env st name mq pid" "\<lambda>_. True" tables_ok for env
proof unfold_locales
  fix st i
  assume "tables_ok st" "0 \<le> i" "i < (2 :: int) ^ 24"
  then show "mw_get_server_byid st (IDX2SRVID i) =
      (case tbl_at (srvtbl st) i of None \<Rightarrow> None | Some e \<Rightarrow> if srv_status e = UNASSIGNED then None else Some i)"
    by (intro get_server_idx2id) (auto simp: tables_ok_def)
next
  fix st and x :: "string \<times> int \<times> int"
  assume ok: "tables_ok st"
  obtain name mq pid where x: "x = (name, mq, pid)" by (cases x)
  show "(\<forall>i e. tbl_at (srvtbl st) i = Some e \<longrightarrow> srv_status e \<noteq> UNASSIGNED)
      \<and> (case x of (name, mq, pid) \<Rightarrow> addserver env st name mq pid) = (- errno_num ENOSPC, st)
    \<or> (\<exists>i e f st'. tbl_at (srvtbl st) i = Some e \<and> srv_status e = UNASSIGNED \<and> srv_status (f e) \<noteq> UNASSIGNED
         \<and> (case x of (name, mq, pid) \<Rightarrow> addserver env st name mq pid) = (IDX2SRVID i, st')
         \<and> srvtbl st' = tbl_upd f i (srvtbl st) \<and> tables_ok st')"
    using addserver_cases [OF ok, of env name mq pid]
  proof (elim disjE exE conjE)
    fix i e
    assume i: "tbl_at (srvtbl st) i = Some e" "srv_status e = UNASSIGNED"
      "addserver env st name mq pid = (IDX2SRVID i,
         st\<lparr>srv_nextidx := i + 1, srvtbl := tbl_upd (new_server name mq pid (now env)) i (srvtbl st)\<rparr>)"
    then show ?thesis
      using addserver_tables_ok [OF ok, of env name mq pid]
      by (intro disjI2 exI [of _ i] exI [of _ e] exI [of _ "new_server name mq pid (now env)"] exI conjI)
        (auto simp: x new_server_def)
  qed (simp add: x)
qed (auto simp: tables_ok_def id_simps)

interpretation clt: slot_table clttbl clt_status MWCLIENTMASK mw_get_client_byid
    "\<lambda>st (ty, name, mq, pid, gwid). addclient env st ty name mq pid gwid"
    "\<lambda>(ty, _). ty = MWIPCCLIENT \<or> ty = MWIPCSERVER \<or> ty = MWNETCLIENT" tables_ok for env
proof unfold_locales
  fix st i
  assume "tables_ok st" "0 \<le> i" "i < (2 :: int) ^ 24"
  then show "mw_get_client_byid st (IDX2CLTID i) =
      (case tbl_at (clttbl st) i of None \<Rightarrow> None | Some e \<Rightarrow> if clt_status e = UNASSIGNED then None else Some i)"
    by (intro get_client_idx2id) (auto simp: tables_ok_def)
next
  fix st and x :: "int \<times> string \<times> int \<times> int \<times> int"
  assume ok: "tables_ok st" and legal: "case x of (ty, _) \<Rightarrow> ty = MWIPCCLIENT \<or> ty = MWIPCSERVER \<or> ty = MWNETCLIENT"
  obtain ty name mq pid gwid where x: "x = (ty, name, mq, pid, gwid)" by (cases x)
  have ty: "ty = MWIPCCLIENT \<or> ty = MWIPCSERVER \<or> ty = MWNETCLIENT" using legal by (simp add: x)
  show "(\<forall>i e. tbl_at (clttbl st) i = Some e \<longrightarrow> clt_status e \<noteq> UNASSIGNED)
      \<and> (case x of (ty, name, mq, pid, gwid) \<Rightarrow> addclient env st ty name mq pid gwid) = (- errno_num ENOSPC, st)
    \<or> (\<exists>i e f st'. tbl_at (clttbl st) i = Some e \<and> clt_status e = UNASSIGNED \<and> clt_status (f e) \<noteq> UNASSIGNED
         \<and> (case x of (ty, name, mq, pid, gwid) \<Rightarrow> addclient env st ty name mq pid gwid) = (IDX2CLTID i, st')
         \<and> clttbl st' = tbl_upd f i (clttbl st) \<and> tables_ok st')"
    using addclient_cases [OF ok ty, of env name mq pid gwid]
  proof (elim disjE exE conjE)
    fix i e f
    assume i: "tbl_at (clttbl st) i = Some e" "clt_status e = UNASSIGNED" "clt_status (f e) = 0"
      "addclient env st ty name mq pid gwid =
         (IDX2CLTID i, st\<lparr>clt_nextidx := i + 1, clttbl := tbl_upd f i (clttbl st)\<rparr>)"
    then show ?thesis
      using addclient_tables_ok [OF ok ty, of env name mq pid gwid]
      by (intro disjI2 exI [of _ i] exI [of _ e] exI [of _ f] exI conjI) (auto simp: x)
  qed (simp add: x)
qed (auto simp: tables_ok_def id_simps)

section \<open>Services\<close>

definition clear_service :: "serviceentry \<Rightarrow> serviceentry" where
  "clear_service e = e\<lparr>svc_type := UNASSIGNED, svc_server := UNASSIGNED, svc_gateway := UNASSIGNED,
     servicename := [], mwname := []\<rparr>"

lemma tables_of_svctbl:
  "tables_of a = tables_of b \<Longrightarrow> tables_of (a\<lparr>svctbl := x\<rparr>) = tables_of (b\<lparr>svctbl := x\<rparr>)"
  by (simp add: tables_of_def)

lemma events_ok_tables [simp]:
  "events_ok (st\<lparr>svctbl := a\<rparr>) = events_ok st" "events_ok (st\<lparr>srvtbl := b\<rparr>) = events_ok st"
  "events_ok (st\<lparr>clttbl := c\<rparr>) = events_ok st" "events_ok (st\<lparr>gwtbl := g\<rparr>) = events_ok st"
  "events_ok (st\<lparr>msgq := q\<rparr>) = events_ok st" "events_ok (st\<lparr>svc_nextidx := n\<rparr>) = events_ok st"
  "events_ok (st\<lparr>srv_nextidx := n\<rparr>) = events_ok st" "events_ok (st\<lparr>clt_nextidx := n\<rparr>) = events_ok st"
  "events_ok (st\<lparr>lastallocedid := n\<rparr>) = events_ok st" "events_ok (st\<lparr>bufferfiles := f\<rparr>) = events_ok st"
  by (simp_all add: events_ok_def)

lemma delservice_Some:
  assumes "delservice env st svcid = Some (rc, st')" "SVCID svcid \<noteq> UNASSIGNED"
  obtains st1 where "rc = 0" "tables_of st1 = tables_of st" "events_ok st \<longrightarrow> events_ok st1"
    "st' = st1\<lparr>svctbl := tbl_upd clear_service (SVCID2IDX svcid) (svctbl st)\<rparr>"
    "0 \<le> SVCID2IDX svcid" "SVCID2IDX svcid < tbl_length (svctbl st)"
proof -
  obtain e r st1 d where e: "tbl_at (svctbl st) (SVCID2IDX svcid) = Some e"
    and enq: "internal_event_enqueue env st (Some DELSERVICEEVENT) d sizeof_mwprovideevent None None = Some (r, st1)"
    and st': "rc = 0" "st' = st1\<lparr>svctbl := tbl_upd clear_service (SVCID2IDX svcid) (svctbl st1)\<rparr>"
    using assms by (auto simp: delservice_def Let_def bind_eq_Some_conv clear_service_def [abs_def])
  have t: "tables_of st1 = tables_of st" by (rule tables_of_internal_enqueue [OF enq])
  then have "svctbl st1 = svctbl st" by (simp add: tables_of_def)
  with st' t e internal_event_enqueue_ok [OF enq] show thesis
    by (intro that [of st1]) (auto simp: tbl_at_Some_iff)
qed

lemma svcid_idx2id:
  assumes "0 \<le> i" "i < 2 ^ 24"
  shows "SVCID (IDX2SVCID i) \<noteq> UNASSIGNED" "SVCID2IDX (IDX2SVCID i) = i"
  using idx2id_exp [of i 27 27] assms by (simp_all add: id_kind_def)

lemma delall_loop_spec:
  assumes "delall_loop env srvid n idx st = Some (k, st')" "svctbl st = Some t"
    and "idx + n = length t" "int (length t) \<le> MWINDEXMASK"
  shows "svctbl st' = Some (take idx t @ map (\<lambda>e. if svc_server e = srvid then clear_service e else e) (drop idx t))
    \<and> k = int (length (filter (\<lambda>e. svc_server e = srvid) (drop idx t)))
    \<and> tables_of st' = tables_of (st\<lparr>svctbl := svctbl st'\<rparr>) \<and> (events_ok st \<longrightarrow> events_ok st')"
  using assms
proof (induction n arbitrary: idx st t k)
  case (Suc n)
  let ?e = "t ! idx"
  have idx: "idx < length t" using Suc.prems(3) by simp
  have at: "tbl_at (svctbl st) (int idx) = Some ?e" using idx Suc.prems(2) by (simp add: tbl_at_nth)
  have dr: "drop idx t = ?e # drop (idx + 1) t" using drop_eq_Cons [OF idx] by simp
  have len: "idx + 1 + n = length t" using Suc.prems(3) by simp
  show ?case
  proof (cases "svc_server ?e = srvid")
    case False
    then have "delall_loop env srvid n (idx + 1) st = Some (k, st')"
      using Suc.prems(1) at by simp
    from Suc.IH [OF this Suc.prems(2) len Suc.prems(4)] False show ?thesis
      by (simp add: dr take_Suc_conv_app_nth [OF idx])
  next
    case True
    then obtain rc st1 k1 where del: "delservice env st (IDX2SVCID (int idx)) = Some (rc, st1)"
      and loop: "delall_loop env srvid n (idx + 1) st1 = Some (k1, st')" and k: "k = k1 + 1"
      using Suc.prems(1) at by (auto simp: bind_eq_Some_conv)
    have r: "0 \<le> int idx" "int idx < 2 ^ 24" using idx Suc.prems(4) by auto
    obtain st2 where st2: "tables_of st2 = tables_of st" "events_ok st \<longrightarrow> events_ok st2"
      "st1 = st2\<lparr>svctbl := tbl_upd clear_service (int idx) (svctbl st)\<rparr>"
      using delservice_Some [OF del svcid_idx2id(1) [OF r]] svcid_idx2id(2) [OF r] by metis
    let ?t = "t[idx := clear_service ?e]"
    have t1: "svctbl st1 = Some ?t" using st2(3) Suc.prems(2) by (simp add: tbl_upd_def)
    have "take (idx + 1) ?t = take idx t @ [clear_service ?e]" "drop (idx + 1) ?t = drop (idx + 1) t"
      using idx by (simp_all add: take_Suc_conv_app_nth)
    moreover note Suc.IH [OF loop t1] len Suc.prems(4)
    moreover have "tables_of (st1\<lparr>svctbl := x\<rparr>) = tables_of (st\<lparr>svctbl := x\<rparr>)" for x
      using tables_of_svctbl [OF st2(1), of x] st2(3) by simp
    ultimately show ?thesis using True st2(2,3) k by (simp add: dr)
  qed
qed (simp add: tables_of_def)

lemma delallservices_spec:
  assumes "delallservices env st srvid = Some (k, st')" "tables_ok st"
  shows "svctbl st' = map_option (map (\<lambda>e. if svc_server e = srvid then clear_service e else e)) (svctbl st)
    \<and> tables_of st' = tables_of (st\<lparr>svctbl := svctbl st'\<rparr>) \<and> (events_ok st \<longrightarrow> events_ok st')"
proof -
  obtain t where t: "svctbl st = Some t" using assms(2) by (auto simp: tables_ok_def)
  have "delall_loop env srvid (length t) 0 st = Some (k, st')"
    using assms t by (auto simp: delallservices_def tables_ok_def tbl_length_def)
  moreover have "int (length t) \<le> MWINDEXMASK" using assms(2) t by (simp add: tables_ok_def tbl_length_def)
  ultimately show ?thesis using delall_loop_spec [of env srvid "length t" 0 st k st' t] t by simp
qed

lemma delallservices_keeps_ok:
  assumes "delallservices env st srvid = Some (k, st')" "tables_ok st"
  shows "tables_ok st'"
proof -
  note spec = delallservices_spec [OF assms]
  have "tbl_length (svctbl st') = tbl_length (svctbl st)"
    using spec by (simp add: tbl_length_def split: option.split)
  then show ?thesis using spec assms(2) by (auto simp: tables_ok_def tables_of_def)
qed

section \<open>The invariant of the daemon\<close>

text \<open>
  A service entry that is not in use names no provider, and one that names a server names
  one that is attached.
\<close>

definition live :: "mwdstate \<Rightarrow> int \<Rightarrow> bool" where
  "live st s \<longleftrightarrow>
     (\<exists>i e. s = IDX2SRVID i \<and> i < 2 ^ 24 \<and> tbl_at (srvtbl st) i = Some e \<and> srv_status e \<noteq> UNASSIGNED)"

definition services_but :: "int set \<Rightarrow> mwdstate \<Rightarrow> bool" where
  "services_but X st \<longleftrightarrow>
     (\<forall>i e. tbl_at (svctbl st) i = Some e \<longrightarrow>
        (svc_type e = UNASSIGNED \<longrightarrow> svc_server e = UNASSIGNED \<and> svc_gateway e = UNASSIGNED)
        \<and> (svc_server e = UNASSIGNED \<or> live st (svc_server e) \<or> svc_server e \<in> X))"

abbreviation services_ok :: "mwdstate \<Rightarrow> bool" where "services_ok \<equiv> services_but {}"

definition mwd_inv :: "mwdstate \<Rightarrow> bool" where
  "mwd_inv st \<longleftrightarrow> tables_ok st \<and> services_ok st \<and> events_ok st"

lemma live_cong: "srvtbl st' = srvtbl st \<Longrightarrow> live st' s = live st s"
  by (simp add: live_def)

lemma services_but_eq:
  "svctbl st' = svctbl st \<Longrightarrow> srvtbl st' = srvtbl st \<Longrightarrow> services_but X st' = services_but X st"
  by (simp add: services_but_def live_def)

lemma services_but_frame [simp]:
  "services_but X (st\<lparr>clttbl := c\<rparr>) = services_but X st" "services_but X (st\<lparr>gwtbl := g\<rparr>) = services_but X st"
  "services_but X (st\<lparr>clt_nextidx := n\<rparr>) = services_but X st" "services_but X (st\<lparr>svc_nextidx := n\<rparr>) = services_but X st"
  by (rule services_but_eq; simp)+

lemma services_but_cong: "tables_of st' = tables_of st \<Longrightarrow> services_but X st' = services_but X st"
  by (simp add: services_but_def live_def tables_of_def)

lemma mwd_inv_cong:
  "tables_of st' = tables_of st \<Longrightarrow> events_ok st' \<Longrightarrow> mwd_inv st \<Longrightarrow> mwd_inv st'"
  by (simp add: mwd_inv_def tables_ok_cong [of st' st] services_but_cong [of st' st])

lemma mwd_inv_msgq [simp]: "mwd_inv (st\<lparr>msgq := q\<rparr>) = mwd_inv st"
  by (simp add: mwd_inv_def tables_ok_def services_but_def live_def)

lemma mwd_inv_msgsnd: "mwd_inv st \<Longrightarrow> mwd_inv (snd (msgsnd env st q m))"
  using msgsnd_frame [of env st q m] by auto

lemma mwd_inv_putmessage: "mwd_inv st \<Longrightarrow> mwd_inv (snd (mw_ipc_putmessage env st d m))"
  using putmessage_frame [of env st d m] by auto

lemma mwd_inv_reply: "mwd_inv st \<Longrightarrow> mwd_inv (snd (send_reply env st m q))"
  by (simp add: send_reply_def mwd_inv_msgsnd)

lemma mwd_inv_rmid [simp]: "mwd_inv (msgctl_rmid st q) = mwd_inv st"
  by (simp add: msgctl_rmid_def)

text \<open>Members are added.\<close>

lemma addserver_inv: "mwd_inv st \<Longrightarrow> mwd_inv (snd (addserver env st name mq pid))"
proof -
  assume inv: "mwd_inv st"
  then have ok: "tables_ok st" by (simp add: mwd_inv_def)
  show ?thesis
    using addserver_cases [OF ok, of env name mq pid]
  proof (elim disjE exE conjE)
    fix i e
    assume i: "tbl_at (srvtbl st) i = Some e" and add: "addserver env st name mq pid = (IDX2SRVID i,
         st\<lparr>srv_nextidx := i + 1, srvtbl := tbl_upd (new_server name mq pid (now env)) i (srvtbl st)\<rparr>)"
    let ?st = "st\<lparr>srv_nextidx := i + 1, srvtbl := tbl_upd (new_server name mq pid (now env)) i (srvtbl st)\<rparr>"
    have "live ?st s" if "live st s" for s
      using that i tbl_at_upd [of i "new_server name mq pid (now env)" "srvtbl st"]
      by (fastforce simp: live_def tbl_at_Some_iff new_server_def)
    then show ?thesis
      using inv addserver_tables_ok [OF ok, of env name mq pid] unfolding add
      by (auto simp: mwd_inv_def services_but_def)
  qed (use inv in simp)
qed

lemma addclient_inv:
  assumes "mwd_inv st" "ty = MWIPCCLIENT \<or> ty = MWIPCSERVER \<or> ty = MWNETCLIENT"
  shows "mwd_inv (snd (addclient env st ty name mq pid gwid))"
proof -
  have ok: "tables_ok st" using assms(1) by (simp add: mwd_inv_def)
  show ?thesis
    using addclient_cases [OF ok assms(2), of env name mq pid gwid]
  proof (elim disjE exE conjE)
    fix i e f
    assume add: "addclient env st ty name mq pid gwid =
        (IDX2CLTID i, st\<lparr>clt_nextidx := i + 1, clttbl := tbl_upd f i (clttbl st)\<rparr>)"
    show ?thesis
      using addclient_tables_ok [OF ok assms(2), of env name mq pid gwid] assms(1) unfolding add
      by (simp add: mwd_inv_def)
  qed (use assms(1) in simp)
qed

text \<open>Members are removed.\<close>

lemma delclient_inv:
  assumes "delclient st cid = Some (rc, st')" "cid \<noteq> UNASSIGNED" "mwd_inv st"
  shows "mwd_inv st'"
proof -
  obtain st1 where clr: "event_clear_id st cid = Some st1"
    using assms(1,3) by (auto simp: delclient_def mwd_inv_def tables_ok_def bind_eq_Some_conv)
  let ?st = "snd (event_unsubscribe st1 UNASSIGNED cid)"
  have t: "tables_of ?st = tables_of st" using tables_of_clear_id [OF clr] by simp
  moreover have "events_ok ?st"
    using assms(3) by (intro event_unsubscribe_ok event_clear_id_ok [OF clr assms(2)]) (simp add: mwd_inv_def)
  ultimately have inv: "mwd_inv ?st" using assms(3) by (rule mwd_inv_cong)
  have upd: "mwd_inv (?st\<lparr>clttbl := tbl_upd f i (clttbl ?st)\<rparr>)" for f i
    using inv by (simp add: mwd_inv_def tables_ok_def)
  show ?thesis
  proof (cases "mw_getcliententry ?st cid")
    case None
    then show ?thesis
      using assms(1,3) clr inv by (auto simp: delclient_def Let_def mwd_inv_def tables_ok_def)
  next
    case (Some i)
    then have "\<exists>f. st' = ?st\<lparr>clttbl := tbl_upd f i (clttbl ?st)\<rparr>"
      using assms(1,3) clr
      by (auto simp: delclient_def Let_def mwd_inv_def tables_ok_def bind_eq_Some_conv)
    then show ?thesis using upd by auto
  qed
qed

lemma clear_services_ok:
  assumes "services_but X st" "svctbl st' = map_option (map (\<lambda>e. if svc_server e \<in> Y then clear_service e else e)) (svctbl st)"
    and "srvtbl st' = srvtbl st"
  shows "services_but (X - Y) st'"
proof -
  have "tbl_at (svctbl st') i = map_option (\<lambda>e. if svc_server e \<in> Y then clear_service e else e) (tbl_at (svctbl st) i)" for i
    using assms(2) by (cases "svctbl st") (auto simp: tbl_at_def tbl_length_def)
  note at = this
  have lv: "live st' s = live st s" for s by (rule live_cong [OF assms(3)])
  show ?thesis
    unfolding services_but_def
  proof (intro allI impI)
    fix i e' assume "tbl_at (svctbl st') i = Some e'"
    then obtain e where e: "tbl_at (svctbl st) i = Some e"
      "e' = (if svc_server e \<in> Y then clear_service e else e)"
      unfolding at by auto
    have "(svc_type e = UNASSIGNED \<longrightarrow> svc_server e = UNASSIGNED \<and> svc_gateway e = UNASSIGNED)
        \<and> (svc_server e = UNASSIGNED \<or> live st (svc_server e) \<or> svc_server e \<in> X)"
      using assms(1) e(1) by (simp add: services_but_def)
    then show "(svc_type e' = UNASSIGNED \<longrightarrow> svc_server e' = UNASSIGNED \<and> svc_gateway e' = UNASSIGNED)
        \<and> (svc_server e' = UNASSIGNED \<or> live st' (svc_server e') \<or> svc_server e' \<in> X - Y)"
      unfolding e(2) lv by (cases "svc_server e \<in> Y") (simp_all add: clear_service_def)
  qed
qed

lemma delserver_inv:
  assumes "delserver st (IDX2SRVID i) = Some (rc, st')" "0 \<le> i" "i < 2 ^ 24" "mwd_inv st"
  shows "tables_ok st' \<and> events_ok st' \<and> services_but {IDX2SRVID i} st'
    \<and> mw_get_server_byid st' (IDX2SRVID i) = None"
proof -
  have idx: "SRVID2IDX (IDX2SRVID i) = i" "IDX2SRVID i > 0"
    using idx2id_exp [of i 24 24] assms(2,3) by simp_all
  let ?f = "\<lambda>e. e\<lparr>srv_status := UNASSIGNED, srv_mqid := UNASSIGNED, srv_pid := UNASSIGNED, servername := []\<rparr>"
  obtain st1 e where clr: "event_clear_id st (IDX2SRVID i) = Some st1"
    and e: "tbl_at (srvtbl st1) i = Some e" and st': "st' = st1\<lparr>srvtbl := tbl_upd ?f i (srvtbl st1)\<rparr>"
    using assms(1,4) by (auto simp: delserver_def idx Let_def mwd_inv_def tables_ok_def bind_eq_Some_conv)
  have t: "tables_of st1 = tables_of st" by (rule tables_of_clear_id [OF clr])
  have inv: "mwd_inv st1"
    using t event_clear_id_ok [OF clr] idx(2) assms(4) by (intro mwd_inv_cong [OF t]) (auto simp: mwd_inv_def)
  have at: "tbl_at (srvtbl st') j = (if j = i then Some (?f e) else tbl_at (srvtbl st1) j)" for j
    using tbl_at_upd [OF assms(2), of ?f "srvtbl st1" j] e st' by simp
  have "live st' s" if lv: "live st1 s" and ne: "s \<noteq> IDX2SRVID i" for s
  proof -
    obtain j ej where "s = IDX2SRVID j" "j < 2 ^ 24" "tbl_at (srvtbl st1) j = Some ej" "srv_status ej \<noteq> UNASSIGNED"
      using lv by (auto simp: live_def)
    moreover from this ne have "j \<noteq> i" by auto
    ultimately show ?thesis using at [of j] unfolding live_def by (intro exI [of _ j] exI [of _ ej]) simp
  qed
  then have svc: "services_but {IDX2SRVID i} st'"
    using inv st' by (auto simp: mwd_inv_def services_but_def)
  have ok: "tables_ok st'" using inv st' by (auto simp: mwd_inv_def tables_ok_def)
  then have "mw_get_server_byid st' (IDX2SRVID i) = None"
    using get_server_idx2id [OF assms(2,3), of st'] at [of i] by (auto simp: tables_ok_def)
  then show ?thesis using inv svc ok st' by (simp add: mwd_inv_def)
qed

lemma remove_server_inv:
  assumes "delserver st (IDX2SRVID i) = Some (rc, st1)" "delallservices env st1 (IDX2SRVID i) = Some (n, st')"
    and "0 \<le> i" "i < 2 ^ 24" "mwd_inv st"
  shows "mwd_inv st'"
proof -
  note d = delserver_inv [OF assms(1,3,4,5)]
  have ok: "tables_ok st1" using d by simp
  note spec = delallservices_spec [OF assms(2) ok]
  have "srvtbl st' = srvtbl st1" using spec by (simp add: tables_of_def)
  then have "services_but ({IDX2SRVID i} - {IDX2SRVID i}) st'"
    using d spec by (intro clear_services_ok [of _ st1]) auto
  then show ?thesis
    using d spec delallservices_keeps_ok [OF assms(2) ok] by (simp add: mwd_inv_def)
qed

end
