(* ===== verification/MwdProps.thy ===== *)
theory MwdProps
  imports TableProps
begin

unbundle bit_operations_syntax

text \<open>
  The daemon as a whole: every request, the event task and the watchdog keep the invariant
  of tables, services and queues, and the properties of the requests that members rely on.
\<close>

section \<open>Services keep the invariant\<close>

definition entry_ok :: "mwdstate \<Rightarrow> serviceentry \<Rightarrow> bool" where
  "entry_ok st e \<longleftrightarrow>
     (svc_type e = UNASSIGNED \<longrightarrow> svc_server e = UNASSIGNED \<and> svc_gateway e = UNASSIGNED)
     \<and> (svc_server e = UNASSIGNED \<or> live st (svc_server e))"

lemma services_ok_iff: "services_ok st \<longleftrightarrow> (\<forall>i e. tbl_at (svctbl st) i = Some e \<longrightarrow> entry_ok st e)"
  by (simp add: services_but_def entry_ok_def)

lemma live_svctbl [simp]: "live (st\<lparr>svctbl := t\<rparr>) s = live st s" "live (st\<lparr>svc_nextidx := n\<rparr>) s = live st s"
  by (simp_all add: live_def)

lemma entry_ok_svctbl [simp]:
  "entry_ok (st\<lparr>svctbl := t\<rparr>) e = entry_ok st e" "entry_ok (st\<lparr>svc_nextidx := n\<rparr>) e = entry_ok st e"
  by (simp_all add: entry_ok_def)

lemma upd_service_inv:
  assumes "mwd_inv st" "0 \<le> i" "\<And>e. tbl_at (svctbl st) i = Some e \<Longrightarrow> entry_ok st (f e)"
  shows "mwd_inv (st\<lparr>svctbl := tbl_upd f i (svctbl st)\<rparr>)"
  using assms by (auto simp: mwd_inv_def tables_ok_def services_ok_iff tbl_at_upd [OF assms(2)])

lemma mwd_inv_nextidx [simp]: "mwd_inv (st\<lparr>svc_nextidx := n\<rparr>) = mwd_inv st"
  by (simp add: mwd_inv_def tables_ok_def)

lemma delservice_inv:
  assumes "delservice env st svcid = Some (rc, st')" "mwd_inv st"
  shows "mwd_inv st'"
proof (cases "SVCID svcid = UNASSIGNED")
  case True
  then show ?thesis using assms by (simp add: delservice_def)
next
  case False
  obtain st1 where st1: "tables_of st1 = tables_of st" "events_ok st \<longrightarrow> events_ok st1"
    "st' = st1\<lparr>svctbl := tbl_upd clear_service (SVCID2IDX svcid) (svctbl st)\<rparr>" "0 \<le> SVCID2IDX svcid"
    by (rule delservice_Some [OF assms(1) False]) blast
  have inv: "mwd_inv st1" using mwd_inv_cong [OF st1(1)] st1(2) assms(2) by (simp add: mwd_inv_def)
  have "svctbl st1 = svctbl st" using st1(1) by (simp add: tables_of_def)
  then show ?thesis
    using upd_service_inv [OF inv st1(4), of clear_service] st1(3)
    by (simp add: entry_ok_def clear_service_def)
qed

lemma scan_order_set: "0 < n \<Longrightarrow> set (scan_order x n) = {..<n}"
proof
  assume n: "0 < n"
  show "set (scan_order x n) \<subseteq> {..<n}"
    using n by (auto simp: scan_order_def nat_less_iff)
  show "{..<n} \<subseteq> set (scan_order x n)"
  proof
    fix k assume k: "k \<in> {..<n}"
    define i where "i = nat ((int k - x) mod int n)"
    have "i < n" using n by (simp add: i_def nat_less_iff)
    moreover have "(x + int i) mod int n = int k"
    proof -
      have "int i = (int k - x) mod int n" using n by (simp add: i_def)
      then have "(x + int i) mod int n = (x + (int k - x)) mod int n" by (simp add: mod_add_right_eq)
      then show ?thesis using k by simp
    qed
    ultimately show "k \<in> set (scan_order x n)" by (auto simp: scan_order_def intro!: image_eqI [of _ _ i])
  qed
qed

lemma addservice_cases:
  assumes "addservice st name ty = Some (r, st')"
  obtains (full) "r = - errno_num ENOSPC" "st' = st" "\<forall>i e. tbl_at (svctbl st) i = Some e \<longrightarrow> svc_type e \<noteq> UNASSIGNED"
  | (added) e where "tbl_at (svctbl st) r = Some e" "svc_type e = UNASSIGNED"
      "st' = st\<lparr>svc_nextidx := r + 1,
         svctbl := tbl_upd (\<lambda>e. e\<lparr>servicename := strncpy name MWMAXSVCNAME, svc_type := ty\<rparr>) r (svctbl st)\<rparr>"
proof -
  obtain t where t: "svctbl st = Some t" "t \<noteq> []"
    using assms by (auto simp: addservice_def split: option.splits list.splits)
  let ?p = "\<lambda>i. svc_type (t ! i) = UNASSIGNED"
  let ?o = "scan_order (svc_nextidx st) (length t)"
  have set: "set ?o = {..<length t}" using t(2) by (intro scan_order_set) simp
  have def: "addservice st name ty = (case find ?p ?o of
       None \<Rightarrow> Some (- errno_num ENOSPC, st)
     | Some i \<Rightarrow> Some (int i, st\<lparr>svc_nextidx := int i + 1,
         svctbl := tbl_upd (\<lambda>e. e\<lparr>servicename := strncpy name MWMAXSVCNAME, svc_type := ty\<rparr>) (int i) (svctbl st)\<rparr>))"
    using t by (auto simp: addservice_def split: list.split)
  show thesis
  proof (cases "find ?p ?o")
    case None
    then have "\<forall>i < length t. \<not> ?p i" using set by (auto simp: find_None_iff)
    then show thesis
      using None assms def t by (intro full) (auto simp: tbl_at_def tbl_length_def nat_less_iff)
  next
    case (Some i)
    then have i: "i < length t" "?p i" using set by (auto simp: find_Some_iff set_conv_nth)
    then show thesis
      using Some assms def t by (intro added [of "t ! i"]) (auto simp: tbl_at_nth)
  qed
qed

lemma addservice_inv:
  assumes "addservice st name ty = Some (r, st')" "mwd_inv st" "ty \<noteq> UNASSIGNED"
  shows "mwd_inv st'"
  using assms(1)
proof (cases rule: addservice_cases)
  case (added e)
  let ?f = "\<lambda>e. e\<lparr>servicename := strncpy name MWMAXSVCNAME, svc_type := ty\<rparr>"
  have "entry_ok st (?f e)"
    using assms(2,3) added(1) by (auto simp: mwd_inv_def services_ok_iff entry_ok_def)
  then show ?thesis
    using upd_service_inv [of "st\<lparr>svc_nextidx := r + 1\<rparr>" r ?f] added assms(2) by (auto simp: tbl_at_Some_iff)
qed (use assms in simp)

lemma internal_enqueue_inv:
  "internal_event_enqueue env st ev d n u c = Some (rc, st') \<Longrightarrow> mwd_inv st \<Longrightarrow> mwd_inv st'"
  using tables_of_internal_enqueue internal_event_enqueue_ok mwd_inv_cong mwd_inv_def by metis

lemma addlocalservice_inv:
  assumes "addlocalservice env st srvid name ty = Some (rc, st')" "mwd_inv st" "ty \<noteq> UNASSIGNED"
    and srvid: "srvid = IDX2SRVID i" "0 \<le> i" "i < 2 ^ 24"
  shows "mwd_inv st'"
proof -
  have idx: "SRVID2IDX srvid = i" "SRVID srvid \<noteq> UNASSIGNED" "srvid \<noteq> 0"
    using idx2id_exp [of i 24 24] srvid by (simp_all add: id_kind_def)
  show ?thesis
  proof (cases "mw_getserverentry st srvid")
    case None
    then show ?thesis using assms(1,2) idx by (simp add: addlocalservice_def)
  next
    case (Some si)
    then have si: "si = i" using idx by (auto simp: mw_getserverentry_def getentry_def Let_def split: if_splits)
    obtain e where e: "tbl_at (srvtbl st) i = Some e"
      using assms(1) Some si idx by (auto simp: addlocalservice_def bind_eq_Some_conv)
    show ?thesis
    proof (cases "srv_status e = UNASSIGNED")
      case True
      then show ?thesis using assms(1,2) Some si e idx by (simp add: addlocalservice_def)
    next
      case False
      obtain svcidx st1 where add: "addservice st name ty = Some (svcidx, st1)"
        using assms(1) Some si e idx False by (auto simp: addlocalservice_def bind_eq_Some_conv)
      have inv1: "mwd_inv st1" by (rule addservice_inv [OF add assms(2,3)])
      show ?thesis
      proof (cases "svcidx < 0")
        case True
        then show ?thesis using assms(1) Some si e idx False add inv1 by (simp add: addlocalservice_def)
      next
        case pos: False
        let ?f = "\<lambda>e. e\<lparr>svc_server := srvid, svc_location := GWLOCAL\<rparr>"
        let ?st = "st1\<lparr>svctbl := tbl_upd ?f svcidx (svctbl st1)\<rparr>"
        obtain r where enq: "internal_event_enqueue env ?st (Some NEWSERVICEEVENT)
            (Some (mwprovideevent name srvid (IDX2SVCID svcidx))) sizeof_mwprovideevent None None = Some (r, st')"
          using assms(1) Some si e idx False add pos
          by (auto simp: addlocalservice_def bind_eq_Some_conv Let_def)
        have "srvtbl st1 = srvtbl st" using add by (rule addservice_cases) simp_all
        then have "live st1 srvid"
          unfolding live_def using srvid e False by (intro exI [of _ i] exI [of _ e]) simp
        moreover have "svc_type e' \<noteq> UNASSIGNED" if "tbl_at (svctbl st1) svcidx = Some e'" for e'
          using add pos assms(3) that tbl_at_upd [of svcidx _ "svctbl st"]
          by (elim addservice_cases) auto
        ultimately have "mwd_inv ?st"
          using pos by (intro upd_service_inv [OF inv1]) (auto simp: entry_ok_def)
        then show ?thesis by (rule internal_enqueue_inv [OF enq])
      qed
    qed
  qed
qed

lemma addremoteservice_inv:
  assumes "addremoteservice env st gwid name cost ty = Some (rc, st')" "mwd_inv st" "ty \<noteq> UNASSIGNED"
  shows "mwd_inv st'"
proof (cases "GWID gwid = UNASSIGNED")
  case True
  then show ?thesis using assms by (simp add: addremoteservice_def)
next
  case False
  then obtain gi ge where g: "mw_getgatewayentry st gwid = Some gi" "tbl_at (gwtbl st) gi = Some ge"
    using assms(1) by (auto simp: addremoteservice_def bind_eq_Some_conv)
  show ?thesis
  proof (cases "gw_status ge = UNASSIGNED")
    case True
    then show ?thesis using assms(1,2) g False by (simp add: addremoteservice_def)
  next
    case used: False
    obtain svcidx st1 where add: "addservice st name ty = Some (svcidx, st1)"
      using assms(1) g False used by (auto simp: addremoteservice_def bind_eq_Some_conv)
    have inv1: "mwd_inv st1" by (rule addservice_inv [OF add assms(2,3)])
    show ?thesis
    proof (cases "svcidx < 0")
      case True
      then show ?thesis using assms(1) g False used add inv1 by (simp add: addremoteservice_def)
    next
      case pos: False
      let ?f = "\<lambda>e. e\<lparr>svc_gateway := gwid, svc_location := gw_location ge, svc_cost := cost\<rparr>"
      let ?st = "st1\<lparr>svctbl := tbl_upd ?f svcidx (svctbl st1)\<rparr>"
      obtain r where enq: "internal_event_enqueue env ?st (Some NEWSERVICEEVENT)
          (Some (mwprovideevent name gwid (IDX2SVCID svcidx))) sizeof_mwprovideevent None None = Some (r, st')"
        using assms(1) g False used add pos by (auto simp: addremoteservice_def bind_eq_Some_conv Let_def)
      have "svc_type e' \<noteq> UNASSIGNED \<and> entry_ok st1 e'" if "tbl_at (svctbl st1) svcidx = Some e'" for e'
      proof
        show "svc_type e' \<noteq> UNASSIGNED"
          using add pos assms(3) that tbl_at_upd [of svcidx _ "svctbl st"]
          by (elim addservice_cases) auto
        show "entry_ok st1 e'" using inv1 that by (auto simp: mwd_inv_def services_ok_iff)
      qed
      then have "mwd_inv ?st"
        using pos by (intro upd_service_inv [OF inv1]) (auto simp: entry_ok_def)
      then show ?thesis by (rule internal_enqueue_inv [OF enq])
    qed
  qed
qed

section \<open>Requests keep the invariant\<close>

lemma attach_server_inv: "mwd_inv st \<Longrightarrow> mwd_inv (snd (attach_server env st areq))"
  using addserver_inv [of st env "at_srvname areq" "at_ipcqid areq" "at_pid areq"]
  by (auto simp: attach_server_def split: prod.split)

lemma attach_client_inv: "mwd_inv st \<Longrightarrow> mwd_inv (snd (attach_client env st areq))"
  using addclient_inv [of st _ env "at_cltname areq" "at_ipcqid areq" "at_pid areq"]
  by (auto simp: attach_client_def split: prod.split if_splits) (metis snd_conv)+

lemma do_attach_inv:
  assumes "do_attach env st areq = Some (rc, st')" "mwd_inv st"
  shows "mwd_inv st'"
proof -
  have rep: "mwd_inv s'" if "send_reply env s m q = (r, s')" "mwd_inv s" for s m q r s'
    using mwd_inv_reply [OF that(2), of env m q] that(1) by simp
  let ?a = "areq\<lparr>at_mtype := ATTACHRPL, at_srvid := UNASSIGNED, at_cltid := UNASSIGNED, at_returncode := 0\<rparr>"
  obtain a1 s1 where 1: "(if at_server ?a then attach_server env st ?a else (?a, st)) = (a1, s1)" by fastforce
  have inv1: "mwd_inv s1"
    using attach_server_inv [OF assms(2), of env ?a] assms(2) 1 by (auto split: if_splits)
  obtain a2 s2 where 2: "(if at_client a1 then attach_client env s1 a1 else (a1, s1)) = (a2, s2)" by fastforce
  have inv2: "mwd_inv s2"
    using attach_client_inv [OF inv1, of env a1] inv1 2 by (auto split: if_splits)
  show ?thesis
    using assms 1 2 inv1 inv2 unfolding do_attach_def Let_def
    by (cases "ipcmain st") (auto split: if_splits intro: mwd_inv_reply elim: rep)
qed

text \<open>Requests carry the ids the daemon has given out.\<close>

definition server_id :: "int \<Rightarrow> bool" where
  "server_id s \<longleftrightarrow> (\<exists>i. 0 \<le> i \<and> i < 2 ^ 24 \<and> s = IDX2SRVID i)"

lemma do_detach_inv:
  assumes "do_detach env st dm = Some (rc, st')" "mwd_inv st"
    and "at_server dm \<Longrightarrow> server_id (at_srvid dm)" "at_client dm \<Longrightarrow> at_cltid dm \<noteq> UNASSIGNED"
  shows "mwd_inv st'"
proof (cases "at_mtype dm = DETACHREQ")
  case False
  then show ?thesis using assms by (simp add: do_detach_def)
next
  case True
  let ?dm = "dm\<lparr>at_mtype := DETACHRPL\<rparr>"
  obtain st1 st2 where 1: "(if at_server dm then detach_server env st (at_srvid dm) else Some st) = Some st1"
    and 2: "(if at_client dm then map_option snd (delclient st1 (at_cltid dm)) else Some st1) = Some st2"
    and fin: "(if (at_flags dm AND MWFORCE) \<noteq> 0 then Some (0, st2)
      else Some (send_reply env st2 (Attach (?dm\<lparr>at_returncode := 0\<rparr>)) (at_ipcqid dm))) = Some (rc, st')"
    using assms(1) True by (auto simp: do_detach_def Let_def bind_eq_Some_conv cong: if_cong)
  have st': "st' = st2 \<or> st' = snd (send_reply env st2 (Attach (?dm\<lparr>at_returncode := 0\<rparr>)) (at_ipcqid dm))"
    using fin by (auto split: if_splits)
  have inv1: "mwd_inv st1"
  proof (cases "at_server dm")
    case True
    with assms(3) obtain i where i: "0 \<le> i" "i < 2 ^ 24" "at_srvid dm = IDX2SRVID i" by (auto simp: server_id_def)
    from 1 True obtain r s n where "delserver st (IDX2SRVID i) = Some (r, s)"
      "delallservices env s (IDX2SRVID i) = Some (n, st1)"
      by (auto simp: detach_server_def bind_eq_Some_conv i(3))
    then show ?thesis using remove_server_inv i assms(2) by blast
  qed (use 1 assms(2) in simp)
  have "mwd_inv st2"
    using 2 inv1 assms(4) delclient_inv [of st1 "at_cltid dm"] by (auto split: if_splits)
  then show ?thesis using st' mwd_inv_reply by auto
qed

lemma do_provide_inv:
  assumes "do_provide env st pm = Some (rc, st')" "mwd_inv st"
    and "pr_srvid pm \<noteq> -1 \<Longrightarrow> server_id (pr_srvid pm)"
  shows "mwd_inv st'"
proof -
  let ?ty = "provide_type (pr_flags pm)"
  have ty: "?ty \<noteq> UNASSIGNED" by (simp add: provide_type_def)
  have rep: "mwd_inv s' " if "provide_reply env s p v q = (r, s')" "mwd_inv s" for s p v q r s'
    using that mwd_inv_reply [OF that(2)] by (metis provide_reply_def snd_conv)
  show ?thesis
  proof (cases "pr_srvid pm = -1")
    case False
    then have loc: "mwd_inv s" if "addlocalservice env st (pr_srvid pm) n ?ty = Some (v, s)" for s v n
      using addlocalservice_inv [OF that assms(2) ty] assms(3) by (auto simp: server_id_def)
    from False assms(1,2) show ?thesis
      by (auto simp: do_provide_def Let_def bind_eq_Some_conv split: if_splits option.splits elim!: rep dest: loc)
  next
    case True
    have "mwd_inv s" if "addremoteservice env st g n c ?ty = Some (v, s)" for s v n g c
      by (rule addremoteservice_inv [OF that assms(2) ty])
    with True assms(1,2) show ?thesis
      by (auto simp: do_provide_def Let_def bind_eq_Some_conv split: if_splits option.splits elim!: rep)
  qed
qed

lemma do_unprovide_inv:
  assumes "do_unprovide env st pm = Some (rc, st')" "mwd_inv st"
  shows "mwd_inv st'"
proof -
  have "st' = st \<or> (\<exists>r s p q. delservice env st (pr_svcid pm) = Some (r, s) \<and> st' = snd (send_reply env s p q))"
    using assms(1) unfolding do_unprovide_def
    by (cases "mw_getserviceentry st (SVCID (pr_svcid pm))") (auto simp: bind_eq_Some_conv, metis snd_conv)
  then show ?thesis using assms(2) delservice_inv mwd_inv_reply by blast
qed

section \<open>The watchdog keeps the invariant\<close>

lemma mwd_inv_index:
  assumes "mwd_inv st"
  shows "tbl_at (clttbl st) i = Some c \<Longrightarrow> 0 \<le> i \<and> i < 2 ^ 24"
    and "tbl_at (srvtbl st) i = Some s \<Longrightarrow> 0 \<le> i \<and> i < 2 ^ 24"
  using assms by (auto simp: mwd_inv_def tables_ok_def tbl_at_Some_iff)

lemma mwd_inv_gwtbl: "mwd_inv st \<Longrightarrow> mwd_inv (st\<lparr>gwtbl := tbl_upd f i (gwtbl st)\<rparr>)"
  by (simp add: mwd_inv_def tables_ok_def)

lemma idx2cltid_assigned: "0 \<le> i \<Longrightarrow> i < 2 ^ 24 \<Longrightarrow> IDX2CLTID i \<noteq> UNASSIGNED"
  using idx2id_exp(3) [of i 25 25] by simp

lemma mask_or_index:
  assumes "0 \<le> i" "i < 2 ^ 24"
  shows "MWCLIENTMASK OR i = IDX2CLTID i" "MWSERVERMASK OR i = IDX2SRVID i"
  using idx2id_exp(5) [of i 25 25] idx2id_exp(5) [of i 24 24] assms by simp_all

lemma check_clients_inv: "check_clients env n i st = Some st' \<Longrightarrow> mwd_inv st \<Longrightarrow> mwd_inv st'"
proof (induction n arbitrary: i st)
  case (Suc n)
  then obtain e where e: "tbl_at (clttbl st) (int i) = Some e" by (auto simp: bind_eq_Some_conv)
  note r = mwd_inv_index(1) [OF Suc.prems(2) e]
  show ?case
  proof (cases "clt_pid e > 1 \<and> procowner env (clt_pid e) = 0")
    case True
    then obtain rc s where del: "delclient (msgctl_rmid st (clt_mqid e)) (IDX2CLTID (int i)) = Some (rc, s)"
      and rest: "check_clients env n (i + 1) s = Some st'"
      using Suc.prems(1) e r by (auto simp: bind_eq_Some_conv mask_or_index)
    have "mwd_inv s"
      using delclient_inv [OF del idx2cltid_assigned] r Suc.prems(2) by simp
    then show ?thesis by (rule Suc.IH [OF rest])
  qed (use Suc e in auto)
qed simp

lemma check_servers_inv: "check_servers env n i st = Some st' \<Longrightarrow> mwd_inv st \<Longrightarrow> mwd_inv st'"
proof (induction n arbitrary: i st)
  case (Suc n)
  then obtain e where e: "tbl_at (srvtbl st) (int i) = Some e" by (auto simp: bind_eq_Some_conv)
  note r = mwd_inv_index(2) [OF Suc.prems(2) e]
  show ?case
  proof (cases "srv_pid e > 1 \<and> kill_err env (srv_pid e) \<noteq> None")
    case True
    then obtain rc s k s' where del: "delserver (msgctl_rmid st (srv_mqid e)) (IDX2SRVID (int i)) = Some (rc, s)"
      "delallservices env s (IDX2SRVID (int i)) = Some (k, s')"
      and rest: "check_servers env n (i + 1) s' = Some st'"
      using Suc.prems(1) e r by (auto simp: bind_eq_Some_conv mask_or_index)
    have "mwd_inv s'" using remove_server_inv [OF del] r Suc.prems(2) by simp
    then show ?thesis by (rule Suc.IH [OF rest])
  qed (use Suc e in auto)
qed simp

lemma del_gw_clients_inv: "del_gw_clients g n j st = Some st' \<Longrightarrow> mwd_inv st \<Longrightarrow> mwd_inv st'"
proof (induction n arbitrary: j st)
  case (Suc n)
  then obtain e where e: "tbl_at (clttbl st) (int j) = Some e" by (auto simp: bind_eq_Some_conv)
  show ?case
  proof (cases "clt_gwid e = g")
    case True
    then obtain rc s where del: "delclient st (IDX2CLTID (int j)) = Some (rc, s)"
      and rest: "del_gw_clients g n (j + 1) s = Some st'"
      using Suc.prems(1) e by (auto simp: bind_eq_Some_conv)
    have "mwd_inv s"
      using delclient_inv [OF del idx2cltid_assigned] mwd_inv_index(1) [OF Suc.prems(2) e] Suc.prems(2) by simp
    then show ?thesis by (rule Suc.IH [OF rest])
  qed (use Suc e in auto)
qed simp

lemma check_gateways_inv: "check_gateways env n i st = Some st' \<Longrightarrow> mwd_inv st \<Longrightarrow> mwd_inv st'"
proof (induction n arbitrary: i st)
  case (Suc n)
  then obtain e where e: "tbl_at (gwtbl st) (int i) = Some e" by (auto simp: bind_eq_Some_conv)
  show ?case
  proof (cases "gw_pid e > 1 \<and> kill_err env (gw_pid e) \<noteq> None")
    case True
    then obtain s f m where del: "del_gw_clients (IDX2GWID (int i)) m 0 (msgctl_rmid st (gw_mqid e)) = Some s"
      and rest: "check_gateways env n (i + 1) (s\<lparr>gwtbl := tbl_upd f (int i) (gwtbl s)\<rparr>) = Some st'"
      using Suc.prems(1) e by (auto simp: bind_eq_Some_conv)
    have "mwd_inv s" using del_gw_clients_inv [OF del] Suc.prems(2) by simp
    then show ?thesis by (intro Suc.IH [OF rest] mwd_inv_gwtbl)
  qed (use Suc e in auto)
qed simp

lemma check_services_inv: "check_services env n i st = Some st' \<Longrightarrow> mwd_inv st \<Longrightarrow> mwd_inv st'"
proof (induction n arbitrary: i st)
  case (Suc n)
  then have "check_services env n (i + 1) st = Some st'
      \<or> (\<exists>rc s. delservice env st (IDX2SVCID (int i)) = Some (rc, s) \<and> check_services env n (i + 1) s = Some st')"
    by (auto simp: bind_eq_Some_conv split: if_splits)
  then show ?case using Suc.IH Suc.prems(2) delservice_inv by blast
qed simp

lemma check_tables_inv:
  assumes "check_tables env st = Some (rc, st')" "mwd_inv st"
  shows "mwd_inv st'"
  using assms
  by (auto simp: check_tables_def bind_eq_Some_conv
      dest!: check_clients_inv check_servers_inv check_gateways_inv check_services_inv)

section \<open>The rest of the requests\<close>

lemma mwd_inv_buffers [simp]:
  "mwd_inv (st\<lparr>lastallocedid := i\<rparr>) = mwd_inv st" "mwd_inv (st\<lparr>bufferfiles := f\<rparr>) = mwd_inv st"
  by (simp_all add: mwd_inv_def tables_ok_def services_but_def live_def)

lemma do_alloc_inv: "do_alloc env st m = Some (rc, st') \<Longrightarrow> mwd_inv st \<Longrightarrow> mwd_inv st'"
  by (auto simp: do_alloc_def getnextallocid_def Let_def mwd_inv_putmessage split: sum.splits if_splits)

lemma do_free_inv: "mwd_inv st \<Longrightarrow> mwd_inv (snd (do_free st m))"
  by (simp add: do_free_def)

lemma do_subscribe_inv: "mwd_inv st \<Longrightarrow> mwd_inv (snd (do_subscribe env st m))"
  using event_subscribe_ok [of st env "Some (ev_event m)"] mwd_inv_cong [OF tables_of_subscribe]
  by (auto simp: do_subscribe_def mwd_inv_def case_prod_beta intro!: mwd_inv_putmessage [unfolded mwd_inv_def])

lemma do_unsubscribe_inv: "mwd_inv st \<Longrightarrow> mwd_inv (snd (do_unsubscribe env st m))"
  using event_unsubscribe_ok [of st] mwd_inv_cong [OF tables_of_unsubscribe]
  by (auto simp: do_unsubscribe_def case_prod_beta mwd_inv_def intro!: mwd_inv_putmessage [unfolded mwd_inv_def])

lemma do_post_inv: "mwd_inv st \<Longrightarrow> mwd_inv (snd (do_post st m))"
  unfolding do_post_def using event_enqueue_ok mwd_inv_cong [OF tables_of_enqueue] by (simp add: mwd_inv_def)

lemma do_eventack_inv:
  "do_eventack env st m = Some (rc, st') \<Longrightarrow> senderid m \<noteq> UNASSIGNED \<Longrightarrow> mwd_inv st \<Longrightarrow> mwd_inv st'"
  unfolding do_eventack_def
  by (rule mwd_inv_cong [OF tables_of_ack event_ack_ok]) (auto simp: mwd_inv_def)

lemma do_events_inv:
  assumes "do_events env n st = Some (rc, st')" "mwd_inv st"
  shows "mwd_inv st'"
  using do_events_ok [OF assms(1)] mwd_inv_cong [of st' st] assms(2)
  by (auto simp: mwd_inv_def tables_ok_def)

section \<open>The daemon at work\<close>

text \<open>
  The steps of the daemon: a request, a round of the event task, a run of the watchdog's
  check. The system around it may answer differently in every step. Requests to detach,
  to provide and to acknowledge carry ids that have been given out.
\<close>

inductive mwd_step :: "mwdstate \<Rightarrow> mwdstate \<Rightarrow> bool" where
  attach: "do_attach env st a = Some (rc, st') \<Longrightarrow> mwd_step st st'"
| detach: "do_detach env st a = Some (rc, st') \<Longrightarrow> (at_server a \<Longrightarrow> server_id (at_srvid a))
     \<Longrightarrow> (at_client a \<Longrightarrow> at_cltid a \<noteq> UNASSIGNED) \<Longrightarrow> mwd_step st st'"
| provide: "do_provide env st p = Some (rc, st') \<Longrightarrow> (pr_srvid p \<noteq> -1 \<Longrightarrow> server_id (pr_srvid p))
     \<Longrightarrow> mwd_step st st'"
| unprovide: "do_unprovide env st p = Some (rc, st') \<Longrightarrow> mwd_step st st'"
| subscribe: "mwd_step st (snd (do_subscribe env st m))"
| unsubscribe: "mwd_step st (snd (do_unsubscribe env st m))"
| post: "mwd_step st (snd (do_post st m))"
| ack: "do_eventack env st m = Some (rc, st') \<Longrightarrow> senderid m \<noteq> UNASSIGNED \<Longrightarrow> mwd_step st st'"
| alloc: "do_alloc env st b = Some (rc, st') \<Longrightarrow> mwd_step st st'"
| free: "mwd_step st (snd (do_free st b))"
| events: "do_events env n st = Some (rc, st') \<Longrightarrow> mwd_step st st'"
| check: "check_tables env st = Some (rc, st') \<Longrightarrow> mwd_step st st'"

inductive mwd_reach :: "mwdstate \<Rightarrow> mwdstate \<Rightarrow> bool" where
  start: "mwd_reach st st"
| step: "mwd_reach st st' \<Longrightarrow> mwd_step st' st'' \<Longrightarrow> mwd_reach st st''"

lemma mwd_step_inv: "mwd_step st st' \<Longrightarrow> mwd_inv st \<Longrightarrow> mwd_inv st'"
  by (induction rule: mwd_step.induct)
    (blast intro: do_attach_inv do_detach_inv do_provide_inv do_unprovide_inv do_subscribe_inv
      do_unsubscribe_inv do_post_inv do_eventack_inv do_alloc_inv do_free_inv do_events_inv check_tables_inv)+

text \<open>A daemon that has attached its tables and not yet begun.\<close>

definition unstarted :: "mwdstate \<Rightarrow> bool" where
  "unstarted st \<longleftrightarrow>
     tables_ok st
     \<and> eventqueue st = [] \<and> eventqueuelen st = 0 \<and> ackqueue st = [] \<and> ackqueuelen st = 0
     \<and> ipc_blocking_queue st = [] \<and> ipc_blocking_queue_len st = 0"

lemma init_tables_inv: "unstarted st \<Longrightarrow> mwd_inv (init_tables st)"
proof -
  assume un: "unstarted st"
  have len [simp]: "tbl_length (map_option (map f) t) = tbl_length t" for t and f :: "'a \<Rightarrow> 'a"
    by (simp add: tbl_length_def split: option.split)
  obtain im where im: "ipcmain st = Some im" using un by (auto simp: unstarted_def tables_ok_def)
  have "tables_ok (init_tables st)" using un im by (auto simp: unstarted_def tables_ok_def init_tables_def)
  moreover have "events_ok (init_tables st)" using un im by (simp add: unstarted_def events_ok_def init_tables_def)
  moreover have "entry_ok (init_tables st) e" if e: "tbl_at (svctbl (init_tables st)) i = Some e" for i e
  proof -
    obtain t where t: "svctbl st = Some t" using un by (auto simp: unstarted_def tables_ok_def)
    have i: "nat i < length t" "0 \<le> i" using e im t by (auto simp: init_tables_def tbl_at_Some_iff tbl_length_def)
    then have "e = clear_service (t ! nat i)"
      using e im t by (simp add: init_tables_def tbl_at_Some_iff clear_service_def)
    then show ?thesis by (simp add: entry_ok_def clear_service_def)
  qed
  ultimately show ?thesis by (simp add: mwd_inv_def services_ok_iff)
qed

section \<open>Properties\<close>


lemma demo_unstarted: "unstarted demo_mwd"
  by (simp add: unstarted_def tables_ok_def tbl_length_def demo_defs)


text \<open>
  A service that is called by name goes to a local provider when there is one, from any
  starting point of the scan; when there is none the answer is that no such service exists,
  even if a peer provides it.
\<close>

theorem best_service:
  assumes "ipcmain st \<noteq> None" "svctbl st = Some t" "length t < 2 ^ 24"
  shows "if \<exists>e \<in> set t. svc_matches name (service_type flags) e \<and> svc_location e = GWLOCAL
    then \<exists>i < length t. mw_get_best_service env st name flags = IDX2SVCID (int i)
      \<and> svc_matches name (service_type flags) (t ! i) \<and> svc_location (t ! i) = GWLOCAL
    else mw_get_best_service env st name flags = UNASSIGNED"
proof -
  let ?local = "\<lambda>i. svc_matches name (service_type flags) (t ! i) \<and> svc_location (t ! i) = GWLOCAL"
  let ?o = "scan_order (mw_irand (rand_val env) (int (length t))) (length t)"
  have loop: "best_loop t name (service_type flags) is UNASSIGNED =
      (case find ?local is of None \<Rightarrow> UNASSIGNED | Some i \<Rightarrow> int i)" for "is"
    by (induction "is") auto
  have res: "mw_get_best_service env st name flags =
      (case find ?local ?o of None \<Rightarrow> UNASSIGNED | Some i \<Rightarrow> int i OR MWSERVICEMASK)"
    using assms(1,2) by (auto simp: mw_get_best_service_def loop split: option.split)
  have set: "set ?o = {..<length t}"
    by (cases "length t") (simp_all add: scan_order_set, simp add: scan_order_def)
  have iff: "(\<exists>e \<in> set t. svc_matches name (service_type flags) e \<and> svc_location e = GWLOCAL) \<longleftrightarrow> (\<exists>i < length t. ?local i)"
    by (metis in_set_conv_nth)
  show ?thesis
  proof (cases "find ?local ?o")
    case None
    then have "\<not> (\<exists>i < length t. ?local i)" using set by (auto simp: find_None_iff)
    then show ?thesis unfolding iff using None res by auto
  next
    case (Some i)
    then have i: "i < length t" "?local i" using set by (auto simp: find_Some_iff set_conv_nth)
    have "int i OR MWSERVICEMASK = IDX2SVCID (int i)"
      using idx2id_exp(4) [of "int i" 27 27] i(1) assms(3) by simp
    then show ?thesis unfolding iff using Some res i by auto
  qed
qed

definition demo_peer :: mwdstate where
  "demo_peer = demo_mwd\<lparr>svctbl := Some [demo_service\<lparr>svc_type := MWCALLSVC, svc_location := GWPEER,
     svc_gateway := 0x04000000, servicename := ''bank''\<rparr>]\<rparr>"

theorem best_service_witness: "mw_get_best_service demo_mwenv demo_peer ''bank'' 0 = UNASSIGNED"
  using best_service [of demo_peer "the (svctbl demo_peer)" "''bank''" 0 demo_mwenv]
  by (simp add: demo_peer_def demo_defs)

text \<open>
  C20. A server that attaches is given an id that no server has, the reply on its message
  queue carries it, the id is found in the table from then on, and the ids of the other
  servers are looked up as before. Only when every entry of the table is in use the reply
  is that there is no space, and the table stays as it was.
\<close>

theorem attach_new_server:
  assumes "mwd_inv st" "ipcmain st = Some im" "im_status im \<noteq> MWDEAD" "im_status im \<noteq> MWSHUTDOWN"
    and "at_server a" "\<not> at_client a" "at_gwid a = -1"
    and "accepting env" "msgq st (at_ipcqid a) = Some q"
  shows "\<exists>rpl st'. do_attach env st a = Some (0, st') \<and> msgq st' (at_ipcqid a) = Some (q @ [Attach rpl])
    \<and> (if \<forall>i. 0 \<le> i \<and> i < tbl_length (srvtbl st) \<longrightarrow> mw_get_server_byid st (IDX2SRVID i) \<noteq> None
       then at_returncode rpl < 0 \<and> at_srvid rpl = UNASSIGNED \<and> srvtbl st' = srvtbl st
       else at_returncode rpl = 0 \<and> mw_get_server_byid st (at_srvid rpl) = None
         \<and> mw_get_server_byid st' (at_srvid rpl) \<noteq> None
         \<and> (\<forall>j. 0 \<le> j \<and> j < 2 ^ 24 \<and> IDX2SRVID j \<noteq> at_srvid rpl \<longrightarrow>
              mw_get_server_byid st' (IDX2SRVID j) = mw_get_server_byid st (IDX2SRVID j)))"
proof -
  have ok: "tables_ok st" using assms(1) by (simp add: mwd_inv_def)
  obtain r st1 where add: "addserver env st (at_srvname a) (at_ipcqid a) (at_pid a) = (r, st1)" by fastforce
  let ?a = "a\<lparr>at_mtype := ATTACHRPL, at_srvid := UNASSIGNED, at_cltid := UNASSIGNED, at_returncode := 0\<rparr>"
  let ?rpl = "if r < 0 then ?a\<lparr>at_returncode := r, at_srvid := UNASSIGNED\<rparr> else ?a\<lparr>at_srvid := r\<rparr>"
  have q1: "msgq st1 (at_ipcqid a) = Some q"
    using addserver_cases [OF ok, of env "at_srvname a" "at_ipcqid a" "at_pid a"] add assms(9) by auto
  have srv: "attach_server env st ?a = (?rpl, st1)" by (simp add: attach_server_def add)
  have do: "do_attach env st a = Some (send_reply env st1 (Attach ?rpl) (at_ipcqid a))"
    using assms(2-7) srv by (simp add: do_attach_def Let_def)
  let ?st = "st1\<lparr>msgq := (msgq st1)(at_ipcqid a := Some (q @ [Attach ?rpl]))\<rparr>"
  have snd: "send_reply env st1 (Attach ?rpl) (at_ipcqid a) = (0, ?st)"
    using q1 assms(8) by (simp add: send_reply_def msgsnd_def accepting_def)
  have look: "mw_get_server_byid ?st i = mw_get_server_byid st1 i" for i by (simp add: mw_get_server_byid_def)
  have full: "r < 0 \<longleftrightarrow> (\<forall>i. 0 \<le> i \<and> i < tbl_length (srvtbl st) \<longrightarrow> mw_get_server_byid st (IDX2SRVID i) \<noteq> None)"
    using srv.add_full [OF ok, where x = "(at_srvname a, at_ipcqid a, at_pid a)" and env = env] add by simp
  have same: "srvtbl st1 = srvtbl st" if neg: "r < 0"
    using addserver_cases [OF ok, of env "at_srvname a" "at_ipcqid a" "at_pid a"]
  proof (elim disjE exE conjE)
    fix i e assume i: "tbl_at (srvtbl st) i = Some e"
      "addserver env st (at_srvname a) (at_ipcqid a) (at_pid a) = (IDX2SRVID i, st\<lparr>srv_nextidx := i + 1,
         srvtbl := tbl_upd (new_server (at_srvname a) (at_ipcqid a) (at_pid a) (now env)) i (srvtbl st)\<rparr>)"
    have "0 < IDX2SRVID i" using srv.id_pos srv.range [OF ok i(1)] by blast
    then show ?thesis using neg i(2) add by simp
  qed (use add in simp)
  have new: "0 \<le> r \<Longrightarrow> mw_get_server_byid st r = None \<and> mw_get_server_byid st1 r \<noteq> None
      \<and> (\<forall>j. 0 \<le> j \<and> j < 2 ^ 24 \<and> IDX2SRVID j \<noteq> r \<longrightarrow> mw_get_server_byid st1 (IDX2SRVID j) = mw_get_server_byid st (IDX2SRVID j))"
    using srv.add_new [OF ok, where x = "(at_srvname a, at_ipcqid a, at_pid a)" and env = env and r = r and st' = st1] add by simp
  show ?thesis
    unfolding full [symmetric] using do snd same new look
    by (intro exI [of _ ?rpl] exI [of _ ?st]) (cases "r < 0"; simp)
qed

definition demo_attach :: attach where
  "demo_attach = \<lparr>at_mtype = ATTACHREQ, at_ipcqid = 3, at_pid = 200, at_server = True, at_srvname = ''two'',
     at_srvid = 0, at_client = False, at_cltname = [], at_cltid = 0, at_gwid = -1, at_flags = 0, at_returncode = 0\<rparr>"

lemma demo_inv: "mwd_inv demo_mwd"
  by (auto simp: mwd_inv_def tables_ok_def services_ok_iff entry_ok_def events_ok_def tbl_length_def
      tbl_at_Some_iff demo_defs)

theorem attach_new_server_witness:
  "\<exists>rpl st'. do_attach demo_mwenv demo_mwd demo_attach = Some (0, st')
    \<and> msgq st' 3 = Some [Attach rpl] \<and> at_returncode rpl < 0 \<and> srvtbl st' = srvtbl demo_mwd"
proof -
  have "\<forall>i. 0 \<le> i \<and> i < tbl_length (srvtbl demo_mwd) \<longrightarrow> mw_get_server_byid demo_mwd (IDX2SRVID i) \<noteq> None"
  proof (intro allI impI)
    fix i assume "0 \<le> i \<and> i < tbl_length (srvtbl demo_mwd)"
    then have "i = 0" by (simp add: tbl_length_def demo_mwd_def)
    then show "mw_get_server_byid demo_mwd (IDX2SRVID i) \<noteq> None"
      by (simp add: tbl_length_def mw_get_server_byid_def tbl_at_def idx2id_def demo_defs)
  qed
  then show ?thesis
    using attach_new_server [OF demo_inv, of demo_main demo_attach demo_mwenv "[]"] demo_accepting
    by (auto simp: demo_attach_def demo_main_def demo_mwd_def)
qed

text \<open>
  C19. When a server detaches, its id is no longer found, its services and no others are
  taken out of the table, and the tables of clients and gateways stay as they are.
\<close>

theorem detach_services:
  assumes "mwd_inv st" "0 \<le> i" "i < 2 ^ 24" "detach_server env st (IDX2SRVID i) = Some st'"
  shows "mw_get_server_byid st' (IDX2SRVID i) = None
    \<and> svctbl st' = map_option (map (\<lambda>e. if svc_server e = IDX2SRVID i then clear_service e else e)) (svctbl st)
    \<and> clttbl st' = clttbl st \<and> gwtbl st' = gwtbl st"
proof -
  obtain r st1 n where del: "delserver st (IDX2SRVID i) = Some (r, st1)"
    and all: "delallservices env st1 (IDX2SRVID i) = Some (n, st')"
    using assms(4) by (auto simp: detach_server_def bind_eq_Some_conv)
  note d = delserver_inv [OF del assms(2,3,1)]
  obtain st0 where clr: "event_clear_id st (IDX2SRVID i) = Some st0"
    using del assms(1) by (auto simp: delserver_def mwd_inv_def tables_ok_def bind_eq_Some_conv)
  have st1: "\<exists>t. st1 = st0\<lparr>srvtbl := t\<rparr>"
    using del clr assms(1) by (auto simp: delserver_def Let_def mwd_inv_def tables_ok_def bind_eq_Some_conv)
  note spec = delallservices_spec [OF all] d
  have "svctbl st1 = svctbl st" "clttbl st1 = clttbl st" "gwtbl st1 = gwtbl st"
    using tables_of_clear_id [OF clr] st1 by (auto simp: tables_of_def)
  moreover have "mw_get_server_byid st' (IDX2SRVID i) = mw_get_server_byid st1 (IDX2SRVID i)"
    "clttbl st' = clttbl st1" "gwtbl st' = gwtbl st1"
    using spec by (simp_all add: tables_of_def get_server_cong [of st' st1])
  ultimately show ?thesis using spec by simp
qed

text \<open>
  The heap of the system answers an event of the daemon, with a buffer or without one.
\<close>

definition heap_fit :: "mwenv \<Rightarrow> mwdstate \<Rightarrow> bool" where
  "heap_fit env st \<longleftrightarrow>
     (\<exists>si fr. heap_ok (shm st) si fr) \<and> my_mwid (shm_env env) \<noteq> UNASSIGNED
     \<and> (\<forall>sz. mwd_alloc (shm_env env) sz < LOW_LARGE_BUFFER_NUMBER)"

lemma internal_enqueue_total:
  assumes "heap_fit env st"
  shows "\<exists>rc st'. internal_event_enqueue env st (Some name) (Some d) n u c = Some (rc, st') \<and> heap_fit env st'"
proof -
  obtain si fr where h: "heap_ok (shm st) si fr" using assms by (auto simp: heap_fit_def)
  let ?dl = "if n = 0 then length (takeWhile (\<lambda>b. b \<noteq> 0) d) else n"
  have env: "my_mwid (shm_env env) \<noteq> UNASSIGNED" "mwd_alloc (shm_env env) (int ?dl + 1) < LOW_LARGE_BUFFER_NUMBER"
    using assms by (auto simp: heap_fit_def)
  have fit: "heap_fit env (st\<lparr>shm := h'\<rparr>)" if "heap_ok h' si fr'" for h' fr'
    using that assms by (auto simp: heap_fit_def)
  show ?thesis
  proof (rule mwalloc_cases [OF h env])
    fix r e assume al: "mwalloc (shm_env env) (shm st) (int ?dl + 1) = Some (0, (shm st)\<lparr>requests := r, last_errno := e\<rparr>)"
    have "heap_ok ((shm st)\<lparr>requests := r, last_errno := e\<rparr>) si fr"
      using h by (simp add: heap_ok_env)
    then show ?thesis using al fit by (auto simp: internal_event_enqueue_def Let_def)
  next
    fix b k ks h' assume al: "mwalloc (shm_env env) (shm st) (int ?dl + 1) = Some (heapinfo (shm st) + k + 16, h')"
      and h': "heap_ok h' si (fr(b := ks))" "allocated (my_mwid (shm_env env)) (shm st) h' k"
      and k: "k \<in> chunks (hdr (shm st)) b"
    let ?a = "heapinfo (shm st) + k + 16"
    let ?h = "store_bytes h' ?a (take ?dl d @ [0])"
    have "findsegment_byaddr (segments ?h) ?a = Some si" "?a \<noteq> 0"
      using buffer_address(1,2) [OF h k] h'(2) by (simp_all add: allocated_def store_bytes_def)
    moreover have "heap_fit env (st\<lparr>shm := ?h\<rparr>)"
      using fit h'(1) by (simp add: store_bytes_def heap_ok_bytes)
    then have "heap_fit env (snd (event_enqueue (st\<lparr>shm := ?h\<rparr>) m))" for m
      by (simp add: heap_fit_def event_enqueue_def next_eventid_def Let_def)
    ultimately show ?thesis
      using al by (auto simp: internal_event_enqueue_def Let_def) (metis prod.collapse)+
  qed
qed

lemma delservice_total:
  assumes "heap_fit env st" "0 \<le> i" "i < 2 ^ 24" "i < tbl_length (svctbl st)"
  shows "\<exists>rc st'. delservice env st (IDX2SVCID i) = Some (rc, st') \<and> heap_fit env st'"
proof -
  have at: "tbl_at (svctbl st) i = Some (the (svctbl st) ! nat i)" using assms(2,4) by (simp add: tbl_at_def)
  let ?e = "the (svctbl st) ! nat i"
  let ?p = "if svc_server ?e \<noteq> UNASSIGNED then svc_server ?e else if svc_gateway ?e \<noteq> 0 then svc_gateway ?e else UNASSIGNED"
  obtain rc st' where "internal_event_enqueue env st (Some DELSERVICEEVENT)
      (Some (mwprovideevent (servicename ?e) ?p i)) sizeof_mwprovideevent None None = Some (rc, st')" "heap_fit env st'"
    using internal_enqueue_total [OF assms(1)] by blast
  then show ?thesis
    using at svcid_idx2id [OF assms(2,3)] by (auto simp: delservice_def Let_def heap_fit_def)
qed

lemma demo_heap_fit: "heap_fit demo_mwenv st" if "shm st = demo_used"
  using that demo_used_ok(1) by (auto simp: heap_fit_def demo_mwenv_def demo_env_def)

text \<open>The server provides a service.\<close>

definition demo_provided :: mwdstate where
  "demo_provided = demo_mwd\<lparr>svctbl := Some [demo_service\<lparr>svc_type := MWCALLSVC, svc_location := GWLOCAL,
     svc_server := 0x01000000, servicename := ''bank''\<rparr>]\<rparr>"

lemma demo_provided_inv: "mwd_inv demo_provided"
proof -
  have "live demo_provided 0x01000000"
    unfolding live_def
    by (intro exI [of _ 0] exI [of _ demo_server])
      (simp add: idx2id_def tbl_at_def tbl_length_def demo_provided_def demo_mwd_def demo_server_def)
  then show ?thesis
    by (auto simp: mwd_inv_def tables_ok_def services_ok_iff entry_ok_def events_ok_def tbl_length_def
        tbl_at_Some_iff demo_provided_def demo_defs)
qed

theorem detach_services_witness:
  "\<exists>st'. detach_server demo_mwenv demo_provided 0x01000000 = Some st'
    \<and> mw_get_server_byid st' 0x01000000 = None \<and> map_option (map servicename) (svctbl st') = Some [[]]
    \<and> clttbl st' = clttbl demo_mwd"
proof -
  have id0: "IDX2SRVID 0 = 0x01000000" by (simp add: idx2id_def)
  have "\<exists>st1. delserver demo_provided 0x01000000 = Some (0, st1) \<and> shm st1 = demo_used
      \<and> svctbl st1 = svctbl demo_provided \<and> ipcmain st1 \<noteq> None"
    by (simp add: delserver_def event_clear_id_def clear_pendingack_byid_def
        clear_blockingqueue_byid_def event_unsubscribe_def id2idx_def tbl_at_def tbl_upd_def tbl_length_def
        demo_provided_def demo_defs)
  then obtain st1 where st1: "delserver demo_provided 0x01000000 = Some (0, st1)" "shm st1 = demo_used"
    "svctbl st1 = svctbl demo_provided" "ipcmain st1 \<noteq> None" by blast
  have len: "tbl_length (svctbl st1) = 1" by (simp add: st1(3) demo_provided_def tbl_length_def)
  obtain rc st2 where "delservice demo_mwenv st1 (IDX2SVCID 0) = Some (rc, st2)"
    using delservice_total [OF demo_heap_fit [OF st1(2)], of 0] len by auto
  moreover have "tbl_at (svctbl st1) 0 = Some (hd (the (svctbl demo_provided)))"
    "svc_server (hd (the (svctbl demo_provided))) = 0x01000000"
    by (simp_all add: st1(3) tbl_at_def tbl_length_def demo_provided_def)
  ultimately have "delallservices demo_mwenv st1 0x01000000 = Some (1, st2)"
    using st1(4) len by (auto simp: delallservices_def)
  then have "detach_server demo_mwenv demo_provided 0x01000000 = Some st2"
    using st1(1) by (simp add: detach_server_def)
  with detach_services [OF demo_provided_inv, of 0 demo_mwenv st2] id0 show ?thesis
    by (auto simp: demo_provided_def demo_mwd_def clear_service_def)
qed

text \<open>
  C21. A service a server has provided is found: the daemon's answer is an id whose provider
  is that server, and a search for the name and type of the service, from any starting
  point, lists that id.
\<close>

theorem provide_lookup:
  assumes "mwd_inv st" "addlocalservice env st srvid name (service_type flags) = Some (svcid, st')" "0 \<le> svcid"
    and "0 \<le> srvid" "length name \<le> MWMAXSVCNAME" "(flags AND MWIPCONLY) = 0"
  shows "mw_get_provider_by_serviceid st' svcid = srvid
    \<and> (\<exists>ids. mw_get_services_byname env' st' name flags = Some ids \<and> svcid \<in> set ids)"
proof -
  let ?ty = "service_type flags"
  obtain svcidx st1 rc where add: "addservice st name ?ty = Some (svcidx, st1)" and nn: "0 \<le> svcidx"
    and enq: "internal_event_enqueue env
        (st1\<lparr>svctbl := tbl_upd (\<lambda>e. e\<lparr>svc_server := srvid, svc_location := GWLOCAL\<rparr>) svcidx (svctbl st1)\<rparr>)
        (Some NEWSERVICEEVENT) (Some (mwprovideevent name srvid (IDX2SVCID svcidx))) sizeof_mwprovideevent None None
        = Some (rc, st')"
    and svcid: "svcid = IDX2SVCID svcidx"
    using assms(2,3)
    by (auto simp: addlocalservice_def Let_def bind_eq_Some_conv not_less split: if_splits option.splits)
  let ?f = "\<lambda>e. e\<lparr>svc_server := srvid, svc_location := GWLOCAL\<rparr>"
  let ?g = "\<lambda>e. e\<lparr>servicename := strncpy name MWMAXSVCNAME, svc_type := ?ty\<rparr>"
  have "- errno_num ENOSPC < 0" by simp
  with add nn obtain e where e: "tbl_at (svctbl st) svcidx = Some e"
    and st1: "st1 = st\<lparr>svc_nextidx := svcidx + 1, svctbl := tbl_upd ?g svcidx (svctbl st)\<rparr>"
    by (elim addservice_cases) auto
  have st': "svctbl st' = tbl_upd ?f svcidx (tbl_upd ?g svcidx (svctbl st))" "ipcmain st' = ipcmain st"
    using enq by (auto dest!: tables_of_internal_enqueue simp: tables_of_def st1)
  have ok: "ipcmain st \<noteq> None" "tbl_length (svctbl st) \<le> MWINDEXMASK"
    using assms(1) by (auto simp: mwd_inv_def tables_ok_def)
  have r: "0 \<le> svcidx" "svcidx < 2 ^ 24" "svcidx < tbl_length (svctbl st)"
    using e ok(2) by (auto simp: tbl_at_Some_iff)
  have at: "tbl_at (svctbl st') svcidx = Some (?f (?g e))"
    using e r(1) by (simp add: st' tbl_at_upd)
  then obtain t where t: "svctbl st' = Some t" "nat svcidx < length t" "t ! nat svcidx = ?f (?g e)"
    by (cases "svctbl st'") (auto simp: tbl_at_Some_iff tbl_length_def)
  have prov: "mw_get_provider_by_serviceid st' svcid = srvid"
    using at ok(1) svcid_idx2id [OF r(1,2)] assms(4) by (auto simp: mw_get_provider_by_serviceid_def svcid st')
  have ty: "?ty \<noteq> UNASSIGNED" by (simp add: service_type_def)
  have match: "svc_matches name ?ty (t ! nat svcidx)"
    using t(3) ty by (simp add: svc_matches_def strncmp_eq_def strncpy_def)
  let ?ids = "filter (\<lambda>i. svc_matches name ?ty (t ! i)) (scan_order (mw_irand (rand_val env') (int (length t))) (length t))"
  have "set (scan_order x (length t)) = {..<length t}" for x
    using t(2) by (intro scan_order_set) linarith
  then have k: "nat svcidx \<in> set ?ids" using t(2) match by simp
  then have "?ids \<noteq> []" by (metis empty_iff empty_set)
  then have "mw_get_services_byname env' st' name flags = Some (map (\<lambda>i. IDX2SVCID (int i)) ?ids)"
    using t(1) ok(1) assms(6) st'(2) by (simp add: mw_get_services_byname_def)
  moreover have "IDX2SVCID (int (nat svcidx)) \<in> set (map (\<lambda>i. IDX2SVCID (int i)) ?ids)"
    unfolding set_map by (rule imageI [OF k])
  ultimately have "\<exists>ids. mw_get_services_byname env' st' name flags = Some ids \<and> IDX2SVCID (int (nat svcidx)) \<in> set ids"
    by blast
  then show ?thesis using prov r(1) svcid by simp
qed

theorem provide_lookup_witness:
  "\<exists>svcid st'. addlocalservice demo_mwenv demo_mwd 0x01000000 ''bank'' MWCALLSVC = Some (svcid, st')
    \<and> mw_get_provider_by_serviceid st' svcid = 0x01000000
    \<and> (\<exists>ids. mw_get_services_byname demo_mwenv st' ''bank'' 0 = Some ids \<and> svcid \<in> set ids)"
proof -
  have ty: "service_type 0 = MWCALLSVC" by (simp add: service_type_def)
  have [simp]: "scan_order 0 (Suc 0) = [0]" by (simp add: scan_order_def)
  let ?st = "demo_mwd\<lparr>svc_nextidx := 1, svctbl := Some [demo_service\<lparr>servicename := ''bank'', svc_type := MWCALLSVC,
         svc_server := 0x01000000, svc_location := GWLOCAL\<rparr>]\<rparr>"
  have "shm ?st = demo_used" by (simp add: demo_mwd_def)
  then obtain rc st' where "internal_event_enqueue demo_mwenv ?st (Some NEWSERVICEEVENT)
      (Some (mwprovideevent ''bank'' 0x01000000 (IDX2SVCID 0))) sizeof_mwprovideevent None None = Some (rc, st')"
    using internal_enqueue_total [OF demo_heap_fit] by blast
  moreover have "mw_getserverentry demo_mwd 0x01000000 = Some 0" "SRVID 0x01000000 = 0x01000000"
    "tbl_at (srvtbl demo_mwd) 0 = Some demo_server" "srv_status demo_server = 0"
    by (simp_all add: mw_getserverentry_def getentry_def id_kind_def id2idx_def tbl_at_def tbl_length_def
        demo_mwd_def demo_server_def)
  moreover have "addservice demo_mwd ''bank'' MWCALLSVC = Some (0, demo_mwd\<lparr>svc_nextidx := 1,
      svctbl := Some [demo_service\<lparr>servicename := ''bank'', svc_type := MWCALLSVC\<rparr>]\<rparr>)"
  proof -
    have "svctbl demo_mwd = Some [demo_service]" "svc_nextidx demo_mwd = 0" "svc_type demo_service = UNASSIGNED"
      by (simp_all add: demo_mwd_def demo_service_def)
    then show ?thesis by (simp add: addservice_def tbl_upd_def strncpy_def)
  qed
  ultimately have add: "addlocalservice demo_mwenv demo_mwd 0x01000000 ''bank'' MWCALLSVC = Some (IDX2SVCID 0, st')"
    by (simp add: addlocalservice_def tbl_upd_def)
  then have "addlocalservice demo_mwenv demo_mwd 0x01000000 ''bank'' (service_type 0) = Some (IDX2SVCID 0, st')"
    by (simp add: ty)
  from provide_lookup [OF demo_inv this, of demo_mwenv] add show ?thesis
    by (auto simp: idx2id_def)
qed



text \<open>
  Removing all subscriptions of a member that leaves does not remove them all: of two
  that follow each other in the list the second stays.
\<close>

theorem unsubscribe_skips:
  assumes "subscription_root st = pre @ s1 # s2 # post" "\<forall>s \<in> set pre. se_id s \<noteq> mwid"
    and "se_id s1 = mwid" "se_id s2 = mwid"
  shows "s2 \<in> set (subscription_root (snd (event_unsubscribe st UNASSIGNED mwid)))"
proof -
  have "s2 \<in> set (unsubscribe_loop UNASSIGNED mwid (pre @ s1 # s2 # post))"
    using assms(2) by (induction pre) (auto simp: assms(3,4))
  then show ?thesis by (simp add: event_unsubscribe_def assms(1))
qed

theorem unsubscribe_skips_witness:
  "demo_subscription 0x01000000 1 \<in> set (subscription_root (snd (event_unsubscribe (demo_mwd\<lparr>subscription_root :=
     [demo_subscription 0x01000000 2, demo_subscription 0x01000000 1]\<rparr>) UNASSIGNED 0x01000000)))"
proof -
  have "se_id (demo_subscription i n) = i" for i n by (simp add: demo_subscription_def)
  then show ?thesis by (intro unsubscribe_skips [where pre = "[]" and post = "[]"]) simp_all
qed

lemma alloc_id_fresh:
  assumes "alloc_id_loop ex i n = Inr j" "LOW_LARGE_BUFFER_NUMBER \<le> i"
  shows "\<not> ex j \<and> LOW_LARGE_BUFFER_NUMBER < j"
  using assms
proof (induction ex i n rule: alloc_id_loop.induct)
  case (1 ex i n)
  let ?i = "if i + 1 \<ge> 2 ^ 31 then LOW_LARGE_BUFFER_NUMBER + 1 else i + 1"
  show ?case
  proof (cases "ex ?i")
    case True
    with "1.prems"(1) have "\<not> n + 1 \<ge> 2 ^ 31" "alloc_id_loop ex ?i (n + 1) = Inr j"
      by (simp_all add: alloc_id_loop.simps [of ex i n] Let_def split: if_splits)
    then show ?thesis using "1.IH" [OF refl _ True] "1.prems"(2) by auto
  next
    case False
    then show ?thesis
      using "1.prems" by (auto simp: alloc_id_loop.simps [of ex i n] Let_def split: if_splits)
  qed
qed

lemma pages_needed:
  fixes p d r :: int
  assumes "0 < p" "0 \<le> r" "r < p"
  shows "(d + (if r \<noteq> 0 then 1 else 0) - 1) * p < d * p + r \<and> d * p + r \<le> (d + (if r \<noteq> 0 then 1 else 0)) * p"
  using assms by (auto simp: algebra_simps)

text \<open>
  C32. A request for a large buffer that succeeds creates one file, under an id no file had
  and that is above those of the heap, records the requester and the size in it, and the
  file has as many pages as the size and the head of the buffer need and not one more.
\<close>

theorem alloc_pages:
  assumes "do_alloc env st m = Some (0, st')" "LOW_LARGE_BUFFER_NUMBER \<le> lastallocedid st"
    and "0 < pagesize env" "0 \<le> al_size m"
  shows "\<exists>i ps. bufferfiles st i = None \<and> LOW_LARGE_BUFFER_NUMBER < i
    \<and> bufferfiles st' = (bufferfiles st)(i \<mapsto> (\<lparr>ownerid = al_mwid m, csize = al_size m\<rparr>, ps))
    \<and> (ps - 1) * pagesize env < al_size m + sizeof_chunkhead \<and> al_size m + sizeof_chunkhead \<le> ps * pagesize env"
proof -
  let ?s = "al_size m + sizeof_chunkhead"
  let ?ps = "?s sdiv pagesize env + (if ?s smod pagesize env \<noteq> 0 then 1 else 0)"
  have put: "bufferfiles (snd (mw_ipc_putmessage env s d x)) = bufferfiles s" for s d x
    using putmessage_frame [of env s d x] by auto
  obtain i where i: "alloc_id_loop (\<lambda>i. bufferfiles st i \<noteq> None) (lastallocedid st) 0 = Inr i"
  proof (cases "alloc_id_loop (\<lambda>i. bufferfiles st i \<noteq> None) (lastallocedid st) 0")
    case (Inl e)
    have "- errno_num e < LOW_LARGE_BUFFER_NUMBER" using errno_num_pos [of e] by linarith
    then show thesis using assms(1) Inl by (simp add: do_alloc_def getnextallocid_def)
  qed
  note fresh = alloc_id_fresh [OF i assms(2)]
  have files: "bufferfiles st' = (bufferfiles st)(i \<mapsto> (\<lparr>ownerid = al_mwid m, csize = al_size m\<rparr>, ?ps))"
    using assms(1) fresh unfolding do_alloc_def getnextallocid_def i Let_def
    by (simp add: put split: if_splits) (auto simp: put)
  have "?s sdiv pagesize env = ?s div pagesize env" "?s smod pagesize env = ?s mod pagesize env"
    using assms(3,4) by (simp_all add: signed_divide_int_def signed_modulo_int_def minus_div_mult_eq_mod)
  then have "(?ps - 1) * pagesize env < ?s \<and> ?s \<le> ?ps * pagesize env"
    using pages_needed [OF assms(3), of "?s mod pagesize env" "?s div pagesize env"] assms(3)
    unfolding div_mult_mod_eq by simp
  then show ?thesis using fresh files by - (rule exI [where x = i], rule exI [where x = ?ps], simp del: not_None_eq)
qed

definition demo_alloc :: alloc_req where
  "demo_alloc = \<lparr>al_mtype = 0x1200, al_mwid = 0x02000000, al_size = 10000, al_pages = 0, al_bufferid = 0\<rparr>"

theorem alloc_pages_witness:
  "\<exists>st' i ps. do_alloc demo_mwenv demo_mwd demo_alloc = Some (0, st')
    \<and> bufferfiles st' i = Some (\<lparr>ownerid = 0x02000000, csize = 10000\<rparr>, ps) \<and> (ps - 1) * 4096 < 10016 \<and> 10016 \<le> ps * 4096"
proof -
  have "alloc_id_loop (\<lambda>i. bufferfiles demo_mwd i \<noteq> None) 999 0 = Inr 1000"
    by (simp add: alloc_id_loop.simps demo_mwd_def)
  moreover have "bufferfiles demo_mwd = (\<lambda>_. None)" "lastallocedid demo_mwd = 999" by (simp_all add: demo_mwd_def)
  moreover have "10016 sdiv 4096 = (2 :: int)" "10016 smod 4096 = (1824 :: int)"
    by (simp_all add: signed_divide_int_def signed_modulo_int_def)
  ultimately obtain st' where st': "do_alloc demo_mwenv demo_mwd demo_alloc = Some (0, st')"
    by (simp add: do_alloc_def getnextallocid_def demo_alloc_def demo_mwenv_def)
  then show ?thesis
    using alloc_pages [OF st'] by (auto simp: demo_mwenv_def demo_alloc_def demo_mwd_def)
qed

end
