(* ===== verification/CallProps.thy ===== *)
theory CallProps
  imports MwdProps
begin

unbundle bit_operations_syntax

text \<open>
  What the client and the server side of a service call guarantee: the queue of replies
  (\<open>fetch_replies\<close>), handles, the way of a call to its provider, and a whole call from the
  client through the server and back.
\<close>

section \<open>Receiving by type\<close>

definition is_reply :: "ipcmesg \<Rightarrow> bool" where
  "is_reply m \<longleftrightarrow> mtype_of m = SVCREPLY"

definition replies :: "ipcmesg list \<Rightarrow> call list" where
  "replies q = map (\<lambda>m. case m of Call c \<Rightarrow> c | _ \<Rightarrow> undefined) (filter is_reply q)"

definition replies_wf :: "ipcmesg list \<Rightarrow> bool" where
  "replies_wf q \<longleftrightarrow> (\<forall>m \<in> set q. is_reply m \<longrightarrow> (\<exists>c. m = Call c))"

abbreviation others :: "ipcmesg list \<Rightarrow> ipcmesg list" where "others \<equiv> filter (\<lambda>m. \<not> is_reply m)"

lemma take_type_replies:
  "replies_wf q \<Longrightarrow> replies q = [] \<Longrightarrow> take_type SVCREPLY q = None"
  by (induction q) (auto simp: replies_def replies_wf_def is_reply_def split: if_splits)

lemma take_type_reply:
  assumes "replies_wf q" "replies q = c # cs"
  shows "\<exists>q'. take_type SVCREPLY q = Some (Call c, q') \<and> replies q' = cs \<and> replies_wf q'
    \<and> others q' = others q"
  using assms
proof (induction q)
  case (Cons m q)
  show ?case
  proof (cases "is_reply m")
    case True
    then obtain d where "m = Call d" using Cons.prems(1) by (auto simp: replies_wf_def)
    then show ?thesis using Cons.prems True by (auto simp: replies_def replies_wf_def is_reply_def)
  next
    case False
    then have "replies_wf q" "replies q = c # cs" using Cons.prems by (simp_all add: replies_def replies_wf_def)
    then obtain q' where "take_type SVCREPLY q = Some (Call c, q')" "replies q' = cs" "replies_wf q'"
      "others q' = others q"
      using Cons.IH by blast
    moreover have "mtype_of m \<noteq> SVCREPLY" using False by (simp add: is_reply_def)
    ultimately show ?thesis using False by (simp add: replies_def replies_wf_def)
  qed
qed (simp add: replies_def)

lemma getmessage_found:
  assumes "msgq st (my_mqid st) = Some q" "take_type ty q = Some (m, q')" "int (mesg_size m) \<le> len"
  shows "mw_ipc_getmessage env st len ty flags =
    (Inr (m, int (mesg_size m)), (set_errno 0 st)\<lparr>msgq := (msgq st)(my_mqid st := Some q')\<rparr>)"
  using assms by (simp add: mw_ipc_getmessage_def msgrcv_def msgrcv_now_def set_errno_def)

lemma getmessage_none:
  assumes "msgq st (my_mqid st) = Some q" "take_type ty q = None" "(flags AND MWNOBLOCK) \<noteq> 0"
  shows "mw_ipc_getmessage env st len ty flags = (Inl ENOMSG, set_errno (errno_num ENOMSG) st)"
  using assms by (simp add: mw_ipc_getmessage_def msgrcv_def msgrcv_now_def set_errno_def)

section \<open>The queue of replies\<close>

text \<open>
  The specification: a process has a list of replies it has not delivered yet, and fetching
  takes the first with the handle asked for, or simply the first for handle 0.
\<close>

fun take_reply :: "int \<Rightarrow> call list \<Rightarrow> (call \<times> call list) option" where
  "take_reply hdl [] = None"
| "take_reply hdl (c # cs) =
     (if hdl = 0 \<or> ca_handle c = hdl then Some (c, cs) else map_option (\<lambda>(x, r). (x, c # r)) (take_reply hdl cs))"

fun private_reply :: "replyref \<Rightarrow> call" where
  "private_reply (Private c) = c"
| "private_reply Buffer = undefined"

definition waiting :: "'a mwproc_scheme \<Rightarrow> ipcmesg list" where
  "waiting st = the (msgq st (my_mqid st))"

definition undelivered :: "'a mwproc_scheme \<Rightarrow> call list" where
  "undelivered st = map private_reply (callReplyQueue st) @ replies (waiting st)"

definition replies_ok :: "'a mwproc_scheme \<Rightarrow> bool" where
  "replies_ok st \<longleftrightarrow> Buffer \<notin> set (callReplyQueue st) \<and> replies_wf (waiting st) \<and> msgq st (my_mqid st) \<noteq> None"

text \<open>What fetching leaves alone.\<close>

definition same_but_replies :: "'a mwproc_scheme \<Rightarrow> 'a mwproc_scheme \<Rightarrow> bool" where
  "same_but_replies st st' \<longleftrightarrow> (\<exists>q e. st' = st\<lparr>callReplyQueue := callReplyQueue st',
      msgq := (msgq st)(my_mqid st := Some q), shm := (shm st)\<lparr>last_errno := e\<rparr>\<rparr>
    \<and> others q = others (waiting st))"

lemma same_but_repliesI:
  assumes "st' = st\<lparr>callReplyQueue := r, msgq := (msgq st)(my_mqid st := Some q), shm := (shm st)\<lparr>last_errno := e\<rparr>\<rparr>"
    and "others q = others (waiting st)"
  shows "same_but_replies st st'"
  using assms by (auto simp: same_but_replies_def)

lemma private_list: "Buffer \<notin> set rs \<Longrightarrow> map (Private \<circ> private_reply) rs = rs"
proof (induction rs)
  case (Cons r rs)
  then show ?case by (cases r) auto
qed simp

lemma pop_loop_private:
  "Buffer \<notin> set rs \<Longrightarrow> hdl \<noteq> 0 \<Longrightarrow> pop_loop (deref st) hdl rs =
     Some (case take_reply hdl (map private_reply rs) of
             None \<Rightarrow> (None, rs) | Some (c, cs) \<Rightarrow> (Some c, map Private cs))"
proof (induction rs)
  case (Cons r rs)
  then obtain c where "r = Private c" by (cases r) auto
  have "map (Private \<circ> private_reply) rs = rs" using private_list Cons.prems(1) by simp
  then show ?case
    using Cons \<open>r = Private c\<close> by (auto simp: deref_def split: option.splits)
qed simp

lemma take_reply_append:
  "take_reply hdl (xs @ ys) = (case take_reply hdl xs of
     Some (c, cs) \<Rightarrow> Some (c, cs @ ys) | None \<Rightarrow> map_option (\<lambda>(c, cs). (c, xs @ cs)) (take_reply hdl ys))"
proof (induction xs)
  case Nil
  then show ?case by (cases "take_reply hdl ys") auto
next
  case (Cons x xs)
  then show ?case by (cases "take_reply hdl ys") (auto split: option.splits)
qed


lemma fetch_loop_found:
  assumes "msgq st (my_mqid st) = Some q" "replies_wf q" "take_reply hdl (replies q) = Some (c, cs)"
  shows "\<exists>q' ds. fetch_loop env hdl flags 296 st =
      Some (Inr c, (set_errno 0 st)\<lparr>callReplyQueue := callReplyQueue st @ map Private ds,
                                   msgq := (msgq st)(my_mqid st := Some q')\<rparr>)
    \<and> ds @ replies q' = cs \<and> replies_wf q' \<and> others q' = others q"
  using assms
proof (induction "replies q" arbitrary: q st cs)
  case (Cons d ds)
  obtain q1 where q1: "take_type SVCREPLY q = Some (Call d, q1)" "replies q1 = ds" "replies_wf q1"
    "others q1 = others q"
    using take_type_reply [OF Cons.prems(2) Cons.hyps(2) [symmetric]] by blast
  note get = getmessage_found [OF Cons.prems(1) q1(1), of 296 env flags]
  show ?case
  proof (cases "hdl = 0 \<or> ca_handle d = hdl")
    case True
    then show ?thesis using Cons.prems(3) Cons.hyps(2) [symmetric] q1 get
      by (subst fetch_loop.simps) (rule exI [of _ q1], rule exI [of _ "[]"], auto simp: set_errno_def)
  next
    case False
    let ?st = "pushCallReply ((set_errno 0 st)\<lparr>msgq := (msgq st)(my_mqid st := Some q1)\<rparr>) (Private d)"
    obtain cs' where cs': "take_reply hdl (replies q1) = Some (c, cs')" "cs = d # cs'"
      using Cons.prems(3) Cons.hyps(2) [symmetric] False q1(2) by auto
    obtain q' es where *: "fetch_loop env hdl flags 296 ?st =
        Some (Inr c, (set_errno 0 ?st)\<lparr>callReplyQueue := callReplyQueue ?st @ map Private es,
                                       msgq := (msgq ?st)(my_mqid ?st := Some q')\<rparr>)"
      "es @ replies q' = cs'" "replies_wf q'" "others q' = others q1"
      using Cons.hyps(1) [OF q1(2) [symmetric], of ?st cs'] q1(3) cs'(1)
      by (auto simp: pushCallReply_def set_errno_def)
    have "fetch_loop env hdl flags 296 st = fetch_loop env hdl flags 296 ?st"
      using False get by (subst fetch_loop.simps) simp
    then show ?thesis using * cs'(2) q1(4)
      by - (rule exI [of _ q'], rule exI [of _ "d # es"], simp add: pushCallReply_def set_errno_def)
  qed
qed simp

lemma fetch_loop_empty:
  assumes "msgq st (my_mqid st) = Some q" "replies_wf q" "take_reply hdl (replies q) = None" "(flags AND MWNOBLOCK) \<noteq> 0"
  shows "\<exists>q'. fetch_loop env hdl flags 296 st =
      Some (Inl ENOMSG, (set_errno (errno_num ENOMSG) st)\<lparr>callReplyQueue := callReplyQueue st @ map Private (replies q),
                                   msgq := (msgq st)(my_mqid st := Some q')\<rparr>)
    \<and> replies q' = [] \<and> replies_wf q' \<and> others q' = others q"
  using assms
proof (induction "replies q" arbitrary: q st)
  case Nil
  have "take_type SVCREPLY q = None" using take_type_replies Nil by simp
  then show ?case using Nil getmessage_none [OF Nil.prems(1) _ Nil.prems(4), of SVCREPLY env 296]
    by (subst fetch_loop.simps) (auto intro!: exI [of _ q] simp: set_errno_def fun_upd_idem)
next
  case (Cons d ds)
  obtain q1 where q1: "take_type SVCREPLY q = Some (Call d, q1)" "replies q1 = ds" "replies_wf q1"
    "others q1 = others q"
    using take_type_reply [OF Cons.prems(2) Cons.hyps(2) [symmetric]] by blast
  let ?st = "pushCallReply ((set_errno 0 st)\<lparr>msgq := (msgq st)(my_mqid st := Some q1)\<rparr>) (Private d)"
  have ne: "hdl \<noteq> 0" "ca_handle d \<noteq> hdl" "take_reply hdl (replies q1) = None"
    using Cons.prems(3) Cons.hyps(2) [symmetric] q1(2) by (auto split: if_splits)
  then have "fetch_loop env hdl flags 296 st = fetch_loop env hdl flags 296 ?st"
    using getmessage_found [OF Cons.prems(1) q1(1), of 296 env flags] by (subst fetch_loop.simps) simp
  then show ?case
    using Cons.hyps(1) [OF q1(2) [symmetric], of ?st] q1 ne(3) Cons.prems(4) Cons.hyps(2) [symmetric]
    by (auto simp: pushCallReply_def set_errno_def)
qed

text \<open>
  C2. Fetching a reply implements taking it from the list of undelivered replies. If one
  with the handle has arrived, in whatever order, \<open>_mwfetchipc\<close> returns the first of them
  and the others stay, in order, for later fetches; if not, and the call must not block, it
  reports that there is no message and no reply is lost. Other messages stay in the queue.
\<close>

theorem fetch_replies:
  assumes "replies_ok st"
  shows "(\<forall>c cs. take_reply hdl (undelivered st) = Some (c, cs) \<longrightarrow>
      (\<exists>st'. mwfetchipc env st hdl flags = fetched_reply env c st' \<and> undelivered st' = cs
        \<and> replies_ok st' \<and> same_but_replies st st'))
    \<and> (take_reply hdl (undelivered st) = None \<and> (flags AND MWNOBLOCK) \<noteq> 0 \<longrightarrow>
      (\<exists>st'. mwfetchipc env st hdl flags = Some (FetchFailed (- errno_num ENOMSG), st') \<and> undelivered st' = undelivered st
        \<and> replies_ok st' \<and> same_but_replies st st'))"
proof -
  obtain q where q: "msgq st (my_mqid st) = Some q" "replies_wf q" "waiting st = q" "Buffer \<notin> set (callReplyQueue st)"
    using assms by (auto simp: replies_ok_def waiting_def)
  let ?r = "map private_reply (callReplyQueue st)"
  have rbuf: "map Private ?r = callReplyQueue st"
    using private_list [OF q(4)] by simp
  have pop: "popCallReplyByHandle st hdl = (case take_reply hdl ?r of
      None \<Rightarrow> Some (None, st) | Some (c, cs) \<Rightarrow> Some (Some c, st\<lparr>callReplyQueue := map Private cs\<rparr>))"
  proof (cases "callReplyQueue st")
    case (Cons a rs)
    then obtain d where "a = Private d" using q(4) by (cases a) auto
    then show ?thesis using Cons q(4) rbuf pop_loop_private [of "callReplyQueue st" hdl st]
      by (auto simp: popCallReplyByHandle_def deref_def split: option.splits if_splits)
  qed (simp add: popCallReplyByHandle_def)
  have und: "undelivered st = ?r @ replies q" by (simp add: undelivered_def q(3))
  show ?thesis
  proof (intro conjI allI impI, goal_cases)
    case (1 c cs)
    show ?case
    proof (cases "take_reply hdl ?r")
      case None
      then obtain ds where ds: "take_reply hdl (replies q) = Some (c, ds)" "cs = ?r @ ds"
        using 1 und by (auto simp: take_reply_append)
      obtain q' es where f: "fetch_loop env hdl flags 296 st =
          Some (Inr c, (set_errno 0 st)\<lparr>callReplyQueue := callReplyQueue st @ map Private es,
                                       msgq := (msgq st)(my_mqid st := Some q')\<rparr>)"
        "es @ replies q' = ds" "replies_wf q'" "others q' = others q"
        using fetch_loop_found [OF q(1,2) ds(1)] by blast
      let ?st = "(set_errno 0 st)\<lparr>callReplyQueue := callReplyQueue st @ map Private es, msgq := (msgq st)(my_mqid st := Some q')\<rparr>"
      have "mwfetchipc env st hdl flags = fetched_reply env c ?st"
        using pop None f(1) by (simp add: mwfetchipc_def)
      moreover have "undelivered ?st = cs" "replies_ok ?st"
        using f(2,3) ds(2) q(4) by (auto simp: undelivered_def replies_ok_def waiting_def set_errno_def comp_def)
      moreover have "same_but_replies st ?st"
        by (rule same_but_repliesI [where q = q' and e = 0 and r = "callReplyQueue st @ map Private es"]) (simp_all add: set_errno_def f(4) q(3))
      ultimately show ?thesis by blast
    next
      case (Some p)
      then obtain ds where ds: "take_reply hdl ?r = Some (c, ds)" "cs = ds @ replies q"
        using 1 und by (cases p) (auto simp: take_reply_append)
      let ?st = "st\<lparr>callReplyQueue := map Private ds\<rparr>"
      have "mwfetchipc env st hdl flags = fetched_reply env c ?st"
        using pop ds(1) by (simp add: mwfetchipc_def)
      moreover have "undelivered ?st = cs" "replies_ok ?st"
        using ds(2) q by (auto simp: undelivered_def replies_ok_def waiting_def comp_def)
      moreover have "same_but_replies st ?st"
        by (rule same_but_repliesI [where q = q and e = "last_errno (shm st)" and r = "map Private ds"]) (simp_all add: q fun_upd_idem)
      ultimately show ?thesis by blast
    qed
  next
    case 2
    then have none: "take_reply hdl ?r = None" "take_reply hdl (replies q) = None"
      using und by (auto simp: take_reply_append split: option.splits)
    obtain q' where f: "fetch_loop env hdl flags 296 st =
        Some (Inl ENOMSG, (set_errno (errno_num ENOMSG) st)\<lparr>callReplyQueue := callReplyQueue st @ map Private (replies q),
                                   msgq := (msgq st)(my_mqid st := Some q')\<rparr>)"
      "replies q' = []" "replies_wf q'" "others q' = others q"
      using fetch_loop_empty [OF q(1,2) none(2)] 2 by blast
    let ?st = "(set_errno (errno_num ENOMSG) st)\<lparr>callReplyQueue := callReplyQueue st @ map Private (replies q),
      msgq := (msgq st)(my_mqid st := Some q')\<rparr>"
    have "mwfetchipc env st hdl flags = Some (FetchFailed (- errno_num ENOMSG), ?st)"
      using pop none(1) f(1) by (simp add: mwfetchipc_def)
    moreover have "undelivered ?st = undelivered st" "replies_ok ?st"
      using f(2,3) q und by (auto simp: undelivered_def replies_ok_def waiting_def set_errno_def comp_def)
    moreover have "same_but_replies st ?st"
      by (rule same_but_repliesI [where q = q' and e = "errno_num ENOMSG" and r = "callReplyQueue st @ map Private (replies q)"]) (simp_all add: set_errno_def f(4) q(3))
    ultimately show ?case by blast
  qed
qed

definition demo_call :: "int \<Rightarrow> call" where
  "demo_call h = \<lparr>datasegmentid = 0, cdata = 0, cdatalen = 0, ca_mtype = SVCREPLY, ca_handle = h, ca_cltid = 0x02000000,
     ca_gwid = UNASSIGNED, ca_srvid = 0x01000000, ca_svcid = 0x08000000, forwardcount = 0, ca_service = ''svc'',
     origservice = ''svc'', issued = 0, uissued = 0, ca_timeout = 0, appreturncode = 0, ca_flags = 0, ca_instance = [],
     ca_domainname = [], callerid = UNASSIGNED, hops = 0, ca_returncode = MWSUCCESS\<rparr>"

definition demo_replies :: mwdstate where
  "demo_replies = demo_mwd\<lparr>callReplyQueue := [Private (demo_call 3)],
     msgq := (msgq demo_mwd)(3 := Some [Call (demo_call 4), Event demo_event, Call (demo_call 5)])\<rparr>"

lemma demo_replies_facts:
  "replies_ok demo_replies" "undelivered demo_replies = [demo_call 3, demo_call 4, demo_call 5]"
  by (simp_all add: demo_replies_def demo_mwd_def replies_ok_def waiting_def replies_wf_def is_reply_def
      undelivered_def replies_def demo_call_def demo_event_def)

theorem fetch_replies_witness:
  "\<forall>env. \<exists>st'. mwfetchipc env demo_replies 5 0 = fetched_reply env (demo_call 5) st' \<and> undelivered st' = [demo_call 3, demo_call 4]
     \<and> replies_ok st' \<and> same_but_replies demo_replies st'"
proof -
  have "take_reply 5 (undelivered demo_replies) = Some (demo_call 5, [demo_call 3, demo_call 4])"
    unfolding demo_replies_facts by (simp add: demo_call_def)
  then show ?thesis using fetch_replies [OF demo_replies_facts(1), of 5 _ 0] by blast
qed

section \<open>Handles\<close>

definition nth_handle :: "mwenv \<Rightarrow> 'a mwproc_scheme \<Rightarrow> nat \<Rightarrow> int" where
  "nth_handle env st k = fst (mw_nexthandle env (((\<lambda>s. snd (mw_nexthandle env s)) ^^ k) st))"

lemma nexthandle_step:
  assumes "0 \<le> handle st" "handle st < 2 ^ 31"
  shows "mw_nexthandle env st = (handle st mod (2 ^ 31 - 1) + 1, st\<lparr>handle := handle st mod (2 ^ 31 - 1) + 1\<rparr>)"
proof (cases "handle st = 2 ^ 31 - 1")
  case True
  have "sint (word_of_int (2 ^ 31) :: 32 word) < 0" by simp
  then show ?thesis using True by (simp add: mw_nexthandle_def)
next
  case False
  then have "sint (word_of_int (handle st + 1) :: 32 word) = handle st + 1"
    using assms sint32_id [of "handle st + 1"] by simp
  then show ?thesis using assms False by (simp add: mw_nexthandle_def Let_def mod_pos_pos_trivial del: of_int_add)
qed

lemma nth_handle_eq:
  assumes "0 \<le> handle st" "handle st < 2 ^ 31"
  shows "nth_handle env st k = (handle st + int k) mod (2 ^ 31 - 1) + 1"
  using assms
proof (induction k arbitrary: st)
  case 0
  then show ?case by (simp add: nth_handle_def nexthandle_step)
next
  case (Suc k)
  let ?h = "handle st mod (2 ^ 31 - 1) + 1"
  have h: "0 \<le> ?h" "?h < 2 ^ 31" using Suc.prems pos_mod_bound [of "2 ^ 31 - 1" "handle st"] by simp_all
  have "nth_handle env st (Suc k) = nth_handle env (snd (mw_nexthandle env st)) k"
    by (simp add: nth_handle_def funpow_Suc_right del: funpow.simps)
  also have "\<dots> = (?h + int k) mod (2 ^ 31 - 1) + 1"
    using Suc.IH [of "st\<lparr>handle := ?h\<rparr>"] h nexthandle_step [OF Suc.prems, of env] by simp
  also have "(?h + int k) mod (2 ^ 31 - 1) = (handle st + int (Suc k)) mod (2 ^ 31 - 1)"
    using mod_add_left_eq [of "handle st" "2 ^ 31 - 1" "1 + int k"] by (simp add: ac_simps)
  finally show ?case .
qed

lemma nth_handle_first:
  assumes "handle st = -1"
  shows "nth_handle env st k = nth_handle env (st\<lparr>handle := mw_irand (rand_val env) ((2 ^ 31 - 1) div 2)\<rparr>) k"
proof -
  let ?st = "st\<lparr>handle := mw_irand (rand_val env) ((2 ^ 31 - 1) div 2)\<rparr>"
  have *: "mw_nexthandle env st = mw_nexthandle env ?st"
    using assms by (auto simp: mw_nexthandle_def Let_def)
  show ?thesis
    using * by (cases k) (simp_all add: nth_handle_def funpow_Suc_right del: funpow.simps(2))
qed

text \<open>
  C25. Handles are unique: whatever number the counter of a process starts at, the next
  2147483647 calls get handles between 1 and that number, no two of them the same.
\<close>

theorem handles_unique:
  assumes "handle st = -1 \<and> 0 \<le> rand_val env \<and> rand_val env < 2 ^ 31 \<or> 1 \<le> handle st \<and> handle st < 2 ^ 31"
    and "i < 2 ^ 31 - 1" "j < 2 ^ 31 - 1"
  shows "1 \<le> nth_handle env st i \<and> nth_handle env st i < 2 ^ 31 \<and> (nth_handle env st i = nth_handle env st j \<longleftrightarrow> i = j)"
proof -
  obtain h where h: "0 \<le> h" "h < 2 ^ 31" and *: "nth_handle env st k = (h + int k) mod (2 ^ 31 - 1) + 1" for k
  proof (cases "handle st = -1")
    case True
    then have r: "0 \<le> rand_val env" "rand_val env < 2 ^ 31" using assms(1) by auto
    let ?h = "mw_irand (rand_val env) ((2 ^ 31 - 1) div 2)"
    have "0 \<le> ?h" "?h < 2 ^ 31" using r by (simp_all add: mw_irand_def)
    then show ?thesis using that [of ?h] nth_handle_first [OF True, of env]
        nth_handle_eq [of "st\<lparr>handle := ?h\<rparr>" env] by simp
  next
    case False
    then show ?thesis using that [of "handle st"] assms(1) nth_handle_eq [of st env] by auto
  qed
  have "i = j" if "(h + int i) mod (2 ^ 31 - 1) = (h + int j) mod (2 ^ 31 - 1)"
  proof -
    have "2 ^ 31 - 1 dvd int i - int j" using that by (simp add: mod_eq_dvd_iff)
    moreover have "\<bar>int i - int j\<bar> < 2 ^ 31 - 1" using assms(2,3) by simp
    ultimately show ?thesis using dvd_imp_le_int [of "int i - int j" "2 ^ 31 - 1"] by fastforce
  qed
  then show ?thesis using * pos_mod_bound [of "2 ^ 31 - 1" "h + int i"] by auto
qed

theorem handles_unique_witness:
  "1 \<le> nth_handle demo_mwenv demo_mwd 0 \<and> nth_handle demo_mwenv demo_mwd 0 \<noteq> nth_handle demo_mwenv demo_mwd 7"
proof -
  have "handle demo_mwd = -1" "0 \<le> rand_val demo_mwenv" "rand_val demo_mwenv < 2 ^ 31"
    by (simp_all add: demo_mwd_def demo_mwenv_def)
  then show ?thesis using handles_unique [of demo_mwd demo_mwenv 0 7] by simp
qed

end
