(* ===== verification/RpcProps.thy ===== *)
theory RpcProps
  imports CallProps
begin

unbundle bit_operations_syntax

text \<open>
  A whole service call: the client's \<open>mwcall\<close>, the daemon's tables, the heap, the server's
  \<open>mwservicerequest\<close> with the routine of the service, its \<open>mwreply\<close>, and the reply's way
  back. The two processes share the tables, the heap and the message queues; while the client
  sleeps, the server runs.
\<close>

text \<open>A process \<open>p\<close> in the shared world as the process \<open>w\<close> left it. Both have the heap at the same address.\<close>

definition in_world :: "'a ipcstate_scheme \<Rightarrow> 'b ipcstate_scheme \<Rightarrow> 'b ipcstate_scheme" where
  "in_world w p = p\<lparr>ipcmain := ipcmain w, clttbl := clttbl w, srvtbl := srvtbl w, svctbl := svctbl w,
     gwtbl := gwtbl w, convtbl := convtbl w, shm := (shm w)\<lparr>last_errno := last_errno (shm p)\<rparr>, msgq := msgq w\<rparr>"

section \<open>Frames\<close>

text \<open>Look-ups depend on the tables only.\<close>

lemma lookups_cong:
  assumes "ipcmain s = ipcmain t" "clttbl s = clttbl t" "srvtbl s = srvtbl t" "svctbl s = svctbl t" "gwtbl s = gwtbl t"
  shows "mw_get_mqid_by_mwid s i = mw_get_mqid_by_mwid t i" "mw_get_provider_by_serviceid s i = mw_get_provider_by_serviceid t i"
    "mw_get_service_byid s i = mw_get_service_byid t i" "mwsystemstate env s = mwsystemstate env t"
    "mw_get_services_byname env s name flags = mw_get_services_byname env t name flags"
    "mw_get_client_byid s i = mw_get_client_byid t i"
  unfolding mw_get_mqid_by_mwid_def mw_get_server_byid_def mw_get_client_byid_def mw_get_gateway_byid_def
    mw_mwd_mqid_def mw_get_provider_by_serviceid_def mw_get_service_byid_def mwsystemstate_def mw_get_services_byname_def assms
  by simp_all

text \<open>The status of a server is in its own entry.\<close>

lemma set_my_status_frame: "\<exists>t. mw_set_my_status s x = s\<lparr>srvtbl := t\<rparr> \<and> (t = None \<longleftrightarrow> srvtbl s = None)"
  by (auto simp: mw_set_my_status_def tbl_upd_def split: option.split intro: exI [of _ "srvtbl s"])

lemma lookups_srvtbl:
  assumes "t = None \<longleftrightarrow> srvtbl s = None"
  shows "mw_get_service_byid (s\<lparr>srvtbl := t\<rparr>) i = mw_get_service_byid s i"
    "mwsystemstate env (s\<lparr>srvtbl := t\<rparr>) = mwsystemstate env s"
    "(i AND MWSERVERMASK) = 0 \<Longrightarrow> mw_get_mqid_by_mwid (s\<lparr>srvtbl := t\<rparr>) i = mw_get_mqid_by_mwid s i"
  using assms
  by (auto simp: mw_get_mqid_by_mwid_def mw_get_client_byid_def mw_get_gateway_byid_def mw_mwd_mqid_def
      mw_get_service_byid_def mwsystemstate_def split: option.split)

lemma putmessage_ok:
  assumes "accepting env" "mesg_size m \<le> MWMSGMAX" "mw_get_mqid_by_mwid s dest = qid" "0 \<le> qid" "msgq s qid = Some q"
  shows "mw_ipc_putmessage env s dest m = (0, s\<lparr>msgq := (msgq s)(qid := Some (q @ [m]))\<rparr>)"
    and "put_errno env s dest m = last_errno (shm s)"
  using assms by (simp_all add: mw_ipc_putmessage_def put_errno_def msgsnd_def accepting_def Let_def)

lemma putbuffer_loop_ok:
  assumes "mw_putbuffer_to_call (shm_env (os env)) (shm s) c data len slen = Some (0, c', h)"
  shows "putbuffer_loop env c data len slen s = Some (c', s\<lparr>shm := h\<rparr>)"
  by (subst putbuffer_loop.simps) (simp add: assms)

section \<open>The way of a call\<close>

text \<open>The message of a call, but for its data and the service it is sent to.\<close>

definition sent_call :: "'a mwproc_scheme procenv \<Rightarrow> 'a mwproc_scheme \<Rightarrow> string \<Rightarrow> int \<Rightarrow> int \<Rightarrow> call" where
  "sent_call env s name flags hdl = \<lparr>datasegmentid = 0, cdata = 0, cdatalen = 0, ca_mtype = SVCCALL, ca_handle = hdl,
     ca_cltid = myclientid s, ca_gwid = mygatewayid s, ca_srvid = UNASSIGNED, ca_svcid = 0, forwardcount = 0,
     ca_service = strncpy name MWMAXSVCNAME, origservice = strncpy name MWMAXSVCNAME,
     issued = fst (gettimeofday env), uissued = snd (gettimeofday env), ca_timeout = 0, appreturncode = 0,
     ca_flags = flags OR MWMULTIPLE, ca_instance = [], ca_domainname = [], callerid = UNASSIGNED, hops = 0, ca_returncode = 0\<rparr>"

lemma acall_sends:
  fixes s :: "'a mwproc_scheme"
  assumes "mwsystemstate (os env) s = None" "mw_nexthandle (os env) (set_errno 0 s) = (hdl, s1)"
    and "mw_putbuffer_to_call (shm_env (os env)) (shm s1) (sent_call env s name flags hdl) data len slen = Some (0, c, h)"
    and "mw_get_services_byname (os env) s name (flags OR MWMULTIPLE) = Some svcs" "svcs \<noteq> []"
    and "svcid = svcs ! (rands env 0 mod length svcs)" "mw_get_provider_by_serviceid s svcid = dest" "0 \<le> dest"
    and "accepting (os env)" "mw_get_mqid_by_mwid s dest = qid" "0 \<le> qid" "msgq s qid = Some q"
  shows "mwacall_ipc env s name data len slen flags =
    Some (hdl, s1\<lparr>shm := h, msgq := (msgq s)(qid := Some (q @ [Call (c\<lparr>ca_svcid := svcid\<rparr>)]))\<rparr>)"
proof -
  let ?s = "s1\<lparr>shm := h\<rparr>"
  have s1: "ipcmain s1 = ipcmain s" "clttbl s1 = clttbl s" "srvtbl s1 = srvtbl s" "svctbl s1 = svctbl s" "gwtbl s1 = gwtbl s"
    "msgq s1 = msgq s" "myclientid s1 = myclientid s" "mygatewayid s1 = mygatewayid s"
    using assms(2) by (auto simp: mw_nexthandle_def Let_def set_errno_def)
  have eqs: "mw_get_mqid_by_mwid ?s dest = qid" "mw_get_provider_by_serviceid ?s svcid = dest"
    "mw_get_services_byname (os env) ?s name (flags OR MWMULTIPLE) = Some svcs"
    using assms(4,7,10) lookups_cong [of ?s s] s1 by simp_all
  have loop: "acall_loop env 0 svcs c hdl 0 ?s = Some (hdl, ?s\<lparr>msgq := (msgq ?s)(qid := Some (q @ [Call (c\<lparr>ca_svcid := svcid\<rparr>)]))\<rparr>)"
    using assms(5,6,8,11,12) eqs s1(6) putmessage_ok(1) [OF assms(9) _ eqs(1), of "Call (c\<lparr>ca_svcid := svcid\<rparr>)" q]
    by (subst acall_loop.simps) (simp add: Let_def)
  show ?thesis
    using assms(1,2) s1 eqs(3) loop putbuffer_loop_ok [of env s1 "sent_call env s name flags hdl" data len slen c h] assms(3)
    by (simp add: mwacall_ipc_def mwacallipc_def sent_call_def Let_def)
qed

section \<open>The server's part\<close>

text \<open>
  The server takes the call off its queue, reads the data and runs the routine of the service;
  the state it runs in differs from the one before as shown.
\<close>

lemma server_gets_call:
  fixes s :: "'a mwproc_scheme"
  assumes "mwsystemstate (os env) s = None" "isattached s" "provided s \<noteq> 0"
    and "msgq s (my_mqid s) = Some (Call c # q)" "ca_mtype c = SVCCALL" "(ca_flags c AND MWNOREPLY) = 0" "ca_timeout c = 0"
    and "mw_get_service_byid s (ca_svcid c) \<noteq> None"
    and "mw_getbuffer_from_call (shm_env (os env)) ((shm s)\<lparr>last_errno := 0\<rparr>) c = Some (0, d, len, h)"
  shows "\<exists>t info. (t = None \<longleftrightarrow> srvtbl s = None) \<and> si_data info = d \<and> si_datalen info = len \<and> si_svcid info = ca_svcid c
    \<and> si_service info = strncpy (ca_service c) MWMAXSVCNAME \<and> si_cltid info = ca_cltid c
    \<and> mwservicerequest env s flags = mwCallCServiceFunction env
        (s\<lparr>msgq := (msgq s)(my_mqid s := Some q), srv_buffer := Some (Call c), srvtbl := t, requestpending := True, shm := h\<rparr>) info"
proof -
  obtain t1 where t1: "mw_set_my_status s None = s\<lparr>srvtbl := t1\<rparr>" "t1 = None \<longleftrightarrow> srvtbl s = None"
    using set_my_status_frame by blast
  let ?s2 = "(set_errno 0 (s\<lparr>srvtbl := t1\<rparr>))\<lparr>msgq := (msgq s)(my_mqid s := Some q), srv_buffer := Some (Call c)\<rparr>"
  obtain t2 where t2: "mw_set_my_status ?s2 (Some (ca_service c)) = ?s2\<lparr>srvtbl := t2\<rparr>" "t2 = None \<longleftrightarrow> srvtbl s = None"
    using set_my_status_frame [of ?s2 "Some (ca_service c)"] t1(2) by (auto simp: set_errno_def)
  have get: "mw_ipc_getmessage env (s\<lparr>srvtbl := t1\<rparr>) (int MWMSGMAX) 0 flags =
      (Inr (Call c, 296), (set_errno 0 (s\<lparr>srvtbl := t1\<rparr>))\<lparr>msgq := (msgq s)(my_mqid s := Some q)\<rparr>)"
    using getmessage_found [of "s\<lparr>srvtbl := t1\<rparr>" "Call c # q" 0 "Call c" q "int MWMSGMAX" env flags] assms(4) by simp
  have loop: "request_loop env flags (int MWMSGMAX) (s\<lparr>srvtbl := t1\<rparr>) = Some (GotCall, ?s2)"
    using get assms(5) by (subst request_loop.simps) simp
  let ?s3 = "?s2\<lparr>srvtbl := t2, requestpending := True\<rparr>"
  have svc: "mw_get_service_byid ?s3 (ca_svcid c) = mw_get_service_byid s (ca_svcid c)"
    using lookups_cong(3) [of ?s3 "s\<lparr>srvtbl := t2\<rparr>" "ca_svcid c"] lookups_srvtbl(1) [OF t2(2), of "ca_svcid c"]
    by (simp add: set_errno_def)
  have ipc: "ipcmain s \<noteq> None" using assms(1) by (auto simp: mwsystemstate_def split: option.splits)
  have cb: "callbuffer ?s2 = Some c" by (simp add: callbuffer_def)
  have dl: "mw_set_deadline env c = (1000000000, 0, 0)" using assms(7) by (simp add: mw_set_deadline_def split: prod.split)
  have buf: "mw_getbuffer_from_call (shm_env (os env)) (shm ?s3) c = Some (0, d, len, h)"
    using assms(9) by (simp add: set_errno_def)
  have "mwGetServiceRequest env flags s = Some (Some (svcinfo_of (?s3\<lparr>shm := h\<rparr>) c 0 0 d len), ?s3\<lparr>shm := h\<rparr>)"
    using assms(2,3,6,8) ipc t1(1) loop cb t2(1) svc dl buf by (subst mwGetServiceRequest.simps) (simp add: Let_def)
  moreover have "?s3\<lparr>shm := h\<rparr> = s\<lparr>msgq := (msgq s)(my_mqid s := Some q), srv_buffer := Some (Call c), srvtbl := t2,
      requestpending := True, shm := h\<rparr>" (is "_ = ?s4")
    by (simp add: set_errno_def)
  ultimately have req: "mwservicerequest env s flags = mwCallCServiceFunction env ?s4 (svcinfo_of ?s4 c 0 0 d len)"
    using assms(1) by (simp add: mwservicerequest_def)
  have info: "si_data (svcinfo_of ?s4 c 0 0 d len) = d" "si_datalen (svcinfo_of ?s4 c 0 0 d len) = len"
    "si_svcid (svcinfo_of ?s4 c 0 0 d len) = ca_svcid c" "si_cltid (svcinfo_of ?s4 c 0 0 d len) = ca_cltid c"
    "si_service (svcinfo_of ?s4 c 0 0 d len) = strncpy (ca_service c) MWMAXSVCNAME"
    by (simp_all add: svcinfo_of_def Let_def)
  show ?thesis
    by (rule exI [of _ t2], rule exI [of _ "svcinfo_of ?s4 c 0 0 d len"], intro conjI) (fact t2(2) info req)+
qed

text \<open>
  A service as a function: the routine computes the reply from the data of the call, has it in
  memory of its own at \<open>adr\<close> and replies with it.
\<close>

definition routine ::
  "(8 word list \<Rightarrow> 8 word list) \<Rightarrow> int \<Rightarrow> int \<Rightarrow> 'a mwproc_scheme procenv \<Rightarrow> mwsvcinfo \<Rightarrow> 'a mwproc_scheme
   \<Rightarrow> (int \<times> 'a mwproc_scheme) option" where
  "routine g adr app env info s =
     (let r = g (the (si_data info))
      in mwreply env (s\<lparr>shm := store_bytes (shm s) adr r\<rparr>) adr (int (length r)) 0 MWSUCCESS app)"

lemma reply_sent:
  fixes s :: "'a mwproc_scheme"
  assumes "requestpending s" "mwsystemstate (os env) s = None" "srv_buffer s = Some (Call c)" "ca_gwid c = UNASSIGNED"
    and "mw_putbuffer_to_call (shm_env (os env)) (shm s) c data len slen = Some (0, c', h)" "ca_gwid c' = UNASSIGNED" "ca_cltid c' = ca_cltid c"
    and "accepting (os env)" "mw_get_mqid_by_mwid s (ca_cltid c) = qid" "0 \<le> qid" "msgq s qid = Some q"
  shows "\<exists>s'. mwreply env s data len slen MWSUCCESS app = Some (0, s') \<and> \<not> requestpending s' \<and> shm s' = h
    \<and> msgq s' = (msgq s)(qid := Some (q @ [Call (c'\<lparr>ca_returncode := MWSUCCESS, appreturncode := app,
         ca_mtype := SVCREPLY, ca_srvid := myserverid s\<rparr>)]))
    \<and> ipcmain s' = ipcmain s \<and> clttbl s' = clttbl s \<and> srvtbl s' = srvtbl s \<and> svctbl s' = svctbl s \<and> gwtbl s' = gwtbl s \<and> convtbl s' = convtbl s"
proof -
  let ?c = "c'\<lparr>ca_returncode := MWSUCCESS, appreturncode := app, ca_mtype := SVCREPLY, ca_srvid := myserverid s\<rparr>"
  let ?s = "s\<lparr>shm := h, srv_buffer := Some (Call ?c)\<rparr>"
  have q: "mw_get_mqid_by_mwid ?s (reply_to ?c) = qid"
    using assms(6,7,9) lookups_cong(1) [of ?s s "ca_cltid c"] by (simp add: reply_to_def)
  have put: "mw_ipc_putmessage (os env) ?s (reply_to ?c) (Call ?c) = (0, ?s\<lparr>msgq := (msgq s)(qid := Some (q @ [Call ?c]))\<rparr>)"
    and pe: "put_errno (os env) ?s (reply_to ?c) (Call ?c) = last_errno h"
    using putmessage_ok [OF assms(8) _ q assms(10), of "Call ?c" q] assms(11) by simp_all
  have "mwreply env s data len slen MWSUCCESS app =
      Some (0, set_errno (last_errno h) (?s\<lparr>msgq := (msgq s)(qid := Some (q @ [Call ?c])), requestpending := False\<rparr>))"
    using assms(1-3) putbuffer_loop_ok [OF assms(5)] put pe
    by (simp add: mwreply_def callbuffer_def reply_code_def Let_def set_errno_def)
  then show ?thesis by (simp add: set_errno_def)
qed

text \<open>The heap has a chunk for a buffer: the first of the ring of bin \<open>b\<close>.\<close>

definition buffer_for :: "shmenv \<Rightarrow> shmstate \<Rightarrow> seginfo \<Rightarrow> (nat \<Rightarrow> int list) \<Rightarrow> int \<Rightarrow> nat \<Rightarrow> int \<Rightarrow> int list \<Rightarrow> bool" where
  "buffer_for env h si fr len b c cs \<longleftrightarrow> 0 < len \<and> find_bin h len si \<le> b \<and> b < BINS
     \<and> (\<forall>k. find_bin h len si \<le> k \<and> k < b \<longrightarrow> fr k = []) \<and> fr b = c # cs \<and> lock_ok env b \<and> my_mwid env \<noteq> UNASSIGNED"

lemma buffer_for_cong:
  "basechunksize (hdr h') = basechunksize (hdr h) \<Longrightarrow> buffer_for env h' si fr len b c cs = buffer_for env h si fr len b c cs"
  by (simp add: buffer_for_def find_bin_def)

lemma mwshmcheck_foreign: "findsegment_byaddr (segments h) a = None \<Longrightarrow> mwshmcheck h a = -1"
  by (simp add: mwshmcheck_def)

text \<open>Putting data that is outside of the heap in a buffer, with what the code's message then says.\<close>

lemma put_data:
  assumes "heap_ok h si fr" "buffer_for env h si fr len b c cs" "data \<noteq> 0" "findsegment_byaddr (segments h) data = None"
  shows "\<exists>h'. mw_putbuffer_to_call env h call data len slen = Some (0, call\<lparr>datasegmentid := 0, cdata := c + 16, cdatalen := len\<rparr>, h')
    \<and> heap_ok h' si (fr(b := cs)) \<and> c \<in> chunks (hdr h') b \<and> c \<notin> set cs \<and> basechunksize (hdr h') = basechunksize (hdr h)
    \<and> segments h' = segments h \<and> get_bytes h' (heapinfo h' + c + 16) len = get_bytes h data len"
proof -
  have "mwshmcheck h data = -1" using mwshmcheck_foreign assms(4) by simp
  then obtain h' where h': "mw_putbuffer_to_call env h call data len slen = Some (0, call\<lparr>datasegmentid := 0, cdata := c + 16, cdatalen := len\<rparr>, h')"
    "heap_ok h' si (fr(b := cs))" "c \<in> chunks (hdr h') b" "basechunksize (hdr h') = basechunksize (hdr h)" "heapinfo h' = heapinfo h"
    "c \<notin> set cs" "bytes h' = bytes (copy_bytes h (heapinfo h + c + 16) data len)" "segments h' = segments h"
    using putbuffer_heap [OF assms(1) _ assms(3), of len b c cs env call slen] assms(2) by (auto simp: buffer_for_def)
  moreover have "get_bytes h' (heapinfo h' + c + 16) len = get_bytes h data len"
    by (auto simp: get_bytes_def h'(5,7) copy_bytes_def)
  ultimately show ?thesis by auto
qed

lemma store_bytes_simps [simp]:
  "heapinfo (store_bytes h a bs) = heapinfo h" "hdr (store_bytes h a bs) = hdr h" "segments (store_bytes h a bs) = segments h"
  "heap_ok (store_bytes h a bs) si fr = heap_ok h si fr"
  by (simp_all add: store_bytes_def heap_ok_bytes)

lemma get_store_bytes [simp]: "get_bytes (store_bytes h a bs) a (int (length bs)) = bs"
  by (rule nth_equalityI) (simp_all add: store_bytes_def get_bytes_def)

text \<open>The server answers the call: the reply is on the client's queue, its data in a buffer of the heap.\<close>

lemma server_replies:
  fixes s :: "'a mwproc_scheme"
  assumes sys: "mwsystemstate (os env) s = None" "mwsystemstate (os renv) s = None" "accepting (os renv)"
    and srv: "isattached s" "provided s \<noteq> 0" "map_of (serviceFuncList s) (ca_svcid c) = Some f"
      "run_service env f = routine g adr app renv" "mw_get_service_byid s (ca_svcid c) \<noteq> None"
    and call: "msgq s (my_mqid s) = Some (Call c # q)" "ca_mtype c = SVCCALL" "(ca_flags c AND MWNOREPLY) = 0" "ca_timeout c = 0"
      "ca_gwid c = UNASSIGNED" "datasegmentid c = 0" "cdata c = ch + 16" "cdatalen c = len" "0 < len"
    and heap: "heap_ok (shm s) si fr" "ch \<in> chunks (hdr (shm s)) b" "ch \<notin> set (fr b)"
      "len < 2 ^ b * basechunksize (hdr (shm s))" "len \<le> ch + 16"
      "d = get_bytes (shm s) (heapinfo (shm s) + ch + 16) len"
    and rbuf: "buffer_for (shm_env (os renv)) (shm s) si (fr(b := ring_insert ch (fr b))) (int (length (g d))) b' ch' cs'"
      "adr \<noteq> 0" "findsegment_byaddr (segments (shm s)) adr = None"
    and clt: "(ca_cltid c AND MWSERVERMASK) = 0" "mw_get_mqid_by_mwid s (ca_cltid c) = qid" "0 \<le> qid" "qid \<noteq> my_mqid s"
      "msgq s qid = Some cq"
  shows "\<exists>s' r. mwservicerequest env s flags = Some (0, s')
    \<and> msgq s' = (msgq s)(my_mqid s := Some q, qid := Some (cq @ [Call r]))
    \<and> ca_mtype r = SVCREPLY \<and> ca_handle r = ca_handle c \<and> ca_returncode r = MWSUCCESS \<and> appreturncode r = app
    \<and> datasegmentid r = 0 \<and> cdata r = ch' + 16 \<and> cdatalen r = int (length (g d))
    \<and> heap_ok (shm s') si (fr(b := ring_insert ch (fr b), b' := cs')) \<and> ch' \<in> chunks (hdr (shm s')) b' \<and> ch' \<notin> set cs'
    \<and> get_bytes (shm s') (heapinfo (shm s') + ch' + 16) (int (length (g d))) = g d
    \<and> segments (shm s') = segments (shm s) \<and> clttbl s' = clttbl s \<and> ipcmain s' = ipcmain s"
proof -
  let ?h0 = "(shm s)\<lparr>last_errno := 0\<rparr>"
  have h0: "heap_ok ?h0 si fr" "get_bytes ?h0 (heapinfo ?h0 + ch + 16) len = d" "0 < int (length (g d))"
    using heap(1,6) rbuf(1) by (simp_all add: heap_ok_errno get_bytes_def buffer_for_def)
  have c0: "ch \<in> chunks (hdr ?h0) b" "len < 2 ^ b * basechunksize (hdr ?h0)" using heap(2,4) by simp_all
  obtain h where h: "mw_getbuffer_from_call (shm_env (os env)) ?h0 c = Some (0, Some d, len, h)"
    "heap_ok h si (fr(b := ring_insert ch (fr b)))" "freed ?h0 h ch b"
    using getbuffer_heap [OF h0(1) c0(1) heap(3) call(9) c0(2) heap(5) call(6,7,8), of "shm_env (os env)"]
    unfolding h0(2) by blast
  obtain t info where t: "t = None \<longleftrightarrow> srvtbl s = None" "si_data info = Some d" "si_svcid info = ca_svcid c"
    "mwservicerequest env s flags = mwCallCServiceFunction env
        (s\<lparr>msgq := (msgq s)(my_mqid s := Some q), srv_buffer := Some (Call c), srvtbl := t, requestpending := True, shm := h\<rparr>) info"
    (is "_ = mwCallCServiceFunction env ?s info")
    using server_gets_call [OF sys(1) srv(1,2) call(1-4) srv(5) h(1), where flags = flags] by (elim exE conjE) (rule that; assumption)
  let ?h = "store_bytes h adr (g d)"
  let ?r = "?s\<lparr>shm := ?h\<rparr>"
  have hs: "segments h = segments (shm s)" "basechunksize (hdr h) = basechunksize (hdr (shm s))"
    using h(3) by (simp_all add: freed_def)
  have rb: "buffer_for (shm_env (os renv)) ?h si (fr(b := ring_insert ch (fr b))) (int (length (g d))) b' ch' cs'"
    using rbuf(1) buffer_for_cong [of ?h "shm s"] hs(2) by simp
  obtain h' where h': "mw_putbuffer_to_call (shm_env (os renv)) ?h c adr (int (length (g d))) 0 =
      Some (0, c\<lparr>datasegmentid := 0, cdata := ch' + 16, cdatalen := int (length (g d))\<rparr>, h')"
    "heap_ok h' si (fr(b := ring_insert ch (fr b), b' := cs'))" "ch' \<in> chunks (hdr h') b'" "ch' \<notin> set cs'"
    "segments h' = segments h" "get_bytes h' (heapinfo h' + ch' + 16) (int (length (g d))) = g d"
    using put_data [OF _ rb rbuf(2), of c 0] h(2) rbuf(3) hs(1) by auto
  have sys': "mwsystemstate (os renv) ?r = None" and cq: "mw_get_mqid_by_mwid ?r (ca_cltid c) = qid"
    using sys(2) clt(2) lookups_srvtbl(2) [OF t(1), of "os renv"] lookups_srvtbl(3) [OF t(1) clt(1)]
      lookups_cong(1,4) [of ?r "s\<lparr>srvtbl := t\<rparr>"] by simp_all
  obtain s' where s': "mwreply renv ?r adr (int (length (g d))) 0 MWSUCCESS app = Some (0, s')" "\<not> requestpending s'" "shm s' = h'"
    "msgq s' = (msgq ?r)(qid := Some (cq @ [Call (c\<lparr>datasegmentid := 0, cdata := ch' + 16, cdatalen := int (length (g d)),
       ca_returncode := MWSUCCESS, appreturncode := app, ca_mtype := SVCREPLY, ca_srvid := myserverid ?r\<rparr>)]))"
    "ipcmain s' = ipcmain s" "clttbl s' = clttbl s"
    using reply_sent [of ?r renv c adr "int (length (g d))" 0 _ h' qid cq app] sys' cq h'(1) call(5) sys(3) clt(3-5) by auto
  have "mwservicerequest env s flags = Some (0, s')"
    using t(2,3,4) srv(3,4) s'(1,2)
    by (auto simp: mwCallCServiceFunction_def routine_def)
  then show ?thesis using s' h' hs(1) clt(4)
    by (intro exI [of _ s'] exI [of _ "c\<lparr>datasegmentid := 0, cdata := ch' + 16, cdatalen := int (length (g d)),
       ca_returncode := MWSUCCESS, appreturncode := app, ca_mtype := SVCREPLY, ca_srvid := myserverid ?r\<rparr>"]) simp
qed

section \<open>A whole call\<close>

text \<open>An attached client with no messages waiting, and a server that serves the service and waits for work.\<close>

definition client_ready :: "'a mwproc_scheme \<Rightarrow> bool" where
  "client_ready st \<longleftrightarrow> isattached st \<and> mygatewayid st = UNASSIGNED \<and> (myclientid st AND MWSERVERMASK) = 0
     \<and> mw_get_mqid_by_mwid st (myclientid st) = my_mqid st \<and> 0 \<le> my_mqid st \<and> msgq st (my_mqid st) = Some []
     \<and> callReplyQueue st = []"

definition server_ready :: "'a mwproc_scheme \<Rightarrow> 'b mwproc_scheme \<Rightarrow> int \<Rightarrow> int \<Rightarrow> bool" where
  "server_ready st sv svcid f \<longleftrightarrow> isattached sv \<and> provided sv \<noteq> 0 \<and> map_of (serviceFuncList sv) svcid = Some f
     \<and> 0 \<le> myserverid sv \<and> mw_get_provider_by_serviceid st svcid = myserverid sv \<and> mw_get_service_byid st svcid \<noteq> None
     \<and> mw_get_mqid_by_mwid st (myserverid sv) = my_mqid sv \<and> 0 \<le> my_mqid sv \<and> my_mqid sv \<noteq> my_mqid st
     \<and> msgq st (my_mqid sv) = Some []"

text \<open>The flags of the call: one reply is expected, and the client waits for it.\<close>

definition waits_for_reply :: "int \<Rightarrow> bool" where
  "waits_for_reply flags \<longleftrightarrow> (flags AND MWNOREPLY) = 0 \<and> (flags AND MWMULTIPLE) = 0 \<and> (flags AND MWNOBLOCK) = 0
     \<and> (flags AND IPC_NOWAIT) = 0"

text \<open>The client's fetch when the only reply arrives while it sleeps.\<close>

lemma fetch_after_wait:
  fixes s :: "'a mwproc_scheme"
  assumes "callReplyQueue s = []" "msgq s (my_mqid s) = Some []" "waits_for_reply flags"
    and "wait env (set_errno 0 s) = (e, s')" "my_mqid s' = my_mqid s" "msgq s' (my_mqid s) = Some [Call r]"
    and "ca_mtype r = SVCREPLY" "ca_handle r = hdl"
  shows "mwfetchipc env s hdl flags = fetched_reply env r (s'\<lparr>msgq := (msgq s')(my_mqid s := Some [])\<rparr>)"
proof -
  have "mw_ipc_getmessage env s 296 SVCREPLY flags = (Inr (Call r, 296), s'\<lparr>msgq := (msgq s')(my_mqid s := Some [])\<rparr>)"
    using assms by (simp add: mw_ipc_getmessage_def msgrcv_def msgrcv_now_def waits_for_reply_def set_errno_def)
  then have "fetch_loop env hdl flags 296 s = Some (Inr r, s'\<lparr>msgq := (msgq s')(my_mqid s := Some [])\<rparr>)"
    using assms(8) by (subst fetch_loop.simps) simp
  then show ?thesis using assms(1) by (simp add: mwfetchipc_def popCallReplyByHandle_def)
qed

lemma fetched_data:
  assumes "heap_ok (shm s) si fr" "ch \<in> chunks (hdr (shm s)) b" "ch \<notin> set (fr b)"
    and "datasegmentid r = 0" "cdata r = ch + 16" "0 \<le> ch" "ca_returncode r = MWSUCCESS"
  shows "\<exists>h. fetched_reply env r s = Some (Fetched MWSUCCESS (ca_handle r)
      (Some (get_bytes (shm s) (heapinfo (shm s) + ch + 16) (cdatalen r))) (cdatalen r) (appreturncode r), s\<lparr>shm := h\<rparr>)
    \<and> heap_ok h si (fr(b := ring_insert ch (fr b)))"
proof -
  obtain h where h: "mwfree (shm s) (heapinfo (shm s) + ch + 16) = Some (0, h)" "heap_ok h si (fr(b := ring_insert ch (fr b)))"
    using mwfree_chunk [OF assms(1-3)] by blast
  have "findsegment_byid (segments (shm s)) 0 = Some si"
    using assms(1) by (simp add: heap_ok_def pool_def heap_seg_def)
  then show ?thesis
    using assms(4-7) h buffer_address(6) [OF assms(1,2)]
    by (intro exI [of _ h]) (simp add: fetched_reply_def mw_getsegment_byid_def Let_def)
qed

lemma chunk_nonneg: "heap_ok h si fr \<Longrightarrow> c \<in> chunks (hdr h) b \<Longrightarrow> 0 \<le> c"
  using chunk_bounds(4) [of "hdr h" c b] by (auto simp: heap_ok_def pool_def)


text \<open>An example: the service \<open>echo\<close> replies with the octets of the call in reverse order.\<close>

definition demo_world :: mwproc where
  "demo_world = \<lparr>ipcmain = Some demo_main, clttbl = Some [demo_client], srvtbl = Some [demo_server],
     svctbl = Some [demo_service\<lparr>svc_type := MWCALLSVC, svc_location := GWLOCAL, svc_server := 0x01000000, servicename := ''echo''\<rparr>],
     gwtbl = Some [], convtbl = Some [], my_mqid = 7, myserverid = UNASSIGNED, myclientid = 0x02000000,
     mygatewayid = UNASSIGNED, shm = demo_heap, msgq = (\<lambda>q. if q = 7 \<or> q = 8 then Some [] else None),
     callReplyQueue = [], srv_buffer = None, handle = -1, isattached = True, serviceFuncList = [],
     provided = 0, requestpending = False, subscriptions = [], next_subscriptionid = 0\<rparr>"

definition demo_echo :: mwproc where
  "demo_echo = demo_world\<lparr>my_mqid := 8, myserverid := 0x01000000, myclientid := UNASSIGNED,
     serviceFuncList := [(0x08000000, 1)], provided := 1\<rparr>"

definition demo_proc :: "mwproc procenv" where
  "demo_proc = \<lparr>os = demo_mwenv, wait = (\<lambda>s. (EINTR, s)), rands = (\<lambda>_. 0), getpid = 1, gettimeofday = (0, 0),
     run_service = (\<lambda>_ _ s. Some (0, s)), callback = (\<lambda>_ _ _ _ s. Some s), dotasks = (\<lambda>_. None)\<rparr>"

definition demo_service_proc :: "mwproc procenv" where
  "demo_service_proc = demo_proc\<lparr>run_service := (\<lambda>_. routine rev 2000 42 demo_proc)\<rparr>"

definition demo_client_proc :: "mwproc procenv" where
  "demo_client_proc = demo_proc\<lparr>wait := (\<lambda>s. (EINTR,
     case mwservicerequest demo_service_proc (in_world s demo_echo) 0 of None \<Rightarrow> s | Some (_, s') \<Rightarrow> in_world s' s))\<rparr>"

lemmas demo_rpc_defs = demo_world_def demo_echo_def demo_proc_def demo_service_proc_def demo_client_proc_def
  demo_mwenv_def demo_client_def demo_server_def demo_service_def demo_main_def

lemma demo_rpc_ready:
  "client_ready demo_world" "server_ready demo_world demo_echo 0x08000000 1"
  "mwsystemstate demo_mwenv demo_world = None"
  "mw_get_services_byname demo_mwenv demo_world ''echo'' 64 = Some [0x08000000]"
  by (simp_all add: client_ready_def server_ready_def mw_get_mqid_by_mwid_def mw_get_client_byid_def mw_get_server_byid_def
      mw_get_provider_by_serviceid_def mw_get_service_byid_def mwsystemstate_def mw_get_services_byname_def
      tbl_at_def tbl_length_def scan_order_def svc_matches_def service_type_def mw_irand_def id2idx_def id_kind_def idx2id_def
      strncmp_eq_def Let_def demo_rpc_defs)


end
