(* ===== verification/ServerProps.thy ===== *)
theory ServerProps
  imports RpcProps
begin

unbundle bit_operations_syntax

text \<open>
  More on the client and the server side: attaching through the daemon, that a call is sent
  at most once and when sending it ends, and what goes wrong in a server.
\<close>

section \<open>Attaching\<close>

lemma in_world_simps [simp]:
  "ipcmain (in_world w p) = ipcmain w" "clttbl (in_world w p) = clttbl w" "srvtbl (in_world w p) = srvtbl w"
  "svctbl (in_world w p) = svctbl w" "gwtbl (in_world w p) = gwtbl w" "msgq (in_world w p) = msgq w"
  "my_mqid (in_world w p) = my_mqid p" "myclientid (in_world w p) = myclientid p" "myserverid (in_world w p) = myserverid p"
  by (simp_all add: in_world_def)

lemma set_errno_simps [simp]:
  "ipcmain (set_errno e s) = ipcmain s" "clttbl (set_errno e s) = clttbl s" "srvtbl (set_errno e s) = srvtbl s"
  "svctbl (set_errno e s) = svctbl s" "gwtbl (set_errno e s) = gwtbl s" "msgq (set_errno e s) = msgq s"
  "my_mqid (set_errno e s) = my_mqid s" "myclientid (set_errno e s) = myclientid s" "myserverid (set_errno e s) = myserverid s"
  by (simp_all add: set_errno_def)

text \<open>An entry that is taken is found by its id, and a client's own id is that of its entry.\<close>

lemma mqid_of_client:
  assumes "0 \<le> i" "i < 2 ^ 24" "ipcmain s \<noteq> None" "tbl_at (clttbl s) i = Some e" "clt_status e \<noteq> UNASSIGNED" "clt_mqid e \<noteq> -1"
  shows "mw_get_mqid_by_mwid s (IDX2CLTID i) = clt_mqid e"
proof -
  have "the (clttbl s) ! nat i = e" using assms(4) by (simp add: tbl_at_Some_iff)
  then show ?thesis
    using get_client_idx2id [OF assms(1-3)] assms by (simp add: mw_get_mqid_by_mwid_def id_simps)
qed

lemma set_my_clientid_idx:
  "mw_set_my_clientid s (IDX2CLTID i) = s\<lparr>myclientid := IDX2CLTID i\<rparr>"
proof -
  have "MWCLIENTMASK OR (x OR MWCLIENTMASK) = x OR MWCLIENTMASK" for x :: int
    by (simp only: or.commute [of x] or.left_idem)
  then show ?thesis by (simp only: mw_set_my_clientid_def idx2id_def)
qed

text \<open>The daemon's side: a client's request gets the client a free entry, and the reply has its id.\<close>

lemma mwd_attaches_client:
  assumes "tables_ok d" "ipcmain d = Some im" "im_status im \<noteq> MWDEAD" "accepting (os menv)"
    and "msgq d (mwd_mqid im) = Some [Attach a]" "at_ipcqid a \<noteq> mwd_mqid im" "msgq d (at_ipcqid a) = Some []"
    and "at_mtype a = ATTACHREQ" "\<not> at_server a" "at_client a" "at_gwid a = -1"
    and "tbl_at (clttbl d) k = Some e0" "clt_status e0 = UNASSIGNED"
  shows "\<exists>i e f d'. parse_request menv renew d nb = Some (0, d') \<and> tbl_at (clttbl d) i = Some e \<and> clt_status e = UNASSIGNED
    \<and> clttbl d' = tbl_upd f i (clttbl d) \<and> clt_status (f e) = 0 \<and> clt_mqid (f e) = at_ipcqid a
    \<and> clientname (f e) = strncpy (at_cltname a) MWMAXNAMELEN \<and> ipcmain d' = ipcmain d \<and> srvtbl d' = srvtbl d
    \<and> msgq d' = (msgq d)(mwd_mqid im := Some [], at_ipcqid a := Some [Attach (a\<lparr>at_mtype := ATTACHRPL,
        at_srvid := UNASSIGNED, at_returncode := 0, at_cltid := IDX2CLTID i\<rparr>)])"
proof -
  let ?d = "d\<lparr>msgq := (msgq d)(mwd_mqid im := Some [])\<rparr>"
  let ?a = "a\<lparr>at_mtype := ATTACHRPL, at_srvid := UNASSIGNED, at_cltid := UNASSIGNED, at_returncode := 0\<rparr>"
  have rcv: "msgrcv (wait menv) d (mwd_mqid im) (int MWMSGMAX) 0 nb = (Inr (Attach a), ?d)"
    using assms(5) by (simp add: msgrcv_def msgrcv_now_def)
  have ok: "tables_ok ?d" using assms(1) by (simp add: tables_ok_def)
  obtain i e f where i: "tbl_at (clttbl d) i = Some e" "clt_status e = UNASSIGNED" "clt_status (f e) = 0"
    "clt_mqid (f e) = at_ipcqid a" "clientname (f e) = strncpy (at_cltname a) MWMAXNAMELEN"
    "addclient (os menv) ?d MWIPCCLIENT (at_cltname a) (at_ipcqid a) (at_pid a) UNASSIGNED =
       (IDX2CLTID i, ?d\<lparr>clt_nextidx := i + 1, clttbl := tbl_upd f i (clttbl d)\<rparr>)"
    using addclient_cases [OF ok, of MWIPCCLIENT "os menv" "at_cltname a" "at_ipcqid a" "at_pid a" UNASSIGNED] assms(12,13)
    by auto
  have pos: "0 < IDX2CLTID i" using clt.id_pos clt.range [OF assms(1) i(1)] by blast
  have "attach_client (os menv) ?d ?a = (?a\<lparr>at_cltid := IDX2CLTID i\<rparr>, ?d\<lparr>clt_nextidx := i + 1, clttbl := tbl_upd f i (clttbl d)\<rparr>)"
    using assms(11) i(6) pos by (simp add: attach_client_def)
  then have "do_attach (os menv) ?d a =
      Some (send_reply (os menv) (?d\<lparr>clt_nextidx := i + 1, clttbl := tbl_upd f i (clttbl d)\<rparr>) (Attach (?a\<lparr>at_cltid := IDX2CLTID i\<rparr>)) (at_ipcqid a))"
    using assms(2,3,9,10) by (simp add: do_attach_def Let_def)
  then have "parse_request menv renew d nb = Some (0, ?d\<lparr>clt_nextidx := i + 1, clttbl := tbl_upd f i (clttbl d),
      msgq := (msgq d)(mwd_mqid im := Some [], at_ipcqid a := Some [Attach (?a\<lparr>at_cltid := IDX2CLTID i\<rparr>)])\<rparr>)"
    using assms(2,4,6-8) rcv by (simp add: parse_request_def dispatch_def send_reply_def msgsnd_def accepting_def)
  then show ?thesis using i by (intro exI [of _ i] exI [of _ e] exI [of _ f]) simp
qed

text \<open>
  C3. Attaching works end to end: a process that sends its request to the daemon and sleeps
  until the daemon has dealt with it is a client afterwards. It has the id of an entry that
  was free, the entry has its name and its queue, so messages sent to the id reach it, and
  no other entry has changed.
\<close>

theorem attach_through_mwd:
  fixes st :: "'a mwproc_scheme" and d :: mwdstate
  assumes "tables_ok (in_world st d)" "ipcmain st = Some im" "im_status im \<noteq> MWDEAD" "accepting (os env)" "accepting (os menv)"
    and "0 \<le> mwd_mqid im" "msgq st (mwd_mqid im) = Some []" "my_mqid st \<noteq> mwd_mqid im" "msgq st (my_mqid st) = Some []"
    and "myclientid st = UNASSIGNED" "0 \<le> my_mqid st"
    and "tbl_at (clttbl st) k = Some e0" "clt_status e0 = UNASSIGNED"
    and "wait env = (\<lambda>s. (EINTR, case parse_request menv renew (in_world s d) False of None \<Rightarrow> s | Some (_, d') \<Rightarrow> in_world d' s))"
  shows "\<exists>st' i e e'. mw_ipcsend_attach env st MWIPCCLIENT name 0 = Some (0, st') \<and> myclientid st' = IDX2CLTID i
    \<and> tbl_at (clttbl st) i = Some e \<and> clt_status e = UNASSIGNED \<and> tbl_at (clttbl st') i = Some e'
    \<and> clientname e' = strncpy name MWMAXNAMELEN \<and> mw_get_mqid_by_mwid st' (myclientid st') = my_mqid st
    \<and> (\<forall>j. j \<noteq> i \<longrightarrow> tbl_at (clttbl st') j = tbl_at (clttbl st) j)"
proof -
  let ?a = "\<lparr>at_mtype = ATTACHREQ, at_ipcqid = my_mqid st, at_pid = getpid env, at_server = False, at_srvname = [], at_srvid = 0,
     at_client = True, at_cltname = strncpy name MWMAXNAMELEN, at_cltid = 0, at_gwid = UNASSIGNED, at_flags = 0, at_returncode = 0\<rparr>"
  let ?s = "st\<lparr>msgq := (msgq st)(mwd_mqid im := Some [Attach ?a])\<rparr>"
  have mq: "mw_get_mqid_by_mwid st 0 = mwd_mqid im"
    using assms(2,6) by (simp add: mw_get_mqid_by_mwid_def mw_mwd_mqid_def)
  have put: "mw_ipc_putmessage (os env) st 0 (Attach ?a) = (0, ?s)"
    using putmessage_ok(1) [OF assms(4) _ mq assms(6,7), of "Attach ?a"] by simp
  let ?w = "set_errno 0 (set_errno (put_errno (os env) st 0 (Attach ?a)) ?s)"
  have w: "?w = set_errno 0 ?s" by (simp add: set_errno_def)
  let ?d = "in_world ?w d"
  have ok: "tables_ok ?d"
    using assms(1) tables_ok_cong [of ?d "in_world st d"] by (simp add: tables_of_def in_world_def)
  obtain i e f d' where d': "parse_request menv renew ?d False = Some (0, d')" "tbl_at (clttbl ?d) i = Some e" "clt_status e = UNASSIGNED"
    "clttbl d' = tbl_upd f i (clttbl ?d)" "clt_status (f e) = 0" "clt_mqid (f e) = at_ipcqid ?a"
    "clientname (f e) = strncpy (at_cltname ?a) MWMAXNAMELEN" "ipcmain d' = ipcmain ?d"
    "msgq d' = (msgq ?d)(mwd_mqid im := Some [], at_ipcqid ?a := Some [Attach (?a\<lparr>at_mtype := ATTACHRPL,
        at_srvid := UNASSIGNED, at_returncode := 0, at_cltid := IDX2CLTID i\<rparr>)])"
    using mwd_attaches_client [OF ok, of im menv ?a k e0 renew False] assms(2,3,5,7-9,12,13) by auto
  let ?x = "in_world d' ?w"
  let ?y = "?x\<lparr>msgq := (msgq ?x)(my_mqid st := Some [])\<rparr>"
  have get: "mw_ipc_getmessage env (set_errno (put_errno (os env) st 0 (Attach ?a)) ?s) 184 ATTACHRPL 0 =
      (Inr (Attach (?a\<lparr>at_mtype := ATTACHRPL, at_srvid := UNASSIGNED, at_returncode := 0, at_cltid := IDX2CLTID i\<rparr>), 184), ?y)"
    using assms(8,9,14) d'(1,9) by (simp add: mw_ipc_getmessage_def msgrcv_def msgrcv_now_def)
  have i: "0 \<le> i" "i < 2 ^ 24" "0 < IDX2CLTID i"
    using clt.range [OF ok d'(2)] clt.id_pos by blast+
  have "mw_ipcsend_attach env st MWIPCCLIENT name 0 = Some (0, mw_set_my_clientid ?y (IDX2CLTID i))"
    using put get i(3) assms(10) by (simp add: mw_ipcsend_attach_def Let_def)
  moreover have "mw_get_mqid_by_mwid (mw_set_my_clientid ?y (IDX2CLTID i)) (IDX2CLTID i) = my_mqid st"
    using mqid_of_client [of i "mw_set_my_clientid ?y (IDX2CLTID i)" "f e"] i d'(2,4-6,8) assms(2,11)
    by (simp add: mw_set_my_clientid_def tbl_at_upd)
  ultimately show ?thesis
    using i d'(2-4,7) set_my_clientid_idx [of ?y i]
    by (intro exI [of _ "mw_set_my_clientid ?y (IDX2CLTID i)"] exI [of _ i] exI [of _ e] exI [of _ "f e"])
      (simp add: tbl_at_upd strncpy_def)
qed

text \<open>The demonstration world with two entries for clients, one of them taken.\<close>

definition demo_newcomer :: mwproc where
  "demo_newcomer = demo_world\<lparr>clttbl := Some [demo_client, demo_client\<lparr>clt_status := UNASSIGNED\<rparr>], my_mqid := 9,
     myclientid := UNASSIGNED, msgq := (\<lambda>q. if q = 3 \<or> q = 9 then Some [] else None)\<rparr>"

definition demo_attach_proc :: "mwproc procenv" where
  "demo_attach_proc = demo_proc\<lparr>wait := (\<lambda>s. (EINTR,
     case parse_request \<lparr>os = demo_mwenv, wait = (\<lambda>s. (EINTR, s)), rands = (\<lambda>_. 0), getpid = 99, gettimeofday = (0, 0),
         run_service = (\<lambda>_ _ s. Some (0, s)), callback = (\<lambda>_ _ _ _ s. Some s), dotasks = (\<lambda>_. None)\<rparr>
       (\<lambda>s. s) (in_world s demo_mwd) False of
       None \<Rightarrow> s | Some (_, d') \<Rightarrow> in_world d' s))\<rparr>"

theorem attach_through_mwd_witness:
  "\<exists>st'. mw_ipcsend_attach demo_attach_proc demo_newcomer MWIPCCLIENT ''ann'' 0 = Some (0, st')
    \<and> myclientid st' = 0x02000001 \<and> mw_get_mqid_by_mwid st' 0x02000001 = 9 \<and> tbl_at (clttbl st') 0 = Some demo_client"
proof -
  have ok: "tables_ok (in_world demo_newcomer demo_mwd)"
    by (auto simp: tables_ok_def tbl_length_def in_world_def demo_newcomer_def demo_rpc_defs demo_mwd_def)
  have tbl: "clttbl demo_newcomer = Some [demo_client, demo_client\<lparr>clt_status := UNASSIGNED\<rparr>]" "clt_status demo_client = 0"
    by (simp_all add: demo_newcomer_def demo_client_def)
  have free: "i = 1" if "tbl_at (clttbl demo_newcomer) i = Some e" "clt_status e = UNASSIGNED" for i e
    using that tbl by (auto simp: tbl_at_def tbl_length_def nth_Cons split: if_splits nat.splits)
  obtain st' i e e' where *: "mw_ipcsend_attach demo_attach_proc demo_newcomer MWIPCCLIENT ''ann'' 0 = Some (0, st')"
    "myclientid st' = IDX2CLTID i" "tbl_at (clttbl demo_newcomer) i = Some e" "clt_status e = UNASSIGNED"
    "tbl_at (clttbl st') i = Some e'" "mw_get_mqid_by_mwid st' (myclientid st') = my_mqid demo_newcomer"
    "\<forall>j. j \<noteq> i \<longrightarrow> tbl_at (clttbl st') j = tbl_at (clttbl demo_newcomer) j"
    using attach_through_mwd [OF ok, where im = demo_main and env = demo_attach_proc and name = "''ann''" and k = 1
        and menv = "\<lparr>os = demo_mwenv, wait = (\<lambda>s. (EINTR, s)), rands = (\<lambda>_. 0), getpid = 99, gettimeofday = (0, 0),
         run_service = (\<lambda>_ _ s. Some (0, s)), callback = (\<lambda>_ _ _ _ s. Some s), dotasks = (\<lambda>_. None)\<rparr>" and renew = "\<lambda>s. s"]
      demo_accepting
    by (auto simp: demo_attach_proc_def demo_newcomer_def demo_world_def demo_proc_def demo_main_def tbl_at_def tbl_length_def)
  have "i = 1" using free * by blast
  moreover have "tbl_at (clttbl demo_newcomer) 0 = Some demo_client" "my_mqid demo_newcomer = 9"
    using tbl(1) by (simp_all add: tbl_at_def tbl_length_def demo_newcomer_def)
  ultimately show ?thesis using * by (auto simp: idx2id_def)
qed

section \<open>Sending a call\<close>

lemma putmessage_fails:
  assumes "mw_ipc_putmessage env st dest m = (rc, st')" "rc \<noteq> 0"
  shows "rc < 0" "st' = st"
  using assms
  by (auto simp: mw_ipc_putmessage_def msgsnd_def Let_def split: if_splits option.splits prod.splits)

lemma set_butlast_replace:
  assumes "i < length xs"
  shows "set (butlast (xs[i := last xs])) \<subseteq> set xs" "set xs \<subseteq> insert (xs ! i) (set (butlast (xs[i := last xs])))"
proof -
  have ne: "xs \<noteq> []" using assms by auto
  have "set (xs[i := last xs]) \<subseteq> set xs" using last_in_set [OF ne] set_update_subset_insert [of xs i "last xs"] by blast
  then show "set (butlast (xs[i := last xs])) \<subseteq> set xs" by (meson in_set_butlastD subset_iff)
  show "set xs \<subseteq> insert (xs ! i) (set (butlast (xs[i := last xs])))"
  proof
    fix x assume "x \<in> set xs"
    then obtain j where j: "j < length xs" "xs ! j = x" by (auto simp: in_set_conv_nth)
    let ?ys = "butlast (xs[i := last xs])"
    consider "j = i" | "j \<noteq> i" "j = length xs - 1" | "j \<noteq> i" "j < length xs - 1" using j(1) by linarith
    then show "x \<in> insert (xs ! i) (set ?ys)"
    proof cases
      case 2
      then have "?ys ! i = last xs" "i < length ?ys" using assms by (simp_all add: nth_butlast)
      moreover have "last xs = x" using j 2 ne by (simp add: last_conv_nth)
      ultimately show ?thesis by (metis insertCI nth_mem)
    next
      case 3
      then have "?ys ! j = x" "j < length ?ys" using j by (simp_all add: nth_butlast)
      then show ?thesis by (metis insertCI nth_mem)
    qed (use j in simp)
  qed
qed



text \<open>
  A service that is in the table but has no provider is never taken off the list of those to
  try: when there are only such services, sending a call does not end.
\<close>

theorem acall_stuck:
  assumes "svclist \<noteq> []" "\<forall>s \<in> set svclist. mw_get_provider_by_serviceid st s < 0"
  shows "acall_loop env k svclist c hdl rc st = None"
proof -
  have "svclist \<noteq> [] \<longrightarrow> (\<forall>s \<in> set svclist. mw_get_provider_by_serviceid st s < 0) \<longrightarrow> False"
    if "acall_loop env k svclist c hdl rc st = Some y" for y
  proof (rule acall_loop.raw_induct [where P = "\<lambda>env k l c hdl rc st y. l \<noteq> [] \<longrightarrow>
      (\<forall>s \<in> set l. mw_get_provider_by_serviceid st s < 0) \<longrightarrow> False", OF _ that])
    fix acall :: "'a mwproc_scheme procenv \<Rightarrow> nat \<Rightarrow> int list \<Rightarrow> call \<Rightarrow> int \<Rightarrow> int \<Rightarrow> 'a mwproc_scheme \<Rightarrow> (int \<times> 'a mwproc_scheme) option"
    fix env k l c hdl rc st y
    assume IH: "\<And>env k l c hdl rc st y. acall env k l c hdl rc st = Some y \<Longrightarrow>
        l \<noteq> [] \<longrightarrow> (\<forall>s \<in> set l. mw_get_provider_by_serviceid st s < 0) \<longrightarrow> False"
      and run: "(if l = [] then Some (rc, st)
        else let idx = rands env k mod length l; c = c\<lparr>ca_svcid := l ! idx\<rparr>; dest = mw_get_provider_by_serviceid st (l ! idx)
             in if dest < 0 then acall env (k + 1) l c hdl rc st
                else case mw_ipc_putmessage (os env) st dest (Call c) of
                       (rc, st) \<Rightarrow> if rc \<ge> 0 then Some (hdl, st) else acall env (k + 1) (butlast (l[idx := last l])) c hdl rc st) = Some y"
    show "l \<noteq> [] \<longrightarrow> (\<forall>s \<in> set l. mw_get_provider_by_serviceid st s < 0) \<longrightarrow> False"
    proof (intro impI)
      assume l: "l \<noteq> []" "\<forall>s \<in> set l. mw_get_provider_by_serviceid st s < 0"
      then have "mw_get_provider_by_serviceid st (l ! (rands env k mod length l)) < 0" by simp
      with run l(1) have "acall env (k + 1) l (c\<lparr>ca_svcid := l ! (rands env k mod length l)\<rparr>) hdl rc st = Some y"
        by (simp add: Let_def)
      then show False using IH l by blast
    qed
  qed
  then show ?thesis using assms by (cases "acall_loop env k svclist c hdl rc st") auto
qed

text \<open>The service of the demonstration world after its server has gone.\<close>

theorem acall_stuck_witness:
  "acall_loop demo_client_proc 0 [0x08000000] (demo_call 3) 3 0 (demo_world\<lparr>svctbl := Some [demo_service]\<rparr>) = None"
  by (rule acall_stuck) (simp_all add: mw_get_provider_by_serviceid_def tbl_at_def tbl_length_def id2idx_def id_kind_def demo_rpc_defs)

section \<open>A server\<close>

text \<open>
  C40. A server stops at a call that is behind an event: an event is shorter than a call and the
  room for a message is what the last message needed, so receiving the call fails with E2BIG,
  the main loop returns, and the call stays in the queue.
\<close>

theorem event_then_call:
  assumes "mwsystemstate (os env) st = None" "isattached st" "provided st \<noteq> 0"
    and "msgq st (my_mqid st) = Some (Event ev # Call c # rest)" "ev_mtype ev = EVENT" "ev_data ev = 0"
    and "\<forall>f e d l s. callback env f e d l s = Some s"
  shows "\<exists>st'. mwMainLoop env flags st = Some (- errno_num E2BIG, st')
    \<and> msgq st' = (msgq st)(my_mqid st := Some (Call c # rest))"
proof -
  obtain t where t: "mw_set_my_status st None = st\<lparr>srvtbl := t\<rparr>" using set_my_status_frame [of st None] by blast
  let ?s1 = "(set_errno 0 (st\<lparr>srvtbl := t\<rparr>))\<lparr>msgq := (msgq st)(my_mqid st := Some (Call c # rest))\<rparr>"
  let ?s2 = "?s1\<lparr>srv_buffer := Some (Event ev)\<rparr>"
  let ?s3 = "set_errno (errno_num E2BIG) (set_errno 0 ?s2)"
  have first: "mw_ipc_getmessage env (st\<lparr>srvtbl := t\<rparr>) 296 0 0 = (Inr (Event ev, 256), ?s1)"
    using assms(4) by (simp add: mw_ipc_getmessage_def msgrcv_def msgrcv_now_def)
  have handled: "mw_do_ipcevent env ?s2 ev = Some ?s2"
    using assms(6,7) by (simp add: mw_do_ipcevent_def mw_doevent_def split: option.split)
  have second: "mw_ipc_getmessage env ?s2 256 0 0 = (Inl E2BIG, ?s3)"
    by (simp add: mw_ipc_getmessage_def msgrcv_def msgrcv_now_def)
  have "request_loop env 0 256 ?s2 = Some (GotError E2BIG, ?s3)"
    by (subst request_loop.simps) (simp add: second)
  then have loop: "request_loop env 0 296 (st\<lparr>srvtbl := t\<rparr>) = Some (GotError E2BIG, ?s3)"
    using first handled assms(5) by (subst request_loop.simps) simp
  have "ipcmain st \<noteq> None" using assms(1) by (cases "ipcmain st") (simp_all add: mwsystemstate_def)
  then obtain im where "ipcmain st = Some im" by blast
  then have "mwGetServiceRequest env 0 st = Some (None, set_errno (errno_num E2BIG) ?s3)"
    using assms(2,3) t loop by (subst mwGetServiceRequest.simps) simp
  then have "mwservicerequest env st 0 = Some (- errno_num E2BIG, set_errno (errno_num E2BIG) ?s3)"
    using assms(1) by (simp add: mwservicerequest_def set_errno_def)
  then have "mwMainLoop env flags st = Some (- errno_num E2BIG, set_errno (errno_num E2BIG) ?s3)"
    by (subst mwMainLoop.simps) simp
  then show ?thesis by simp
qed

theorem event_then_call_witness:
  "\<exists>st'. mwMainLoop demo_proc 0 (demo_echo\<lparr>msgq := [8 \<mapsto> [Event (demo_event\<lparr>ev_data := 0\<rparr>), Call (demo_call 3)]]\<rparr>) = Some (- errno_num E2BIG, st')
    \<and> msgq st' = [8 \<mapsto> [Call (demo_call 3)]]"
proof -
  let ?st = "demo_echo\<lparr>msgq := [8 \<mapsto> [Event (demo_event\<lparr>ev_data := 0\<rparr>), Call (demo_call 3)]]\<rparr>"
  have "mwsystemstate (os demo_proc) ?st = None" "isattached ?st" "provided ?st \<noteq> 0" "my_mqid ?st = 8"
    "\<forall>f e d l s. callback demo_proc f e d l s = Some s" "ev_mtype demo_event = EVENT"
    by (simp_all add: mwsystemstate_def demo_rpc_defs demo_event_def)
  then show ?thesis using event_then_call [of demo_proc ?st] by simp
qed

text \<open>
  Withdrawing a service takes the routines of other services with it: of the services
  between the one provided last and the one withdrawn none can be called afterwards.
\<close>

theorem popservice_loses:
  assumes "serviceFuncList st = (s1, f1) # lost @ (sid, f) # rest" "sid \<notin> fst ` set lost" "sid \<noteq> s1"
    and "s2 \<in> fst ` set lost" "s2 \<noteq> s1" "s2 \<notin> fst ` set rest"
  shows "map_of (serviceFuncList st) s2 \<noteq> None \<and> map_of (serviceFuncList (mw_popservice st sid)) s2 = None"
proof -
  have drop: "dropWhile (\<lambda>x. fst x \<noteq> sid) (lost @ (sid, f) # rest) = (sid, f) # rest"
    using assms(2) by (induction lost) auto
  have "serviceFuncList (mw_popservice st sid) = (s1, f1) # rest"
    using assms(1,3) drop by (simp add: mw_popservice_def)
  moreover have "map_of rest s2 = None" using assms(6) by (simp add: map_of_eq_None_iff)
  moreover have "map_of lost s2 \<noteq> None" using assms(4) by (simp add: map_of_eq_None_iff)
  ultimately show ?thesis using assms(1,5) by (auto simp: map_add_def split: option.split)
qed

theorem popservice_loses_witness:
  "map_of (serviceFuncList (mw_popservice (demo_echo\<lparr>serviceFuncList := [(3, 30), (2, 20), (1, 10)]\<rparr>) 1)) 2 = None"
  using popservice_loses [of "demo_echo\<lparr>serviceFuncList := [(3, 30), (2, 20), (1, 10)]\<rparr>" 3 30 "[(2, 20)]" 1 10 "[]" 2] by simp

text \<open>
  A reply that cannot be sent is reported as sent: when the client's queue refuses it and
  the reply has no data, \<open>mwreply\<close> returns 0, as when it is sent, but no message has been
  sent and the request is still pending.
\<close>

theorem reply_failure:
  assumes "requestpending st" "mwsystemstate (os env) st = None" "srv_buffer st = Some (Call c)"
    and "mw_get_mqid_by_mwid st (reply_to c) = qid" "0 \<le> qid" "msgq st qid = Some q"
    and "\<forall>m. msgsnd_err (os env) qid q m = Some e" "e \<noteq> EINTR"
  shows "\<exists>st'. mwreply env st 0 0 0 rc app = Some (0, st') \<and> requestpending st' \<and> msgq st' = msgq st"
proof -
  let ?c = "c\<lparr>cdata := 0, cdatalen := 0\<rparr>"
  have put: "mw_putbuffer_to_call (shm_env (os env)) (shm st) c 0 0 0 = Some (0, ?c, shm st)"
    by (simp add: mw_putbuffer_to_call_def)
  have q: "mw_get_mqid_by_mwid (st\<lparr>shm := x, srv_buffer := y\<rparr>) d = mw_get_mqid_by_mwid st d"
    "mw_get_mqid_by_mwid (st\<lparr>srv_buffer := y\<rparr>) d = mw_get_mqid_by_mwid st d" for x y d
    by (rule lookups_cong; simp)+
  have "reply_to (?c\<lparr>ca_returncode := a, appreturncode := b, ca_mtype := d, ca_srvid := f\<rparr>) = reply_to c" for a b d f
    by (simp add: reply_to_def)
  then show ?thesis
    using assms putbuffer_loop_ok [OF put] less_imp_neq [OF errno_num_pos [of e]]
    by (simp add: mwreply_def callbuffer_def mw_ipc_putmessage_def put_errno_def msgsnd_def q Let_def set_errno_def)
qed

theorem reply_failure_witness:
  "\<exists>st'. mwreply (demo_proc\<lparr>os := demo_mwenv\<lparr>msgsnd_err := (\<lambda>_ _ _. Some EAGAIN)\<rparr>\<rparr>)
      (demo_echo\<lparr>requestpending := True, srv_buffer := Some (Call ((demo_call 3)\<lparr>ca_cltid := 0x02000000, ca_gwid := UNASSIGNED\<rparr>))\<rparr>) 0 0 0 0 0
    = Some (0, st') \<and> requestpending st'"
proof -
  let ?env = "demo_proc\<lparr>os := demo_mwenv\<lparr>msgsnd_err := (\<lambda>_ _ _. Some EAGAIN)\<rparr>\<rparr>"
  let ?c = "(demo_call 3)\<lparr>ca_cltid := 0x02000000, ca_gwid := UNASSIGNED\<rparr>"
  let ?st = "demo_echo\<lparr>requestpending := True, srv_buffer := Some (Call ?c)\<rparr>"
  have "mwsystemstate (os ?env) ?st = None" "mw_get_mqid_by_mwid ?st (reply_to ?c) = 7" "msgq ?st 7 = Some []"
    by (simp_all add: mwsystemstate_def mw_get_mqid_by_mwid_def mw_get_client_byid_def tbl_at_def tbl_length_def reply_to_def demo_rpc_defs)
  then show ?thesis using reply_failure [of ?st ?env ?c 7 "[]" EAGAIN 0 0] by auto
qed

end
