(* ===== verification/CallStoreProps.thy ===== *)
theory CallStoreProps
  imports CallStore ServerProps
begin

unbundle bit_operations_syntax

text \<open>
  The store of calls under way. The pointers of the code implement lists: one for each bucket of
  the hash table and one of free calls. Every operation keeps that, and the operations on the
  store have the effect they are meant to have: a call reaches its service with all its data,
  and the reply goes to the connection the call came from.
\<close>

section \<open>Lists of pending calls\<close>

text \<open>A list is \<open>None\<close> for the free calls and \<open>Some i\<close> for a bucket.\<close>

fun hslot :: "nat option \<Rightarrow> slot" where
  "hslot None = Free"
| "hslot (Some i) = Hash i"

lemma hslot_simps [simp]: "hslot k = hslot k' \<longleftrightarrow> k = k'" "hslot k \<noteq> Next p" "Next p \<noteq> hslot k"
  by (cases k; cases k'; simp) (cases k; simp)+

definition end_slot :: "slot \<Rightarrow> nat list \<Rightarrow> slot" where
  "end_slot s xs = (if xs = [] then s else Next (last xs))"

fun lseg :: "gwstate \<Rightarrow> slot \<Rightarrow> nat list \<Rightarrow> bool" where
  "lseg st s [] = True"
| "lseg st s (p # ps) \<longleftrightarrow> get_slot st s = Some p \<and> pc_root (pcs st p) = Some s \<and> lseg st (Next p) ps"

definition chained :: "gwstate \<Rightarrow> slot \<Rightarrow> nat list \<Rightarrow> bool" where
  "chained st s xs \<longleftrightarrow> lseg st s xs \<and> get_slot st (end_slot s xs) = None"

definition store_ok :: "gwstate \<Rightarrow> (nat option \<Rightarrow> nat list) \<Rightarrow> bool" where
  "store_ok st L \<longleftrightarrow> (\<forall>k. chained st (hslot k) (L k) \<and> distinct (L k) \<and> (\<forall>p \<in> set (L k). p < pcbrk st))
     \<and> (\<forall>k k'. k \<noteq> k' \<longrightarrow> set (L k) \<inter> set (L k') = {})"

lemma end_slot_simps [simp]: "end_slot s [] = s" "end_slot s (x # xs) = end_slot (Next x) xs"
  "end_slot s (xs @ ys) = end_slot (end_slot s xs) ys"
  by (auto simp: end_slot_def)

lemma lseg_append: "lseg st s (xs @ ys) \<longleftrightarrow> lseg st s xs \<and> lseg st (end_slot s xs) ys"
  by (induction xs arbitrary: s) auto

lemma get_slot_upd [simp]:
  "get_slot (set_slot st r v) s = (if s = r then v else get_slot st s)"
  "get_slot (upd_pc st p (\<lambda>x. x\<lparr>pc_root := t\<rparr>)) s = get_slot st s"
  by (cases s; cases r; simp add: upd_pc_def) (cases s; simp add: upd_pc_def)

lemma get_slot_same [simp]: "get_slot (upd_pc st p f) (Next p) = pc_next (f (pcs st p))"
  by (simp add: upd_pc_def)

declare get_slot.simps(3) [simp del]

lemma get_slot_other: "s \<noteq> Next p \<Longrightarrow> get_slot (upd_pc st p f) s = get_slot st s"
  by (cases s) (auto simp: upd_pc_def get_slot.simps)

lemma root_upd [simp]:
  "pc_root (pcs (set_slot st r v) q) = pc_root (pcs st q)"
  "pc_root (pcs (upd_pc st p f) q) = (if q = p then pc_root (f (pcs st p)) else pc_root (pcs st q))"
  by (cases r; simp add: upd_pc_def) (simp add: upd_pc_def)

lemma lseg_frame:
  assumes "lseg st s xs" "\<And>q. q \<in> set xs \<Longrightarrow> pc_root (pcs st' q) = pc_root (pcs st q)"
    and "xs \<noteq> [] \<Longrightarrow> get_slot st' s = get_slot st s" "\<And>q. q \<in> set (butlast xs) \<Longrightarrow> get_slot st' (Next q) = get_slot st (Next q)"
  shows "lseg st' s xs"
  using assms
proof (induction xs arbitrary: s)
  case (Cons p ps)
  have "lseg st' (Next p) ps"
    using Cons.prems by (intro Cons.IH) (cases ps; auto)+
  then show ?case using Cons.prems by simp
qed simp

lemma chain_frame:
  assumes "chained st s xs" "\<And>q. q \<in> set xs \<Longrightarrow> pc_root (pcs st' q) = pc_root (pcs st q)"
    and "get_slot st' s = get_slot st s" "\<And>q. q \<in> set xs \<Longrightarrow> get_slot st' (Next q) = get_slot st (Next q)"
  shows "chained st' s xs"
proof -
  have "get_slot st' (end_slot s xs) = get_slot st (end_slot s xs)"
    using assms(3,4) by (simp add: end_slot_def)
  then show ?thesis
    using assms lseg_frame [of st s xs st'] by (auto simp: chained_def dest: in_set_butlastD)
qed

text \<open>Linking a call in at the head of a list.\<close>

lemma link_effect:
  assumes "s \<noteq> Next p"
  shows "get_slot (linkPendingCall st p s) u = (if u = s then Some p else if u = Next p then get_slot st s else get_slot st u)"
    "get_slot st s \<noteq> Some p \<Longrightarrow> pc_root (pcs (linkPendingCall st p s) q) =
      (if q = p then Some s else if get_slot st s = Some q then Some (Next p) else pc_root (pcs st q))"
  using assms by (auto simp: linkPendingCall_def get_slot_other Let_def split: option.split)

lemma chain_link:
  assumes "chained st s xs" "p \<notin> set xs" "distinct xs" "\<And>q. s \<noteq> Next q"
  shows "chained (linkPendingCall st p s) s (p # xs)"
proof -
  have next_s: "get_slot st s = (case xs of [] \<Rightarrow> None | n # _ \<Rightarrow> Some n)"
    using assms(1) by (auto simp: chained_def split: list.split)
  then have "get_slot st s \<noteq> Some p" using assms(2) by (auto split: list.split)
  note eff = link_effect(1) [OF assms(4), of st] link_effect(2) [OF assms(4) this]
  have sn: "(Next q = s) = False" "(s = Next q) = False" for q using assms(4) by metis+
  show ?thesis
  proof (cases xs)
    case Nil
    then show ?thesis by (auto simp: chained_def eff next_s sn)
  next
    case (Cons n r)
    have "chained st (Next n) r" using assms(1) Cons by (simp add: chained_def)
    then have "chained (linkPendingCall st p s) (Next n) r"
      using Cons assms(2,3) by - (rule chain_frame [of st "Next n" r]; auto simp: eff next_s sn)
    then show ?thesis using Cons assms(2) by (auto simp: chained_def eff next_s sn)
  qed
qed

text \<open>Taking a call out of a list.\<close>

lemma unlink_effect:
  assumes "pc_root (pcs st p) = Some t" "t \<noteq> Next p" "get_slot st (Next p) \<noteq> Some p"
  obtains st' where "unlinkPendingCall st p = Some st'"
    "\<And>s. get_slot st' s = (if s = Next p then None else if s = t then get_slot st (Next p) else get_slot st s)"
    "\<And>q. pc_root (pcs st' q) = (if q = p then None else if get_slot st (Next p) = Some q then Some t else pc_root (pcs st q))"
proof -
  let ?v = "get_slot st (Next p)"
  let ?s1 = "set_slot st t ?v"
  have v: "pc_next (pcs st p) = ?v" "pc_next (pcs ?s1 p) = ?v"
    using assms(2) get_slot_upd(1) [of st t ?v "Next p"] by (simp_all add: get_slot.simps)
  let ?s2 = "case ?v of None \<Rightarrow> ?s1 | Some n \<Rightarrow> upd_pc ?s1 n (\<lambda>x. x\<lparr>pc_root := Some t\<rparr>)"
  let ?s3 = "upd_pc ?s2 p (\<lambda>x. x\<lparr>pc_root := None, pc_next := None\<rparr>)"
  have "unlinkPendingCall st p = Some ?s3"
    using assms(1) v by (simp add: unlinkPendingCall_def split: option.split)
  moreover have "get_slot ?s3 s = (if s = Next p then None else if s = t then ?v else get_slot st s)" for s
    using assms(2) by (auto simp: get_slot_other split: option.split)
  moreover have "pc_root (pcs ?s3 q) = (if q = p then None else if ?v = Some q then Some t else pc_root (pcs st q))" for q
    by (auto split: option.split)
  ultimately show thesis by (rule that)
qed

lemma chain_unlink:
  assumes "chained st s (xs @ p # ys)" "distinct (xs @ p # ys)" "\<And>q. s \<noteq> Next q"
  shows "\<exists>st'. unlinkPendingCall st p = Some st' \<and> chained st' s (xs @ ys)
    \<and> (\<forall>q. q \<notin> set (xs @ p # ys) \<longrightarrow> pc_root (pcs st' q) = pc_root (pcs st q) \<and> get_slot st' (Next q) = get_slot st (Next q))
    \<and> (\<forall>t. (\<forall>q. t \<noteq> Next q) \<longrightarrow> t \<noteq> s \<longrightarrow> get_slot st' t = get_slot st t)"
proof -
  let ?t = "end_slot s xs"
  have c: "lseg st s xs" "get_slot st ?t = Some p" "pc_root (pcs st p) = Some ?t" "chained st (Next p) ys"
    using assms(1) by (auto simp: chained_def lseg_append)
  have t: "?t = s \<or> (\<exists>q \<in> set xs. ?t = Next q)" "?t \<noteq> Next p" "\<And>q. q \<in> set ys \<Longrightarrow> ?t \<noteq> Next q" "xs \<noteq> [] \<Longrightarrow> ?t \<noteq> s"
    using assms(2,3) by (auto simp: end_slot_def dest: last_in_set)
  have tb: "?t \<noteq> Next q" if "q \<in> set (butlast xs)" for q
    using that assms(2,3) by (cases xs rule: rev_cases) (auto simp: end_slot_def)
  have next_p: "get_slot st (Next p) = (case ys of [] \<Rightarrow> None | n # _ \<Rightarrow> Some n)"
    using c(4) by (auto simp: chained_def split: list.split)
  then have ne: "get_slot st (Next p) \<noteq> Some p" using assms(2) by (auto split: list.split)
  obtain st' where st': "unlinkPendingCall st p = Some st'"
    "\<And>s. get_slot st' s = (if s = Next p then None else if s = ?t then get_slot st (Next p) else get_slot st s)"
    "\<And>q. pc_root (pcs st' q) = (if q = p then None else if get_slot st (Next p) = Some q then Some ?t else pc_root (pcs st q))"
    by (rule unlink_effect [OF c(3) t(2) ne], rule that)
  have "lseg st' s xs"
  proof (rule lseg_frame [OF c(1)])
    show "pc_root (pcs st' q) = pc_root (pcs st q)" if "q \<in> set xs" for q
      using that assms(2) by (auto simp: st'(3) next_p split: list.splits)
    show "get_slot st' s = get_slot st s" if "xs \<noteq> []" using t(4) [OF that] assms(3) by (simp add: st'(2))
    show "get_slot st' (Next q) = get_slot st (Next q)" if "q \<in> set (butlast xs)" for q
      using tb [OF that] that assms(2) by (auto simp: st'(2) dest: in_set_butlastD)
  qed
  moreover have "chained st' ?t ys"
  proof (cases ys)
    case Nil
    then show ?thesis using t(2) by (simp add: chained_def st'(2) next_p)
  next
    case (Cons n r)
    then have "chained st (Next n) r" using c(4) by (simp add: chained_def)
    moreover have "get_slot st' (Next q) = get_slot st (Next q)" if "q \<in> set ys" for q
      using t(3) [OF that] that assms(2) by (auto simp: st'(2))
    ultimately have "chained st' (Next n) r"
      using assms(2) Cons by - (rule chain_frame [of st "Next n" r]; auto simp: st'(3) next_p)
    then show ?thesis using Cons t(2) assms(2) by (auto simp: chained_def st'(2,3) next_p)
  qed
  ultimately have "chained st' s (xs @ ys)" by (simp add: chained_def lseg_append)
  moreover have "pc_root (pcs st' q) = pc_root (pcs st q) \<and> get_slot st' (Next q) = get_slot st (Next q)"
    if "q \<notin> set (xs @ p # ys)" for q
  proof -
    have "?t \<noteq> Next q" using that t(1) assms(3) [of q] by auto
    then show ?thesis using that by (auto simp: st'(2,3) next_p split: list.splits)
  qed
  moreover have "get_slot st' u = get_slot st u" if "\<forall>q. u \<noteq> Next q" "u \<noteq> s" for u
    using that t(1) by (auto simp: st'(2))
  ultimately show ?thesis using st'(1) by blast
qed

text \<open>The same for the store.\<close>

lemma store_ok_link:
  assumes "store_ok st L" "\<forall>k. p \<notin> set (L k)" "p < pcbrk st"
  shows "store_ok (linkPendingCall st p (hslot k)) (L(k := p # L k))"
proof -
  let ?st = "linkPendingCall st p (hslot k)"
  have brk: "pcbrk ?st = pcbrk st"
    by (cases k) (auto simp: linkPendingCall_def upd_pc_def Let_def split: option.split)
  have sep: "set (L j) \<inter> set (L j') = {}" if "j \<noteq> j'" for j j' using assms(1) that by (auto simp: store_ok_def)
  have l: "chained st (hslot j) (L j)" "distinct (L j)" for j using assms(1) by (auto simp: store_ok_def)
  have head: "get_slot st (hslot k) = (case L k of [] \<Rightarrow> None | n # _ \<Rightarrow> Some n)"
    using l(1) [of k] by (auto simp: chained_def split: list.split)
  then have "get_slot st (hslot k) \<noteq> Some p" using assms(2) by (auto split: list.split) (metis list.set_intros(1))
  note eff = link_effect(1) [OF hslot_simps(2), of st] link_effect(2) [OF hslot_simps(2) this]
  have "chained ?st (hslot j) (L j)" if "j \<noteq> k" for j
  proof (rule chain_frame [OF l(1)])
    fix q assume q: "q \<in> set (L j)"
    then have "q \<notin> set (L k)" "q \<noteq> p" using sep [OF that] assms(2) by auto
    then show "pc_root (pcs ?st q) = pc_root (pcs st q)" "get_slot ?st (Next q) = get_slot st (Next q)"
      by (auto simp: eff head split: list.splits)
  qed (use that in \<open>simp add: eff\<close>)
  moreover have "chained ?st (hslot k) (p # L k)" using chain_link [OF l(1)] l(2) assms(2) by simp
  ultimately show ?thesis using assms l(2) sep by (auto simp: store_ok_def brk)
qed

lemma unlink_brk: "unlinkPendingCall st p = Some st' \<Longrightarrow> pcbrk st' = pcbrk st"
proof -
  have "pcbrk (set_slot s r v) = pcbrk s" for s r v by (cases r) (simp_all add: upd_pc_def)
  then show "unlinkPendingCall st p = Some st' \<Longrightarrow> pcbrk st' = pcbrk st"
    by (auto simp: unlinkPendingCall_def upd_pc_def Let_def split: option.splits)
qed

lemma store_ok_unlink:
  assumes "store_ok st L" "p \<in> set (L k)"
  shows "\<exists>st'. unlinkPendingCall st p = Some st' \<and> store_ok st' (L(k := remove1 p (L k)))"
proof -
  have sep: "set (L j) \<inter> set (L j') = {}" if "j \<noteq> j'" for j j' using assms(1) that by (auto simp: store_ok_def)
  have l: "chained st (hslot j) (L j)" "distinct (L j)" for j using assms(1) by (auto simp: store_ok_def)
  obtain xs ys where xy: "L k = xs @ p # ys" using split_list [OF assms(2)] by blast
  then have rm: "remove1 p (L k) = xs @ ys" using l(2) [of k] by (simp add: remove1_append)
  obtain st' where st': "unlinkPendingCall st p = Some st'" "chained st' (hslot k) (xs @ ys)"
    "\<forall>q. q \<notin> set (L k) \<longrightarrow> pc_root (pcs st' q) = pc_root (pcs st q) \<and> get_slot st' (Next q) = get_slot st (Next q)"
    "\<forall>t. (\<forall>q. t \<noteq> Next q) \<longrightarrow> t \<noteq> hslot k \<longrightarrow> get_slot st' t = get_slot st t"
    using chain_unlink [of st "hslot k" xs p ys] l [of k] xy by auto
  have "chained st' (hslot j) (L j)" if "j \<noteq> k" for j
    using st'(3,4) sep [OF that] that by - (rule chain_frame [OF l(1)]; auto)
  then have "chained st' (hslot j) ((L(k := remove1 p (L k))) j)" for j using st'(2) rm by simp
  moreover have "distinct ((L(k := remove1 p (L k))) j)" "\<forall>q \<in> set ((L(k := remove1 p (L k))) j). q < pcbrk st'" for j
    using assms(1) unlink_brk [OF st'(1)] set_remove1_subset [of p "L k"] by (auto simp: store_ok_def)
  moreover have "set ((L(k := remove1 p (L k))) j) \<subseteq> set (L j)" for j using set_remove1_subset [of p "L k"] by simp
  ultimately have "store_ok st' (L(k := remove1 p (L k)))" using sep unfolding store_ok_def by blast
  then show ?thesis using st'(1) by blast
qed

section \<open>What the list operations leave alone\<close>

definition plain :: "pendingcall \<Rightarrow> pendingcall" where
  "plain x = x\<lparr>pc_next := None, pc_root := None\<rparr>"

lemma plain_fields:
  assumes "plain x = plain y"
  shows "src_mwid x = src_mwid y" "srcconn x = srcconn y" "pc_call x = pc_call y" "callmsg x = callmsg y"
    "dst_mwid x = dst_mwid y" "pc_status x = pc_status y" "pc_data x = pc_data y" "pc_datalen x = pc_datalen y"
    "datarecv x = datarecv y" "srchdl x = srchdl y" "dsthdl x = dsthdl y"
  using assms by (simp_all add: plain_def) (cases x; cases y; simp)+

lemma set_slot_frame:
  "\<exists>a b c. set_slot st r v = st\<lparr>pcs := a, pchash := b, freelist := c\<rparr> \<and> (\<forall>q. plain (a q) = plain (pcs st q))"
proof (cases r)
  case (Hash i)
  then show ?thesis by (intro exI [of _ "pcs st"] exI [of _ "(pchash st)(i := v)"] exI [of _ "freelist st"]) simp
next
  case Free
  then show ?thesis by (intro exI [of _ "pcs st"] exI [of _ "pchash st"] exI [of _ v]) simp
next
  case (Next p)
  then show ?thesis
    by (intro exI [of _ "(pcs st)(p := (pcs st p)\<lparr>pc_next := v\<rparr>)"] exI [of _ "pchash st"] exI [of _ "freelist st"])
      (simp add: upd_pc_def plain_def)
qed

definition same_calls :: "gwstate \<Rightarrow> gwstate \<Rightarrow> bool" where
  "same_calls st st' \<longleftrightarrow> st' = st\<lparr>pcs := pcs st', pchash := pchash st', freelist := freelist st'\<rparr>
     \<and> (\<forall>q. plain (pcs st' q) = plain (pcs st q))"

lemma same_calls_refl [simp]: "same_calls st st"
  by (simp add: same_calls_def)

lemma same_calls_trans:
  assumes "same_calls s t" "same_calls t u"
  shows "same_calls s u"
proof -
  have "t\<lparr>pcs := x, pchash := y, freelist := z\<rparr> = s\<lparr>pcs := x, pchash := y, freelist := z\<rparr>" for x y z
    using assms(1) unfolding same_calls_def by (elim conjE) (erule ssubst, simp)
  then show ?thesis using assms unfolding same_calls_def by metis
qed

lemma same_calls_set_slot: "same_calls st (set_slot st r v)"
  using set_slot_frame [of st r v] by (auto simp: same_calls_def)

lemma same_calls_upd: "(\<And>x. plain (f x) = plain x) \<Longrightarrow> same_calls st (upd_pc st p f)"
  by (simp add: same_calls_def upd_pc_def)

lemma same_calls_link: "same_calls st (linkPendingCall st p s)"
  unfolding linkPendingCall_def Let_def
  by (rule same_calls_trans [OF same_calls_trans [OF _ same_calls_upd] same_calls_set_slot])
    (auto simp: plain_def split: option.split intro: same_calls_upd)

lemma same_calls_unlink: "unlinkPendingCall st p = Some st' \<Longrightarrow> same_calls st st'"
  unfolding unlinkPendingCall_def Let_def
  by (auto simp: plain_def split: option.splits
      intro!: same_calls_trans [OF same_calls_set_slot same_calls_upd] same_calls_trans [OF same_calls_trans [OF same_calls_set_slot same_calls_upd] same_calls_upd])

section \<open>The interface of the lists\<close>

text \<open>
  What the operations on the store rely on: linking in, taking out, and writing to a call that
  is in no list.
\<close>

definition moved :: "('k \<Rightarrow> nat list) \<Rightarrow> 'k \<Rightarrow> 'k \<Rightarrow> nat \<Rightarrow> 'k \<Rightarrow> nat list" where
  "moved L k k' p = (let M = L(k := remove1 p (L k)) in M(k' := p # M k'))"

locale call_lists =
  fixes repr :: "'s \<Rightarrow> ('k \<Rightarrow> nat list) \<Rightarrow> bool"
    and valid :: "'s \<Rightarrow> nat \<Rightarrow> bool"
    and link :: "'s \<Rightarrow> nat \<Rightarrow> 'k \<Rightarrow> 's"
    and unlink :: "'s \<Rightarrow> nat \<Rightarrow> 's option"
    and modify :: "'s \<Rightarrow> nat \<Rightarrow> (pendingcall \<Rightarrow> pendingcall) \<Rightarrow> 's"
  assumes link_law: "repr s L \<Longrightarrow> valid s p \<Longrightarrow> \<forall>k. p \<notin> set (L k) \<Longrightarrow> repr (link s p k) (L(k := p # L k))"
    and unlink_law: "repr s L \<Longrightarrow> p \<in> set (L k) \<Longrightarrow> \<exists>s'. unlink s p = Some s' \<and> repr s' (L(k := remove1 p (L k))) \<and> valid s' p"
    and write_law: "repr s L \<Longrightarrow> \<forall>k. p \<notin> set (L k) \<Longrightarrow> repr (modify s p f) L"
    and write_valid: "valid (modify s p f) q = valid s q"
    and apart: "repr s L \<Longrightarrow> distinct (L k) \<and> (\<forall>k'. k' \<noteq> k \<longrightarrow> set (L k) \<inter> set (L k') = {})"
begin

lemma taken_out:
  assumes "repr s L" "p \<in> set (L k)"
  shows "p \<notin> set ((L(k := remove1 p (L k))) k')"
  using assms apart [OF assms(1), of k] by (cases "k' = k") auto

lemma move:
  assumes "repr s L" "p \<in> set (L k)"
  obtains s' where "unlink s p = Some s'" "\<And>f k'. repr (link (modify s' p f) p k') (moved L k k' p)"
proof -
  obtain s' where s': "unlink s p = Some s'" "repr s' (L(k := remove1 p (L k)))" "valid s' p"
    using unlink_law [OF assms] by blast
  have "repr (link (modify s' p f) p k') (moved L k k' p)" for f k'
    using link_law [OF write_law [OF s'(2)], of p f p k'] s'(3) taken_out [OF assms] write_valid by (simp add: moved_def Let_def)
  with s'(1) show thesis by (rule that)
qed

end

lemma store_ok_cong:
  assumes "\<And>s. get_slot st' s = get_slot st s" "\<And>q. pc_root (pcs st' q) = pc_root (pcs st q)" "pcbrk st' = pcbrk st"
  shows "store_ok st' L = store_ok st L"
proof -
  have "lseg st' s xs = lseg st s xs" for s xs by (induction xs arbitrary: s) (simp_all add: assms)
  then show ?thesis by (simp add: store_ok_def chained_def assms)
qed

lemma store_ok_write:
  assumes "store_ok st L" "\<forall>k. p \<notin> set (L k)"
  shows "store_ok (upd_pc st p f) L"
proof -
  have "chained (upd_pc st p f) (hslot k) (L k)" for k
  proof (rule chain_frame [where st = st])
    show "chained st (hslot k) (L k)" using assms(1) by (simp add: store_ok_def)
    show "pc_root (pcs (upd_pc st p f) q) = pc_root (pcs st q)" "get_slot (upd_pc st p f) (Next q) = get_slot st (Next q)"
      if "q \<in> set (L k)" for q
    proof -
      have "q \<noteq> p" using that assms(2) by blast
      then show "pc_root (pcs (upd_pc st p f) q) = pc_root (pcs st q)" "get_slot (upd_pc st p f) (Next q) = get_slot st (Next q)"
        by (simp_all add: get_slot_other)
    qed
  qed (simp add: get_slot_other)
  then show ?thesis using assms(1) by (simp add: store_ok_def upd_pc_def)
qed

interpretation cl: call_lists store_ok "\<lambda>st p. p < pcbrk st" "\<lambda>st p k. linkPendingCall st p (hslot k)" unlinkPendingCall upd_pc
proof unfold_locales
  fix st L p and k :: "nat option"
  assume ok: "store_ok st L"
  show "p < pcbrk st \<Longrightarrow> \<forall>k. p \<notin> set (L k) \<Longrightarrow> store_ok (linkPendingCall st p (hslot k)) (L(k := p # L k))"
    using store_ok_link [OF ok] by blast
  show "\<exists>st'. unlinkPendingCall st p = Some st' \<and> store_ok st' (L(k := remove1 p (L k))) \<and> p < pcbrk st'" if "p \<in> set (L k)"
    using store_ok_unlink [OF ok that] unlink_brk ok that by (metis store_ok_def)
  show "\<forall>k. p \<notin> set (L k) \<Longrightarrow> store_ok (upd_pc st p f) L" for f by (rule store_ok_write [OF ok])
  show "distinct (L k) \<and> (\<forall>k'. k' \<noteq> k \<longrightarrow> set (L k) \<inter> set (L k') = {})" using ok by (auto simp: store_ok_def)
qed (simp add: upd_pc_def)

lemma store_ok_upd:
  assumes "store_ok st L" "\<And>x. pc_next (f x) = pc_next x" "\<And>x. pc_root (f x) = pc_root x"
  shows "store_ok (upd_pc st p f) L"
proof -
  have "get_slot (upd_pc st p f) s = get_slot st s" for s
    using assms(2) by (cases "s = Next p") (simp_all add: get_slot_other get_slot.simps(3) [of st])
  then show ?thesis using assms store_ok_cong [of "upd_pc st p f" st L] by (simp add: upd_pc_def)
qed

section \<open>The operations on the lists\<close>

text \<open>Everything but the lists.\<close>

definition rest_same :: "gwstate \<Rightarrow> gwstate \<Rightarrow> bool" where
  "rest_same st st' \<longleftrightarrow> st' = st\<lparr>pcs := pcs st', pcbrk := pcbrk st', pchash := pchash st', freelist := freelist st'\<rparr>"

lemma rehash_ok:
  assumes "store_ok st L" "p \<in> set (L k)"
  obtains st' where "rehashPendingCall st p mwid hdl = Some st'" "store_ok st' (moved L k (Some (mkhash mwid hdl)) p)" "same_calls st st'"
proof -
  obtain s' where s': "unlinkPendingCall st p = Some s'"
    "\<And>f k'. store_ok (linkPendingCall (upd_pc s' p f) p (hslot k')) (moved L k k' p)"
    using cl.move [OF assms] by blast
  have "upd_pc s' p (\<lambda>x. x) = s'" by (simp add: upd_pc_def)
  then show thesis
    using that s'(1) s'(2) [of "\<lambda>x. x" "Some (mkhash mwid hdl)"] same_calls_trans [OF same_calls_unlink [OF s'(1)] same_calls_link]
    by (simp add: rehashPendingCall_def)
qed

lemma rest_same_refl [simp]: "rest_same st st"
  by (simp add: rest_same_def)

lemma rest_same_trans:
  assumes "rest_same s t" "rest_same t u"
  shows "rest_same s u"
proof -
  have "t\<lparr>pcs := w, pcbrk := x, pchash := y, freelist := z\<rparr> = s\<lparr>pcs := w, pcbrk := x, pchash := y, freelist := z\<rparr>" for w x y z
    using assms(1) unfolding rest_same_def by - (erule ssubst, simp)
  then show ?thesis using assms(2) unfolding rest_same_def by metis
qed

lemma rest_same_calls: "same_calls st st' \<Longrightarrow> rest_same st st'"
proof -
  assume "same_calls st st'"
  then obtain a b c where st': "st' = st\<lparr>pcs := a, pchash := b, freelist := c\<rparr>" unfolding same_calls_def by blast
  show "rest_same st st'" unfolding st' by (simp add: rest_same_def)
qed

lemma rest_same_upd [simp]: "rest_same st (upd_pc st p f)" "rest_same st (st\<lparr>pcbrk := n\<rparr>)"
  by (simp_all add: rest_same_def upd_pc_def)

lemma same_calls_brk: "same_calls st st' \<Longrightarrow> pcbrk st' = pcbrk st"
proof -
  assume "same_calls st st'"
  then obtain a b c where st': "st' = st\<lparr>pcs := a, pchash := b, freelist := c\<rparr>" unfolding same_calls_def by blast
  show "pcbrk st' = pcbrk st" unfolding st' by simp
qed

lemma same_calls_plain: "same_calls st st' \<Longrightarrow> plain (pcs st' q) = plain (pcs st q)"
  by (simp add: same_calls_def)

lemma mkhash_less: "mkhash mwid hdl < HASHSIZE"
proof -
  have m: "x AND 0xff = take_bit 8 x" for x :: int by (simp add: take_bit_eq_mask mask_eq_exp_minus_1)
  have "int (mkhash mwid hdl) = take_bit 8 (hdl XOR drop_bit 8 hdl XOR (drop_bit 16 hdl XOR drop_bit 24 hdl) XOR push_bit 5 mwid)"
    by (simp add: mkhash_def m take_bit_xor xor.assoc del: push_bit_numeral take_bit_numeral_numeral)
  also have "\<dots> < 2 ^ 8" by (rule take_bit_int_less_exp)
  finally show ?thesis by simp
qed

text \<open>The invariant: the lists, free calls that are cleared, and no more buckets than the table has.\<close>

definition store_inv :: "gwstate \<Rightarrow> (nat option \<Rightarrow> nat list) \<Rightarrow> bool" where
  "store_inv st L \<longleftrightarrow> store_ok st L \<and> (\<forall>p \<in> set (L None). plain (pcs st p) = clearPendingCall) \<and> (\<forall>i \<ge> HASHSIZE. L (Some i) = [])"

lemma store_inv_apart:
  assumes "store_inv st L" "p \<in> set (L k)"
  shows "distinct (L k)" "p < pcbrk st" "k' \<noteq> k \<Longrightarrow> p \<notin> set (L k')"
  using assms unfolding store_inv_def store_ok_def by blast+

lemma plain_write [simp]:
  "plain (x\<lparr>pc_root := r\<rparr>) = plain x" "plain (x\<lparr>pc_next := n\<rparr>) = plain x" "plain clearPendingCall = clearPendingCall"
  by (simp_all add: plain_def clearPendingCall_def)

lemma set_moved: "set (moved L k k' p j) \<subseteq> set (L j) \<union> {p}"
  using set_remove1_subset [of p "L k"] by (auto simp: moved_def Let_def)

lemma free_ok:
  assumes "store_inv st L" "p \<in> set (L (Some i))"
  obtains st' where "freePendingCall st p = Some st'" "store_inv st' (moved L (Some i) None p)" "rest_same st st'"
    "\<And>q. q \<noteq> p \<Longrightarrow> plain (pcs st' q) = plain (pcs st q)" "pcbrk st' = pcbrk st"
proof -
  obtain s1 where s1: "unlinkPendingCall st p = Some s1"
    "\<And>f k'. store_ok (linkPendingCall (upd_pc s1 p f) p (hslot k')) (moved L (Some i) k' p)"
    using cl.move [of st L p "Some i"] assms by (auto simp: store_inv_def)
  let ?s2 = "upd_pc s1 p (\<lambda>_. clearPendingCall)"
  let ?st = "linkPendingCall ?s2 p Free"
  note same = same_calls_unlink [OF s1(1)] same_calls_link [of ?s2 p Free]
  have others: "plain (pcs ?st q) = plain (pcs st q)" if "q \<noteq> p" for q
    using same_calls_plain [OF same(1), of q] same_calls_plain [OF same(2), of q] that by (simp add: upd_pc_def)
  have p: "plain (pcs ?st p) = clearPendingCall" using same_calls_plain [OF same(2), of p] by (simp add: upd_pc_def)
  have "store_inv ?st (moved L (Some i) None p)"
    unfolding store_inv_def
  proof (intro conjI ballI allI impI)
    show "store_ok ?st (moved L (Some i) None p)" using s1(2) [of "\<lambda>_. clearPendingCall" None] by simp
    show "plain (pcs ?st q) = clearPendingCall" if "q \<in> set (moved L (Some i) None p None)" for q
      using that others p assms(1) by (cases "q = p") (auto simp: moved_def store_inv_def)
    show "moved L (Some i) None p (Some j) = []" if "HASHSIZE \<le> j" for j
      using that assms by (auto simp: moved_def store_inv_def Let_def)
  qed
  moreover have "rest_same st ?st"
    using rest_same_trans [OF rest_same_trans [OF rest_same_calls [OF same(1)] rest_same_upd(1)] rest_same_calls [OF same(2)]] .
  moreover have "pcbrk ?st = pcbrk st" using same_calls_brk [OF same(1)] same_calls_brk [OF same(2)] by (simp add: upd_pc_def)
  ultimately show thesis using that [of ?st] s1(1) others by (simp add: freePendingCall_def)
qed

lemma plain_src: "plain (x\<lparr>src_mwid := m, srchdl := h\<rparr>) = (plain x)\<lparr>src_mwid := m, srchdl := h\<rparr>"
  by (cases x) (simp add: plain_def)

lemma get_slot_brk [simp]: "get_slot (st\<lparr>pcbrk := n\<rparr>) s = get_slot st s"
  by (cases s) (simp_all add: get_slot.simps)

lemma lseg_brk: "lseg (st\<lparr>pcbrk := n\<rparr>) s xs = lseg st s xs"
  by (induction xs arbitrary: s) simp_all

text \<open>A call for a new entry: the first of the free ones, or a new one.\<close>

lemma take_ok:
  assumes "store_inv st L"
  shows "\<exists>p s1. (case freelist st of
            None \<Rightarrow> Some (pcbrk st, upd_pc (st\<lparr>pcbrk := pcbrk st + 1\<rparr>) (pcbrk st) (\<lambda>_. clearPendingCall))
          | Some p \<Rightarrow> map_option (Pair p) (unlinkPendingCall st p)) = Some (p, s1)
      \<and> store_ok s1 (L(None := tl (L None))) \<and> rest_same st s1 \<and> p < pcbrk s1 \<and> (\<forall>k. p \<notin> set ((L(None := tl (L None))) k))
      \<and> (\<forall>q. q \<noteq> p \<longrightarrow> plain (pcs s1 q) = plain (pcs st q)) \<and> plain (pcs s1 p) = clearPendingCall"
proof -
  have ok: "store_ok st L" using assms by (simp add: store_inv_def)
  have free: "freelist st = (case L None of [] \<Rightarrow> None | p # _ \<Rightarrow> Some p)"
  proof -
    have "chained st (hslot None) (L None)" using ok by (simp only: store_ok_def)
    then show ?thesis by (auto simp: chained_def split: list.split)
  qed
  show ?thesis
  proof (cases "L None")
    case Nil
    let ?p = "pcbrk st"
    let ?s1 = "upd_pc (st\<lparr>pcbrk := ?p + 1\<rparr>) ?p (\<lambda>_. clearPendingCall)"
    have out: "\<forall>k. ?p \<notin> set (L k)" using ok by (auto simp: store_ok_def)
    have "store_ok (st\<lparr>pcbrk := ?p + 1\<rparr>) L" using ok by (auto simp: store_ok_def chained_def lseg_brk less_Suc_eq)
    then have "store_ok ?s1 L" using store_ok_write [OF _ out] by blast
    moreover have "rest_same st ?s1" using rest_same_trans [OF rest_same_upd(2) rest_same_upd(1)] .
    ultimately show ?thesis using Nil free out by (intro exI [of _ ?p] exI [of _ ?s1]) (simp add: upd_pc_def fun_upd_idem)
  next
    case (Cons p fl)
    then have p: "p \<in> set (L None)" by simp
    obtain s1 where s1: "unlinkPendingCall st p = Some s1" "store_ok s1 (L(None := remove1 p (L None)))"
      using store_ok_unlink [OF ok p] by blast
    note same = same_calls_unlink [OF s1(1)]
    have "p < pcbrk s1" "\<forall>k. p \<notin> set ((L(None := remove1 p (L None))) k)" "plain (pcs s1 p) = clearPendingCall"
      using store_inv_apart(2) [OF assms p] same_calls_brk [OF same] cl.taken_out [OF ok p] assms p same_calls_plain [OF same, of p]
      by (auto simp: store_inv_def)
    then show ?thesis
      using s1 Cons free same rest_same_calls [OF same]
      by (intro exI [of _ p] exI [of _ s1]) (simp add: same_calls_plain)
  qed
qed

lemma new_ok:
  assumes "store_inv st L"
  obtains p st' where "newPendingCall st mwid hdl = Some (p, st')"
    "store_inv st' (L(None := tl (L None), Some (mkhash mwid hdl) := p # L (Some (mkhash mwid hdl))))"
    "rest_same st st'" "\<And>i. p \<notin> set (L (Some i))" "\<And>q. q \<noteq> p \<Longrightarrow> plain (pcs st' q) = plain (pcs st q)"
    "plain (pcs st' p) = clearPendingCall\<lparr>src_mwid := mwid, srchdl := hdl\<rparr>"
proof -
  let ?i = "mkhash mwid hdl"
  let ?f = "\<lambda>x. x\<lparr>src_mwid := mwid, srchdl := hdl\<rparr>"
  obtain p s1 where s1: "(case freelist st of
            None \<Rightarrow> Some (pcbrk st, upd_pc (st\<lparr>pcbrk := pcbrk st + 1\<rparr>) (pcbrk st) (\<lambda>_. clearPendingCall))
          | Some p \<Rightarrow> map_option (Pair p) (unlinkPendingCall st p)) = Some (p, s1)"
    "store_ok s1 (L(None := tl (L None)))" "rest_same st s1" "p < pcbrk s1" "\<forall>k. p \<notin> set ((L(None := tl (L None))) k)"
    "\<forall>q. q \<noteq> p \<longrightarrow> plain (pcs s1 q) = plain (pcs st q)" "plain (pcs s1 p) = clearPendingCall"
    using take_ok [OF assms] by blast
  let ?s2 = "upd_pc s1 p ?f"
  let ?st = "linkPendingCall ?s2 p (Hash ?i)"
  let ?L = "L(None := tl (L None), Some ?i := p # L (Some ?i))"
  note same = same_calls_link [of ?s2 p "Hash ?i"]
  have new: "newPendingCall st mwid hdl = Some (p, ?st)" using s1(1) by (simp add: newPendingCall_def)
  have content: "plain (pcs ?st p) = clearPendingCall\<lparr>src_mwid := mwid, srchdl := hdl\<rparr>"
    "q \<noteq> p \<Longrightarrow> plain (pcs ?st q) = plain (pcs st q)" for q
    using same_calls_plain [OF same] s1(6,7) by (simp_all add: upd_pc_def plain_src)
  have "store_ok ?st ?L"
  proof -
    have "p < pcbrk ?s2" using s1(4) by (simp add: upd_pc_def)
    from store_ok_link [OF store_ok_write [OF s1(2,5), of ?f] s1(5) this, of "Some ?i"] show ?thesis
      by (simp only: hslot.simps fun_upd_other [of "Some ?i" None] option.distinct not_False_eq_True simp_thms)
  qed
  moreover have "\<forall>q \<in> set (?L None). plain (pcs ?st q) = clearPendingCall"
  proof
    fix q assume "q \<in> set (?L None)"
    then have q: "q \<in> set (tl (L None))" by simp
    then have "q \<noteq> p" "q \<in> set (L None)" using s1(5) by (auto dest: list.set_sel(2) [rotated] split: if_splits) (metis list.set_sel(2) tl_Nil)
    then show "plain (pcs ?st q) = clearPendingCall" using content(2) assms by (simp add: store_inv_def)
  qed
  moreover have "\<forall>j \<ge> HASHSIZE. ?L (Some j) = []" using assms mkhash_less [of mwid hdl] by (auto simp: store_inv_def)
  ultimately have "store_inv ?st ?L" by (simp add: store_inv_def)
  moreover have "rest_same st ?st" using rest_same_trans [OF rest_same_trans [OF s1(3) rest_same_upd(1)] rest_same_calls [OF same]] .
  moreover have "p \<notin> set (L (Some j))" for j using s1(5) by (metis fun_upd_other option.distinct(1))
  ultimately show thesis using that [OF new] content by blast
qed

section \<open>Looking a call up\<close>

definition matches :: "gwstate \<Rightarrow> int \<Rightarrow> int \<Rightarrow> nat \<Rightarrow> bool" where
  "matches st mwid hdl p \<longleftrightarrow> dst_mwid (pcs st p) = mwid \<and> dsthdl (pcs st p) = hdl
     \<or> src_mwid (pcs st p) = mwid \<and> srchdl (pcs st p) = hdl"

lemma lookup_loop_find:
  assumes "chained st s xs"
  shows "lookup_loop st mwid hdl (get_slot st s) = Some (List.find (matches st mwid hdl) xs)"
  using assms
proof (induction xs arbitrary: s)
  case Nil
  then show ?case by (subst lookup_loop.simps) (simp add: chained_def)
next
  case (Cons p ps)
  then have "chained st (Next p) ps" "get_slot st s = Some p" by (auto simp: chained_def)
  then show ?case
    using Cons.IH [of "Next p"] by (subst lookup_loop.simps) (simp add: matches_def [of _ _ _ p] get_slot.simps)
qed

lemma lookup_find:
  assumes "store_ok st L"
  shows "lookupPendingCall st mwid hdl = Some (List.find (matches st mwid hdl) (L (Some (mkhash mwid hdl))))"
proof -
  have "chained st (hslot (Some (mkhash mwid hdl))) (L (Some (mkhash mwid hdl)))" using assms unfolding store_ok_def by blast
  then show ?thesis using lookup_loop_find [of st "Hash (mkhash mwid hdl)"] by (simp add: lookupPendingCall_def)
qed

lemma store_inv_mutex: "store_inv (st\<lparr>callmutex := b\<rparr>) L = store_inv st L"
proof -
  have "get_slot (st\<lparr>callmutex := b\<rparr>) s = get_slot st s" for s by (cases s) (simp_all add: get_slot.simps)
  then show ?thesis using store_ok_cong [of "st\<lparr>callmutex := b\<rparr>" st L] by (simp add: store_inv_def)
qed

section \<open>A client that has gone\<close>

text \<open>The buckets without the calls of a client.\<close>

definition without :: "gwstate \<Rightarrow> int \<Rightarrow> nat list \<Rightarrow> nat list" where
  "without st mwid = filter (\<lambda>p. src_mwid (pcs st p) \<noteq> mwid)"

lemma remove1_in_middle: "p \<notin> set xs \<Longrightarrow> remove1 p (xs @ p # ys) = xs @ ys"
  by (simp add: remove1_append)

lemma clear_chain_ok:
  assumes "store_inv st L" "L (Some i) = xs @ ys" "pc = (case ys of [] \<Rightarrow> None | p # _ \<Rightarrow> Some p)"
  shows "\<exists>st' fl. clear_chain mwid pc st = Some st' \<and> store_inv st' (L(None := fl, Some i := xs @ without st mwid ys))
    \<and> rest_same st st' \<and> pcbrk st' = pcbrk st \<and> set fl = set (L None) \<union> {p \<in> set ys. src_mwid (pcs st p) = mwid}
    \<and> (\<forall>q. q \<notin> set ys \<or> src_mwid (pcs st q) \<noteq> mwid \<longrightarrow> plain (pcs st' q) = plain (pcs st q))"
  using assms
proof (induction ys arbitrary: st L xs pc)
  case Nil
  then show ?case
    by (subst clear_chain.simps) (auto simp: without_def fun_upd_idem intro!: exI [of _ st] exI [of _ "L None"])
next
  case (Cons p ys)
  have ok: "store_ok st L" using Cons.prems(1) by (simp add: store_inv_def)
  then have "chained st (Hash i) (xs @ p # ys)" using Cons.prems(2) unfolding store_ok_def by (metis hslot.simps(2))
  then have n: "pc_next (pcs st p) = (case ys of [] \<Rightarrow> None | p # _ \<Rightarrow> Some p)"
    by (auto simp: chained_def lseg_append get_slot.simps split: list.splits)
  have p: "p \<in> set (L (Some i))" "distinct (xs @ p # ys)" using Cons.prems(2) cl.apart [OF ok, of "Some i"] by simp_all
  show ?case
  proof (cases "src_mwid (pcs st p) = mwid")
    case True
    let ?L = "moved L (Some i) None p"
    obtain s1 where s1: "freePendingCall st p = Some s1" "store_inv s1 ?L" "rest_same st s1"
      "\<And>q. q \<noteq> p \<Longrightarrow> plain (pcs s1 q) = plain (pcs st q)" "pcbrk s1 = pcbrk st"
      using free_ok [OF Cons.prems(1) p(1)] by blast
    have L: "?L = L(None := p # L None, Some i := xs @ ys)"
      using Cons.prems(2) p(2) by (auto simp: moved_def remove1_in_middle fun_upd_twist Let_def)
    have Li: "?L (Some i) = xs @ ys" by (simp add: L)
    have L': "?L(None := a, Some i := b) = L(None := a, Some i := b)" for a b by (auto simp: moved_def Let_def)
    have same: "src_mwid (pcs s1 q) = src_mwid (pcs st q)" if "q \<in> set ys" for q
      using s1(4) [of q] that p(2) by (intro plain_fields) auto
    then have w: "without s1 mwid ys = without st mwid ys" unfolding without_def by (intro filter_cong) auto
    obtain st' fl where st': "clear_chain mwid (pc_next (pcs st p)) s1 = Some st'"
      "store_inv st' (?L(None := fl, Some i := xs @ without s1 mwid ys))" "rest_same s1 st'" "pcbrk st' = pcbrk s1"
      "set fl = set (?L None) \<union> {p \<in> set ys. src_mwid (pcs s1 p) = mwid}"
      "\<forall>q. q \<notin> set ys \<or> src_mwid (pcs s1 q) \<noteq> mwid \<longrightarrow> plain (pcs st' q) = plain (pcs s1 q)"
      using Cons.IH [OF s1(2) Li n] by blast
    have "clear_chain mwid pc st = Some st'"
      using Cons.prems(3) True s1(1) st'(1) by (subst clear_chain.simps) (simp add: Let_def)
    moreover have "store_inv st' (L(None := fl, Some i := xs @ without st mwid (p # ys)))"
    proof -
      have "without st mwid (p # ys) = without st mwid ys" using True by (simp add: without_def)
      then show ?thesis using st'(2) by (simp only: L' w)
    qed
    moreover have "set fl = set (L None) \<union> {q \<in> set (p # ys). src_mwid (pcs st q) = mwid}"
      using st'(5) same True by (auto simp: moved_def)
    moreover have "plain (pcs st' q) = plain (pcs st q)" if "q \<notin> set (p # ys) \<or> src_mwid (pcs st q) \<noteq> mwid" for q
    proof -
      have "q \<noteq> p" using that True by auto
      moreover have "src_mwid (pcs s1 q) = src_mwid (pcs st q)" using s1(4) [OF \<open>q \<noteq> p\<close>] by (rule plain_fields)
      ultimately show ?thesis using that st'(6) s1(4) by auto
    qed
    ultimately show ?thesis
      using st'(4) rest_same_trans [OF s1(3) st'(3)] s1(5)
      by (intro exI [of _ st'] exI [of _ fl] conjI) (assumption | simp)+
  next
    case False
    have Li: "L (Some i) = (xs @ [p]) @ ys" using Cons.prems(2) by simp
    have step: "clear_chain mwid pc st = clear_chain mwid (pc_next (pcs st p)) st"
      using Cons.prems(3) False by (subst clear_chain.simps) (simp add: Let_def)
    have w: "(xs @ [p]) @ without st mwid ys = xs @ without st mwid (p # ys)" using False by (simp add: without_def)
    have q: "{q \<in> set ys. src_mwid (pcs st q) = mwid} = {q \<in> set (p # ys). src_mwid (pcs st q) = mwid}" using False by auto
    show ?thesis using Cons.IH [OF Cons.prems(1) Li n] False unfolding step w q by auto
  qed
qed

lemma clear_buckets_ok:
  assumes "store_inv st L" "distinct is"
  shows "\<exists>st' fl. clear_buckets mwid is st = Some st'
    \<and> store_inv st' (\<lambda>k. case k of None \<Rightarrow> fl | Some i \<Rightarrow> if i \<in> set is then without st mwid (L (Some i)) else L (Some i))
    \<and> rest_same st st' \<and> pcbrk st' = pcbrk st
    \<and> (\<forall>i q. q \<in> set (L (Some i)) \<and> src_mwid (pcs st q) \<noteq> mwid \<longrightarrow> plain (pcs st' q) = plain (pcs st q))"
  using assms
proof (induction "is" arbitrary: st L)
  case Nil
  have "(\<lambda>k. case k of None \<Rightarrow> L None | Some i \<Rightarrow> L (Some i)) = L" by (auto split: option.split)
  then show ?case using Nil by (intro exI [of _ st] exI [of _ "L None"]) simp
next
  case (Cons i "is")
  have ok: "store_ok st L" using Cons.prems(1) by (simp add: store_inv_def)
  then have "chained st (Hash i) (L (Some i))" unfolding store_ok_def by (metis hslot.simps(2))
  then have head: "pchash st i = (case L (Some i) of [] \<Rightarrow> None | p # _ \<Rightarrow> Some p)"
    by (auto simp: chained_def split: list.split)
  let ?L = "\<lambda>fl. L(None := fl, Some i := without st mwid (L (Some i)))"
  obtain s1 fl where s1: "clear_chain mwid (pchash st i) st = Some s1" "store_inv s1 (?L fl)" "rest_same st s1" "pcbrk s1 = pcbrk st"
    "\<forall>q. q \<notin> set (L (Some i)) \<or> src_mwid (pcs st q) \<noteq> mwid \<longrightarrow> plain (pcs s1 q) = plain (pcs st q)"
    using clear_chain_ok [OF Cons.prems(1) _ head, where xs = "[]" and mwid = mwid and i = i] by auto
  obtain st' fl' where st': "clear_buckets mwid is s1 = Some st'"
    "store_inv st' (\<lambda>k. case k of None \<Rightarrow> fl' | Some j \<Rightarrow> if j \<in> set is then without s1 mwid (?L fl (Some j)) else ?L fl (Some j))"
    "rest_same s1 st'" "pcbrk st' = pcbrk s1"
    "\<forall>j q. q \<in> set (?L fl (Some j)) \<and> src_mwid (pcs s1 q) \<noteq> mwid \<longrightarrow> plain (pcs st' q) = plain (pcs s1 q)"
    using Cons.IH [OF s1(2)] Cons.prems(2) by auto
  have keep: "plain (pcs s1 q) = plain (pcs st q)" if "q \<in> set (L (Some j))" "j \<noteq> i \<or> src_mwid (pcs st q) \<noteq> mwid" for q j
    using that s1(5) store_inv_apart(3) [OF Cons.prems(1) that(1), of "Some i"] by auto
  have w: "without s1 mwid (L (Some j)) = without st mwid (L (Some j))" if "j \<noteq> i" for j
  proof -
    have "src_mwid (pcs s1 q) = src_mwid (pcs st q)" if "q \<in> set (L (Some j))" for q
      by (rule plain_fields(1) [OF keep [OF that]]) (use \<open>j \<noteq> i\<close> in simp)
    then show ?thesis unfolding without_def by (intro filter_cong) simp_all
  qed
  have "(\<lambda>k. case k of None \<Rightarrow> fl' | Some j \<Rightarrow> if j \<in> set is then without s1 mwid (?L fl (Some j)) else ?L fl (Some j)) =
      (\<lambda>k. case k of None \<Rightarrow> fl' | Some j \<Rightarrow> if j \<in> set (i # is) then without st mwid (L (Some j)) else L (Some j))"
    using Cons.prems(2) w by (auto split: option.split)
  moreover have "plain (pcs st' q) = plain (pcs st q)" if q: "q \<in> set (L (Some j))" "src_mwid (pcs st q) \<noteq> mwid" for j q
  proof -
    have k: "plain (pcs s1 q) = plain (pcs st q)" using keep q by blast
    then have "src_mwid (pcs s1 q) \<noteq> mwid" using q(2) plain_fields(1) by metis
    moreover have "q \<in> set (?L fl (Some j))" using q by (auto simp: without_def)
    ultimately show ?thesis using st'(5) k by metis
  qed
  ultimately show ?case
    using s1(1,4) st'(1,2,4) rest_same_trans [OF s1(3) st'(3)] by (intro exI [of _ st'] exI [of _ fl']) auto
qed

lemma client_cleared:
  assumes "store_inv st L" "\<not> callmutex st"
  shows "\<exists>st' fl. storeSRBClearClient st mwid = Some (0, st') \<and> \<not> callmutex st'
    \<and> store_inv st' (\<lambda>k. case k of None \<Rightarrow> fl | Some i \<Rightarrow> filter (\<lambda>p. src_mwid (pcs st p) \<noteq> mwid) (L (Some i)))
    \<and> (\<forall>i q. q \<in> set (L (Some i)) \<and> src_mwid (pcs st q) \<noteq> mwid \<longrightarrow> plain (pcs st' q) = plain (pcs st q))"
proof -
  let ?st = "st\<lparr>callmutex := True\<rparr>"
  have "store_inv ?st L" using assms(1) by (simp add: store_inv_mutex)
  then obtain s1 fl where s1: "clear_buckets mwid [0..<HASHSIZE] ?st = Some s1"
    "store_inv s1 (\<lambda>k. case k of None \<Rightarrow> fl | Some i \<Rightarrow> if i \<in> set [0..<HASHSIZE] then without ?st mwid (L (Some i)) else L (Some i))"
    "\<forall>i q. q \<in> set (L (Some i)) \<and> src_mwid (pcs ?st q) \<noteq> mwid \<longrightarrow> plain (pcs s1 q) = plain (pcs ?st q)"
    using clear_buckets_ok [OF _ distinct_upt, where st = ?st and mwid = mwid] by blast
  have "(if i \<in> set [0..<HASHSIZE] then without ?st mwid (L (Some i)) else L (Some i)) = filter (\<lambda>p. src_mwid (pcs st p) \<noteq> mwid) (L (Some i))" for i
    using assms(1) by (auto simp: without_def store_inv_def)
  then have "(\<lambda>k. case k of None \<Rightarrow> fl | Some i \<Rightarrow> if i \<in> set [0..<HASHSIZE] then without ?st mwid (L (Some i)) else L (Some i)) =
      (\<lambda>k. case k of None \<Rightarrow> fl | Some i \<Rightarrow> filter (\<lambda>p. src_mwid (pcs st p) \<noteq> mwid) (L (Some i)))"
    by (intro ext) (simp split: option.split del: set_upt)
  then have "store_inv s1 (\<lambda>k. case k of None \<Rightarrow> fl | Some i \<Rightarrow> filter (\<lambda>p. src_mwid (pcs st p) \<noteq> mwid) (L (Some i)))"
    using s1(2) by (simp only:)
  then show ?thesis
    using s1(1,3) assms(2)
    by (intro exI [of _ "s1\<lparr>callmutex := False\<rparr>"] exI [of _ fl])
      (simp add: storeSRBClearClient_def locked_def store_inv_mutex del: upt_rec_numeral)
qed


section \<open>Sending a call that is complete\<close>

lemma store_inv_upd:
  assumes "store_inv st L" "p \<in> set (L (Some i))" "\<And>x. pc_next (f x) = pc_next x" "\<And>x. pc_root (f x) = pc_root x"
  shows "store_inv (upd_pc st p f) L"
proof -
  have "p \<notin> set (L None)" using store_inv_apart(3) [OF assms(1,2)] by simp
  then show ?thesis using assms store_ok_upd [of st L f p] by (auto simp: store_inv_def upd_pc_def)
qed

lemma store_inv_cong:
  assumes "pcs st' = pcs st" "pchash st' = pchash st" "freelist st' = freelist st" "pcbrk st' = pcbrk st"
  shows "store_inv st' L = store_inv st L"
proof -
  have "get_slot st' s = get_slot st s" for s by (cases s) (simp_all add: get_slot.simps assms)
  then show ?thesis using store_ok_cong [of st' st L] by (simp add: store_inv_def assms)
qed

lemma best_service_cong:
  "ipcmain s = ipcmain t \<Longrightarrow> svctbl s = svctbl t \<Longrightarrow> mw_get_best_service env s name flags = mw_get_best_service env t name flags"
  by (simp add: mw_get_best_service_def)

lemma nexthandle_frame: "mw_nexthandle env s = (fst (mw_nexthandle env s), s\<lparr>handle := fst (mw_nexthandle env s)\<rparr>)"
  by (simp add: mw_nexthandle_def Let_def)

lemma nexthandle_cong: "handle s = handle t \<Longrightarrow> fst (mw_nexthandle env s) = fst (mw_nexthandle env t)"
  by (simp add: mw_nexthandle_def Let_def)

lemma send_ok:
  assumes "ipcfifolen st = 0" "accepting (os env)" "datasegmentid (message_of st m) = 0"
    and "findsegment_byid (segments (shm st)) 0 = Some si"
    and "mw_get_mqid_by_mwid st i = qid" "0 \<le> qid" "msgq st qid = Some q"
  shows "ipc_sendmessage env st i m = Some (st\<lparr>msgq := (msgq st)(qid := Some (q @ [Call (message_of st m)]))\<rparr>)"
  using assms putmessage_ok(1) [OF assms(2) _ assms(5-7), of "Call (message_of st m)"]
  by (simp add: ipc_sendmessage_def flush_ipc_fifo_def mw_getsegment_byid_def)

lemma rest_same_fields:
  assumes "rest_same st st'"
  shows "ipcmain st' = ipcmain st" "clttbl st' = clttbl st" "srvtbl st' = srvtbl st" "svctbl st' = svctbl st" "gwtbl st' = gwtbl st"
    "shm st' = shm st" "msgq st' = msgq st" "handle st' = handle st" "callmutex st' = callmutex st" "conns st' = conns st"
    "ipcfifolen st' = ipcfifolen st" "mygatewayid st' = mygatewayid st"
proof -
  obtain a b c d where st': "st' = st\<lparr>pcs := a, pcbrk := b, pchash := c, freelist := d\<rparr>"
    using assms unfolding rest_same_def by blast
  show "ipcmain st' = ipcmain st" "clttbl st' = clttbl st" "srvtbl st' = srvtbl st" "svctbl st' = svctbl st" "gwtbl st' = gwtbl st"
    "shm st' = shm st" "msgq st' = msgq st" "handle st' = handle st" "callmutex st' = callmutex st" "conns st' = conns st"
    "ipcfifolen st' = ipcfifolen st" "mygatewayid st' = mygatewayid st"
    unfolding st' by simp_all
qed

text \<open>The fields of a call, with the pointers left out.\<close>

lemma plain_upd:
  "plain (x\<lparr>pc_call := c\<rparr>) = (plain x)\<lparr>pc_call := c\<rparr>" "plain (x\<lparr>pc_status := n\<rparr>) = (plain x)\<lparr>pc_status := n\<rparr>"
  "plain (x\<lparr>dst_mwid := i\<rparr>) = (plain x)\<lparr>dst_mwid := i\<rparr>" "plain (x\<lparr>dsthdl := i\<rparr>) = (plain x)\<lparr>dsthdl := i\<rparr>"
  "plain (x\<lparr>pc_data := i\<rparr>) = (plain x)\<lparr>pc_data := i\<rparr>" "plain (x\<lparr>datarecv := i\<rparr>) = (plain x)\<lparr>datarecv := i\<rparr>"
  "plain (x\<lparr>callmsg := u\<rparr>) = (plain x)\<lparr>callmsg := u\<rparr>" "plain (x\<lparr>srcconn := o'\<rparr>) = (plain x)\<lparr>srcconn := o'\<rparr>"
  "plain (x\<lparr>pc_datalen := i\<rparr>) = (plain x)\<lparr>pc_datalen := i\<rparr>"
  by (cases x; simp add: plain_def)+

lemma plain_sel [simp]:
  "src_mwid (plain x) = src_mwid x" "srcconn (plain x) = srcconn x" "pc_call (plain x) = pc_call x" "callmsg (plain x) = callmsg x"
  "dst_mwid (plain x) = dst_mwid x" "pc_status (plain x) = pc_status x" "pc_data (plain x) = pc_data x"
  "pc_datalen (plain x) = pc_datalen x" "datarecv (plain x) = datarecv x" "srchdl (plain x) = srchdl x" "dsthdl (plain x) = dsthdl x"
  by (simp_all add: plain_def)

lemma put_collected_ok:
  assumes "pc_datalen (pcs s p) = n" "0 < n"
    and "mw_putbuffer_to_call (shm_env (os env)) (shm s) (pc_call (pcs s p)) (pc_data (pcs s p)) n 0 = Some (0, c, shm s)"
  shows "put_collected env s p = Some (upd_pc s p (\<lambda>x. x\<lparr>pc_call := c\<rparr>))"
  using assms by (simp add: put_collected_def)

lemma send_collected_ok:
  assumes inv: "store_inv s L" "p \<in> set (L (Some i))"
    and put: "put_collected env s p = Some (upd_pc s p (\<lambda>x. x\<lparr>pc_call := c\<rparr>))"
    and svc: "mw_get_best_service (os env) s (ca_service c) (ca_flags c) = svcid" "mw_get_provider_by_serviceid s svcid = dest"
    and q: "mw_get_mqid_by_mwid s dest = qid" "0 \<le> qid" "msgq s qid = Some q"
    and snd: "accepting (os env)" "ipcfifolen s = 0" "datasegmentid c = 0" "findsegment_byid (segments (shm s)) 0 = Some si"
  shows "\<exists>s'. send_collected_call env s p = Some s'
    \<and> store_inv s' (moved L (Some i) (Some (mkhash (ca_cltid c) (fst (mw_nexthandle (os env) s)))) p)
    \<and> msgq s' = (msgq s)(qid := Some (q @ [Call (c\<lparr>ca_handle := fst (mw_nexthandle (os env) s), ca_svcid := svcid\<rparr>)]))
    \<and> shm s' = shm s \<and> callmutex s' = callmutex s \<and> conns s' = conns s
    \<and> plain (pcs s' p) = (plain (pcs s p))\<lparr>pc_call := c\<lparr>ca_handle := fst (mw_nexthandle (os env) s), ca_svcid := svcid\<rparr>,
        pc_status := REPLYPENDING, dst_mwid := ca_cltid c, dsthdl := fst (mw_nexthandle (os env) s)\<rparr>
    \<and> (\<forall>q. q \<noteq> p \<longrightarrow> plain (pcs s' q) = plain (pcs s q))"
proof -
  let ?h = "fst (mw_nexthandle (os env) s)"
  let ?s1 = "upd_pc s p (\<lambda>x. x\<lparr>pc_call := c\<rparr>)"
  have nh: "mw_nexthandle (os env) ?s1 = (?h, ?s1\<lparr>handle := ?h\<rparr>)"
    using nexthandle_frame [of "os env" ?s1] nexthandle_cong [of ?s1 s] by (simp add: upd_pc_def)
  let ?s3 = "upd_pc (?s1\<lparr>handle := ?h\<rparr>) p (\<lambda>x. x\<lparr>pc_call := (pc_call x)\<lparr>ca_handle := ?h\<rparr>, pc_status := REPLYPENDING\<rparr>)"
  let ?c = "c\<lparr>ca_handle := ?h\<rparr>"
  have c3: "pc_call (pcs ?s3 p) = ?c" by (simp add: upd_pc_def)
  have svc3: "mw_get_best_service (os env) ?s3 (ca_service c) (ca_flags c) = svcid" "mw_get_provider_by_serviceid ?s3 svcid = dest"
    using svc best_service_cong [of ?s3 s] lookups_cong(2) [of ?s3 s] by (simp_all add: upd_pc_def)
  let ?s4 = "upd_pc ?s3 p (\<lambda>x. x\<lparr>dst_mwid := ca_cltid c, dsthdl := ?h\<rparr>)"
  have "store_inv ?s4 L"
  proof -
    have "store_inv (?s1\<lparr>handle := ?h\<rparr>) L"
      using store_inv_cong [of "?s1\<lparr>handle := ?h\<rparr>" ?s1 L] store_inv_upd [OF inv, of "\<lambda>x. x\<lparr>pc_call := c\<rparr>"] by simp
    then show ?thesis using inv(2) by (intro store_inv_upd) simp_all
  qed
  then have ok4: "store_ok ?s4 L" and free4: "\<forall>q \<in> set (L None). plain (pcs ?s4 q) = clearPendingCall" "\<forall>i \<ge> HASHSIZE. L (Some i) = []"
    by (simp_all add: store_inv_def)
  let ?k = "Some (mkhash (ca_cltid c) ?h)"
  obtain s5 where s5: "rehashPendingCall ?s4 p (ca_cltid c) ?h = Some s5" "store_ok s5 (moved L (Some i) ?k p)" "same_calls ?s4 s5"
    using rehash_ok [OF ok4 inv(2)] by blast
  note rs = rest_same_fields [OF rest_same_calls [OF s5(3)]]
  have c5: "pc_call (pcs s5 p) = ?c"
    using plain_fields(3) [OF same_calls_plain [OF s5(3), of p]] c3 by (simp add: upd_pc_def)
  let ?s6 = "upd_pc s5 p (\<lambda>x. x\<lparr>pc_call := (pc_call x)\<lparr>ca_svcid := svcid\<rparr>\<rparr>)"
  have m6: "message_of ?s6 (Inl p) = ?c\<lparr>ca_svcid := svcid\<rparr>" using c5 by (simp add: message_of_def upd_pc_def)
  have eq6: "mw_get_mqid_by_mwid ?s6 dest = qid" "msgq ?s6 qid = Some q" "ipcfifolen ?s6 = 0" "shm ?s6 = shm s"
    using q snd(2) rs lookups_cong(1) [of ?s6 s dest] by (simp_all add: upd_pc_def)
  let ?s7 = "?s6\<lparr>msgq := (msgq ?s6)(qid := Some (q @ [Call (?c\<lparr>ca_svcid := svcid\<rparr>)]))\<rparr>"
  have "ipc_sendmessage env ?s6 dest (Inl p) = Some ?s7"
    using send_ok [of ?s6 env "Inl p" si dest qid q] snd eq6 q(2) m6 by simp
  then have "send_collected_call env s p = Some ?s7"
    using put nh svc3 c3 s5(1) by (simp add: send_collected_call_def)
  moreover have "store_inv ?s7 (moved L (Some i) ?k p)"
  proof -
    have "p \<noteq> q" if "q \<in> set (L None)" for q using store_inv_apart(3) [OF inv, of None] that by auto
    then have "store_inv s5 (moved L (Some i) ?k p)"
      using s5(2) free4 same_calls_plain [OF s5(3)] mkhash_less [of "ca_cltid c" ?h] inv(2)
      by (auto simp: store_inv_def moved_def Let_def)
    then have "store_inv ?s6 (moved L (Some i) ?k p)"
      by (rule store_inv_upd [where i = "mkhash (ca_cltid c) ?h"]) (simp_all add: moved_def Let_def)
    then show ?thesis using store_inv_cong [of ?s7 ?s6] by simp
  qed
  moreover have "plain (pcs ?s7 p) = (plain (pcs s p))\<lparr>pc_call := ?c\<lparr>ca_svcid := svcid\<rparr>, pc_status := REPLYPENDING,
      dst_mwid := ca_cltid c, dsthdl := ?h\<rparr>"
    using same_calls_plain [OF s5(3), of p] c5 by (simp add: upd_pc_def plain_upd)
  moreover have "plain (pcs ?s7 q) = plain (pcs s q)" if "q \<noteq> p" for q
    using same_calls_plain [OF s5(3), of q] that by (simp add: upd_pc_def)
  ultimately show ?thesis using rs by (intro exI [of _ ?s7]) (simp add: upd_pc_def)
qed

section \<open>Collecting the data of a call\<close>

lemma upd_pc_simps:
  "upd_pc (upd_pc s p f) p g = upd_pc s p (\<lambda>x. g (f x))"
  "(upd_pc s p f)\<lparr>shm := h\<rparr> = upd_pc (s\<lparr>shm := h\<rparr>) p f" "(upd_pc s p f)\<lparr>callmutex := b\<rparr> = upd_pc (s\<lparr>callmutex := b\<rparr>) p f"
  "shm (upd_pc s p f) = shm s" "callmutex (upd_pc s p f) = callmutex s" "pcs (upd_pc s p f) p = f (pcs s p)"
  by (simp_all add: upd_pc_def)

lemma bind_Some_map: "Option.bind x (\<lambda>a. Some (f a)) = map_option f x"
  by (cases x) simp_all

lemma upd_pc_cong: "f (pcs s p) = g (pcs s p) \<Longrightarrow> upd_pc s p f = upd_pc s p g"
  by (simp add: upd_pc_def)

text \<open>One piece of the data of a call that is first in its bucket.\<close>

lemma srbdata_step:
  assumes inv: "store_inv s L" "L (Some (mkhash mwid hdl)) = p # rest" "\<not> callmutex s"
    and pc: "src_mwid (pcs s p) = mwid" "srchdl (pcs s p) = hdl" "pc_status (pcs s p) = CALLDATAPENDING"
      "pc_datalen (pcs s p) = n" "datarecv (pcs s p) = m" "0 \<le> m" "m + int (length d) \<le> n"
    and buf: "pc_data (pcs s p) = a \<and> h = shm s \<or> pc_data (pcs s p) = 0 \<and> mwalloc (shm_env (os env)) (shm s) n = Some (a, h)" "a \<noteq> 0"
    and s': "s' = upd_pc (s\<lparr>shm := store_bytes h (a + m) d, callmutex := True\<rparr>) p (\<lambda>x. x\<lparr>pc_data := a, datarecv := m + int (length d)\<rparr>)"
  shows "storeSRBData env s mwid hdl d =
    (if m + int (length d) \<noteq> n then Some (0, s'\<lparr>callmutex := False\<rparr>)
     else map_option (\<lambda>s. (0, s\<lparr>callmutex := False\<rparr>)) (send_collected_call env s' p))"
proof -
  let ?s = "s\<lparr>callmutex := True\<rparr>"
  have "store_ok ?s L" using inv(1) store_inv_mutex [of True s L] by (simp add: store_inv_def)
  then have look: "lookupPendingCall ?s mwid hdl = Some (Some p)"
    using lookup_find [of ?s L mwid hdl] inv(2) pc(1,2) by (simp add: matches_def)
  have n: "\<not> n < 0" using pc(6,7) by simp
  have s1: "s' = upd_pc (?s\<lparr>shm := store_bytes h (a + m) d\<rparr>) p (\<lambda>x. x\<lparr>pc_data := a, datarecv := datarecv x + int (length d)\<rparr>)"
  proof -
    have "s\<lparr>shm := store_bytes h (a + m) d, callmutex := True\<rparr> = ?s\<lparr>shm := store_bytes h (a + m) d\<rparr>" by (cases s) simp
    then show ?thesis unfolding s' using pc(5) by (simp only:) (rule upd_pc_cong, simp)
  qed
  have body: "storeSRBData env s mwid hdl d = map_option (\<lambda>(r, st). (r, st\<lparr>callmutex := False\<rparr>))
      (map_option (Pair 0) (check_if_complete env s' p))"
    using buf(1)
  proof
    assume *: "pc_data (pcs s p) = a \<and> h = shm s"
    have "upd_pc (?s\<lparr>shm := store_bytes h (a + m) d\<rparr>) p (\<lambda>x. x\<lparr>datarecv := datarecv x + int (length d)\<rparr>) = s'"
      unfolding s1 using * by (intro upd_pc_cong) (cases "pcs s p"; simp)
    moreover have "pc_data (pcs ?s p) \<noteq> 0" "\<not> pc_datalen (pcs ?s p) < 0" "pc_data (pcs ?s p) = a" "datarecv (pcs ?s p) = m"
      "\<not> pc_datalen (pcs ?s p) < m + int (length d)" "shm ?s = h"
      using * n pc(4,5,7) buf(2) by simp_all
    ultimately show ?thesis using inv(3) look buf(2)
      by (cases "check_if_complete env s' p") (simp_all add: storeSRBData_def locked_def Let_def)
  next
    assume *: "pc_data (pcs s p) = 0 \<and> mwalloc (shm_env (os env)) (shm s) n = Some (a, h)"
    then show ?thesis using inv(3) look n pc(4,5,7) buf(2)
      by (auto simp: storeSRBData_def locked_def Let_def option.map_comp comp_def upd_pc_simps s1 bind_Some_map)
  qed
  have "pc_status (pcs s' p) = CALLDATAPENDING" "pc_datalen (pcs s' p) = n" "datarecv (pcs s' p) = m + int (length d)"
    using pc(3,4) by (simp_all add: s' upd_pc_simps)
  then show ?thesis
    unfolding body by (simp add: check_if_complete_def Let_def option.map_comp comp_def)
qed

lemma store_bytes_append:
  "store_bytes (store_bytes h a x) (a + int (length x)) y = store_bytes h a (x @ y)"
proof -
  have "bytes (store_bytes (store_bytes h a x) (a + int (length x)) y) k = bytes (store_bytes h a (x @ y)) k" for k
  proof (cases "a \<le> k \<and> k < a + int (length x)")
    case False
    moreover have "nat (k - (a + int (length x))) = nat (k - a) - length x" by simp
    ultimately show ?thesis by (auto simp: store_bytes_def nth_append nat_less_iff)
  qed (auto simp: store_bytes_def nth_append nat_less_iff)
  then show ?thesis by (auto simp: store_bytes_def)
qed

lemma store_no_bytes [simp]: "store_bytes h a [] = h"
proof -
  have "(\<lambda>x. if a \<le> x \<and> x < a then [] ! nat (x - a) else bytes h x) = bytes h" by (rule ext, rule if_not_P) linarith
  then show ?thesis by (simp add: store_bytes_def)
qed

fun store_pieces :: "gwstate procenv \<Rightarrow> int \<Rightarrow> int \<Rightarrow> 8 word list list \<Rightarrow> gwstate \<Rightarrow> gwstate option" where
  "store_pieces env mwid hdl [] s = Some s"
| "store_pieces env mwid hdl (d # ds) s = Option.bind (storeSRBData env s mwid hdl d) (\<lambda>(_, s). store_pieces env mwid hdl ds s)"

text \<open>All pieces: the call is sent when the last one has come.\<close>

lemma srbdata_pieces:
  assumes inv: "store_inv s L" "L (Some (mkhash mwid hdl)) = p # rest" "\<not> callmutex s"
    and pc: "src_mwid (pcs s p) = mwid" "srchdl (pcs s p) = hdl" "pc_status (pcs s p) = CALLDATAPENDING"
      "pc_datalen (pcs s p) = int (length (got @ concat ds))" "datarecv (pcs s p) = int (length got)"
    and ds: "ds \<noteq> []" "last ds \<noteq> []"
    and buf: "pc_data (pcs s p) = a \<and> shm s = store_bytes h a got \<or>
        pc_data (pcs s p) = 0 \<and> got = [] \<and> mwalloc (shm_env (os env)) (shm s) (pc_datalen (pcs s p)) = Some (a, h)" "a \<noteq> 0"
  shows "store_pieces env mwid hdl ds s = map_option (\<lambda>s. s\<lparr>callmutex := False\<rparr>)
    (send_collected_call env (upd_pc (s\<lparr>shm := store_bytes h a (got @ concat ds), callmutex := True\<rparr>) p
       (\<lambda>x. x\<lparr>pc_data := a, datarecv := int (length (got @ concat ds))\<rparr>)) p)"
  using assms
proof (induction ds arbitrary: s got)
  case (Cons d ds)
  let ?n = "int (length (got @ concat (d # ds)))"
  let ?m = "int (length got)"
  have num: "pc_datalen (pcs s p) = ?n" "datarecv (pcs s p) = ?m" "0 \<le> ?m" "?m + int (length d) \<le> ?n"
    using Cons.prems(7,8) by simp_all
  let ?s' = "upd_pc (s\<lparr>shm := store_bytes h a (got @ d), callmutex := True\<rparr>) p (\<lambda>x. x\<lparr>pc_data := a, datarecv := ?m + int (length d)\<rparr>)"
  have step: "storeSRBData env s mwid hdl d = (if ?m + int (length d) \<noteq> ?n then Some (0, ?s'\<lparr>callmutex := False\<rparr>)
        else map_option (\<lambda>s. (0, s\<lparr>callmutex := False\<rparr>)) (send_collected_call env ?s' p))"
    using Cons.prems(11)
  proof
    assume *: "pc_data (pcs s p) = a \<and> shm s = store_bytes h a got"
    then have hd: "store_bytes (shm s) (a + ?m) d = store_bytes h a (got @ d)" using store_bytes_append [of h a got d] by simp
    have "pc_data (pcs s p) = a \<and> shm s = shm s" using * by simp
    from srbdata_step [OF Cons.prems(1-6) num disjI1 [OF this] Cons.prems(12) refl, of env] show ?thesis by (simp only: hd)
  next
    assume *: "pc_data (pcs s p) = 0 \<and> got = [] \<and> mwalloc (shm_env (os env)) (shm s) (pc_datalen (pcs s p)) = Some (a, h)"
    then have hd: "store_bytes h (a + ?m) d = store_bytes h a (got @ d)" by simp
    have "pc_data (pcs s p) = 0 \<and> mwalloc (shm_env (os env)) (shm s) ?n = Some (a, h)" using * num(1) by metis
    from srbdata_step [OF Cons.prems(1-6) num disjI2 [OF this] Cons.prems(12) refl] show ?thesis by (simp only: hd)
  qed
  show ?case
  proof (cases ds)
    case Nil
    let ?r = "send_collected_call env ?s' p"
    have "store_pieces env mwid hdl (d # ds) s = map_option (\<lambda>s. s\<lparr>callmutex := False\<rparr>) ?r"
      using step Nil by (cases ?r) simp_all
    then show ?thesis using Nil by simp
  next
    case (Cons e es)
    let ?s = "?s'\<lparr>callmutex := False\<rparr>"
    have ds: "ds \<noteq> []" "last ds \<noteq> []" using Cons Cons.prems(10) by simp_all
    then have "concat ds \<noteq> []" using last_in_set [of ds] by auto
    then have "store_pieces env mwid hdl (d # ds) s = store_pieces env mwid hdl ds ?s" using step by simp
    also have "\<dots> = map_option (\<lambda>s. s\<lparr>callmutex := False\<rparr>)
        (send_collected_call env (upd_pc (?s\<lparr>shm := store_bytes h a ((got @ d) @ concat ds), callmutex := True\<rparr>) p
           (\<lambda>x. x\<lparr>pc_data := a, datarecv := int (length ((got @ d) @ concat ds))\<rparr>)) p)"
    proof (rule Cons.IH [OF _ Cons.prems(2) _ _ _ _ _ _ ds])
      have "store_inv (s\<lparr>shm := store_bytes h a (got @ d), callmutex := False\<rparr>) L"
        using Cons.prems(1) store_inv_cong [of "s\<lparr>shm := store_bytes h a (got @ d), callmutex := False\<rparr>" s] by simp
      then show "store_inv ?s L"
        unfolding upd_pc_simps using Cons.prems(2) by (intro store_inv_upd [where i = "mkhash mwid hdl"]) simp_all
    qed (use Cons.prems(4-8,12) in \<open>simp_all add: upd_pc_simps\<close>)
    finally show ?thesis by (simp add: upd_pc_simps)
  qed
qed simp

section \<open>A call from the network and its reply\<close>

text \<open>The message of a call, but for its data, its handle and the service it is sent to.\<close>

definition network_call :: "gwstate \<Rightarrow> int \<Rightarrow> string \<Rightarrow> string option \<Rightarrow> string option \<Rightarrow> int \<Rightarrow> call" where
  "network_call st mwid service ins domn flags = blank_call\<lparr>ca_mtype := SVCCALL, ca_cltid := mwid, ca_srvid := UNASSIGNED,
     ca_gwid := mygatewayid st, ca_service := strncpy service MWMAXSVCNAME,
     ca_instance := (case ins of None \<Rightarrow> [] | Some s \<Rightarrow> strncpy s MWMAXNAMELEN),
     ca_domainname := (case domn of None \<Rightarrow> [] | Some s \<Rightarrow> strncpy s MWMAXNAMELEN), ca_flags := flags\<rparr>"

lemma store_call_waits:
  assumes "store_inv st L" "\<not> callmutex st" "datatotal \<noteq> 0"
  obtains p st' where "storeSRBCall env st mwid hdl mp cn datatotal service ins domn flags = Some (0, st')"
    "store_inv st' (L(None := tl (L None), Some (mkhash mwid hdl) := p # L (Some (mkhash mwid hdl))))"
    "rest_same st st'" "\<And>i. p \<notin> set (L (Some i))" "\<And>q. q \<noteq> p \<Longrightarrow> plain (pcs st' q) = plain (pcs st q)"
    "plain (pcs st' p) = clearPendingCall\<lparr>src_mwid := mwid, srchdl := hdl, srcconn := Some cn, pc_status := CALLDATAPENDING,
       callmsg := mp, pc_datalen := datatotal, pc_call := network_call st mwid service ins domn flags\<rparr>"
proof -
  let ?st = "st\<lparr>callmutex := True\<rparr>"
  have "store_inv ?st L" using assms(1) by (simp add: store_inv_mutex)
  then obtain p s1 where s1: "newPendingCall ?st mwid hdl = Some (p, s1)"
    "store_inv s1 (L(None := tl (L None), Some (mkhash mwid hdl) := p # L (Some (mkhash mwid hdl))))"
    "rest_same ?st s1" "\<And>i. p \<notin> set (L (Some i))" "\<And>q. q \<noteq> p \<Longrightarrow> plain (pcs s1 q) = plain (pcs ?st q)"
    "plain (pcs s1 p) = clearPendingCall\<lparr>src_mwid := mwid, srchdl := hdl\<rparr>"
    by - (erule new_ok [where mwid = mwid and hdl = hdl], rule that)
  let ?f = "\<lambda>x. x\<lparr>srcconn := Some cn, pc_status := CALLDATAPENDING, callmsg := mp, pc_datalen := datatotal,
         pc_call := (pc_call x)\<lparr>ca_mtype := SVCCALL, ca_cltid := mwid, ca_srvid := UNASSIGNED, ca_gwid := mygatewayid s1,
           ca_service := strncpy service MWMAXSVCNAME,
           ca_instance := (case ins of None \<Rightarrow> ca_instance (pc_call x) | Some s \<Rightarrow> strncpy s MWMAXNAMELEN),
           ca_domainname := (case domn of None \<Rightarrow> ca_domainname (pc_call x) | Some s \<Rightarrow> strncpy s MWMAXNAMELEN),
           ca_flags := flags\<rparr>\<rparr>"
  let ?s2 = "upd_pc s1 p ?f"
  have x: "pc_call (pcs s1 p) = blank_call" "datarecv (pcs s1 p) = 0"
    using arg_cong [OF s1(6), of pc_call] arg_cong [OF s1(6), of datarecv] by (simp_all add: clearPendingCall_def)
  have "check_if_complete env ?s2 p = Some ?s2"
    using assms(3) x by (simp add: check_if_complete_def upd_pc_simps)
  then have run: "storeSRBCall env st mwid hdl mp cn datatotal service ins domn flags = Some (0, ?s2\<lparr>callmutex := False\<rparr>)"
    using assms(2) s1(1) by (simp add: storeSRBCall_def locked_def)
  have "store_inv ?s2 (L(None := tl (L None), Some (mkhash mwid hdl) := p # L (Some (mkhash mwid hdl))))"
    using s1(2) by (rule store_inv_upd [where i = "mkhash mwid hdl"]) simp_all
  then have inv: "store_inv (?s2\<lparr>callmutex := False\<rparr>) (L(None := tl (L None), Some (mkhash mwid hdl) := p # L (Some (mkhash mwid hdl))))"
    by (simp only: store_inv_mutex)
  have rs: "rest_same st (?s2\<lparr>callmutex := False\<rparr>)"
  proof -
    obtain a b c d where s1': "s1 = ?st\<lparr>pcs := a, pcbrk := b, pchash := c, freelist := d\<rparr>"
      using s1(3) unfolding rest_same_def by blast
    have "st = st\<lparr>callmutex := False\<rparr>" using assms(2) by (cases st) simp
    then show ?thesis unfolding s1' by (cases st) (simp add: rest_same_def upd_pc_def)
  qed
  have "plain (pcs (?s2\<lparr>callmutex := False\<rparr>) p) = clearPendingCall\<lparr>src_mwid := mwid, srchdl := hdl, srcconn := Some cn,
       pc_status := CALLDATAPENDING, callmsg := mp, pc_datalen := datatotal, pc_call := network_call st mwid service ins domn flags\<rparr>"
    using s1(6) x(1) rest_same_fields(12) [OF s1(3)]
    by (simp add: upd_pc_simps plain_upd network_call_def blank_call_def cong: option.case_cong)
  moreover have "plain (pcs (?s2\<lparr>callmutex := False\<rparr>) q) = plain (pcs st q)" if "q \<noteq> p" for q
    using s1(5) [OF that] that by (simp add: upd_pc_def)
  ultimately show thesis using that [OF run inv rs s1(4)] by blast
qed

lemma ipc_reply_found:
  assumes "store_inv s L" "\<not> callmutex s" "L (Some (mkhash mwid hdl)) = p # rest"
    and "dst_mwid (pcs s p) = mwid" "dsthdl (pcs s p) = hdl" "srcconn (pcs s p) = Some cn" "callmsg (pcs s p) = mp"
    and "conn_cid (conns s cn) = mwid" "mw_get_caller_mwid r = mwid" "ca_handle r = hdl" "ca_returncode r \<noteq> MWMORE"
  shows "\<exists>s'. storeIPCReply s r = Some ((0, Some cn, mp), s') \<and> \<not> callmutex s'
    \<and> store_inv s' (moved L (Some (mkhash mwid hdl)) None p) \<and> (\<forall>q. q \<noteq> p \<longrightarrow> plain (pcs s' q) = plain (pcs s q))"
proof -
  let ?s = "s\<lparr>callmutex := True\<rparr>"
  let ?s1 = "upd_pc ?s p (\<lambda>x. x\<lparr>callmsg := None\<rparr>)"
  have inv: "store_inv ?s L" using assms(1) by (simp add: store_inv_mutex)
  then have look: "lookupPendingCall ?s mwid hdl = Some (Some p)"
    using lookup_find [of ?s L mwid hdl] assms(3-5) by (simp add: store_inv_def matches_def)
  have p: "p \<in> set (L (Some (mkhash mwid hdl)))" using assms(3) by simp
  have "store_inv ?s1 L" using inv p by (rule store_inv_upd) simp_all
  then obtain s' where s': "freePendingCall ?s1 p = Some s'" "store_inv s' (moved L (Some (mkhash mwid hdl)) None p)"
    "\<And>q. q \<noteq> p \<Longrightarrow> plain (pcs s' q) = plain (pcs ?s1 q)"
    using p by (rule free_ok) blast
  have "storeIPCReply s r = Some ((0, Some cn, mp), s'\<lparr>callmutex := False\<rparr>)"
    using assms(2,6-11) look s'(1) by (simp add: storeIPCReply_def locked_def)
  then show ?thesis using s' by (intro exI [of _ "s'\<lparr>callmutex := False\<rparr>"]) (simp add: store_inv_mutex upd_pc_def)
qed

text \<open>The data of a call that waits for it: after the last piece the call is on the provider's queue.\<close>

lemma network_data_sent:
  assumes inv: "store_inv s L" "L (Some (mkhash mwid hdl)) = p # rest" "\<not> callmutex s"
    and pc: "src_mwid (pcs s p) = mwid" "srchdl (pcs s p) = hdl" "pc_status (pcs s p) = CALLDATAPENDING"
      "pc_datalen (pcs s p) = n" "datarecv (pcs s p) = 0" "pc_data (pcs s p) = 0" "pc_call (pcs s p) = c"
      "ca_cltid c = mwid" "n = int (length (concat ds))"
    and ds: "ds \<noteq> []" "last ds \<noteq> []"
    and heap: "heap_ok (shm s) si fr" "buffer_for (shm_env (os env)) (shm s) si fr n b ch cs"
    and svc: "mw_get_best_service (os env) s (ca_service c) (ca_flags c) = svcid" "mw_get_provider_by_serviceid s svcid = dest"
    and q: "mw_get_mqid_by_mwid s dest = qid" "0 \<le> qid" "msgq s qid = Some q" "accepting (os env)" "ipcfifolen s = 0"
  shows "\<exists>s' hd m. store_pieces env mwid hdl ds s = Some s' \<and> \<not> callmutex s'
    \<and> store_inv s' (moved L (Some (mkhash mwid hdl)) (Some (mkhash mwid hd)) p)
    \<and> m = c\<lparr>datasegmentid := 0, cdata := ch + 16, cdatalen := n, ca_handle := hd, ca_svcid := svcid\<rparr>
    \<and> msgq s' = (msgq s)(qid := Some (q @ [Call m])) \<and> heap_ok (shm s') si (fr(b := cs))
    \<and> get_bytes (shm s') (heapinfo (shm s') + (ch + 16)) n = concat ds \<and> conns s' = conns s
    \<and> dst_mwid (pcs s' p) = mwid \<and> dsthdl (pcs s' p) = hd \<and> srcconn (pcs s' p) = srcconn (pcs s p) \<and> callmsg (pcs s' p) = callmsg (pcs s p)"
proof -
  have n: "0 < n" using heap(2) by (simp add: buffer_for_def)
  have b: "find_bin (shm s) n si \<le> b" "b < BINS" "\<forall>d. find_bin (shm s) n si \<le> d \<and> d < b \<longrightarrow> fr d = []" "fr b = ch # cs"
    "lock_ok (shm_env (os env)) b" "my_mwid (shm_env (os env)) \<noteq> UNASSIGNED"
    using heap(2) by (simp_all add: buffer_for_def)
  obtain h where h: "mwalloc (shm_env (os env)) (shm s) n = Some (heapinfo (shm s) + ch + 16, h)" "heap_ok h si (fr(b := cs))"
    "allocated (my_mwid (shm_env (os env))) (shm s) h ch" "ch \<in> chunks (hdr (shm s)) b"
    using mwalloc_take [OF heap(1) n b] by blast
  let ?a = "heapinfo (shm s) + ch + 16"
  let ?H = "store_bytes h ?a (concat ds)"
  let ?s = "upd_pc (s\<lparr>shm := ?H, callmutex := True\<rparr>) p (\<lambda>x. x\<lparr>pc_data := ?a, datarecv := n\<rparr>)"
  have H: "heap_ok ?H si (fr(b := cs))" "ch \<in> chunks (hdr ?H) b" "heapinfo ?H = heapinfo (shm s)"
    using h(2,4) allocated_layout [OF h(3)] by simp_all
  note ba = buffer_address [OF H(1,2)]
  have a: "?a \<noteq> 0" using ba(2) H(3) by simp
  have pieces: "store_pieces env mwid hdl ds s = map_option (\<lambda>s. s\<lparr>callmutex := False\<rparr>) (send_collected_call env ?s p)"
    using srbdata_pieces [OF inv pc(1-3), of "[]" ds ?a h env] pc(4-6,9) ds h(1) a by simp
  let ?c = "c\<lparr>datasegmentid := 0, cdata := ch + 16, cdatalen := n\<rparr>"
  have seg: "segmentid si = 0" "findsegment_byid (segments ?H) 0 = Some si"
    using H(1) by (simp_all add: heap_ok_def pool_def heap_seg_def)
  have "mw_putbuffer_to_call (shm_env (os env)) ?H c ?a n 0 = Some (0, ?c, ?H)"
    using n a ba(1,5) seg(1) H(3) chunk_nonneg [OF H(1,2)] by (auto simp: mw_putbuffer_to_call_def Let_def)
  moreover have "pc_datalen (pcs ?s p) = n" "pc_call (pcs ?s p) = c" "pc_data (pcs ?s p) = ?a" "shm ?s = ?H"
    using pc(4,7) by (simp_all add: upd_pc_simps)
  ultimately have put: "put_collected env ?s p = Some (upd_pc ?s p (\<lambda>x. x\<lparr>pc_call := ?c\<rparr>))"
    using put_collected_ok [of ?s p n env ?c] n by (simp only:)
  have "store_inv (s\<lparr>shm := ?H, callmutex := True\<rparr>) L"
    using inv(1) store_inv_cong [of "s\<lparr>shm := ?H, callmutex := True\<rparr>" s] by simp
  then have inv1: "store_inv ?s L" by (rule store_inv_upd [where i = "mkhash mwid hdl"]) (simp_all add: inv(2))
  have look: "mw_get_best_service (os env) ?s (ca_service ?c) (ca_flags ?c) = svcid" "mw_get_provider_by_serviceid ?s svcid = dest"
    "mw_get_mqid_by_mwid ?s dest = qid" "msgq ?s qid = Some q" "ipcfifolen ?s = 0" "findsegment_byid (segments (shm ?s)) 0 = Some si"
    using svc q best_service_cong [of ?s s] lookups_cong(1,2) [of ?s s] seg(2) by (simp_all add: upd_pc_def)
  define hd where "hd = fst (mw_nexthandle (os env) ?s)"
  let ?m = "?c\<lparr>ca_handle := hd, ca_svcid := svcid\<rparr>"
  have p: "p \<in> set (L (Some (mkhash mwid hdl)))" "datasegmentid ?c = 0" using inv(2) by simp_all
  obtain s2 where s2: "send_collected_call env ?s p = Some s2" "store_inv s2 (moved L (Some (mkhash mwid hdl)) (Some (mkhash mwid hd)) p)"
    "msgq s2 = (msgq s)(qid := Some (q @ [Call ?m]))" "shm s2 = ?H" "conns s2 = conns s"
    "plain (pcs s2 p) = (plain (pcs ?s p))\<lparr>pc_call := ?m, pc_status := REPLYPENDING, dst_mwid := mwid, dsthdl := hd\<rparr>"
    using send_collected_ok [OF inv1 p(1) put look(1-3) q(2) look(4) q(4) look(5) p(2) look(6)] pc(8)
    unfolding hd_def by (auto simp: upd_pc_def)
  have "dst_mwid (pcs s2 p) = mwid" "dsthdl (pcs s2 p) = hd" "srcconn (pcs s2 p) = srcconn (pcs s p)" "callmsg (pcs s2 p) = callmsg (pcs s p)"
    using arg_cong [OF s2(6), of dst_mwid] arg_cong [OF s2(6), of dsthdl] arg_cong [OF s2(6), of srcconn] arg_cong [OF s2(6), of callmsg]
    by (simp_all add: upd_pc_simps)
  moreover have "get_bytes ?H (heapinfo ?H + (ch + 16)) n = concat ds"
    using get_store_bytes [of h ?a "concat ds"] H(3) pc(9) by (simp add: add.assoc)
  ultimately show ?thesis
    using pieces s2(1-5) H(1)
    by - (rule exI [of _ "s2\<lparr>callmutex := False\<rparr>"], rule exI [of _ hd], rule exI [of _ ?m], simp add: store_inv_mutex)
qed

text \<open>
  C4. A call from the network reaches its service whole, and the reply finds its way back. When a
  call and then its data in any number of pieces arrive, and the heap has a buffer for them,
  nothing is sent before the last piece; then exactly one message is put on the queue of
  the provider, it names the service and the client, and its buffer holds all the data in
  order. The reply to its handle is matched with the connection and the message the call
  came with, and afterwards the store holds what it held before.
\<close>

theorem network_call_answered:
  assumes "store_inv st L" "\<not> callmutex st" "ipcfifolen st = 0" "accepting (os env)"
    and "heap_ok (shm st) si fr" "buffer_for (shm_env (os env)) (shm st) si fr (int (length (concat ds))) b ch cs" "ds \<noteq> []" "last ds \<noteq> []"
    and "mw_get_best_service (os env) st (strncpy service MWMAXSVCNAME) flags = svcid" "mw_get_provider_by_serviceid st svcid = dest"
    and "mw_get_mqid_by_mwid st dest = qid" "0 \<le> qid" "msgq st qid = Some q" "conn_cid (conns st cn) = mwid" "mwid \<noteq> UNASSIGNED"
  shows "\<exists>st1 st2 c. storeSRBCall env st mwid hdl mp cn (int (length (concat ds))) service ins domn flags = Some (0, st1)
    \<and> msgq st1 = msgq st \<and> store_pieces env mwid hdl ds st1 = Some st2
    \<and> msgq st2 = (msgq st)(qid := Some (q @ [Call c])) \<and> ca_service c = strncpy service MWMAXSVCNAME
    \<and> ca_cltid c = mwid \<and> ca_svcid c = svcid \<and> cdatalen c = int (length (concat ds))
    \<and> get_bytes (shm st2) (heapinfo (shm st2) + cdata c) (cdatalen c) = concat ds \<and> heap_ok (shm st2) si (fr(b := cs))
    \<and> (\<forall>r. ca_cltid r = mwid \<and> ca_handle r = ca_handle c \<and> ca_returncode r \<noteq> MWMORE \<longrightarrow>
        (\<exists>st3 fl. storeIPCReply st2 r = Some ((0, Some cn, mp), st3) \<and> \<not> callmutex st3 \<and> store_inv st3 (L(None := fl))))"
proof -
  let ?n = "int (length (concat ds))" and ?h = "mkhash mwid hdl"
  let ?c = "network_call st mwid service ins domn flags"
  let ?L = "\<lambda>p. L(None := tl (L None), Some ?h := p # L (Some ?h))"
  have n: "?n \<noteq> 0" using assms(6) by (simp add: buffer_for_def)
  obtain p st1 where st1: "storeSRBCall env st mwid hdl mp cn ?n service ins domn flags = Some (0, st1)" "store_inv st1 (?L p)" "rest_same st st1"
    "plain (pcs st1 p) = clearPendingCall\<lparr>src_mwid := mwid, srchdl := hdl, srcconn := Some cn, pc_status := CALLDATAPENDING,
       callmsg := mp, pc_datalen := ?n, pc_call := ?c\<rparr>"
    by (rule store_call_waits [OF assms(1,2) n, where env = env and mwid = mwid and hdl = hdl and mp = mp and cn = cn
          and service = service and ins = ins and domn = domn and flags = flags], rule that)
  note rs = rest_same_fields [OF st1(3)]
  have x: "src_mwid (pcs st1 p) = mwid" "srchdl (pcs st1 p) = hdl" "pc_status (pcs st1 p) = CALLDATAPENDING" "pc_datalen (pcs st1 p) = ?n"
    "datarecv (pcs st1 p) = 0" "pc_data (pcs st1 p) = 0" "pc_call (pcs st1 p) = ?c" "srcconn (pcs st1 p) = Some cn" "callmsg (pcs st1 p) = mp"
    using plain_sel [of "pcs st1 p", unfolded st1(4)] by (simp_all add: clearPendingCall_def)
  have c: "ca_cltid ?c = mwid" "ca_service ?c = strncpy service MWMAXSVCNAME" "ca_flags ?c = flags" by (simp_all add: network_call_def)
  have Lp: "?L p (Some ?h) = p # L (Some ?h)" and m1: "\<not> callmutex st1" using rs(9) assms(2) by simp_all
  have heap: "heap_ok (shm st1) si fr" "buffer_for (shm_env (os env)) (shm st1) si fr ?n b ch cs" using assms(5,6) rs(6) by simp_all
  have look: "mw_get_best_service (os env) st1 (ca_service ?c) (ca_flags ?c) = svcid" "mw_get_provider_by_serviceid st1 svcid = dest"
    "mw_get_mqid_by_mwid st1 dest = qid" "msgq st1 qid = Some q" "ipcfifolen st1 = 0"
    using assms(3,9-11,13) rs best_service_cong [of st1 st] lookups_cong(1,2) [of st1 st] c by simp_all
  obtain st2 hd m where st2: "store_pieces env mwid hdl ds st1 = Some st2" "\<not> callmutex st2"
    "store_inv st2 (moved (?L p) (Some ?h) (Some (mkhash mwid hd)) p)"
    "m = ?c\<lparr>datasegmentid := 0, cdata := ch + 16, cdatalen := ?n, ca_handle := hd, ca_svcid := svcid\<rparr>"
    "msgq st2 = (msgq st1)(qid := Some (q @ [Call m]))" "heap_ok (shm st2) si (fr(b := cs))"
    "get_bytes (shm st2) (heapinfo (shm st2) + (ch + 16)) ?n = concat ds" "conns st2 = conns st1"
    "dst_mwid (pcs st2 p) = mwid" "dsthdl (pcs st2 p) = hd" "srcconn (pcs st2 p) = Some cn" "callmsg (pcs st2 p) = mp"
    using network_data_sent [OF st1(2) Lp m1 x(1-7) c(1) refl assms(7,8) heap look(1-3) assms(12) look(4) assms(4) look(5)]
    unfolding x(8,9) by blast
  let ?L2 = "moved (?L p) (Some ?h) (Some (mkhash mwid hd)) p"
  have home: "moved ?L2 (Some (mkhash mwid hd)) None p = L(None := p # tl (L None))" by (auto simp: moved_def Let_def fun_eq_iff)
  have L2: "?L2 (Some (mkhash mwid hd)) = p # ((?L p)(Some ?h := remove1 p (?L p (Some ?h)))) (Some (mkhash mwid hd))"
    by (simp add: moved_def Let_def)
  have "\<exists>st3 fl. storeIPCReply st2 r = Some ((0, Some cn, mp), st3) \<and> \<not> callmutex st3 \<and> store_inv st3 (L(None := fl))"
    if r: "ca_cltid r = mwid" "ca_handle r = hd" "ca_returncode r \<noteq> MWMORE" for r
  proof -
    have "conn_cid (conns st2 cn) = mwid" "mw_get_caller_mwid r = mwid" using st2(8) rs(10) assms(14,15) r(1) by (simp_all add: mw_get_caller_mwid_def)
    then show ?thesis using ipc_reply_found [OF st2(3,2) L2 st2(9-12)] r(2,3) unfolding home by blast
  qed
  then show ?thesis
    using st1(1) rs(7) st2(1,4-7) c by (intro exI [of _ st1] exI [of _ st2] exI [of _ m]) simp
qed

text \<open>A gateway with an empty store in the demonstration world.\<close>

definition demo_gateway :: gwstate where
  "demo_gateway = \<lparr>ipcmain = Some demo_main, clttbl = Some [demo_client], srvtbl = Some [demo_server],
     svctbl = Some [demo_service\<lparr>svc_type := MWCALLSVC, svc_location := GWLOCAL, svc_server := 0x01000000, servicename := ''echo''\<rparr>],
     gwtbl = Some [], convtbl = Some [], my_mqid = 7, myserverid = UNASSIGNED, myclientid = 0x02000000,
     mygatewayid = UNASSIGNED, shm = demo_heap, msgq = (\<lambda>q. if q = 7 \<or> q = 8 then Some [] else None),
     callReplyQueue = [], srv_buffer = None, handle = -1, isattached = True, serviceFuncList = [],
     provided = 0, requestpending = False, subscriptions = [], next_subscriptionid = 0,
     pcs = (\<lambda>_. clearPendingCall), pcbrk = 0, pchash = (\<lambda>_. None), freelist = None, callmutex = False,
     conns = (\<lambda>_. \<lparr>conn = \<lparr>fd = 5, rejects = 0, sent = [], messagebuffer = False, som = 0, pending = [], boundary = None\<rparr>,
        connectionid = 1, conn_cid = 0x02000000, conn_gwid = UNASSIGNED, conn_role = 1, conn_state = CONNECT_STATE_UP,
        conn_type = CONN_TYPE_CLIENT, conn_cost = 100, conn_peerinfo = None\<rparr>),
     fifo = (\<lambda>_. None), fifobrk = 0, ff_head = None, ff_tail = None, ipcfifolen = 0,
     knownGWs = [], importlist = [], exportlist = [], srbsubs = [], attachInProgress = [], conntblsize = 10,
     lastconnectionid = 1, reconnect_broker = False, shutdownflag = False\<rparr>"

definition demo_gateway_proc :: "gwstate procenv" where
  "demo_gateway_proc = \<lparr>os = demo_mwenv, wait = (\<lambda>s. (EINTR, s)), rands = (\<lambda>_. 0), getpid = 1, gettimeofday = (0, 0),
     run_service = (\<lambda>_ _ s. Some (0, s)), callback = (\<lambda>_ _ _ _ s. Some s), dotasks = (\<lambda>_. None)\<rparr>"

lemma demo_gateway_inv: "store_inv demo_gateway (\<lambda>_. [])"
proof -
  have "get_slot demo_gateway (hslot k) = None" for k by (cases k) (simp_all add: demo_gateway_def)
  then show ?thesis by (simp add: store_inv_def store_ok_def chained_def)
qed

lemma demo_gateway_facts:
  "os demo_gateway_proc = demo_mwenv" "shm demo_gateway = demo_heap" "shm_env demo_mwenv = demo_env" "\<not> callmutex demo_gateway"
  "ipcfifolen demo_gateway = 0" "msgq demo_gateway 8 = Some []" "conn_cid (conns demo_gateway 0) = 0x02000000"
  "mw_get_best_service demo_mwenv demo_gateway ''echo'' 0 = 0x08000000"
  "mw_get_provider_by_serviceid demo_gateway 0x08000000 = 0x01000000" "mw_get_mqid_by_mwid demo_gateway 0x01000000 = 8"
  by (simp_all add: demo_gateway_proc_def demo_gateway_def mw_get_best_service_def mw_get_provider_by_serviceid_def mw_get_mqid_by_mwid_def
      mw_get_server_byid_def tbl_at_def tbl_length_def scan_order_def svc_matches_def service_type_def mw_irand_def id2idx_def id_kind_def
      idx2id_def strncmp_eq_def Let_def demo_mwenv_def demo_server_def demo_service_def demo_main_def)

theorem network_call_answered_witness:
  "\<exists>st1 st2 c. storeSRBCall demo_gateway_proc demo_gateway 0x02000000 5 None 0 3 ''echo'' None None 0 = Some (0, st1)
    \<and> store_pieces demo_gateway_proc 0x02000000 5 [[1, 2], [3]] st1 = Some st2 \<and> msgq st2 8 = Some [Call c] \<and> cdatalen c = 3
    \<and> get_bytes (shm st2) (heapinfo (shm st2) + cdata c) 3 = [1, 2, 3]"
proof -
  have "buffer_for demo_env demo_heap demo_seg (all_chunks (hdr demo_heap)) (int (length (concat [[1, 2], [3 :: 8 word]]))) 0 112 [216]"
    by (simp add: buffer_for_def demo_find_bin demo_chunks demo_env_def)
  then show ?thesis
    using network_call_answered [OF demo_gateway_inv demo_gateway_facts(4,5), where env = demo_gateway_proc and si = demo_seg
        and fr = "all_chunks (hdr demo_heap)" and ds = "[[1, 2], [3]]" and b = 0 and ch = 112 and cs = "[216]" and service = "''echo''"
        and flags = 0 and svcid = "0x08000000" and dest = "0x01000000" and qid = 8 and q = "[]" and cn = 0 and mwid = "0x02000000"
        and hdl = 5 and mp = None and ins = None and domn = None]
      demo_gateway_facts demo_accepting demo_heap_ok
    by (auto simp: strncpy_def)
qed


section \<open>What goes wrong\<close>

lemma sendcall_fails:
  assumes "\<forall>t. net t < 0"
  shows "fst (mw_srbsendcall net per hdl0 co h name None 0 flags) < 0"
proof -
  have "fst (mw_srbsendmessage net co m) < 0" for m
    using assms by (auto simp: mw_srbsendmessage_def mw_conn_write_def Let_def split: sum.split)
  then show ?thesis by (simp add: mw_srbsendcall_def split: prod.split)
qed



lemma del_fifo_entry_undefined: "del_fifo_entry st q = None"
  by (cases "fifo st q") (auto simp: del_fifo_entry_def Let_def split: sum.split)

lemma flush_self_loop:
  assumes "fifo st a = Some e" "ff_next e = Some a"
  shows "flush_fifo_loop env (Some a) st = None"
proof -
  have "q = Some a \<longrightarrow> fifo st a = Some e \<longrightarrow> False" if "flush_fifo_loop env q st = Some y" for env q st y
  proof (rule flush_fifo_loop.raw_induct [where P = "\<lambda>env q st y. q = Some a \<longrightarrow> fifo st a = Some e \<longrightarrow> False", OF _ that])
    fix loop :: "gwstate procenv \<Rightarrow> nat option \<Rightarrow> gwstate \<Rightarrow> gwstate option" and env q st y
    assume IH: "\<And>env q st y. loop env q st = Some y \<Longrightarrow> q = Some a \<longrightarrow> fifo st a = Some e \<longrightarrow> False"
    assume run: "(case q of None \<Rightarrow> Some st | Some a \<Rightarrow>
      (case fifo st a of None \<Rightarrow> None | Some e \<Rightarrow>
        (case mw_ipc_putmessage (os env) st (ff_mwid e) (Call (message_of st (ff_message e))) of
           (rc, st) \<Rightarrow>
             if rc = 0 then (case del_fifo_entry st a of None \<Rightarrow> None | Some (q, st) \<Rightarrow> loop env q st)
             else if rc = - errno_num EAGAIN \<or> rc = - errno_num ENOMEM then loop env (ff_next e) st
             else (case mw_getsegment_byid (mmap_file (shm_env (os env))) (shm st) (datasegmentid (message_of st (ff_message e))) of
                     (seg, h) \<Rightarrow>
                       (case drop_buffer env (st\<lparr>shm := h\<rparr>) (message_of st (ff_message e)) seg of None \<Rightarrow> None
                        | Some st \<Rightarrow> (case del_fifo_entry st a of None \<Rightarrow> None | Some (q, st) \<Rightarrow> loop env q st)))))) = Some y"
    show "q = Some a \<longrightarrow> fifo st a = Some e \<longrightarrow> False"
    proof (intro impI)
      assume q: "q = Some a" "fifo st a = Some e"
      obtain rc s1 where put: "mw_ipc_putmessage (os env) st (ff_mwid e) (Call (message_of st (ff_message e))) = (rc, s1)" by fastforce
      then have "fifo s1 a = Some e"
        using putmessage_frame [of "os env" st "ff_mwid e" "Call (message_of st (ff_message e))"] q(2) by auto
      moreover have "loop env (Some a) s1 = Some y"
        using run q put assms(2)
        by (auto simp: del_fifo_entry_undefined split: if_splits option.splits prod.splits)
      ultimately show False using IH by blast
    qed
  qed
  then show ?thesis using assms(1) by (cases "flush_fifo_loop env (Some a) st") auto
qed

text \<open>
  C36. When the queue of a receiver is full, the gateway keeps the message to send it later, but
  it never can: the only entry of the list of kept messages is its own successor, and its
  message is not memory of its own that could be freed. From then on neither flushing the list
  nor sending another message returns.
\<close>

theorem full_queue_hangs:
  assumes "ipcfifolen st = 0" "ff_head st = None" "\<forall>s. snd (wait env s) = s"
    and "mw_get_mqid_by_mwid st i = qid" "0 \<le> qid" "msgq st qid = Some q" "\<forall>m. msgsnd_err (os env) qid q m = Some EAGAIN"
  shows "\<exists>st'. ipc_sendmessage env st i (Inl p) = Some st' \<and> msgq st' = msgq st
    \<and> (\<forall>env'. flush_ipc_fifo env' st' = None) \<and> (\<forall>env' j m. ipc_sendmessage env' st' j m = None)"
proof -
  let ?c = "message_of st (Inl p)"
  obtain seg h where seg: "mw_getsegment_byid (mmap_file (shm_env (os env))) (shm st) (datasegmentid ?c) = (seg, h)" by fastforce
  let ?s = "st\<lparr>shm := h\<rparr>"
  have "mw_get_mqid_by_mwid ?s i = qid" using assms(4) lookups_cong(1) [of ?s st] by simp
  then have put: "mw_ipc_putmessage (os env) ?s i (Call ?c) = (- errno_num EAGAIN, ?s)"
    using assms(5-7) by (simp add: mw_ipc_putmessage_def msgsnd_def Let_def)
  have retry: "send_retry env i (Call ?c) n ?s = (- errno_num EAGAIN, ?s)" for n
    using assms(3) put by (induction n) simp_all
  let ?b = "fifobrk st"
  let ?e = "\<lparr>ff_mwid = i, ff_message = Inl p, ff_next = Some ?b, ff_prev = Some ?b\<rparr>"
  let ?st = "?s\<lparr>fifobrk := ?b + 1, fifo := (fifo st)(?b \<mapsto> ?e), ff_head := Some ?b, ff_tail := Some ?b, ipcfifolen := 1\<rparr>"
  have "\<exists>st'. fifo_enqueue ?s i (Inl p) = Some st' \<and> msgq st' = msgq st \<and> ipcfifolen st' = 1 \<and> ff_tail st' = Some ?b
      \<and> fifo st' ?b = Some ?e"
    using assms(1,2) by (simp add: fifo_enqueue_def upd_entry_def Let_def)
  then obtain st' where st': "fifo_enqueue ?s i (Inl p) = Some st'" "msgq st' = msgq st" "ipcfifolen st' = 1" "ff_tail st' = Some ?b"
    "fifo st' ?b = Some ?e" by blast
  have flush: "flush_ipc_fifo env' st' = None" for env'
    using st'(3,4) flush_self_loop [OF st'(5)] by (simp add: flush_ipc_fifo_def)
  have "ipc_sendmessage env st i (Inl p) = Some st'"
    using assms(1) seg retry [of 2] st'(1) by (simp add: ipc_sendmessage_def flush_ipc_fifo_def del: send_retry.simps)
  then show ?thesis using st'(2) flush by (simp add: ipc_sendmessage_def)
qed

theorem full_queue_hangs_witness:
  "\<exists>st'. ipc_sendmessage (demo_gateway_proc\<lparr>os := demo_mwenv\<lparr>msgsnd_err := (\<lambda>_ _ _. Some EAGAIN)\<rparr>\<rparr>) demo_gateway 0x01000000 (Inl 0) = Some st'
    \<and> flush_ipc_fifo demo_gateway_proc st' = None"
proof -
  let ?env = "demo_gateway_proc\<lparr>os := demo_mwenv\<lparr>msgsnd_err := (\<lambda>_ _ _. Some EAGAIN)\<rparr>\<rparr>"
  have "ff_head demo_gateway = None" "\<forall>s. snd (wait ?env s) = s" "\<forall>m. msgsnd_err (os ?env) 8 [] m = Some EAGAIN"
    by (simp_all add: demo_gateway_def demo_gateway_proc_def)
  then show ?thesis
    using full_queue_hangs [OF demo_gateway_facts(5), of ?env "0x01000000" 8 "[]" 0] demo_gateway_facts(6,10) by auto
qed

end
