(* ===== verification/CallInv.thy ===== *)
theory CallInv
  imports CallStoreProps
begin

text \<open>
  The invariant of the gateway's store of calls over every sequence of its operations: the
  lists of the hash table stay well formed, and every call is in a bucket in which one of
  its two keys leads to it.
\<close>

section \<open>What sending leaves alone\<close>

definition kept :: "gwstate \<Rightarrow> gwstate \<Rightarrow> bool" where
  "kept st st' \<longleftrightarrow> pcs st' = pcs st \<and> pchash st' = pchash st \<and> freelist st' = freelist st \<and> pcbrk st' = pcbrk st"

lemma kept_refl [simp]: "kept st st" "kept st (st\<lparr>shm := h\<rparr>)" "kept st (st\<lparr>msgq := q\<rparr>)" "kept st (st\<lparr>conns := c\<rparr>)"
  "kept st (st\<lparr>callmutex := b\<rparr>)" "kept st (st\<lparr>handle := i\<rparr>)"
  by (simp_all add: kept_def)

lemma kept_trans: "kept s t \<Longrightarrow> kept t u \<Longrightarrow> kept s u"
  by (simp add: kept_def)

lemma kept_put: "mw_ipc_putmessage e st i m = (rc, st') \<Longrightarrow> kept st st'"
  using putmessage_frame [of e st i m] by auto

lemma kept_flush_loop:
  assumes "flush_fifo_loop env q st = Some st'"
  shows "kept st st'"
  using _ assms
proof (rule flush_fifo_loop.raw_induct [where P = "\<lambda>env q st st'. kept st st'"], goal_cases)
  case (1 loop env q st st')
  show ?case
  proof (cases q)
    case None
    then show ?thesis using 1(2) by simp
  next
    case (Some a)
    obtain e where e: "fifo st a = Some e" using 1(2) Some by (cases "fifo st a") auto
    obtain rc s1 where put: "mw_ipc_putmessage (os env) st (ff_mwid e) (Call (message_of st (ff_message e))) = (rc, s1)" by fastforce
    have "loop env (ff_next e) s1 = Some st'"
      using 1(2) Some e put by (auto simp: del_fifo_entry_undefined split: if_splits option.splits prod.splits)
    then show ?thesis using kept_trans [OF kept_put [OF put] 1(1)] by blast
  qed
qed

lemma kept_flush: "flush_ipc_fifo env st = Some (n, st') \<Longrightarrow> kept st st'"
  using kept_flush_loop by (auto simp: flush_ipc_fifo_def split: if_splits)

lemma kept_retry:
  assumes "\<forall>s. kept s (snd (wait env s))"
  shows "send_retry env i m n st = (rc, st') \<Longrightarrow> kept st st'"
proof (induction n arbitrary: st)
  case 0
  then show ?case using kept_put by (auto split: prod.splits)
next
  case (Suc n)
  obtain rc1 s1 where put: "mw_ipc_putmessage (os env) st i m = (rc1, s1)" by fastforce
  then show ?case
    using Suc.prems Suc.IH [of "snd (wait env s1)"] kept_put [OF put] assms kept_trans [of st s1] kept_trans [of s1 "snd (wait env s1)" st']
    by (auto split: if_splits)
qed

lemma kept_drop: "drop_buffer env st c seg = Some st' \<Longrightarrow> kept st st'"
  by (auto simp: drop_buffer_def kept_def split: if_splits bind_splits)

lemma kept_enqueue: "fifo_enqueue st i m = Some st' \<Longrightarrow> kept st st'"
  by (auto simp: fifo_enqueue_def upd_entry_def kept_def Let_def split: if_splits bind_splits)

lemma kept_send:
  assumes "\<forall>s. kept s (snd (wait env s))" "ipc_sendmessage env st i m = Some st'"
  shows "kept st st'"
proof -
  obtain n s1 where s1: "flush_ipc_fifo env st = Some (n, s1)" using assms(2) by (auto simp: ipc_sendmessage_def split: bind_splits)
  let ?c = "message_of s1 m"
  obtain seg h where seg: "mw_getsegment_byid (mmap_file (shm_env (os env))) (shm s1) (datasegmentid ?c) = (seg, h)" by fastforce
  obtain rc s2 where s2: "send_retry env i (Call ?c) 2 (s1\<lparr>shm := h\<rparr>) = (rc, s2)" by fastforce
  have "kept s2 st'"
    using assms(2) s1 seg s2 kept_drop kept_enqueue
    by (auto simp: ipc_sendmessage_def Let_def simp del: send_retry.simps split: if_splits)
  moreover have "kept st s2"
    using kept_flush [OF s1] kept_retry [OF assms(1) s2] kept_trans [of s1 "s1\<lparr>shm := h\<rparr>" s2] kept_trans [of st s1 s2] by simp
  ultimately show ?thesis using kept_trans by blast
qed

section \<open>Calls are found under their keys\<close>

definition keyed :: "gwstate \<Rightarrow> nat \<Rightarrow> nat \<Rightarrow> bool" where
  "keyed st i p \<longleftrightarrow> mkhash (src_mwid (pcs st p)) (srchdl (pcs st p)) = i \<or> mkhash (dst_mwid (pcs st p)) (dsthdl (pcs st p)) = i"

definition store_good :: "gwstate \<Rightarrow> (nat option \<Rightarrow> nat list) \<Rightarrow> bool" where
  "store_good st L \<longleftrightarrow> store_inv st L \<and> (\<forall>i. \<forall>p \<in> set (L (Some i)). keyed st i p)"

lemma keyed_cong: "plain (pcs st' p) = plain (pcs st p) \<Longrightarrow> keyed st' i p = keyed st i p"
  unfolding keyed_def by (metis plain_sel)

lemma keyed_other: "q \<noteq> p \<Longrightarrow> keyed (upd_pc st p f) i q = keyed st i q"
  by (simp add: keyed_def upd_pc_def)

lemma good_kept: "kept st st' \<Longrightarrow> store_good st L \<Longrightarrow> store_good st' L"
  using store_inv_cong [of st' st L] by (simp add: kept_def store_good_def keyed_def)

lemma good_upd:
  assumes "store_good st L" "p \<in> set (L (Some i))"
    and "\<And>x. pc_next (f x) = pc_next x" "\<And>x. pc_root (f x) = pc_root x"
    and "\<And>x. src_mwid (f x) = src_mwid x" "\<And>x. srchdl (f x) = srchdl x"
    and "\<And>x. dst_mwid (f x) = dst_mwid x" "\<And>x. dsthdl (f x) = dsthdl x"
  shows "store_good (upd_pc st p f) L"
  using assms store_inv_upd [of st L p i f] by (auto simp: store_good_def keyed_def upd_pc_def)

text \<open>A call that has been given its second key is in the bucket of that key.\<close>

lemma good_rehash:
  assumes "store_inv st L" "p \<in> set (L (Some i))" "\<forall>j. \<forall>q \<in> set (L (Some j)). q \<noteq> p \<longrightarrow> keyed st j q"
    and "dst_mwid (pcs st p) = mwid" "dsthdl (pcs st p) = hdl" "rehashPendingCall st p mwid hdl = Some st'"
  shows "\<exists>L'. store_good st' L' \<and> p \<in> set (L' (Some (mkhash mwid hdl)))"
proof -
  let ?k = "mkhash mwid hdl" and ?L = "moved L (Some i) (Some (mkhash mwid hdl)) p"
  have ok: "store_ok st L" using assms(1) by (simp add: store_inv_def)
  obtain s' where "rehashPendingCall st p mwid hdl = Some s'" "store_ok s' ?L" "same_calls st s'"
    by (rule rehash_ok [OF ok assms(2), of mwid hdl])
  then have s': "store_ok st' ?L" "\<And>q. plain (pcs st' q) = plain (pcs st q)"
    using assms(6) same_calls_plain by auto
  have "store_inv st' ?L"
    using s' assms(1,2) mkhash_less [of mwid hdl] by (auto simp: store_inv_def moved_def Let_def)
  moreover have "keyed st' j q" if "q \<in> set (?L (Some j))" for j q
  proof (cases "q = p")
    case True
    have "p \<notin> set (L (Some j'))" if "j' \<noteq> i" for j' using store_inv_apart(3) [OF assms(1,2), of "Some j'"] that by auto
    then have "j = ?k" using that True store_inv_apart(1) [OF assms(1,2)]
      by (cases "j = i") (auto simp: moved_def Let_def split: if_splits)
    then show ?thesis using True assms(4,5) s'(2) [of p] unfolding keyed_def by (metis plain_sel)
  next
    case False
    then have "q \<in> set (L (Some j))" using that set_moved [of L "Some i" "Some ?k" p "Some j"] by auto
    then show ?thesis using assms(3) False keyed_cong [OF s'(2)] by blast
  qed
  ultimately show ?thesis by (intro exI [of _ ?L]) (simp add: store_good_def moved_def Let_def)
qed

lemma good_new:
  assumes "store_good st L" "newPendingCall st mwid hdl = Some (p, st')"
  shows "\<exists>L'. store_good st' L' \<and> p \<in> set (L' (Some (mkhash mwid hdl)))"
proof -
  let ?k = "mkhash mwid hdl"
  let ?L = "L(None := tl (L None), Some ?k := p # L (Some ?k))"
  have "store_inv st L" using assms(1) by (simp add: store_good_def)
  then have n: "store_inv st' ?L" "\<And>q. q \<noteq> p \<Longrightarrow> plain (pcs st' q) = plain (pcs st q)"
    "plain (pcs st' p) = clearPendingCall\<lparr>src_mwid := mwid, srchdl := hdl\<rparr>" "\<And>i. p \<notin> set (L (Some i))"
    using assms(2) by - (erule new_ok [where mwid = mwid and hdl = hdl]; simp)+
  have "src_mwid (plain (pcs st' p)) = mwid" "srchdl (plain (pcs st' p)) = hdl" by (simp_all add: n(3))
  then have "keyed st' ?k p" by (simp add: keyed_def)
  moreover have "keyed st' i q" if "q \<in> set (L (Some i))" for i q
  proof -
    have "q \<noteq> p" using that n(4) by auto
    then show ?thesis using assms(1) that keyed_cong [OF n(2)] by (simp add: store_good_def)
  qed
  ultimately show ?thesis using n(1) by (intro exI [of _ ?L]) (auto simp: store_good_def)
qed

lemma good_free:
  assumes "store_good st L" "p \<in> set (L (Some i))" "freePendingCall st p = Some st'"
  shows "\<exists>L'. store_good st' L'"
proof -
  let ?L = "moved L (Some i) None p"
  have inv: "store_inv st L" using assms(1) by (simp add: store_good_def)
  obtain s1 where "freePendingCall st p = Some s1" "store_inv s1 ?L" "\<And>q. q \<noteq> p \<Longrightarrow> plain (pcs s1 q) = plain (pcs st q)"
    by (rule free_ok [OF inv assms(2)], rule that)
  then have f: "store_inv st' ?L" "\<And>q. q \<noteq> p \<Longrightarrow> plain (pcs st' q) = plain (pcs st q)"
    using assms(3) by auto
  have "keyed st' j q" if "q \<in> set (?L (Some j))" for j q
  proof -
    have "q \<in> set (L (Some j)) \<and> q \<noteq> p"
      using that store_inv_apart(1,3) [OF inv assms(2)] by (auto simp: moved_def Let_def split: if_splits)
    then show ?thesis using assms(1) keyed_cong [OF f(2)] by (simp add: store_good_def)
  qed
  then show ?thesis using f(1) by (auto simp: store_good_def)
qed

lemma good_unlink:
  assumes "store_good st L" "p \<in> set (L (Some i))" "unlinkPendingCall st p = Some st'"
  shows "\<exists>L'. store_good st' L'"
proof -
  let ?L = "L(Some i := remove1 p (L (Some i)))"
  have "store_ok st L" using assms(1) by (simp add: store_good_def store_inv_def)
  then have "store_ok st' ?L" using store_ok_unlink [of st L p "Some i"] assms(2,3) by auto
  moreover have pl: "plain (pcs st' q) = plain (pcs st q)" for q using same_calls_plain [OF same_calls_unlink [OF assms(3)]] .
  moreover have "set (?L (Some j)) \<subseteq> set (L (Some j))" for j using set_remove1_subset [of p "L (Some i)"] by auto
  ultimately have "store_good st' ?L"
    using assms(1,2) keyed_cong [OF pl] unfolding store_good_def store_inv_def
    by (simp add: subset_iff del: fun_upd_apply) auto
  then show ?thesis by blast
qed

section \<open>Every operation keeps the invariant\<close>

definition waits_keep :: "gwstate procenv \<Rightarrow> bool" where
  "waits_keep env \<longleftrightarrow> (\<forall>s. kept s (snd (wait env s)))"

lemma good_collected:
  assumes "store_good st L" "p \<in> set (L (Some i))" "put_collected env st p = Some st'"
  shows "store_good st' L"
proof (cases "pc_datalen (pcs st p) > 0")
  case True
  then obtain h c where "st' = upd_pc (st\<lparr>shm := h\<rparr>) p (\<lambda>x. x\<lparr>pc_call := c\<rparr>)" using assms(3) by (auto simp: put_collected_def Let_def)
  then show ?thesis using good_upd [OF good_kept [OF kept_refl(2) assms(1)] assms(2)] by simp
qed (use assms in \<open>simp add: put_collected_def Let_def\<close>)

lemma good_send_call:
  assumes "waits_keep env" "store_good st L" "p \<in> set (L (Some i))" "send_collected_call env st p = Some st'"
  shows "\<exists>L'. store_good st' L'"
proof -
  obtain s1 where s1: "put_collected env st p = Some s1" using assms(4) by (auto simp: send_collected_call_def split: bind_splits)
  define hdl where "hdl = fst (mw_nexthandle (os env) s1)"
  have nh: "mw_nexthandle (os env) s1 = (hdl, s1\<lparr>handle := hdl\<rparr>)" unfolding hdl_def by (rule nexthandle_frame)
  let ?s2 = "upd_pc (s1\<lparr>handle := hdl\<rparr>) p (\<lambda>x. x\<lparr>pc_call := (pc_call x)\<lparr>ca_handle := hdl\<rparr>, pc_status := REPLYPENDING\<rparr>)"
  let ?c = "pc_call (pcs ?s2 p)"
  let ?s3 = "upd_pc ?s2 p (\<lambda>x. x\<lparr>dst_mwid := ca_cltid ?c, dsthdl := ca_handle ?c\<rparr>)"
  obtain s4 where s4: "rehashPendingCall ?s3 p (ca_cltid ?c) (ca_handle ?c) = Some s4"
    using assms(4) s1 nh by (auto simp: send_collected_call_def Let_def split: bind_splits)
  obtain svcid srvid where send: "ipc_sendmessage env (upd_pc s4 p (\<lambda>x. x\<lparr>pc_call := (pc_call x)\<lparr>ca_svcid := svcid\<rparr>\<rparr>)) srvid (Inl p) = Some st'"
    using assms(4) s1 nh s4 by (auto simp: send_collected_call_def Let_def)
  have gh: "store_good (s1\<lparr>handle := hdl\<rparr>) L" using good_kept [OF kept_refl(6) good_collected [OF assms(2,3) s1]] .
  then have g2: "store_good ?s2 L" using assms(3) by (rule good_upd) simp_all
  have "store_inv ?s3 L" using g2 assms(3) by - (rule store_inv_upd [where i = i]; simp add: store_good_def)
  moreover have "\<forall>j. \<forall>q \<in> set (L (Some j)). q \<noteq> p \<longrightarrow> keyed ?s3 j q"
    using gh by (simp add: store_good_def keyed_other)
  moreover have "dst_mwid (pcs ?s3 p) = ca_cltid ?c" "dsthdl (pcs ?s3 p) = ca_handle ?c" by (simp_all add: upd_pc_def)
  ultimately obtain L' where "store_good s4 L'" "p \<in> set (L' (Some (mkhash (ca_cltid ?c) (ca_handle ?c))))"
    using good_rehash [of ?s3 L p i, OF _ assms(3) _ _ _ s4] by blast
  then have "store_good (upd_pc s4 p (\<lambda>x. x\<lparr>pc_call := (pc_call x)\<lparr>ca_svcid := svcid\<rparr>\<rparr>)) L'" by (rule good_upd) simp_all
  then show ?thesis using good_kept [OF kept_send [OF _ send]] assms(1) by (auto simp: waits_keep_def)
qed

lemma good_send_reply:
  assumes "waits_keep env" "store_good st L" "p \<in> set (L (Some i))" "send_collected_reply env st p = Some st'"
  shows "\<exists>L'. store_good st' L'"
proof -
  obtain s1 where s1: "put_collected env st p = Some s1" using assms(4) by (auto simp: send_collected_reply_def split: bind_splits)
  let ?s2 = "upd_pc s1 p (\<lambda>x. x\<lparr>pc_call := (pc_call x)\<lparr>ca_mtype := SVCREPLY, ca_srvid := mygatewayid s1\<rparr>\<rparr>)"
  obtain s3 where s3: "ipc_sendmessage env ?s2 (src_mwid (pcs ?s2 p)) (Inl p) = Some s3"
    using assms(4) s1 by (auto simp: send_collected_reply_def Let_def split: bind_splits)
  have "store_good ?s2 L" using good_collected [OF assms(2,3) s1] assms(3) by (rule good_upd) simp_all
  then have g3: "store_good s3 L" using good_kept [OF kept_send [OF _ s3]] assms(1) by (simp add: waits_keep_def)
  have "store_good (upd_pc s3 p (\<lambda>x. x\<lparr>pc_status := REPLYPENDING, datarecv := 0, pc_datalen := 0, pc_data := 0\<rparr>)) L"
    using g3 assms(3) by (rule good_upd) simp_all
  then show ?thesis
    using assms(4) s1 s3 good_free [OF g3 assms(3)]
    by (auto simp: send_collected_reply_def Let_def split: if_splits)
qed

lemma good_complete:
  assumes "waits_keep env" "store_good st L" "p \<in> set (L (Some i))" "check_if_complete env st p = Some st'"
  shows "\<exists>L'. store_good st' L'"
  using assms(2,4) good_send_call [OF assms(1-3)] good_send_reply [OF assms(1-3)]
  by (auto simp: check_if_complete_def Let_def split: if_splits)

lemma good_lookup:
  assumes "store_good st L" "lookupPendingCall st mwid hdl = Some (Some p)"
  shows "p \<in> set (L (Some (mkhash mwid hdl)))"
  using assms lookup_find [of st L mwid hdl] by (auto simp: store_good_def store_inv_def find_Some_iff in_set_conv_nth)

lemma locked_run:
  assumes "locked st f = Some (r, st')" "store_good st L"
  obtains s' where "f (st\<lparr>callmutex := True\<rparr>) = Some (r, s')" "store_good (st\<lparr>callmutex := True\<rparr>) L"
    "(\<exists>L'. store_good s' L') \<Longrightarrow> (\<exists>L'. store_good st' L')"
proof -
  obtain s' where s': "f (st\<lparr>callmutex := True\<rparr>) = Some (r, s')" "st' = s'\<lparr>callmutex := False\<rparr>"
    using assms(1) by (auto simp: locked_def split: if_splits)
  show thesis
    using that [OF s'(1) good_kept [OF kept_refl(5) assms(2)]] good_kept [OF kept_refl(5), of s'] s'(2) by blast
qed

definition keeps_place :: "(pendingcall \<Rightarrow> pendingcall) \<Rightarrow> bool" where
  "keeps_place f \<longleftrightarrow> (\<forall>x. pc_next (f x) = pc_next x \<and> pc_root (f x) = pc_root x
      \<and> src_mwid (f x) = src_mwid x \<and> srchdl (f x) = srchdl x \<and> dst_mwid (f x) = dst_mwid x \<and> dsthdl (f x) = dsthdl x)"

lemma good_place: "store_good st L \<Longrightarrow> p \<in> set (L (Some i)) \<Longrightarrow> keeps_place f \<Longrightarrow> store_good (upd_pc st p f) L"
  by (rule good_upd) (simp_all add: keeps_place_def)

lemma good_srbcall:
  assumes "waits_keep env" "store_good st L" "storeSRBCall env st mwid hdl mp cn n service ins domn flags = Some (rc, st')"
  shows "\<exists>L'. store_good st' L'"
  using assms(3) unfolding storeSRBCall_def
proof (rule locked_run [OF _ assms(2)], goal_cases)
  case (1 s')
  let ?st = "st\<lparr>callmutex := True\<rparr>"
  obtain p s1 where s1: "newPendingCall ?st mwid hdl = Some (p, s1)" using 1(1) by (auto simp: bind_eq_Some_conv)
  let ?f = "\<lambda>x. x\<lparr>srcconn := Some cn, pc_status := CALLDATAPENDING, callmsg := mp, pc_datalen := n,
         pc_call := (pc_call x)\<lparr>ca_mtype := SVCCALL, ca_cltid := mwid, ca_srvid := UNASSIGNED, ca_gwid := mygatewayid s1,
           ca_service := strncpy service MWMAXSVCNAME,
           ca_instance := (case ins of None \<Rightarrow> ca_instance (pc_call x) | Some s \<Rightarrow> strncpy s MWMAXNAMELEN),
           ca_domainname := (case domn of None \<Rightarrow> ca_domainname (pc_call x) | Some s \<Rightarrow> strncpy s MWMAXNAMELEN),
           ca_flags := flags\<rparr>\<rparr>"
  have f: "check_if_complete env (upd_pc s1 p ?f) p = Some s'" "keeps_place ?f"
    using 1(1) s1 by (simp_all add: keeps_place_def Let_def bind_eq_Some_conv)
  obtain L' where L': "store_good s1 L'" "p \<in> set (L' (Some (mkhash mwid hdl)))" using good_new [OF 1(2) s1] by blast
  show ?case using good_complete [OF assms(1) good_place [OF L' f(2)] L'(2) f(1)] 1(3) by blast
qed

lemma good_srbdata:
  assumes "waits_keep env" "store_good st L" "storeSRBData env st mwid hdl d = Some (rc, st')"
  shows "\<exists>L'. store_good st' L'"
  using assms(3) unfolding storeSRBData_def
proof (rule locked_run [OF _ assms(2)], goal_cases)
  case (1 s')
  define t where "t = st\<lparr>callmutex := True\<rparr>"
  note run = 1 [folded t_def]
  obtain r where r: "lookupPendingCall t mwid hdl = Some r" using run(1) by (auto simp: bind_eq_Some_conv)
  show ?case
  proof (cases r)
    case None
    then show ?thesis using run r by auto
  next
    case (Some p)
    note p = good_lookup [OF run(2) r [unfolded Some]]
    define s1 where "s1 = (if pc_datalen (pcs t p) < 0 then upd_pc t p (\<lambda>x. x\<lparr>pc_datalen := int (length d)\<rparr>) else t)"
    have g1: "store_good s1 L" using run(2) good_place [OF run(2) p, of "\<lambda>x. x\<lparr>pc_datalen := int (length d)\<rparr>"]
      by (simp add: s1_def keeps_place_def)
    obtain s2 where s2: "(if pc_data (pcs s1 p) \<noteq> 0 then Some s1
        else map_option (\<lambda>(a, h). upd_pc (s1\<lparr>shm := h\<rparr>) p (\<lambda>x. x\<lparr>pc_data := a\<rparr>))
               (mwalloc (shm_env (os env)) (shm s1) (pc_datalen (pcs s1 p)))) = Some s2"
      using run(1) r Some by (auto simp: s1_def [symmetric] Let_def bind_eq_Some_conv simp del: map_option_eq_Some cong: if_cong)
    have g2: "store_good s2 L"
      using s2 g1 good_place [OF good_kept [OF kept_refl(2) g1] p, of "\<lambda>x. x\<lparr>pc_data := a\<rparr>" for a]
      by (auto simp: keeps_place_def split: if_splits)
    let ?f = "\<lambda>x. x\<lparr>datarecv := datarecv x + int (length d)\<rparr>"
    obtain h where h: "check_if_complete env (upd_pc (s2\<lparr>shm := h\<rparr>) p ?f) p = Some s'"
      using run(1) r Some s2
      by (simp add: s1_def [symmetric] Let_def bind_eq_Some_conv split: if_split_asm del: map_option_eq_Some cong: if_cong)
    have g: "store_good (upd_pc (s2\<lparr>shm := h\<rparr>) p ?f) L"
      using good_kept [OF kept_refl(2) g2] p by (rule good_place) (simp add: keeps_place_def)
    show ?thesis using good_complete [OF assms(1) g p h] run(3) by blast
  qed
qed

lemma good_srbreply:
  assumes "waits_keep env" "store_good st L" "storeSRBReply env st mwid hdl mp rcode apprcode n = Some (rc, st')"
  shows "\<exists>L'. store_good st' L'"
  using assms(3) unfolding storeSRBReply_def
proof (rule locked_run [OF _ assms(2)], goal_cases)
  case (1 s')
  define t where "t = st\<lparr>callmutex := True\<rparr>"
  note run = 1 [folded t_def]
  obtain r where r: "lookupPendingCall t mwid hdl = Some r" using run(1) by (auto simp: bind_eq_Some_conv)
  show ?case
  proof (cases r)
    case None
    then show ?thesis using run r by auto
  next
    case (Some p)
    note p = good_lookup [OF run(2) r [unfolded Some]]
    let ?f = "\<lambda>x. x\<lparr>pc_call := (pc_call x)\<lparr>ca_returncode := rcode, appreturncode := apprcode\<rparr>,
               pc_status := REPLYDATAPENDING, replymsg := mp, pc_datalen := n\<rparr>"
    have c: "check_if_complete env (upd_pc t p ?f) p = Some s'" using run(1) r Some by (simp add: Let_def bind_eq_Some_conv split: if_split_asm)
    have g: "store_good (upd_pc t p ?f) L" using run(2) p by (rule good_place) (simp add: keeps_place_def)
    show ?thesis using good_complete [OF assms(1) g p c] run(3) by blast
  qed
qed

lemma good_clear:
  assumes "store_good st L" "storeSRBClearClient st mwid = Some (rc, st')"
  shows "\<exists>L'. store_good st' L'"
proof -
  let ?L = "\<lambda>fl k. case k of None \<Rightarrow> fl | Some i \<Rightarrow> filter (\<lambda>p. src_mwid (pcs st p) \<noteq> mwid) (L (Some i))"
  have m: "\<not> callmutex st"
  proof
    assume "callmutex st"
    then show False using assms(2) by (simp add: storeSRBClearClient_def locked_def)
  qed
  have "store_inv st L" using assms(1) by (simp add: store_good_def)
  from client_cleared [OF this m, of mwid] obtain s1 fl where s1: "storeSRBClearClient st mwid = Some (0, s1)" "store_inv s1 (?L fl)"
    "\<forall>i q. q \<in> set (L (Some i)) \<and> src_mwid (pcs st q) \<noteq> mwid \<longrightarrow> plain (pcs s1 q) = plain (pcs st q)" by blast
  have "keyed s1 i q" if "q \<in> set (?L fl (Some i))" for i q
  proof -
    have "plain (pcs s1 q) = plain (pcs st q)" using s1(3) [rule_format, of q i] that by simp
    then show ?thesis using assms(1) that keyed_cong [of s1 q st i] by (simp add: store_good_def)
  qed
  then have "store_good s1 (?L fl)" using s1(2) unfolding store_good_def by blast
  moreover have "s1 = st'" using s1(1) assms(2) by simp
  ultimately show ?thesis by blast
qed

lemma good_ipcreply:
  assumes "store_good st L" "storeIPCReply st cmsg = Some (r, st')"
  shows "\<exists>L'. store_good st' L'"
  using assms(2) unfolding storeIPCReply_def
proof (rule locked_run [OF _ assms(1)], goal_cases)
  case (1 s')
  define t where "t = st\<lparr>callmutex := True\<rparr>"
  note run = 1 [folded t_def]
  obtain r where r: "lookupPendingCall t (mw_get_caller_mwid cmsg) (ca_handle cmsg) = Some r"
    using run(1) by (auto simp: bind_eq_Some_conv Let_def)
  show ?case
  proof (cases r)
    case None
    then show ?thesis using run r by auto
  next
    case (Some p)
    note p = good_lookup [OF run(2) r [unfolded Some]]
    have "store_good (upd_pc t p (\<lambda>x. x\<lparr>callmsg := None\<rparr>)) L" using run(2) p by (rule good_place) (simp add: keeps_place_def)
    from good_free [OF this p] show ?thesis
      using run r Some by (auto simp: Let_def bind_eq_Some_conv split: if_splits)
  qed
qed

lemma good_ipccall:
  assumes "store_good st L" "storeIPCCall env net per hdl0 st cmsg cn = Some (rc, st')"
  shows "\<exists>L'. store_good st' L'"
proof -
  define t where "t = st\<lparr>callmutex := True\<rparr>"
  have m: "\<not> callmutex st"
  proof
    assume "callmutex st"
    then show False using assms(2) by (simp add: storeIPCCall_def)
  qed
  let ?mwid = "mw_get_caller_mwid cmsg" and ?hdl = "ca_handle cmsg"
  obtain p s1 where s1: "newPendingCall t ?mwid ?hdl = Some (p, s1)"
    using assms(2) m by (auto simp: storeIPCCall_def t_def [symmetric] bind_eq_Some_conv)
  have "store_good t L" using assms(1) good_kept [OF kept_refl(5)] by (simp add: t_def)
  then obtain L1 where L1: "store_good s1 L1" "p \<in> set (L1 (Some (mkhash ?mwid ?hdl)))" using good_new [OF _ s1] by blast
  define hd where "hd = fst (mw_nexthandle (os env) s1)"
  have nh: "mw_nexthandle (os env) s1 = (hd, s1\<lparr>handle := hd\<rparr>)" unfolding hd_def by (rule nexthandle_frame)
  define s2 where "s2 = s1\<lparr>handle := hd\<rparr>"
  have g2: "store_good s2 L1" using good_kept [OF kept_refl(6) L1(1)] by (simp add: s2_def)
  let ?gw = "conn_gwid (conns s2 cn)"
  define s3 where "s3 = upd_pc s2 p (\<lambda>x. x\<lparr>ipchdl := ?hdl, dst_mwid := ?gw, dsthdl := hd\<rparr>)"
  have cs: "conns s3 = conns s2" by (simp add: s3_def upd_pc_def)
  obtain s4 where s4: "rehashPendingCall s3 p ?gw hd = Some s4"
    using assms(2) m s1 nh by (auto simp: storeIPCCall_def t_def [symmetric] s2_def [symmetric] s3_def [symmetric] cs bind_eq_Some_conv Let_def)
  have "store_inv s3 L1" unfolding s3_def using g2 L1(2) by - (rule store_inv_upd; simp add: store_good_def)
  moreover have "\<forall>j. \<forall>q \<in> set (L1 (Some j)). q \<noteq> p \<longrightarrow> keyed s3 j q" using g2 by (simp add: store_good_def s3_def keyed_other)
  moreover have "dst_mwid (pcs s3 p) = ?gw" "dsthdl (pcs s3 p) = hd" by (simp_all add: s3_def upd_pc_def)
  ultimately obtain L4 where L4: "store_good s4 L4" "p \<in> set (L4 (Some (mkhash ?gw hd)))"
    using good_rehash [of s3 L1 p "mkhash ?mwid ?hdl", OF _ L1(2) _ _ _ s4] by blast
  define s5 where "s5 = upd_pc s4 p (\<lambda>x. x\<lparr>dstconn := Some cn\<rparr>)"
  have g5: "store_good s5 L4" unfolding s5_def using L4 by (rule good_place) (simp add: keeps_place_def)
  obtain rc1 data len h where buf: "mw_getbuffer_from_call (shm_env (os env)) (shm s5) cmsg = Some (rc1, data, len, h)"
    using assms(2) m s1 nh s4
    by (auto simp: storeIPCCall_def t_def [symmetric] s2_def [symmetric] s3_def [symmetric] s5_def [symmetric] cs bind_eq_Some_conv Let_def)
  define s6 where "s6 = s5\<lparr>shm := h\<rparr>"
  have g6: "store_good s6 L4" using good_kept [OF kept_refl(2) g5] by (simp add: s6_def)
  obtain rc2 co where send: "mw_srbsendcall net per hdl0 (conn (conns s6 cn)) (word_of_int hd) (ca_service cmsg)
                (map_option (map (\<lambda>b. char_of (unat b))) data) (nat len) (word_of_int (ca_flags cmsg)) = (rc2, co)" by fastforce
  define s7 where "s7 = s6\<lparr>conns := (conns s6)(cn := (conns s6 cn)\<lparr>conn := co\<rparr>)\<rparr>"
  have g7: "store_good s7 L4" using good_kept [OF kept_refl(4) g6] by (simp add: s7_def)
  have "st' = (upd_pc s7 p (\<lambda>x. x\<lparr>pc_call := cmsg, pc_status := REPLYPENDING\<rparr>))\<lparr>callmutex := False\<rparr> \<or> unlinkPendingCall s6 p = Some st'
      \<or> unlinkPendingCall s7 p = Some st'"
    using assms(2) m s1 nh s4 buf send
    by (auto simp: storeIPCCall_def t_def [symmetric] s2_def [symmetric] s3_def [symmetric] s5_def [symmetric] s6_def [symmetric]
        s7_def [symmetric] cs Let_def split: if_splits)
  moreover have "store_good (upd_pc s7 p (\<lambda>x. x\<lparr>pc_call := cmsg, pc_status := REPLYPENDING\<rparr>)) L4"
    using g7 L4(2) by (rule good_place) (simp add: keeps_place_def)
  ultimately show ?thesis using good_unlink [OF g6 L4(2)] good_unlink [OF g7 L4(2)] good_kept [OF kept_refl(5)] by blast
qed

section \<open>Sequences of operations\<close>

inductive store_step :: "gwstate procenv \<Rightarrow> (string \<Rightarrow> int) \<Rightarrow> nat \<Rightarrow> string \<Rightarrow> gwstate \<Rightarrow> gwstate \<Rightarrow> bool"
  for env net per hdl0 where
  step_call: "storeSRBCall env st mwid hdl mp cn n service ins domn flags = Some (rc, st') \<Longrightarrow> store_step env net per hdl0 st st'"
| step_data: "storeSRBData env st mwid hdl d = Some (rc, st') \<Longrightarrow> store_step env net per hdl0 st st'"
| step_reply: "storeSRBReply env st mwid hdl mp rcode apprcode n = Some (rc, st') \<Longrightarrow> store_step env net per hdl0 st st'"
| step_clear: "storeSRBClearClient st mwid = Some (rc, st') \<Longrightarrow> store_step env net per hdl0 st st'"
| step_ipccall: "storeIPCCall env net per hdl0 st cmsg cn = Some (rc, st') \<Longrightarrow> store_step env net per hdl0 st st'"
| step_ipcreply: "storeIPCReply st cmsg = Some (r, st') \<Longrightarrow> store_step env net per hdl0 st st'"

lemma good_step:
  assumes "store_step env net per hdl0 st st'" "waits_keep env" "store_good st L"
  shows "\<exists>L'. store_good st' L'"
  using assms(1)
  by cases (rule good_srbcall good_srbdata good_srbreply good_clear good_ipccall good_ipcreply, (rule assms)+, assumption)+

lemma good_steps:
  assumes "(store_step env net per hdl0)\<^sup>*\<^sup>* st st'" "waits_keep env" "store_good st L"
  shows "\<exists>L'. store_good st' L'"
  using assms(1)
proof induction
  case base
  show ?case using assms(3) by blast
next
  case (step s t)
  then show ?case using good_step [OF step.hyps(2) assms(2)] by blast
qed

lemma good_found:
  assumes "store_good st L" "p \<in> set (L (Some i))"
  shows "\<exists>mwid hdl q. mkhash mwid hdl = i \<and> matches st mwid hdl p \<and> lookupPendingCall st mwid hdl = Some (Some q) \<and> matches st mwid hdl q"
proof -
  obtain mwid hdl where k: "mkhash mwid hdl = i" "matches st mwid hdl p"
    using assms unfolding store_good_def keyed_def matches_def by metis
  have "store_ok st L" using assms(1) by (simp add: store_good_def store_inv_def)
  moreover obtain q where "List.find (matches st mwid hdl) (L (Some i)) = Some q" "matches st mwid hdl q"
    using assms(2) k(2) by (cases "List.find (matches st mwid hdl) (L (Some i))") (auto simp: find_None_iff find_Some_iff)
  ultimately show ?thesis using lookup_find [of st L mwid hdl] k by auto
qed

text \<open>
  C5. The store of calls stays sound through any sequence of calls, data, replies and departures
  of clients, failed sends included: the buckets and the free calls are disjoint lists
  without cycles whose pointers agree in both directions, so every lookup ends, and every
  call in the table is in a bucket in which a lookup under one of its two keys finds a call
  with that key.
\<close>

theorem store_stays_sound:
  assumes "(store_step env net per hdl0)\<^sup>*\<^sup>* st st'" "waits_keep env" "store_good st L"
  shows "\<exists>L'. store_inv st' L' \<and> (\<forall>mwid hdl. lookupPendingCall st' mwid hdl \<noteq> None)
    \<and> (\<forall>i. \<forall>p \<in> set (L' (Some i)). \<exists>mwid hdl q. mkhash mwid hdl = i \<and> matches st' mwid hdl p
        \<and> lookupPendingCall st' mwid hdl = Some (Some q) \<and> matches st' mwid hdl q)"
proof -
  obtain L' where L': "store_good st' L'" using good_steps [OF assms] by blast
  then have inv: "store_inv st' L'" by (simp add: store_good_def)
  then have "lookupPendingCall st' mwid hdl \<noteq> None" for mwid hdl using lookup_find [of st' L'] by (simp add: store_inv_def)
  then show ?thesis using inv good_found [OF L'] by blast
qed

theorem store_stays_sound_witness:
  "\<exists>st1 L. storeSRBCall demo_gateway_proc demo_gateway 0x02000000 5 None 0 3 ''echo'' None None 0 = Some (0, st1)
    \<and> store_inv st1 L \<and> lookupPendingCall st1 0x02000000 7 \<noteq> None"
proof -
  obtain p st1 where st1: "storeSRBCall demo_gateway_proc demo_gateway 0x02000000 5 None 0 3 ''echo'' None None 0 = Some (0, st1)"
    by (rule store_call_waits [OF demo_gateway_inv demo_gateway_facts(4), where datatotal = 3 and env = demo_gateway_proc
          and mwid = "0x02000000" and hdl = 5 and mp = None and cn = 0 and service = "''echo''" and ins = None and domn = None
          and flags = 0]) auto
  have "(store_step demo_gateway_proc (\<lambda>_. 0) 1000 [])\<^sup>*\<^sup>* demo_gateway st1" using step_call [OF st1] by blast
  moreover have "waits_keep demo_gateway_proc" by (simp add: waits_keep_def demo_gateway_proc_def)
  moreover have "store_good demo_gateway (\<lambda>_. [])" using demo_gateway_inv by (simp add: store_good_def)
  ultimately show ?thesis using store_stays_sound [of demo_gateway_proc "\<lambda>_. 0" 1000 "[]" demo_gateway st1 "\<lambda>_. []"] st1 by blast
qed

end
