(* ===== verification/GwProps.thy ===== *)
theory GwProps
  imports GwTcp CallInv
begin

unbundle bit_operations_syntax

text \<open>
  What a gateway does for its peers and clients: services that peers provide are reached
  through the connection they came in on, and a peer that leaves takes its services along;
  closing down ends; and what a message can do to a gateway that was not meant.
\<close>

section \<open>Which peers are linked to which services\<close>

text \<open>
  A table of services and the peers linked to each. Dropping a peer takes away its links and
  no others.
\<close>

locale peer_registry =
  fixes ok :: "'s \<Rightarrow> bool" and links :: "'s \<Rightarrow> (string \<times> nat) set" and drop_peer :: "nat \<Rightarrow> 's \<Rightarrow> 's"
  assumes drop_ok: "ok s \<Longrightarrow> ok (drop_peer p s)"
    and drop_links: "ok s \<Longrightarrow> links (drop_peer p s) = {x \<in> links s. snd x \<noteq> p}"
begin

lemma gone: "ok s \<Longrightarrow> (n, p) \<notin> links (drop_peer p s)"
  by (simp add: drop_links)

lemma others: "ok s \<Longrightarrow> q \<noteq> p \<Longrightarrow> (n, q) \<in> links (drop_peer p s) \<longleftrightarrow> (n, q) \<in> links s"
  by (simp add: drop_links)

lemma drop_all: "ok s \<Longrightarrow> links (fold drop_peer ps s) = {x \<in> links s. snd x \<notin> set ps}"
  by (induction ps arbitrary: s) (auto simp: drop_ok drop_links)

end

definition import_links :: "gwstate \<Rightarrow> (string \<times> nat) set" where
  "import_links st = {(imp_servicename imp, pl_peer pl) | imp pl. imp \<in> set (importlist st) \<and> pl \<in> set (imp_peerlist imp)}"

lemma import_linksI: "imp \<in> set (importlist st) \<Longrightarrow> pl \<in> set (imp_peerlist imp) \<Longrightarrow> (imp_servicename imp, pl_peer pl) \<in> import_links st"
  unfolding import_links_def by blast

definition export_links :: "gwstate \<Rightarrow> (string \<times> nat) set" where
  "export_links st = {(exp_servicename e, p) | e p. e \<in> set (exportlist st) \<and> p \<in> set (exp_peerlist e)}"

definition imports_ok :: "gwstate \<Rightarrow> bool" where
  "imports_ok st \<longleftrightarrow> (\<forall>imp \<in> set (importlist st). distinct (map pl_peer (imp_peerlist imp)) \<and> imp_peerlist imp \<noteq> [])"

definition exports_ok :: "gwstate \<Rightarrow> bool" where
  "exports_ok st \<longleftrightarrow> (\<forall>e \<in> set (exportlist st). distinct (exp_peerlist e))"

lemma take_link_None: "take_link p pls = None \<longleftrightarrow> p \<notin> pl_peer ` set pls"
  by (induction pls) auto

lemma take_link_Some:
  "take_link p pls = Some (pl, rest) \<Longrightarrow> distinct (map pl_peer pls) \<Longrightarrow>
   distinct (map pl_peer rest) \<and> pl_peer ` set rest = pl_peer ` set pls - {p} \<and> pl_peer pl = p \<and> pl \<in> set pls
   \<and> set rest = {x \<in> set pls. pl_peer x \<noteq> p}"
proof (induction pls arbitrary: rest)
  case (Cons a pls)
  then show ?case
  proof (cases "pl_peer a = p")
    case False
    with Cons.prems obtain r where r: "take_link p pls = Some (pl, r)" "rest = a # r" by auto
    with Cons.IH [OF r(1)] Cons.prems False show ?thesis by auto
  next
    case True
    with Cons.prems show ?thesis by (force simp: image_iff)
  qed
qed simp

text \<open>An operation that only sends messages over IPC.\<close>

definition only_queues :: "gwstate \<Rightarrow> gwstate \<Rightarrow> bool" where
  "only_queues st st' \<longleftrightarrow> (\<exists>q. st' = st\<lparr>msgq := q\<rparr>)"

lemma only_queues_refl: "only_queues st st"
proof -
  have "st = st\<lparr>msgq := msgq st\<rparr>" by simp
  then show ?thesis unfolding only_queues_def by blast
qed

lemma only_queues_trans: "only_queues st st' \<Longrightarrow> only_queues st' st'' \<Longrightarrow> only_queues st st''"
  by (auto simp: only_queues_def)

lemma only_queues_put: "only_queues st (snd (mw_ipc_putmessage env st dest m))"
  using putmessage_frame [of env st dest m] by (simp add: only_queues_def)

lemma only_queues_unprovide: "only_queues st (snd (mw_ipcsend_unprovide_for_id env st i s n))"
  by (simp add: mw_ipcsend_unprovide_for_id_def only_queues_refl only_queues_put)

lemma only_queues_provide: "only_queues st (snd (mw_ipcsend_provide_for_id env st i s n fl))"
  by (simp add: mw_ipcsend_provide_for_id_def only_queues_refl only_queues_put)

lemma impclean_queues: "only_queues st (snd (impclean_loop env p imps st))"
proof (induction imps arbitrary: st)
  case Nil
  then show ?case by (simp add: only_queues_refl)
next
  case (Cons imp imps)
  show ?case
  proof (cases "take_link p (imp_peerlist imp)")
    case None
    then show ?thesis using Cons.IH by simp
  next
    case (Some x)
    obtain pl pls where x: "x = (pl, pls)" by fastforce
    show ?thesis
    proof (cases "pls \<noteq> []")
      case True
      then show ?thesis using Cons.IH Some x by simp
    next
      case False
      let ?st = "if pl_svcid pl \<noteq> UNASSIGNED
          then snd (mw_ipcsend_unprovide_for_id (gw_proc env) st (pi_gwid (knownGWs st ! p)) (imp_servicename imp) (pl_svcid pl)) else st"
      have "only_queues st ?st" by (simp add: only_queues_refl only_queues_unprovide)
      moreover have "only_queues ?st (snd (impclean_loop env p imps ?st))" by (rule Cons.IH)
      ultimately have "only_queues st (snd (impclean_loop env p imps ?st))" by (rule only_queues_trans)
      then show ?thesis using Some x False by simp
    qed
  qed
qed

text \<open>The imports after a peer has left, with no mention of the messages sent.\<close>

definition without_peer :: "nat \<Rightarrow> import list \<Rightarrow> import list" where
  "without_peer p imps = filter (\<lambda>imp. imp_peerlist imp \<noteq> [])
     (map (\<lambda>imp. imp\<lparr>imp_peerlist := filter (\<lambda>pl. pl_peer pl \<noteq> p) (imp_peerlist imp)\<rparr>) imps)"

lemma take_link_filter:
  "distinct (map pl_peer pls) \<Longrightarrow> take_link p pls =
     (case List.find (\<lambda>pl. pl_peer pl = p) pls of None \<Rightarrow> None | Some pl \<Rightarrow> Some (pl, filter (\<lambda>pl. pl_peer pl \<noteq> p) pls))"
proof (induction pls)
  case (Cons a pls)
  then have "pl_peer a = p \<Longrightarrow> filter (\<lambda>pl. pl_peer pl \<noteq> p) pls = pls"
    by (intro filter_True ballI) (metis distinct.simps(2) image_eqI list.simps(9) set_map)
  with Cons show ?case by (auto split: option.split)
qed simp

lemma impclean_list:
  assumes "\<forall>imp \<in> set imps. distinct (map pl_peer (imp_peerlist imp)) \<and> imp_peerlist imp \<noteq> []"
  shows "fst (impclean_loop env p imps st) = without_peer p imps"
  using assms
proof (induction imps arbitrary: st)
  case Nil
  then show ?case by (simp add: without_peer_def)
next
  case (Cons imp imps)
  show ?case
  proof (cases "List.find (\<lambda>pl. pl_peer pl = p) (imp_peerlist imp)")
    case None
    then have "filter (\<lambda>pl. pl_peer pl \<noteq> p) (imp_peerlist imp) = imp_peerlist imp"
      by (auto simp: find_None_iff filter_id_conv)
    with None Cons show ?thesis by (simp add: without_peer_def take_link_filter)
  next
    case (Some pl)
    with Cons show ?thesis by (simp add: without_peer_def take_link_filter)
  qed
qed

lemma impcleanuppeer_ok:
  assumes "imports_ok st"
  shows "\<exists>q. impcleanuppeer env p st = st\<lparr>msgq := q, importlist := without_peer p (importlist st)\<rparr>"
proof -
  obtain q where "snd (impclean_loop env p (importlist st) st) = st\<lparr>msgq := q\<rparr>"
    using impclean_queues unfolding only_queues_def by blast
  moreover have "fst (impclean_loop env p (importlist st) st) = without_peer p (importlist st)"
    using assms unfolding imports_ok_def by (rule impclean_list)
  ultimately have "impcleanuppeer env p st = st\<lparr>msgq := q, importlist := without_peer p (importlist st)\<rparr>"
    by (simp add: impcleanuppeer_def split_beta)
  then show ?thesis by blast
qed

interpretation imps: peer_registry imports_ok import_links "impcleanuppeer env" for env
proof
  fix st p
  assume ok: "imports_ok st"
  obtain q where q: "impcleanuppeer env p st = st\<lparr>msgq := q, importlist := without_peer p (importlist st)\<rparr>"
    using impcleanuppeer_ok [OF ok] by blast
  show "imports_ok (impcleanuppeer env p st)"
    using ok by (auto simp: q imports_ok_def without_peer_def distinct_map_filter)
  show "import_links (impcleanuppeer env p st) = {x \<in> import_links st. snd x \<noteq> p}"
  proof (intro equalityI subsetI)
    fix x assume "x \<in> {x \<in> import_links st. snd x \<noteq> p}"
    then obtain imp pl where x: "x = (imp_servicename imp, pl_peer pl)" "imp \<in> set (importlist st)" "pl \<in> set (imp_peerlist imp)" "pl_peer pl \<noteq> p"
      by (auto simp: import_links_def)
    let ?imp = "imp\<lparr>imp_peerlist := filter (\<lambda>pl. pl_peer pl \<noteq> p) (imp_peerlist imp)\<rparr>"
    have pl: "pl \<in> set (imp_peerlist ?imp)" using x by simp
    then have "imp_peerlist ?imp \<noteq> []" by (metis empty_iff list.set(1))
    then have "?imp \<in> set (importlist (impcleanuppeer env p st))" using x(2) by (auto simp: q without_peer_def)
    then have "(imp_servicename ?imp, pl_peer pl) \<in> import_links (impcleanuppeer env p st)"
      using pl by (rule import_linksI)
    then show "x \<in> import_links (impcleanuppeer env p st)" using x(1) by simp
  qed (auto simp: q import_links_def without_peer_def, blast)
qed

interpretation exps: peer_registry exports_ok export_links expcleanuppeer
proof
  fix st p
  assume ok: "exports_ok st"
  then show "exports_ok (expcleanuppeer p st)" by (auto simp: exports_ok_def expcleanuppeer_def)
  have "set (remove1 p (exp_peerlist e)) = set (exp_peerlist e) - {p}" if "e \<in> set (exportlist st)" for e
    using that ok by (simp add: exports_ok_def)
  then show "export_links (expcleanuppeer p st) = {x \<in> export_links st. snd x \<noteq> p}"
    by (fastforce simp: export_links_def expcleanuppeer_def)
qed

section \<open>A peer that leaves\<close>

lemma cleanup_fields:
  assumes "imports_ok st" "exports_ok st"
  shows "\<exists>q. impexp_cleanuppeer env p st = st\<lparr>msgq := q, importlist := without_peer p (importlist st),
    exportlist := map (\<lambda>e. e\<lparr>exp_peerlist := remove1 p (exp_peerlist e)\<rparr>) (exportlist st)\<rparr>"
proof -
  have "imports_ok (expcleanuppeer p st)" using assms(1) by (simp add: imports_ok_def expcleanuppeer_def)
  then obtain q where "impcleanuppeer env p (expcleanuppeer p st) =
      (expcleanuppeer p st)\<lparr>msgq := q, importlist := without_peer p (importlist (expcleanuppeer p st))\<rparr>"
    using impcleanuppeer_ok by blast
  then have "impexp_cleanuppeer env p st = st\<lparr>msgq := q, importlist := without_peer p (importlist st),
    exportlist := map (\<lambda>e. e\<lparr>exp_peerlist := remove1 p (exp_peerlist e)\<rparr>) (exportlist st)\<rparr>"
    by (simp add: impexp_cleanuppeer_def expcleanuppeer_def)
  then show ?thesis by blast
qed

lemma cleanup_links:
  assumes "imports_ok st" "exports_ok st"
  shows "import_links (impexp_cleanuppeer env p st) = {x \<in> import_links st. snd x \<noteq> p}"
    "export_links (impexp_cleanuppeer env p st) = {x \<in> export_links st. snd x \<noteq> p}"
    "imports_ok (impexp_cleanuppeer env p st)" "exports_ok (impexp_cleanuppeer env p st)"
proof -
  have ok: "imports_ok (expcleanuppeer p st)" using assms(1) by (simp add: imports_ok_def expcleanuppeer_def)
  have same: "import_links (expcleanuppeer p st) = import_links st" by (simp add: import_links_def expcleanuppeer_def)
  obtain q where q: "impcleanuppeer env p (expcleanuppeer p st) =
      (expcleanuppeer p st)\<lparr>msgq := q, importlist := without_peer p (importlist (expcleanuppeer p st))\<rparr>"
    using impcleanuppeer_ok [OF ok] by blast
  show "import_links (impexp_cleanuppeer env p st) = {x \<in> import_links st. snd x \<noteq> p}"
    using imps.drop_links [OF ok] by (simp add: impexp_cleanuppeer_def same)
  have "export_links (impexp_cleanuppeer env p st) = export_links (expcleanuppeer p st)"
    by (simp add: impexp_cleanuppeer_def q export_links_def)
  then show "export_links (impexp_cleanuppeer env p st) = {x \<in> export_links st. snd x \<noteq> p}"
    using exps.drop_links [OF assms(2)] by simp
  show "imports_ok (impexp_cleanuppeer env p st)" using imps.drop_ok [OF ok] by (simp add: impexp_cleanuppeer_def)
  show "exports_ok (impexp_cleanuppeer env p st)"
    using exps.drop_ok [OF assms(2)] by (simp add: impexp_cleanuppeer_def q exports_ok_def)
qed

lemma freegwid_ok:
  assumes "gwid \<noteq> UNASSIGNED" "gwid AND MWINDEXMASK < tbl_length (gwtbl st)"
  shows "\<exists>t. freegwid gwid st = Some (st\<lparr>gwtbl := t\<rparr>) \<and> tbl_length t = tbl_length (gwtbl st)
    \<and> (\<forall>e. tbl_at t (gwid AND MWINDEXMASK) = Some e \<longrightarrow> gw_pid e = UNASSIGNED \<and> gw_status e = MWDEAD)"
proof -
  let ?i = "gwid AND MWINDEXMASK"
  let ?t = "tbl_upd (\<lambda>e. e\<lparr>srbrole := 0, gw_mqid := UNASSIGNED, gw_status := MWDEAD, gw_location := UNASSIGNED,
    gw_pid := UNASSIGNED, gw_addr_string := []\<rparr>) ?i (gwtbl st)"
  have "freegwid gwid st = Some (st\<lparr>gwtbl := ?t\<rparr>)" using assms by (simp add: freegwid_def Let_def)
  moreover have "tbl_length ?t = tbl_length (gwtbl st)" by (cases "gwtbl st") (simp_all add: tbl_upd_def tbl_length_def)
  moreover have "tbl_at ?t ?i = Some e \<Longrightarrow> gw_pid e = UNASSIGNED \<and> gw_status e = MWDEAD" for e
    using assms(2) by (cases "gwtbl st") (auto simp: tbl_at_def tbl_upd_def tbl_length_def nat_less_iff split: if_splits)
  ultimately show ?thesis by blast
qed

text \<open>
  C14. When the connection of a peer is closed, every service imported from it and every service
  exported to it is forgotten and no link of another peer is touched, the peer is known as
  not connected, its entry in the table of gateways is free, and the connection is closed.
\<close>

theorem peer_closed:
  assumes "imports_ok st" "exports_ok st"
    and "conn_gwid (conns st cn) = gwid" "gwid \<noteq> UNASSIGNED" "getKnownPeerByGWID st gwid = Some p"
    and "pi_conn (knownGWs st ! p) = Some cn" "fd (conn (conns st cn)) = int cn" "cn < conntblsize st"
    and "gwid AND MWINDEXMASK < tbl_length (gwtbl st)" "conn_peerinfo (conns st cn) \<in> {None, Some p}"
  shows "\<exists>st'. gw_closegateway env cn st = Some st' \<and> conns st' = (conns st)(cn := conn_clear)
    \<and> import_links st' = {x \<in> import_links st. snd x \<noteq> p} \<and> export_links st' = {x \<in> export_links st. snd x \<noteq> p}
    \<and> pi_conn (knownGWs st' ! p) = None \<and> pi_gwid (knownGWs st' ! p) = UNASSIGNED
    \<and> (\<forall>q. q \<noteq> p \<longrightarrow> knownGWs st' ! q = knownGWs st ! q)
    \<and> (\<exists>e. tbl_at (gwtbl st') (gwid AND MWINDEXMASK) = Some e \<and> gw_pid e = UNASSIGNED)"
proof -
  let ?s1 = "impexp_cleanuppeer env p st"
  obtain q where s1: "?s1 = st\<lparr>msgq := q, importlist := without_peer p (importlist st),
      exportlist := map (\<lambda>e. e\<lparr>exp_peerlist := remove1 p (exp_peerlist e)\<rparr>) (exportlist st)\<rparr>"
    using cleanup_fields [OF assms(1,2)] by blast
  have p: "p < length (knownGWs st)" using assms(5) by (auto simp: getKnownPeerByGWID_def find_Some_iff)
  let ?s2 = "upd_peer p (\<lambda>pi. pi\<lparr>pi_gwid := UNASSIGNED, pi_conn := None\<rparr>) ?s1"
  obtain t where t: "freegwid gwid ?s2 = Some (?s2\<lparr>gwtbl := t\<rparr>)" "tbl_length t = tbl_length (gwtbl st)"
    "\<forall>e. tbl_at t (gwid AND MWINDEXMASK) = Some e \<longrightarrow> gw_pid e = UNASSIGNED \<and> gw_status e = MWDEAD"
    using freegwid_ok [OF assms(4), of ?s2] assms(9) by (auto simp: upd_peer_def s1)
  have e: "\<exists>e. tbl_at t (gwid AND MWINDEXMASK) = Some e \<and> gw_pid e = UNASSIGNED"
    using t(2,3) assms(9) by (simp add: tbl_at_def)
  have links: "import_links (?s2\<lparr>gwtbl := t, knownGWs := k, conns := c\<rparr>) = import_links ?s1"
    "export_links (?s2\<lparr>gwtbl := t, knownGWs := k, conns := c\<rparr>) = export_links ?s1" for k c
    by (simp_all add: import_links_def export_links_def upd_peer_def)
  have c: "pi_conn (knownGWs ?s1 ! p) = Some cn" using assms(6) by (simp add: s1)
  let ?k = "(knownGWs st)[p := (knownGWs st ! p)\<lparr>pi_gwid := UNASSIGNED, pi_conn := None\<rparr>]"
  let ?s3 = "?s2\<lparr>gwtbl := t, knownGWs := ?k, conns := (conns st)(cn := conn_clear)\<rparr>"
  have "gw_closegateway env cn st = Some ?s3"
    using assms(3-8,10) t(1) c p
    by (auto simp: gw_closegateway_def Let_def upd_conn_def upd_peer_def fd2conn_def s1)
  moreover have "import_links ?s3 = {x \<in> import_links st. snd x \<noteq> p}" "export_links ?s3 = {x \<in> export_links st. snd x \<noteq> p}"
    using cleanup_links(1,2) [OF assms(1,2)] links by simp_all
  ultimately show ?thesis using p e by (intro exI [of _ ?s3]) simp
qed

text \<open>A gateway with one peer, connected, which provides a service and is told of another.\<close>

definition demo_peered :: gwstate where
  "demo_peered = demo_gateway\<lparr>
     gwtbl := Some [\<lparr>instancename = ''east'', domainname = ''demo'', gw_location = GWPEER, srbrole = 2, gw_mqid = 7, gw_pid = 1, gw_status = MWREADY,
       gw_connected = 0, gw_last_call = 0, gw_trace = 0, mesgsent = 0, mesgrecv = 0, imported_svc = 0, exported_svc = 0, gw_addr_string = []\<rparr>],
     knownGWs := [\<lparr>pi_hostname = ''10.0.0.2'', pi_instance = ''east'', domainid = 0, pi_gwid = 0x04000000, pi_conn = Some 6, password = None\<rparr>],
     conns := (conns demo_gateway)(6 := conn_clear\<lparr>conn := (conn conn_clear)\<lparr>fd := 6\<rparr>, conn_gwid := 0x04000000,
       conn_type := CONN_TYPE_GATEWAY, conn_state := CONNECT_STATE_UP, conn_peerinfo := Some 0\<rparr>),
     importlist := [\<lparr>imp_servicename = ''time'', imp_peerlist = [\<lparr>pl_peer = 0, pl_svcid = UNASSIGNED\<rparr>]\<rparr>],
     exportlist := [\<lparr>exp_servicename = ''echo'', exp_peerlist = [0], exp_cost = 0\<rparr>]\<rparr>"

definition demo_gwenv :: gwenv where
  "demo_gwenv = \<lparr>gw_proc = demo_gateway_proc, gw_net = (\<lambda>t. int (length t)), gw_per = 1000, gw_hdl0 = [], junkint = 0, mydomain = ''demo'',
     myinstance = ''west'', ipcserverpid = 1, getpeername = (\<lambda>_. None), newsocket = 8, resolves = (\<lambda>_. True), connects = (\<lambda>_. None), msgbuf = 0\<rparr>"

lemma demo_peered_facts:
  "imports_ok demo_peered" "exports_ok demo_peered" "conn_gwid (conns demo_peered 6) = 0x04000000"
  "getKnownPeerByGWID demo_peered 0x04000000 = Some 0" "pi_conn (knownGWs demo_peered ! 0) = Some 6"
  "fd (conn (conns demo_peered 6)) = int 6" "6 < conntblsize demo_peered" "tbl_length (gwtbl demo_peered) = 1"
  "conn_peerinfo (conns demo_peered 6) = Some 0" "length (knownGWs demo_peered) = 1" "pi_gwid (knownGWs demo_peered ! 0) = 0x04000000"
  by (simp_all add: demo_peered_def imports_ok_def exports_ok_def getKnownPeerByGWID_def demo_gateway_def tbl_length_def)

theorem peer_closed_witness:
  "\<exists>st'. gw_closegateway demo_gwenv 6 demo_peered = Some st' \<and> import_links st' = {} \<and> export_links st' = {} \<and> conns st' 6 = conn_clear"
proof -
  have "import_links demo_peered = {(''time'', 0)}" "export_links demo_peered = {(''echo'', 0)}"
    by (simp_all add: import_links_def export_links_def demo_peered_def)
  then show ?thesis
    using peer_closed [OF demo_peered_facts(1-3) _ demo_peered_facts(4-7), of demo_gwenv] demo_peered_facts(8,9) by auto
qed

section \<open>Calls to services of peers\<close>

lemma arr_find_fresh:
  "\<forall>x \<in> set xs. length x < n \<Longrightarrow> arr_find n s xs i = Some (if s \<in> set xs then Some (i + length (takeWhile (\<lambda>x. x \<noteq> s) xs)) else None)"
  by (induction xs arbitrary: i) (auto simp: arr_eq_def)

lemma takeWhile_index: "s \<in> set xs \<Longrightarrow> length (takeWhile (\<lambda>x. x \<noteq> s) xs) < length xs \<and> xs ! length (takeWhile (\<lambda>x. x \<noteq> s) xs) = s"
  by (induction xs) auto

definition names_ok :: "import list \<Rightarrow> bool" where
  "names_ok imps \<longleftrightarrow> distinct (map imp_servicename imps) \<and> (\<forall>imp \<in> set imps. length (imp_servicename imp) < 33)"

lemma names_ok_cong: "map imp_servicename a = map imp_servicename b \<Longrightarrow> names_ok a \<longleftrightarrow> names_ok b"
proof -
  have "names_ok x \<longleftrightarrow> distinct (map imp_servicename x) \<and> (\<forall>n \<in> set (map imp_servicename x). length n < 33)" for x
    by (simp add: names_ok_def)
  then show "map imp_servicename a = map imp_servicename b \<Longrightarrow> names_ok a \<longleftrightarrow> names_ok b" by metis
qed

lemma impfind_ok:
  assumes "names_ok (importlist st)"
  shows "impfind st service = Some (if service \<in> imp_servicename ` set (importlist st)
    then Some (length (takeWhile (\<lambda>x. x \<noteq> service) (map imp_servicename (importlist st)))) else None)"
  using assms by (auto simp: impfind_def names_ok_def arr_find_fresh)

lemma impfind_nth:
  assumes "names_ok (importlist st)" "i < length (importlist st)" "imp_servicename (importlist st ! i) = service"
  shows "impfind st service = Some (Some i)"
proof -
  let ?ns = "map imp_servicename (importlist st)"
  have "service \<in> set ?ns" using assms(2,3) by auto
  from takeWhile_index [OF this] assms have "length (takeWhile (\<lambda>x. x \<noteq> service) ?ns) = i"
    by (metis length_map names_ok_def nth_eq_iff_index_eq nth_map)
  with \<open>service \<in> set ?ns\<close> show ?thesis using impfind_ok [OF assms(1)] by simp
qed

lemma condnewimport_ok:
  assumes "names_ok (importlist st)" "length service < 33"
  obtains i imps where "condnewimport service st = Some (i, st\<lparr>importlist := imps\<rparr>)" "names_ok imps" "i < length imps"
    "imp_servicename (imps ! i) = service"
    "imp_peerlist (imps ! i) = [] \<or> imps ! i \<in> set (importlist st)"
proof (cases "service \<in> imp_servicename ` set (importlist st)")
  case True
  then obtain i where i: "i < length (importlist st)" "imp_servicename (importlist st ! i) = service"
    by (metis imageE in_set_conv_nth)
  have "condnewimport service st = Some (i, st\<lparr>importlist := importlist st\<rparr>)"
    using impfind_nth [OF assms(1) i] by (simp add: condnewimport_def)
  then show ?thesis by (rule that) (use i assms(1) in auto)
next
  case False
  have "strncpy service 33 = service" using assms(2) by (simp add: strncpy_def)
  with False have "condnewimport service st = Some (0, st\<lparr>importlist := \<lparr>imp_servicename = service, imp_peerlist = []\<rparr> # importlist st\<rparr>)"
    using impfind_ok [OF assms(1), of service] by (simp add: condnewimport_def)
  then show ?thesis by (rule that) (use False assms in \<open>auto simp: names_ok_def\<close>)
qed

lemma findpeerconn_nth:
  assumes "names_ok imps" "i < length imps" "imp_servicename (imps ! i) = service"
    and "List.find (\<lambda>pl. pl_svcid pl = svcid) (imp_peerlist (imps ! i)) = Some pl"
  shows "findpeerconn_loop st service svcid imps = Some (pi_conn (knownGWs st ! pl_peer pl))"
  using assms
proof (induction imps arbitrary: i)
  case (Cons imp imps)
  show ?case
  proof (cases i)
    case 0
    with Cons.prems show ?thesis by (simp add: names_ok_def arr_eq_def)
  next
    case (Suc j)
    with Cons.prems have "names_ok imps" "j < length imps" "imp_servicename (imps ! j) = service" by (auto simp: names_ok_def)
    moreover have "imp_servicename imp \<noteq> service"
      using Cons.prems Suc by (auto simp: names_ok_def)
    ultimately show ?thesis using Cons Suc by (auto simp: names_ok_def arr_eq_def)
  qed
qed simp

lemma set_svcid_last:
  "\<forall>pl \<in> set pls. gwid_of (pl_peer pl) \<noteq> gwid \<Longrightarrow> gwid_of p = gwid \<Longrightarrow>
   set_svcid gwid_of svcid gwid (pls @ [\<lparr>pl_peer = p, pl_svcid = s\<rparr>]) = Some (pls @ [\<lparr>pl_peer = p, pl_svcid = svcid\<rparr>])"
  by (induction pls) auto

lemma find_last: "\<forall>x \<in> set xs. \<not> P x \<Longrightarrow> P y \<Longrightarrow> List.find P (xs @ [y]) = Some y"
  by (induction xs) auto

text \<open>
  C7. A service a peer provides is asked of mwd in the name of the peer's gateway id, and when
  mwd has answered with an id for it, a call to that id goes out on the connection of that peer,
  also when other peers provide the same service.
\<close>

theorem import_routed:
  assumes "accepting (os (gw_proc env))" "mw_get_mqid_by_mwid st 0 = qid" "0 \<le> qid" "msgq st qid = Some q"
    and "names_ok (importlist st)" "length service < 33"
    and "pi_gwid (knownGWs st ! p) = gwid" "GWID gwid = gwid" "gwid \<noteq> UNASSIGNED" "pi_conn (knownGWs st ! p) = Some cn"
    and "conn_peerinfo (conns st cn) = Some p"
    and others: "\<forall>imp \<in> set (importlist st). imp_servicename imp = service \<longrightarrow>
      (\<forall>pl \<in> set (imp_peerlist imp). pl_peer pl \<noteq> p \<and> pl_svcid pl \<noteq> svcid \<and> pi_gwid (knownGWs st ! pl_peer pl) \<noteq> gwid)"
  shows "\<exists>st1 st2 m. importservice env service cost (Some p) st = Some (0, st1)
    \<and> msgq st1 qid = Some (q @ [Provide m]) \<and> pr_mtype m = PROVIDEREQ \<and> pr_gwid m = gwid \<and> pr_svcname m = service \<and> pr_cost m = cost
    \<and> impsetsvcid env service svcid gwid st1 = Some st2
    \<and> (\<forall>c. ca_service c = service \<longrightarrow> ca_svcid c = svcid \<longrightarrow> do_svccall env c st2 =
          map_option (\<lambda>(_, st). (c, st)) (storeIPCCall (gw_proc env) (gw_net env) (gw_per env) (gw_hdl0 env) st2 c cn))"
proof -
  obtain i imps where c: "condnewimport service st = Some (i, st\<lparr>importlist := imps\<rparr>)" "names_ok imps" "i < length imps"
    "imp_servicename (imps ! i) = service" "imp_peerlist (imps ! i) = [] \<or> imps ! i \<in> set (importlist st)"
    by (rule condnewimport_ok [OF assms(5,6)])
  let ?pls = "imp_peerlist (imps ! i)"
  have pls: "\<forall>pl \<in> set ?pls. pl_peer pl \<noteq> p \<and> pl_svcid pl \<noteq> svcid \<and> pi_gwid (knownGWs st ! pl_peer pl) \<noteq> gwid"
    using c(4,5) others by auto
  define imps' where "imps' s = imps[i := (imps ! i)\<lparr>imp_peerlist := ?pls @ [\<lparr>pl_peer = p, pl_svcid = s\<rparr>]\<rparr>]" for s
  have imps': "names_ok (imps' s)" "i < length (imps' s)" "imp_servicename (imps' s ! i) = service"
    "imp_peerlist (imps' s ! i) = ?pls @ [\<lparr>pl_peer = p, pl_svcid = s\<rparr>]" for s
  proof -
    have "map imp_servicename (imps' s) = map imp_servicename imps"
      by (rule nth_equalityI) (auto simp: imps'_def nth_list_update c(3))
    then show "names_ok (imps' s)" using c(2) names_ok_cong by blast
  qed (use c in \<open>auto simp: imps'_def\<close>)
  let ?m = "\<lparr>pr_mtype = PROVIDEREQ, pr_srvid = SRVID gwid, pr_svcid = UNASSIGNED, pr_gwid = GWID gwid,
    pr_svcname = strncpy service 33, pr_cost = cost, pr_flags = 0, pr_returncode = 0\<rparr>"
  let ?s0 = "st\<lparr>importlist := imps' UNASSIGNED\<rparr>"
  let ?s1 = "?s0\<lparr>msgq := (msgq st)(qid := Some (q @ [Provide ?m]))\<rparr>"
  have "mw_get_mqid_by_mwid ?s0 0 = qid" using assms(2) by (simp add: mw_get_mqid_by_mwid_def mw_mwd_mqid_def)
  then have "mw_ipc_putmessage (os (gw_proc env)) ?s0 0 (Provide ?m) = (0, ?s1)"
    using putmessage_ok(1) [OF assms(1), of "Provide ?m" ?s0 0 qid q] assms(3,4) by simp
  then have put: "mw_ipcsend_provide_for_id (gw_proc env) ?s0 gwid service cost 0 = (0, ?s1)"
    using assms(8,9) by (simp add: mw_ipcsend_provide_for_id_def)
  have "p \<notin> pl_peer ` set ?pls" using pls by auto
  then have imp: "importservice env service cost (Some p) st = Some (0, ?s1)"
    using put assms(7) by (simp add: importservice_def c(1) upd_import_def imps'_def)
  let ?s2 = "?s1\<lparr>importlist := imps' svcid\<rparr>"
  have "impfind ?s1 service = Some (Some i)" using imps'(1-3) by (intro impfind_nth) simp_all
  then have set: "impsetsvcid env service svcid gwid ?s1 = Some ?s2"
    using pls assms(7) imps'(4) c(3)
    by (simp add: impsetsvcid_def set_svcid_last [where p = p] upd_import_def imps'_def)
  have "List.find (\<lambda>pl. pl_svcid pl = svcid) (imp_peerlist (imps' svcid ! i)) = Some \<lparr>pl_peer = p, pl_svcid = svcid\<rparr>"
    unfolding imps'(4) using pls by (intro find_last) auto
  then have "findpeerconn_loop ?s2 service svcid (imps' svcid) = Some (pi_conn (knownGWs ?s2 ! pl_peer \<lparr>pl_peer = p, pl_svcid = svcid\<rparr>))"
    by (rule findpeerconn_nth [OF imps'(1-3)])
  then have "impfindpeerconn ?s2 service svcid = Some (Some cn)" using assms(10) by (simp add: impfindpeerconn_def)
  then have "do_svccall env c ?s2 =
      map_option (\<lambda>(_, st). (c, st)) (storeIPCCall (gw_proc env) (gw_net env) (gw_per env) (gw_hdl0 env) ?s2 c cn)"
    if "ca_service c = service" "ca_svcid c = svcid" for c
    using that assms(10,11) by (simp add: do_svccall_def)
  moreover have "pr_svcname ?m = service" using assms(6) by (simp add: strncpy_def)
  ultimately show ?thesis using imp set assms(8) by (intro exI [of _ ?s1] exI [of _ ?s2] exI [of _ ?m]) simp
qed

theorem import_routed_witness:
  "\<exists>st1 st2. importservice demo_gwenv ''date'' 7 (Some 0) (demo_peered\<lparr>msgq := (msgq demo_peered)(3 := Some [])\<rparr>) = Some (0, st1)
    \<and> impsetsvcid demo_gwenv ''date'' 0x08000001 0x04000000 st1 = Some st2"
proof -
  let ?st = "demo_peered\<lparr>msgq := (msgq demo_peered)(3 := Some [])\<rparr>"
  have "mw_get_mqid_by_mwid ?st 0 = 3" by (simp add: mw_get_mqid_by_mwid_def mw_mwd_mqid_def demo_peered_def demo_gateway_def demo_main_def)
  moreover have "names_ok (importlist ?st)" by (simp add: names_ok_def demo_peered_def)
  moreover have "\<forall>imp \<in> set (importlist ?st). imp_servicename imp = ''date'' \<longrightarrow> False" by (simp add: demo_peered_def)
  moreover have "GWID 0x04000000 = 0x04000000" by (simp add: id_kind_def)
  moreover have "accepting (os (gw_proc demo_gwenv))" using demo_accepting demo_gateway_facts(1) by (simp add: demo_gwenv_def)
  ultimately show ?thesis
    using import_routed [of demo_gwenv ?st 3 "[]" "''date''" 0 "0x04000000" 6 "0x08000001" 7] demo_peered_facts by auto
qed

section \<open>What goes wrong\<close>

text \<open>
  C37. A client on the network that sends a PROVIDE crashes the gateway: a client has no peer, and
  the null pointer is followed.
\<close>

theorem provide_from_client_crashes:
  assumes "conn_state (conns st cn) = CONNECT_STATE_UP" "conn_peerinfo (conns st cn) = None"
    and "command msg = ''PROVIDE''" "marker msg = SRB_NOTIFICATIONMARKER"
    and "field_value msg ''COST'' = Some c" "value c = Some v" "sscanf_d v = Some n"
    and "field_value msg ''SVCNAME'' = Some f" "value f = Some service"
  shows "srbDoMessage env clock cn msg st = None"
proof -
  have "importservice env service x None s = None" for x s
    by (cases "condnewimport service s") (auto simp: importservice_def)
  moreover have "iGetReqField env cn ''COST'' (junkint env) (msg, st) = (1, n, msg, st)"
    using assms(5-7) by (simp add: iGetReqField_def iGetOptField_def)
  moreover have "szGetReqField env cn ''SVCNAME'' (msg, st) = (Some service, msg, st)"
    using assms(8,9) by (simp add: szGetReqField_def)
  ultimately have "srbprovide env cn (msg, st) = None"
    using assms(2,4) by (simp add: srbprovide_def only_notification_def)
  moreover have "\<not> strcasecmp_eq ''PROVIDE'' ''SVCCALL''" by code_simp
  ultimately show ?thesis using assms(1,3) by (simp add: srbDoMessage_def Let_def strlen_def)
qed

lemma strike_absent: "i \<notin> set ids \<Longrightarrow> strike i ids = None"
  by (induction ids) auto

lemma ack_ignored:
  "\<forall>ev \<in> set q. senderid m \<notin> set (pending_ack_ids ev) \<Longrightarrow> ack_loop env m q h n = Some (q, h, n)"
  by (induction q) (auto simp: strike_absent)

text \<open>
  The gateway acknowledges the events in which mwd announces services in the name of mwd: the
  sender of the event is not changed. mwd, which waits for the gateway's id, ignores the
  acknowledgement, so the buffer of the event is never released.
\<close>

theorem service_event_never_released:
  assumes "do_event_message env ev st = Some (ev', st')" "ev_event ev = ''.mwprovide'' \<or> ev_event ev = ''.mwunprovide''"
    and "senderid ev = 0" "\<forall>w \<in> set (ackqueue mst). 0 \<notin> set (pending_ack_ids w)"
  shows "event_ack menv mst ev' = Some (0, mst)"
proof -
  have "senderid ev' = 0"
    using assms(1-3)
    by (auto simp: do_event_message_def ack_event_def Let_def split: if_splits prod.splits option.splits)
  then have "ack_loop menv ev' (ackqueue mst) (shm mst) (ackqueuelen mst) = Some (ackqueue mst, shm mst, ackqueuelen mst)"
    using assms(4) by (simp add: ack_ignored)
  then show ?thesis by (simp add: event_ack_def)
qed

lemma conn_add_fields [simp]:
  "knownGWs (conn_add f role ty st) = knownGWs st" "ipcmain (conn_add f role ty st) = ipcmain st" "gwtbl (conn_add f role ty st) = gwtbl st"
  "importlist (conn_add f role ty st) = importlist st" "exportlist (conn_add f role ty st) = exportlist st"
  "srbsubs (conn_add f role ty st) = srbsubs st"
  by (simp_all add: conn_add_def Let_def upd_conn_def)

lemma upd_conn_fields [simp]:
  "knownGWs (upd_conn cn f st) = knownGWs st" "ipcmain (upd_conn cn f st) = ipcmain st" "gwtbl (upd_conn cn f st) = gwtbl st"
  "importlist (upd_conn cn f st) = importlist st" "exportlist (upd_conn cn f st) = exportlist st"
  "srbsubs (upd_conn cn f st) = srbsubs st" "conntblsize (upd_conn cn f st) = conntblsize st"
  by (simp_all add: upd_conn_def)

lemma allocgwid_free:
  assumes "ipcmain st = Some im" "gwtbl st = Some tbl" "i < length tbl" "gw_pid (tbl ! i) = UNASSIGNED"
  obtains gwid t m where "allocgwid env l r st = (gwid, st\<lparr>gwtbl := t, ipcmain := m\<rparr>)" "gwid \<noteq> UNASSIGNED"
proof -
  have "i \<in> set (scan_order (gwtbl_nextidx im) (length tbl))" using assms(3) scan_order_set [of "length tbl"] by force
  then have "List.find (\<lambda>i. gw_pid (tbl ! i) = UNASSIGNED) (scan_order (gwtbl_nextidx im) (length tbl)) \<noteq> None"
    using assms(4) by (auto simp: find_None_iff)
  then obtain j where "List.find (\<lambda>i. gw_pid (tbl ! i) = UNASSIGNED) (scan_order (gwtbl_nextidx im) (length tbl)) = Some j"
    by blast
  moreover have "int j OR MWGATEWAYMASK \<noteq> UNASSIGNED" for j :: nat
  proof -
    have "0 \<le> int j OR MWGATEWAYMASK" by simp
    then show ?thesis by linarith
  qed
  ultimately show ?thesis using assms(1,2) by (intro that) (simp_all add: allocgwid_def)
qed

lemma connectpeers_skip:
  "\<forall>q \<in> set ps. pi_conn (knownGWs st ! q) \<noteq> None \<Longrightarrow> connectpeers_loop env (ps @ rs) st = connectpeers_loop env rs st"
  by (induction ps) auto


definition demo_provide :: srbmessage where
  "demo_provide = \<lparr>command = ''PROVIDE'', marker = SRB_NOTIFICATIONMARKER,
     smap = Some [\<lparr>key = ''SVCNAME'', value = Some ''x'', valuelen = 1\<rparr>, \<lparr>key = ''COST'', value = Some ''7'', valuelen = 1\<rparr>]\<rparr>"

theorem provide_from_client_crashes_witness: "srbDoMessage demo_gwenv [] 0 demo_provide demo_gateway = None"
proof (rule provide_from_client_crashes)
  show "conn_state (conns demo_gateway 0) = CONNECT_STATE_UP" "conn_peerinfo (conns demo_gateway 0) = None"
    by (simp_all add: demo_gateway_def)
  show "command demo_provide = ''PROVIDE''" "marker demo_provide = SRB_NOTIFICATIONMARKER" by (simp_all add: demo_provide_def)
  show "field_value demo_provide ''COST'' = Some \<lparr>key = ''COST'', value = Some ''7'', valuelen = 1\<rparr>"
    "field_value demo_provide ''SVCNAME'' = Some \<lparr>key = ''SVCNAME'', value = Some ''x'', valuelen = 1\<rparr>"
    by code_simp+
  show "sscanf_d ''7'' = Some 7" by code_simp
qed simp_all

definition demo_announce :: event where
  "demo_announce = demo_event\<lparr>ev_event := ''.mwprovide'', ev_datalen := 44\<rparr>"

theorem service_event_never_released_witness:
  "\<exists>ev' st'. do_event_message demo_gwenv demo_announce (demo_gateway\<lparr>ipcmain := None\<rparr>) = Some (ev', st') \<and> ev_mtype ev' = EVENTACK
    \<and> event_ack demo_mwenv demo_awaiting ev' = Some (0, demo_awaiting)"
proof -
  let ?st = "demo_gateway\<lparr>ipcmain := None\<rparr>"
  have "mw_getsegment_byid (mmap_file (shm_env (os (gw_proc demo_gwenv)))) (shm ?st) (ev_datasegmentid demo_announce) = (Some demo_seg, shm ?st)"
    by (simp add: mw_getsegment_byid_def findsegment_byid_def demo_gateway_facts demo_segments demo_announce_def demo_event_def heap_segment_def)
  moreover have "128 \<le> segment_size 64 1" by code_simp
  then have "mwoffset2adr (ev_data demo_announce) (Some demo_seg) \<noteq> 0"
    by (simp add: demo_announce_def demo_event_def heap_segment_def mwoffset2adr_def)
  ultimately obtain ev' st' where ev: "do_event_message demo_gwenv demo_announce ?st = Some (ev', st')" "ev_mtype ev' = EVENTACK"
    by (auto simp: do_event_message_def service_event_def mw_get_service_byid_def ack_event_def Let_def demo_announce_def demo_event_def)
  moreover have "event_ack demo_mwenv demo_awaiting ev' = Some (0, demo_awaiting)"
    by (rule service_event_never_released [OF ev(1)]) (simp_all add: demo_announce_def demo_event_def demo_awaiting_def)
  ultimately show ?thesis by blast
qed


section \<open>Numbers in messages\<close>

lemma sscanf_int_dec:
  assumes "- (2 ^ 31) \<le> v" "v < 2 ^ 31"
  shows "sscanf_d (int_dec v) = Some v"
proof -
  have digit: "\<not> isspace c \<and> c \<noteq> CHR ''-'' \<and> c \<noteq> CHR ''+''" if "isdigit c" for c
    using that by (auto simp: isdigit_def isspace_def)
  have ds: "takeWhile isdigit (nat_dec n) = nat_dec n" "dropWhile isspace (nat_dec n) = nat_dec n" for n
    using isdigit_nat_dec [of n] digit by (auto simp: takeWhile_eq_all_conv dropWhile_eq_self_iff dest!: hd_in_set)
  have ne: "nat_dec n \<noteq> []" for n by (subst nat_dec.simps) simp
  have sign: "sign_of (nat_dec n) = (False, nat_dec n)" for n
    using ne [of n] isdigit_nat_dec [of n] digit by (cases "nat_dec n") (auto simp: sign_of_def)
  have self: "signed_take_bit 31 v = v" using assms by (simp add: signed_take_bit_int_eq_self)
  show ?thesis
  proof (cases "v < 0")
    case True
    then have "sign_of (dropWhile isspace (int_dec v)) = (True, nat_dec (nat (- v)))"
      by (simp add: int_dec_def isspace_def sign_of_def)
    with True assms self ne show ?thesis by (simp add: sscanf_d_def ds digits_val_nat_dec Let_def)
  next
    case False
    then have "sign_of (dropWhile isspace (int_dec v)) = (False, nat_dec (nat v))" by (simp add: int_dec_def ds sign)
    with False assms self ne show ?thesis by (simp add: sscanf_d_def ds digits_val_nat_dec Let_def)
  qed
qed

lemma field_value_lookup: "map_option value (field_value msg k) = map_lookup (smap msg) k"
  by (simp add: field_value_def map_lookup_def split: sum.split)

text \<open>
  A number that is written into a field of a message is the number a gateway reads from the
  field, over the whole range of an integer, when no other field is the same but for the case
  of its letters.
\<close>

theorem number_field_roundtrip:
  assumes "- (2 ^ 31) \<le> v" "v < 2 ^ 31" "\<forall>j \<in> map_keys (smap msg). strcasecmp_eq k j \<longrightarrow> j = k"
  shows "iGetReqField env cn k old (mw_srb_setfieldi msg (Some k) v, st) = (1, v, mw_srb_setfieldi msg (Some k) v, st)"
proof -
  have "map_lookup (smap (mw_srb_setfieldi msg (Some k) v)) k = Some (Some (int_dec v))"
    unfolding setfieldi_store using um.add_or_set_lookup [of "smap msg" k "Some (int_dec v)" k] assms(3) by simp
  then obtain p where "field_value (mw_srb_setfieldi msg (Some k) v) k = Some p" "value p = Some (int_dec v)"
    using field_value_lookup [of "mw_srb_setfieldi msg (Some k) v" k] by auto
  then show ?thesis using sscanf_int_dec [OF assms(1,2)] by (simp add: iGetReqField_def iGetOptField_def)
qed

theorem number_field_roundtrip_witness:
  "iGetReqField demo_gwenv 0 ''COST'' 0 (mw_srb_setfieldi demo_provide (Some ''COST'') (-42), demo_gateway)
    = (1, -42, mw_srb_setfieldi demo_provide (Some ''COST'') (-42), demo_gateway)"
proof (rule number_field_roundtrip)
  have "\<not> strcasecmp_eq ''COST'' ''SVCNAME''" by code_simp
  then show "\<forall>j \<in> map_keys (smap demo_provide). strcasecmp_eq ''COST'' j \<longrightarrow> j = ''COST''"
    by (simp add: demo_provide_def map_keys_def)
qed simp_all

end
