(* ===== verification/GwClose.thy ===== *)
theory GwClose
  imports GwProps
begin

unbundle bit_operations_syntax

text \<open>
  Closing down: the loops of \<^verbatim>\<open>tcpcloseall\<close> end, and leave no connection and no connected peer.
\<close>

section \<open>A loop that closes what it finds\<close>

text \<open>
  What the loop relies on: closing what was found succeeds, keeps the invariant, only takes
  away, and makes the measure smaller.
\<close>

locale closing =
  fixes inv :: "gwstate \<Rightarrow> bool" and less :: "gwstate \<Rightarrow> gwstate \<Rightarrow> bool" and size_of :: "gwstate \<Rightarrow> nat"
    and get :: "gwstate \<Rightarrow> nat option" and close :: "nat \<Rightarrow> gwstate \<Rightarrow> gwstate option"
  assumes less_refl: "inv st \<Longrightarrow> less st st"
    and less_trans: "less st st' \<Longrightarrow> less st' st'' \<Longrightarrow> less st st''"
    and close_step: "inv st \<Longrightarrow> get st = Some cn \<Longrightarrow> \<exists>st'. close cn st = Some st' \<and> inv st' \<and> less st st' \<and> size_of st' < size_of st"
begin

lemma loop_ends: "inv st \<Longrightarrow> \<exists>st'. close_loop get close st = Some st' \<and> inv st' \<and> less st st' \<and> get st' = None"
proof (induction "size_of st" arbitrary: st rule: less_induct)
  case less
  show ?case
  proof (cases "get st")
    case None
    then show ?thesis using less.prems less_refl by (simp add: close_loop.simps)
  next
    case (Some cn)
    then obtain st1 where st1: "close cn st = Some st1" "inv st1" "less st st1" "size_of st1 < size_of st"
      using close_step less.prems by blast
    then obtain st2 where "close_loop get close st1 = Some st2" "inv st2" "less st1 st2" "get st2 = None"
      using less.hyps by blast
    then show ?thesis using Some st1 less_trans by (auto simp: close_loop.simps [of _ _ st])
  qed
qed

end

section \<open>States that can be closed\<close>

definition closed :: "gwconn \<Rightarrow> bool" where
  "closed c \<longleftrightarrow> fd (conn c) = UNASSIGNED \<and> conn_gwid c = UNASSIGNED \<and> conn_type c = CONN_TYPE_NONE"

definition same_conn :: "gwconn \<Rightarrow> gwconn \<Rightarrow> bool" where
  "same_conn c c' \<longleftrightarrow> fd (conn c') = fd (conn c) \<and> conn_gwid c' = conn_gwid c \<and> conn_type c' = conn_type c"

text \<open>
  Every open entry of the table of connections is that of its descriptor, ids of gateways are
  within the table, and a peer that is connected has an id no other peer has and is known by
  an open connection with that id.
\<close>

definition closable :: "gwstate \<Rightarrow> bool" where
  "closable st \<longleftrightarrow> imports_ok st \<and> exports_ok st
     \<and> (\<forall>i < conntblsize st. fd (conn (conns st i)) = UNASSIGNED \<or> fd (conn (conns st i)) = int i)
     \<and> (\<forall>i < conntblsize st. conn_gwid (conns st i) = UNASSIGNED \<or> conn_gwid (conns st i) AND MWINDEXMASK < tbl_length (gwtbl st))
     \<and> (\<forall>p < length (knownGWs st). \<forall>i. pi_conn (knownGWs st ! p) = Some i \<longrightarrow>
          i < conntblsize st \<and> fd (conn (conns st i)) = int i \<and> conn_gwid (conns st i) = pi_gwid (knownGWs st ! p)
          \<and> pi_gwid (knownGWs st ! p) \<noteq> UNASSIGNED)
     \<and> (\<forall>p < length (knownGWs st). \<forall>q < length (knownGWs st). pi_gwid (knownGWs st ! p) \<noteq> UNASSIGNED \<longrightarrow>
          pi_gwid (knownGWs st ! p) = pi_gwid (knownGWs st ! q) \<longrightarrow> p = q)"

definition shrinks :: "gwstate \<Rightarrow> gwstate \<Rightarrow> bool" where
  "shrinks st st' \<longleftrightarrow> imports_ok st' \<and> exports_ok st' \<and> conntblsize st' = conntblsize st
     \<and> tbl_length (gwtbl st') = tbl_length (gwtbl st) \<and> length (knownGWs st') = length (knownGWs st)
     \<and> (\<forall>i. same_conn (conns st i) (conns st' i)
          \<or> closed (conns st' i) \<and> (\<forall>p < length (knownGWs st). pi_conn (knownGWs st' ! p) \<noteq> Some i))
     \<and> (\<forall>p < length (knownGWs st). knownGWs st' ! p = knownGWs st ! p
          \<or> pi_conn (knownGWs st' ! p) = None \<and> pi_gwid (knownGWs st' ! p) \<in> {pi_gwid (knownGWs st ! p), UNASSIGNED})"

definition to_close :: "gwstate \<Rightarrow> nat" where
  "to_close st = card {i. i < conntblsize st \<and> fd (conn (conns st i)) \<noteq> UNASSIGNED}
     + card {p. p < length (knownGWs st) \<and> pi_gwid (knownGWs st ! p) \<noteq> UNASSIGNED}"

lemma shrinks_refl: "closable st \<Longrightarrow> shrinks st st"
  by (simp add: shrinks_def closable_def same_conn_def)

lemma closed_same: "closed c \<Longrightarrow> same_conn c c' \<Longrightarrow> closed c'"
  by (simp add: closed_def same_conn_def)

lemma same_conn_trans: "same_conn a b \<Longrightarrow> same_conn b c \<Longrightarrow> same_conn a c"
  by (simp add: same_conn_def)

lemma shrinks_trans:
  assumes "shrinks st st'" "shrinks st' st''"
  shows "shrinks st st''"
proof -
  have peers: "knownGWs st'' ! p = knownGWs st ! p
      \<or> pi_conn (knownGWs st'' ! p) = None \<and> pi_gwid (knownGWs st'' ! p) \<in> {pi_gwid (knownGWs st ! p), UNASSIGNED}"
    if "p < length (knownGWs st)" for p
  proof -
    have "knownGWs st' ! p = knownGWs st ! p \<or> pi_conn (knownGWs st' ! p) = None \<and> pi_gwid (knownGWs st' ! p) \<in> {pi_gwid (knownGWs st ! p), UNASSIGNED}"
      "knownGWs st'' ! p = knownGWs st' ! p \<or> pi_conn (knownGWs st'' ! p) = None \<and> pi_gwid (knownGWs st'' ! p) \<in> {pi_gwid (knownGWs st' ! p), UNASSIGNED}"
      using assms that by (auto simp: shrinks_def)
    then show ?thesis by auto
  qed
  have conns: "same_conn (conns st i) (conns st'' i)
      \<or> closed (conns st'' i) \<and> (\<forall>p < length (knownGWs st). pi_conn (knownGWs st'' ! p) \<noteq> Some i)" for i
  proof -
    have 1: "same_conn (conns st i) (conns st' i) \<or> closed (conns st' i) \<and> (\<forall>p < length (knownGWs st). pi_conn (knownGWs st' ! p) \<noteq> Some i)"
      using assms(1) by (simp add: shrinks_def)
    have 2: "same_conn (conns st' i) (conns st'' i) \<or> closed (conns st'' i) \<and> (\<forall>p < length (knownGWs st). pi_conn (knownGWs st'' ! p) \<noteq> Some i)"
      using assms by (simp add: shrinks_def)
    have 3: "pi_conn (knownGWs st'' ! p) = Some i \<Longrightarrow> p < length (knownGWs st) \<Longrightarrow> pi_conn (knownGWs st' ! p) = Some i" for p
      using assms unfolding shrinks_def by (metis option.distinct(1))
    show ?thesis using 1 2 3 closed_same same_conn_trans by blast
  qed
  show ?thesis using assms peers conns by (simp add: shrinks_def)
qed

lemma shrinks_conn:
  "shrinks st st' \<Longrightarrow> same_conn (conns st i) (conns st' i)
     \<or> closed (conns st' i) \<and> (\<forall>p < length (knownGWs st). pi_conn (knownGWs st' ! p) \<noteq> Some i)"
  by (simp add: shrinks_def)

lemma shrinks_peer:
  "shrinks st st' \<Longrightarrow> p < length (knownGWs st) \<Longrightarrow> knownGWs st' ! p = knownGWs st ! p
     \<or> pi_conn (knownGWs st' ! p) = None \<and> pi_gwid (knownGWs st' ! p) \<in> {pi_gwid (knownGWs st ! p), UNASSIGNED}"
  by (simp add: shrinks_def)

lemma shrinks_closable:
  assumes "closable st" "shrinks st st'"
  shows "closable st'"
proof -
  have eqs: "conntblsize st' = conntblsize st" "tbl_length (gwtbl st') = tbl_length (gwtbl st)" "length (knownGWs st') = length (knownGWs st)"
    using assms(2) by (simp_all add: shrinks_def)
  have fds: "fd (conn (conns st' i)) = UNASSIGNED \<or> fd (conn (conns st' i)) = int i"
    "conn_gwid (conns st' i) = UNASSIGNED \<or> conn_gwid (conns st' i) AND MWINDEXMASK < tbl_length (gwtbl st)" if "i < conntblsize st" for i
    using shrinks_conn [OF assms(2), of i] assms(1) that by (auto simp: closed_def same_conn_def closable_def)
  have link: "i < conntblsize st \<and> fd (conn (conns st' i)) = int i \<and> conn_gwid (conns st' i) = pi_gwid (knownGWs st' ! p)
      \<and> pi_gwid (knownGWs st' ! p) \<noteq> UNASSIGNED" if "p < length (knownGWs st)" "pi_conn (knownGWs st' ! p) = Some i" for p i
  proof -
    have same: "knownGWs st' ! p = knownGWs st ! p" using shrinks_peer [OF assms(2) that(1)] that(2) by auto
    moreover have "same_conn (conns st i) (conns st' i)" using shrinks_conn [OF assms(2), of i] that by blast
    ultimately show ?thesis using assms(1) that by (simp add: closable_def same_conn_def)
  qed
  have ids: "p = q" if "p < length (knownGWs st)" "q < length (knownGWs st)" "pi_gwid (knownGWs st' ! p) \<noteq> UNASSIGNED"
    "pi_gwid (knownGWs st' ! p) = pi_gwid (knownGWs st' ! q)" for p q
  proof -
    have "pi_gwid (knownGWs st' ! r) = pi_gwid (knownGWs st ! r)" if "r < length (knownGWs st)" "pi_gwid (knownGWs st' ! r) \<noteq> UNASSIGNED" for r
      using shrinks_peer [OF assms(2) that(1)] that(2) by auto
    then have "pi_gwid (knownGWs st ! p) \<noteq> UNASSIGNED" "pi_gwid (knownGWs st ! p) = pi_gwid (knownGWs st ! q)"
      using that by metis+
    then show ?thesis using assms(1) that(1,2) by (simp add: closable_def)
  qed
  show ?thesis using fds link ids assms(2) unfolding closable_def eqs by (auto simp: shrinks_def)
qed

lemma shrinks_open: "shrinks st st' \<Longrightarrow> fd (conn (conns st' i)) \<noteq> UNASSIGNED \<Longrightarrow> same_conn (conns st i) (conns st' i)"
  unfolding shrinks_def closed_def by blast

lemma shrinks_to_close:
  assumes "shrinks st st'"
    and "(\<exists>i < conntblsize st. fd (conn (conns st i)) \<noteq> UNASSIGNED \<and> fd (conn (conns st' i)) = UNASSIGNED)
      \<or> (\<exists>p < length (knownGWs st). pi_gwid (knownGWs st ! p) \<noteq> UNASSIGNED \<and> pi_gwid (knownGWs st' ! p) = UNASSIGNED)"
  shows "to_close st' < to_close st"
proof -
  let ?C = "\<lambda>st. {i. i < conntblsize st \<and> fd (conn (conns st i)) \<noteq> UNASSIGNED}"
  let ?P = "\<lambda>st. {p. p < length (knownGWs st) \<and> pi_gwid (knownGWs st ! p) \<noteq> UNASSIGNED}"
  have fin: "finite (?C st)" "finite (?P st)" by simp_all
  have C: "?C st' \<subseteq> ?C st" using assms(1) shrinks_open [OF assms(1)] by (auto simp: shrinks_def same_conn_def)
  have P: "?P st' \<subseteq> ?P st"
  proof
    fix p assume p: "p \<in> ?P st'"
    then have "p < length (knownGWs st)" using assms(1) by (simp add: shrinks_def)
    with shrinks_peer [OF assms(1) this] p show "p \<in> ?P st" by auto
  qed
  have "?C st' \<noteq> ?C st \<or> ?P st' \<noteq> ?P st" using assms(2) by blast
  then have "?C st' \<subset> ?C st \<or> ?P st' \<subset> ?P st" using C P by blast
  then have "card (?C st') < card (?C st) \<or> card (?P st') < card (?P st)"
    using psubset_card_mono [OF fin(1)] psubset_card_mono [OF fin(2)] by blast
  moreover have "card (?C st') \<le> card (?C st)" "card (?P st') \<le> card (?P st)" using C P fin by (simp_all add: card_mono)
  ultimately show ?thesis unfolding to_close_def by linarith
qed

section \<open>Closing one connection\<close>

lemma closed_clear [simp]: "closed conn_clear" "fd (conn conn_clear) = UNASSIGNED"
  by (simp_all add: closed_def conn_clear_def)

lemma shrinks_clear:
  assumes "imports_ok st'" "exports_ok st'" "conntblsize st' = conntblsize st" "tbl_length (gwtbl st') = tbl_length (gwtbl st)"
    and "length (knownGWs st') = length (knownGWs st)" "conns st' = (conns st)(c := conn_clear)"
    and "\<And>p. p < length (knownGWs st) \<Longrightarrow> knownGWs st' ! p = knownGWs st ! p
      \<or> pi_conn (knownGWs st' ! p) = None \<and> pi_gwid (knownGWs st' ! p) \<in> {pi_gwid (knownGWs st ! p), UNASSIGNED}"
    and "\<And>p. p < length (knownGWs st) \<Longrightarrow> pi_conn (knownGWs st' ! p) \<noteq> Some c"
  shows "shrinks st st'"
  using assms by (simp add: shrinks_def same_conn_def)

text \<open>The end of \<open>gw_closegateway\<close>, for the connection the peer is known by.\<close>

definition unlink :: "nat \<Rightarrow> gwstate \<Rightarrow> gwpeerinfo list" where
  "unlink c s = (case conn_peerinfo (conns s c) of
     None \<Rightarrow> knownGWs s | Some q \<Rightarrow> (knownGWs s)[q := (knownGWs s ! q)\<lparr>pi_conn := None\<rparr>])"

lemma closegateway_tail:
  assumes "c < conntblsize s" "fd (conn (conns s c)) = int c"
  shows "(let f = fd (conn (conns s c));
        s = upd_conn c (\<lambda>c. c\<lparr>conn_gwid := UNASSIGNED\<rparr>) s;
        s = (case conn_peerinfo (conns s c) of None \<Rightarrow> s | Some q \<Rightarrow> upd_peer q (\<lambda>pi. pi\<lparr>pi_conn := None\<rparr>) s);
        s = upd_conn c (\<lambda>c. c\<lparr>conn_peerinfo := None\<rparr>) s
      in fd2conn s f \<bind> (\<lambda>c. Some (upd_conn c (\<lambda>_. conn_clear) s)))
    = Some (s\<lparr>conns := (conns s)(c := conn_clear), knownGWs := unlink c s\<rparr>)"
  using assms by (auto simp: upd_conn_def upd_peer_def unlink_def fd2conn_def split: option.split)

lemma unlink_nth:
  "length (unlink c s) = length (knownGWs s)"
  "unlink c s ! p = knownGWs s ! p \<or> unlink c s ! p = (knownGWs s ! p)\<lparr>pi_conn := None\<rparr>"
proof -
  show "length (unlink c s) = length (knownGWs s)" by (simp add: unlink_def split: option.split)
  have "xs[q := f (xs ! q)] ! p = xs ! p \<or> xs[q := f (xs ! q)] ! p = f (xs ! p)" for xs :: "gwpeerinfo list" and f q
    by (cases "q = p"; cases "q < length xs") (simp_all add: list_update_beyond)
  then show "unlink c s ! p = knownGWs s ! p \<or> unlink c s ! p = (knownGWs s ! p)\<lparr>pi_conn := None\<rparr>"
    by (simp add: unlink_def split: option.split)
qed

lemma closegateway_peer:
  assumes "closable st" "cn < conntblsize st" "fd (conn (conns st cn)) = int cn" "conn_gwid (conns st cn) \<noteq> UNASSIGNED"
    and "conn_gwid (conns st cn) AND MWINDEXMASK < tbl_length (gwtbl st)" "getKnownPeerByGWID st (conn_gwid (conns st cn)) = Some p"
  shows "\<exists>st'. gw_closegateway env cn st = Some st' \<and> shrinks st st' \<and> to_close st' < to_close st"
proof -
  let ?g = "conn_gwid (conns st cn)" and ?none = "\<lambda>pi. pi\<lparr>pi_gwid := UNASSIGNED, pi_conn := None\<rparr>"
  have ok: "imports_ok st" "exports_ok st" using assms(1) by (simp_all add: closable_def)
  have p: "p < length (knownGWs st)" "pi_gwid (knownGWs st ! p) = ?g"
    using assms(6) by (auto simp: getKnownPeerByGWID_def find_Some_iff)
  obtain s1 where s1: "impexp_cleanuppeer env p st = s1" "imports_ok s1" "exports_ok s1" "conns s1 = conns st" "knownGWs s1 = knownGWs st"
    "gwtbl s1 = gwtbl st" "conntblsize s1 = conntblsize st"
    using cleanup_fields [OF ok, of env p] cleanup_links(3,4) [OF ok, of env p] by auto
  let ?s2 = "upd_peer p ?none s1"
  have k2: "knownGWs ?s2 = (knownGWs st)[p := ?none (knownGWs st ! p)]" by (simp add: upd_peer_def s1)
  have "gwtbl ?s2 = gwtbl st" by (simp add: upd_peer_def s1)
  then obtain t where t: "freegwid ?g ?s2 = Some (?s2\<lparr>gwtbl := t\<rparr>)" "tbl_length t = tbl_length (gwtbl st)"
    using freegwid_ok [OF assms(4), of ?s2] assms(5) by auto
  let ?s = "?s2\<lparr>gwtbl := t\<rparr>"
  have s: "knownGWs ?s = (knownGWs st)[p := ?none (knownGWs st ! p)]" "conns ?s = conns st" "conntblsize ?s = conntblsize st"
    "imports_ok ?s" "exports_ok ?s" "tbl_length (gwtbl ?s) = tbl_length (gwtbl st)"
    using s1 t(2) k2 by (simp_all add: upd_peer_def imports_ok_def exports_ok_def)
  show ?thesis
  proof (cases "pi_conn (knownGWs st ! p)")
    case None
    have "gw_closegateway env cn st = Some ?s"
      using assms(4,6) None t(1) s1 by (simp add: gw_closegateway_def)
    moreover have sh: "shrinks st ?s"
      using s p(1) by (auto simp: shrinks_def same_conn_def nth_list_update)
    moreover have "to_close ?s < to_close st"
      by (rule shrinks_to_close [OF sh]) (use p assms(4) s(1) in auto)
    ultimately show ?thesis by blast
  next
    case (Some c)
    then have c: "c < conntblsize st" "fd (conn (conns st c)) = int c" "conn_gwid (conns st c) = ?g"
      using assms(1) p by (auto simp: closable_def)
    let ?st' = "?s\<lparr>conns := (conns ?s)(c := conn_clear), knownGWs := unlink c ?s\<rparr>"
    have "gw_closegateway env cn st = Some ?st'"
      using closegateway_tail [of c ?s] c(1,2) s(2,3) assms(4,6) Some t(1) s1 by (simp add: gw_closegateway_def)
    moreover have sh: "shrinks st ?st'"
    proof (rule shrinks_clear)
      show "imports_ok ?st'" "exports_ok ?st'" using s(4,5) by (simp_all add: imports_ok_def exports_ok_def)
      show "knownGWs ?st' ! r = knownGWs st ! r
        \<or> pi_conn (knownGWs ?st' ! r) = None \<and> pi_gwid (knownGWs ?st' ! r) \<in> {pi_gwid (knownGWs st ! r), UNASSIGNED}" for r
        using unlink_nth(2) [of c ?s r] p(1) unfolding s(1) by (cases "r = p") auto
      show "pi_conn (knownGWs ?st' ! r) \<noteq> Some c" if "r < length (knownGWs st)" for r
      proof (cases "r = p")
        case True
        then show ?thesis using unlink_nth(2) [of c ?s r] p(1) unfolding s(1) by auto
      next
        case False
        then have "pi_conn (knownGWs st ! r) \<noteq> Some c" using assms(1,4) p c(3) that unfolding closable_def by metis
        then show ?thesis using unlink_nth(2) [of c ?s r] False unfolding s(1) by auto
      qed
    qed (use s in \<open>simp_all add: unlink_nth\<close>)
    moreover have "to_close ?st' < to_close st"
      by (rule shrinks_to_close [OF sh]) (use c in auto)
    ultimately show ?thesis by blast
  qed
qed

lemma closegateway_step:
  assumes "closable st" "cn < conntblsize st" "fd (conn (conns st cn)) = int cn"
  shows "\<exists>st'. gw_closegateway env cn st = Some st' \<and> shrinks st st' \<and> to_close st' < to_close st"
proof (cases "conn_gwid (conns st cn) = UNASSIGNED")
  case True
  let ?st' = "st\<lparr>conns := (conns st)(cn := conn_clear), knownGWs := unlink cn st\<rparr>"
  have "gw_closegateway env cn st = Some ?st'"
    using closegateway_tail [OF assms(2,3)] True by (simp add: gw_closegateway_def)
  moreover have "shrinks st ?st'"
  proof (rule shrinks_clear)
    show "imports_ok ?st'" "exports_ok ?st'" using assms(1) by (simp_all add: closable_def imports_ok_def exports_ok_def)
    show "knownGWs ?st' ! p = knownGWs st ! p
      \<or> pi_conn (knownGWs ?st' ! p) = None \<and> pi_gwid (knownGWs ?st' ! p) \<in> {pi_gwid (knownGWs st ! p), UNASSIGNED}" for p
      using unlink_nth(2) [of cn st p] by auto
    show "pi_conn (knownGWs ?st' ! p) \<noteq> Some cn" if "p < length (knownGWs st)" for p
      using unlink_nth(2) [of cn st p] assms(1) True that by (auto simp: closable_def)
  qed (simp_all add: unlink_nth)
  moreover have "to_close ?st' < to_close st"
    by (rule shrinks_to_close [OF calculation(2)]) (use assms(2,3) in auto)
  ultimately show ?thesis by blast
next
  case False
  let ?g = "conn_gwid (conns st cn)"
  have g: "?g AND MWINDEXMASK < tbl_length (gwtbl st)" using assms(1,2) False by (auto simp: closable_def)
  show ?thesis
  proof (cases "getKnownPeerByGWID st ?g")
    case None
    then have none: "pi_gwid (knownGWs st ! p) \<noteq> ?g" if "p < length (knownGWs st)" for p
      using that by (auto simp: getKnownPeerByGWID_def find_None_iff)
    obtain t where t: "freegwid ?g st = Some (st\<lparr>gwtbl := t\<rparr>)" "tbl_length t = tbl_length (gwtbl st)"
      using freegwid_ok [OF False g] by blast
    let ?s = "st\<lparr>gwtbl := t\<rparr>"
    let ?st' = "?s\<lparr>conns := (conns ?s)(cn := conn_clear), knownGWs := unlink cn ?s\<rparr>"
    have "gw_closegateway env cn st = Some ?st'"
      using closegateway_tail [of cn ?s] assms(2,3) False None t(1) by (simp add: gw_closegateway_def)
    moreover have "shrinks st ?st'"
    proof (rule shrinks_clear)
      show "imports_ok ?st'" "exports_ok ?st'" using assms(1) by (simp_all add: closable_def imports_ok_def exports_ok_def)
      show "knownGWs ?st' ! p = knownGWs st ! p
        \<or> pi_conn (knownGWs ?st' ! p) = None \<and> pi_gwid (knownGWs ?st' ! p) \<in> {pi_gwid (knownGWs st ! p), UNASSIGNED}" for p
        using unlink_nth(2) [of cn ?s p] by auto
      show "pi_conn (knownGWs ?st' ! p) \<noteq> Some cn" if "p < length (knownGWs st)" for p
        using unlink_nth(2) [of cn ?s p] assms(1) none [OF that] that by (auto simp: closable_def)
    qed (simp_all add: unlink_nth t(2))
    moreover have "to_close ?st' < to_close st"
      by (rule shrinks_to_close [OF calculation(2)]) (use assms(2,3) in auto)
    ultimately show ?thesis by blast
  next
    case (Some p)
    then show ?thesis using closegateway_peer [OF assms False g Some] by blast
  qed
qed

lemma conn_del_step:
  assumes "closable st" "cn < conntblsize st" "fd (conn (conns st cn)) = int cn"
  shows "\<exists>st'. conn_del env (int cn) st = Some st' \<and> shrinks st st' \<and> to_close st' < to_close st"
proof (cases "conn_gwid (conns st cn) = UNASSIGNED")
  case True
  let ?st' = "upd_conn cn (\<lambda>_. conn_clear) st"
  have "conn_del env (int cn) st = Some ?st'" using assms(2) True by (simp add: conn_del_def fd2conn_def)
  moreover have sh: "shrinks st ?st'"
    by (rule shrinks_clear [where c = cn])
      (use assms(1) True in \<open>auto simp: upd_conn_def closable_def imports_ok_def exports_ok_def\<close>)
  moreover have "to_close ?st' < to_close st"
    by (rule shrinks_to_close [OF sh]) (use assms(2,3) in \<open>auto simp: upd_conn_def\<close>)
  ultimately show ?thesis by blast
next
  case False
  then show ?thesis using closegateway_step [OF assms] assms(2) by (simp add: conn_del_def fd2conn_def)
qed

definition bye :: "gwenv \<Rightarrow> nat \<Rightarrow> gwstate \<Rightarrow> gwstate" where
  "bye env cn st = snd (on_conn cn (\<lambda>co. mw_srbsendterm (gw_net env) co (-1)) st)"

lemma bye_frame: "\<exists>c. bye env cn st = st\<lparr>conns := (conns st)(cn := (conns st cn)\<lparr>conn := c\<rparr>)\<rparr> \<and> fd c = fd (conn (conns st cn))"
proof -
  obtain rc co where co: "mw_srbsendterm (gw_net env) (conn (conns st cn)) (-1) = (rc, co)" by fastforce
  then have "fd co = fd (conn (conns st cn))"
    by (auto simp: mw_srbsendterm_def mw_srbsendmessage_def mw_conn_write_def Let_def split: sum.splits)
  then show ?thesis using co by (auto simp: bye_def on_conn_def)
qed

lemma bye_ok:
  assumes "closable st"
  shows "closable (bye env cn st)" "shrinks st (bye env cn st)" "to_close (bye env cn st) = to_close st"
    "conntblsize (bye env cn st) = conntblsize st" "fd (conn (conns (bye env cn st) i)) = fd (conn (conns st i))"
proof -
  obtain c where c: "bye env cn st = st\<lparr>conns := (conns st)(cn := (conns st cn)\<lparr>conn := c\<rparr>)\<rparr>" "fd c = fd (conn (conns st cn))"
    using bye_frame by blast
  show "shrinks st (bye env cn st)"
    using assms c by (auto simp: shrinks_def same_conn_def closable_def imports_ok_def exports_ok_def)
  then show "closable (bye env cn st)" using assms shrinks_closable by blast
  show fds: "fd (conn (conns (bye env cn st) i)) = fd (conn (conns st i))" for i using c by simp
  show "conntblsize (bye env cn st) = conntblsize st" using c by simp
  show "to_close (bye env cn st) = to_close st" using fds c(1) by (simp add: to_close_def)
qed

lemma first_conn_Some:
  assumes "closable st" "first_conn P st = Some cn"
  shows "cn < conntblsize st" "fd (conn (conns st cn)) = int cn"
  using assms by (auto simp: first_conn_def find_Some_iff closable_def)

lemma first_conn_None: "first_conn P st = None \<longleftrightarrow> (\<forall>i < conntblsize st. fd (conn (conns st i)) \<noteq> UNASSIGNED \<longrightarrow> \<not> P (conns st i))"
  by (auto simp: first_conn_def find_None_iff)

lemma after_bye:
  assumes "closable st" "\<And>s. closable s \<Longrightarrow> fd (conn (conns s cn)) = int cn \<Longrightarrow> cn < conntblsize s \<Longrightarrow>
    \<exists>st'. f s = Some st' \<and> shrinks s st' \<and> to_close st' < to_close s"
    and "cn < conntblsize st" "fd (conn (conns st cn)) = int cn"
  shows "\<exists>st'. f (bye env cn st) = Some st' \<and> closable st' \<and> shrinks st st' \<and> to_close st' < to_close st"
proof -
  have "fd (conn (conns (bye env cn st) cn)) = int cn" "cn < conntblsize (bye env cn st)"
    using bye_ok(4,5) [OF assms(1)] assms(3,4) by simp_all
  then obtain st' where "f (bye env cn st) = Some st'" "shrinks (bye env cn st) st'" "to_close st' < to_close (bye env cn st)"
    using assms(2) [OF bye_ok(1) [OF assms(1), of env cn]] by blast
  then show ?thesis
    using bye_ok [OF assms(1)] shrinks_trans shrinks_closable by metis
qed

section \<open>The loops\<close>

interpretation brokers: closing closable shrinks to_close conn_getbroker
  "\<lambda>cn st. conn_del env (fd (conn (conns (bye env cn st) cn))) (bye env cn st)" for env
proof
  fix st cn
  assume st: "closable st" "conn_getbroker st = Some cn"
  note cn = first_conn_Some [OF st(1) st(2) [unfolded conn_getbroker_def]]
  show "\<exists>st'. conn_del env (fd (conn (conns (bye env cn st) cn))) (bye env cn st) = Some st' \<and> closable st' \<and> shrinks st st' \<and> to_close st' < to_close st"
    using after_bye [OF st(1) _ cn, of "conn_del env (int cn)"] conn_del_step bye_ok(5) [OF st(1)] cn by simp
qed (auto intro: shrinks_refl shrinks_trans)

interpretation listens: closing closable shrinks to_close conn_getfirstlisten "\<lambda>cn st. conn_del env (fd (conn (conns st cn))) st" for env
proof
  fix st cn
  assume st: "closable st" "conn_getfirstlisten st = Some cn"
  note cn = first_conn_Some [OF st(1) st(2) [unfolded conn_getfirstlisten_def]]
  show "\<exists>st'. conn_del env (fd (conn (conns st cn))) st = Some st' \<and> closable st' \<and> shrinks st st' \<and> to_close st' < to_close st"
    using conn_del_step [OF st(1) cn] cn(2) shrinks_closable [OF st(1)] by auto
qed (auto intro: shrinks_refl shrinks_trans)

interpretation clients: closing closable shrinks to_close conn_getfirstclient
  "\<lambda>cn st. conn_del env (fd (conn (conns (bye env cn st) cn))) (bye env cn st)" for env
proof
  fix st cn
  assume st: "closable st" "conn_getfirstclient st = Some cn"
  note cn = first_conn_Some [OF st(1) st(2) [unfolded conn_getfirstclient_def]]
  show "\<exists>st'. conn_del env (fd (conn (conns (bye env cn st) cn))) (bye env cn st) = Some st' \<and> closable st' \<and> shrinks st st' \<and> to_close st' < to_close st"
    using after_bye [OF st(1) _ cn, of "conn_del env (int cn)"] conn_del_step bye_ok(5) [OF st(1)] cn by simp
qed (auto intro: shrinks_refl shrinks_trans)

interpretation gateways: closing closable shrinks to_close conn_getfirstgateway "\<lambda>cn st. gw_closegateway env cn (bye env cn st)" for env
proof
  fix st cn
  assume st: "closable st" "conn_getfirstgateway st = Some cn"
  note cn = first_conn_Some [OF st(1) st(2) [unfolded conn_getfirstgateway_def]]
  show "\<exists>st'. gw_closegateway env cn (bye env cn st) = Some st' \<and> closable st' \<and> shrinks st st' \<and> to_close st' < to_close st"
    using after_bye [OF st(1) _ cn, of "gw_closegateway env cn"] closegateway_step by simp
qed (auto intro: shrinks_refl shrinks_trans)

text \<open>What is closed stays closed.\<close>

lemma still_none:
  assumes "shrinks st st'" "first_conn P st = None" "\<And>c c'. same_conn c c' \<Longrightarrow> P c' \<Longrightarrow> P c"
  shows "first_conn P st' = None"
  unfolding first_conn_None
proof (intro allI impI)
  fix i assume i: "i < conntblsize st'" "fd (conn (conns st' i)) \<noteq> UNASSIGNED"
  then have same: "same_conn (conns st i) (conns st' i)" using shrinks_open [OF assms(1)] by blast
  then have "\<not> P (conns st i)" using assms(1,2) i by (auto simp: first_conn_None shrinks_def same_conn_def)
  then show "\<not> P (conns st' i)" using assms(3) [OF same] by blast
qed



end
