(* ===== verification/GwInv.thy ===== *)
theory GwInv
  imports GwProps
begin

unbundle bit_operations_syntax

text \<open>
  The references between the tables of a gateway: whatever arrives from the network or over
  IPC, and in whatever order, every link leads to an entry that exists.
\<close>

section \<open>What most operations leave alone\<close>

definition keeps :: "gwstate \<Rightarrow> gwstate \<Rightarrow> bool" where
  "keeps st st' \<longleftrightarrow> importlist st' = importlist st \<and> exportlist st' = exportlist st \<and> knownGWs st' = knownGWs st
     \<and> srbsubs st' = srbsubs st \<and> conntblsize st' = conntblsize st
     \<and> (\<forall>i. fd (conn (conns st' i)) = fd (conn (conns st i)) \<and> conn_peerinfo (conns st' i) = conn_peerinfo (conns st i))"

named_theorems keeps_rules \<open>operations that keep the tables of peers and connections\<close>

lemma keeps_refl [keeps_rules]: "keeps st st"
  by (simp add: keeps_def)

lemma keeps_trans: "keeps a b \<Longrightarrow> keeps b c \<Longrightarrow> keeps a c"
  by (simp add: keeps_def)

lemma keeps_fields [simp]:
  "keeps st (st'\<lparr>msgq := a1\<rparr>) \<longleftrightarrow> keeps st st'" "keeps st (st'\<lparr>shm := a2\<rparr>) \<longleftrightarrow> keeps st st'"
  "keeps st (st'\<lparr>handle := a3\<rparr>) \<longleftrightarrow> keeps st st'" "keeps st (st'\<lparr>pcs := a4\<rparr>) \<longleftrightarrow> keeps st st'"
  "keeps st (st'\<lparr>pcbrk := a5\<rparr>) \<longleftrightarrow> keeps st st'" "keeps st (st'\<lparr>pchash := a6\<rparr>) \<longleftrightarrow> keeps st st'"
  "keeps st (st'\<lparr>freelist := a7\<rparr>) \<longleftrightarrow> keeps st st'" "keeps st (st'\<lparr>callmutex := a8\<rparr>) \<longleftrightarrow> keeps st st'"
  "keeps st (st'\<lparr>fifo := a9\<rparr>) \<longleftrightarrow> keeps st st'" "keeps st (st'\<lparr>fifobrk := b1\<rparr>) \<longleftrightarrow> keeps st st'"
  "keeps st (st'\<lparr>ff_head := b2\<rparr>) \<longleftrightarrow> keeps st st'" "keeps st (st'\<lparr>ff_tail := b3\<rparr>) \<longleftrightarrow> keeps st st'"
  "keeps st (st'\<lparr>ipcfifolen := b4\<rparr>) \<longleftrightarrow> keeps st st'" "keeps st (st'\<lparr>attachInProgress := b5\<rparr>) \<longleftrightarrow> keeps st st'"
  "keeps st (st'\<lparr>gwtbl := b6\<rparr>) \<longleftrightarrow> keeps st st'" "keeps st (st'\<lparr>ipcmain := b7\<rparr>) \<longleftrightarrow> keeps st st'"
  "keeps st (st'\<lparr>clttbl := b8\<rparr>) \<longleftrightarrow> keeps st st'" "keeps st (st'\<lparr>shutdownflag := b9\<rparr>) \<longleftrightarrow> keeps st st'"
  "keeps st (st'\<lparr>reconnect_broker := c1\<rparr>) \<longleftrightarrow> keeps st st'"
  by (simp_all add: keeps_def)

lemma keeps_from [simp]:
  "keeps (st\<lparr>shm := a2\<rparr>) st' \<longleftrightarrow> keeps st st'" "keeps (st\<lparr>handle := a3\<rparr>) st' \<longleftrightarrow> keeps st st'"
  "keeps (st\<lparr>pcs := a4\<rparr>) st' \<longleftrightarrow> keeps st st'" "keeps (st\<lparr>pcbrk := a5\<rparr>) st' \<longleftrightarrow> keeps st st'"
  "keeps (st\<lparr>callmutex := a8\<rparr>) st' \<longleftrightarrow> keeps st st'" "keeps (st\<lparr>clttbl := b8\<rparr>) st' \<longleftrightarrow> keeps st st'"
  "keeps (st\<lparr>gwtbl := b9\<rparr>) st' \<longleftrightarrow> keeps st st'"
  by (simp_all add: keeps_def)

lemma keeps_upd_pc [simp]: "keeps st (upd_pc st' p f) \<longleftrightarrow> keeps st st'" "keeps (upd_pc st p f) st' \<longleftrightarrow> keeps st st'"
  by (simp_all add: upd_pc_def)

lemma keeps_set_slot [simp]: "keeps st (set_slot st' r v) \<longleftrightarrow> keeps st st'"
  by (cases r) simp_all

lemma keeps_link [simp]: "keeps st (linkPendingCall st' pc r) \<longleftrightarrow> keeps st st'"
  by (simp add: linkPendingCall_def Let_def split: option.split)

lemma keeps_unlink: "unlinkPendingCall st pc = Some st' \<Longrightarrow> keeps st st'"
  by (auto simp: unlinkPendingCall_def Let_def keeps_refl split: option.splits)

lemma keeps_rehash: "rehashPendingCall st pc i h = Some st' \<Longrightarrow> keeps st st'"
  by (auto simp: rehashPendingCall_def dest: keeps_unlink)

lemma keeps_new: "newPendingCall st i h = Some (pc, st') \<Longrightarrow> keeps st st'"
  by (auto simp: newPendingCall_def Let_def keeps_refl bind_eq_Some_conv split: option.splits dest: keeps_unlink)

lemma keeps_free: "freePendingCall st pc = Some st' \<Longrightarrow> keeps st st'"
  by (auto simp: freePendingCall_def dest: keeps_unlink)

lemma keeps_queues: "only_queues st st' \<Longrightarrow> keeps st st'"
  by (auto simp: only_queues_def keeps_refl)

lemma keeps_put [keeps_rules]: "keeps st (snd (mw_ipc_putmessage env st dest m))"
  by (rule keeps_queues [OF only_queues_put])

lemma keeps_put_Pair: "mw_ipc_putmessage env st dest m = (rc, st') \<Longrightarrow> keeps st st'"
  using keeps_put [of st env dest m] by simp

text \<open>While the gateway sleeps, others change shared memory and queues, not its own tables.\<close>

definition env_ok :: "gwstate procenv \<Rightarrow> bool" where
  "env_ok env \<longleftrightarrow> (\<forall>s. keeps s (snd (wait env s)))"

lemma keeps_del_fifo: "del_fifo_entry st q = Some (r, st') \<Longrightarrow> keeps st st'"
  by (simp add: del_fifo_entry_undefined)

lemma keeps_drop_buffer: "drop_buffer env st c seg = Some st' \<Longrightarrow> keeps st st'"
  by (auto simp: drop_buffer_def bind_eq_Some_conv keeps_refl split: if_splits)

lemma keeps_flush_loop:
  assumes "flush_fifo_loop env q st = Some st'"
  shows "keeps st st'"
proof (rule flush_fifo_loop.raw_induct [where P = "\<lambda>env q st st'. keeps st st'", OF _ assms])
  fix loop :: "gwstate procenv \<Rightarrow> nat option \<Rightarrow> gwstate \<Rightarrow> gwstate option" and env q st st'
  assume IH: "\<And>env q st st'. loop env q st = Some st' \<Longrightarrow> keeps st st'"
  assume run: "(case q of None \<Rightarrow> Some st | Some a \<Rightarrow>
    (case fifo st a of None \<Rightarrow> None | Some e \<Rightarrow>
      (case mw_ipc_putmessage (os env) st (ff_mwid e) (Call (message_of st (ff_message e))) of
         (rc, st) \<Rightarrow>
           if rc = 0 then (case del_fifo_entry st a of None \<Rightarrow> None | Some (q, st) \<Rightarrow> loop env q st)
           else if rc = - errno_num EAGAIN \<or> rc = - errno_num ENOMEM then loop env (ff_next e) st
           else (case mw_getsegment_byid (mmap_file (shm_env (os env))) (shm st) (datasegmentid (message_of st (ff_message e))) of
                   (seg, h) \<Rightarrow>
                     (case drop_buffer env (st\<lparr>shm := h\<rparr>) (message_of st (ff_message e)) seg of None \<Rightarrow> None
                      | Some st \<Rightarrow> (case del_fifo_entry st a of None \<Rightarrow> None | Some (q, st) \<Rightarrow> loop env q st)))))) = Some st'"
  show "keeps st st'"
  proof (cases q)
    case None
    with run show ?thesis by (simp add: keeps_refl)
  next
    case (Some a)
    then obtain e where e: "fifo st a = Some e" using run by (auto split: option.splits)
    obtain rc s1 where put: "mw_ipc_putmessage (os env) st (ff_mwid e) (Call (message_of st (ff_message e))) = (rc, s1)" by fastforce
    have "loop env (ff_next e) s1 = Some st'"
      using run Some e put by (auto simp: del_fifo_entry_undefined split: if_splits option.splits prod.splits)
    then show ?thesis using IH keeps_put_Pair [OF put] keeps_trans by blast
  qed
qed

lemma keeps_flush: "flush_ipc_fifo env st = Some (rc, st') \<Longrightarrow> keeps st st'"
  by (auto simp: flush_ipc_fifo_def keeps_refl split: if_splits dest: keeps_flush_loop)

lemma keeps_retry: "env_ok env \<Longrightarrow> keeps st (snd (send_retry env i m n st))"
proof (induction n arbitrary: st)
  case 0
  show ?case using keeps_put [of st "os env" i m] by (simp split: prod.split)
next
  case (Suc n)
  obtain rc s1 where put: "mw_ipc_putmessage (os env) st i m = (rc, s1)" by fastforce
  have "keeps s1 (snd (wait env s1))" using Suc.prems by (simp add: env_ok_def)
  then have "keeps st (snd (wait env s1))" using keeps_put_Pair [OF put] keeps_trans by blast
  then show ?case using Suc put keeps_put_Pair [OF put] keeps_trans by (simp del: send_retry.simps add: send_retry.simps [of env i m "Suc n"])
qed

lemma keeps_enqueue: "fifo_enqueue st i m = Some st' \<Longrightarrow> keeps st st'"
  by (auto simp: fifo_enqueue_def Let_def upd_entry_def bind_eq_Some_conv keeps_refl split: if_splits option.splits)

lemma keeps_sendmessage: "env_ok env \<Longrightarrow> ipc_sendmessage env st i m = Some st' \<Longrightarrow> keeps st st'"
proof -
  assume env: "env_ok env" and run: "ipc_sendmessage env st i m = Some st'"
  then obtain rc s1 where s1: "flush_ipc_fifo env st = Some (rc, s1)" by (auto simp: ipc_sendmessage_def bind_eq_Some_conv)
  let ?c = "message_of s1 m"
  obtain seg h where seg: "mw_getsegment_byid (mmap_file (shm_env (os env))) (shm s1) (datasegmentid ?c) = (seg, h)" by fastforce
  obtain rc2 s2 where s2: "send_retry env i (Call ?c) 2 (s1\<lparr>shm := h\<rparr>) = (rc2, s2)" by fastforce
  have "keeps s1 s2" using keeps_retry [OF env, of "s1\<lparr>shm := h\<rparr>" i "Call ?c" 2] s2 by simp
  then have "keeps st s2" using keeps_flush [OF s1] keeps_trans by blast
  moreover have "keeps s2 st'"
    using run s1 seg s2
    by (auto simp: ipc_sendmessage_def Let_def keeps_refl simp del: send_retry.simps split: if_splits dest: keeps_enqueue keeps_drop_buffer)
  ultimately show "keeps st st'" by (rule keeps_trans)
qed

lemma keeps_put_collected: "put_collected env st pc = Some st' \<Longrightarrow> keeps st st'"
  by (auto simp: put_collected_def Let_def keeps_refl split: if_splits)

lemma keeps_send_call:
  assumes "env_ok env" "send_collected_call env st pc = Some st'"
  shows "keeps st st'"
proof -
  obtain s1 where s1: "put_collected env st pc = Some s1" using assms(2) by (auto simp: send_collected_call_def bind_eq_Some_conv)
  have "keeps s1 st'"
    using assms(2) s1 nexthandle_frame [of "os env" s1]
    by (auto simp: send_collected_call_def bind_eq_Some_conv Let_def split: prod.splits
        dest!: keeps_rehash keeps_sendmessage [OF assms(1)] intro: keeps_trans)
  then show ?thesis using keeps_put_collected [OF s1] keeps_trans by blast
qed

lemma keeps_send_reply:
  assumes "env_ok env" "send_collected_reply env st pc = Some st'"
  shows "keeps st st'"
proof -
  obtain s1 where s1: "put_collected env st pc = Some s1" using assms(2) by (auto simp: send_collected_reply_def bind_eq_Some_conv)
  have "keeps s1 st'"
    using assms(2) s1
    by (auto simp: send_collected_reply_def bind_eq_Some_conv Let_def split: if_splits
        dest!: keeps_free keeps_sendmessage [OF assms(1)] intro: keeps_trans)
  then show ?thesis using keeps_put_collected [OF s1] keeps_trans by blast
qed

lemma keeps_check: "env_ok env \<Longrightarrow> check_if_complete env st pc = Some st' \<Longrightarrow> keeps st st'"
  by (auto simp: check_if_complete_def Let_def keeps_refl split: if_splits dest: keeps_send_call keeps_send_reply)

lemma keeps_locked:
  assumes "locked st f = Some (r, st')" "\<And>s r s'. f s = Some (r, s') \<Longrightarrow> keeps s s'"
  shows "keeps st st'"
proof -
  obtain s' where "f (st\<lparr>callmutex := True\<rparr>) = Some (r, s')" "st' = s'\<lparr>callmutex := False\<rparr>"
    using assms(1) by (auto simp: locked_def split: if_splits)
  then show ?thesis using assms(2) by fastforce
qed

lemma keeps_SRBCall:
  assumes "env_ok env" "storeSRBCall env st i h mp cn n s ins domn fl = Some (r, st')"
  shows "keeps st st'"
  by (rule keeps_locked [OF assms(2) [unfolded storeSRBCall_def]])
    (auto simp: bind_eq_Some_conv Let_def dest!: keeps_check [OF assms(1)] keeps_new intro: keeps_trans)

lemma keeps_SRBReply:
  assumes "env_ok env" "storeSRBReply env st i h mp rc arc n = Some (r, st')"
  shows "keeps st st'"
  by (rule keeps_locked [OF assms(2) [unfolded storeSRBReply_def]])
    (auto simp: bind_eq_Some_conv Let_def keeps_refl split: option.splits if_splits dest!: keeps_check [OF assms(1)])

lemma keeps_SRBData:
  assumes "env_ok env" "storeSRBData env st i h d = Some (r, st')"
  shows "keeps st st'"
  by (rule keeps_locked [OF assms(2) [unfolded storeSRBData_def]])
    (auto simp: bind_eq_Some_conv Let_def keeps_refl split: option.splits if_splits dest!: keeps_check [OF assms(1)])

lemma keeps_clear_chain:
  assumes "clear_chain i pc st = Some st'"
  shows "keeps st st'"
proof (rule clear_chain.raw_induct [where P = "\<lambda>i pc st st'. keeps st st'", OF _ assms])
  fix loop :: "int \<Rightarrow> nat option \<Rightarrow> gwstate \<Rightarrow> gwstate option" and i pc st st'
  assume IH: "\<And>i pc st st'. loop i pc st = Some st' \<Longrightarrow> keeps st st'"
  assume "(case pc of None \<Rightarrow> Some st | Some p \<Rightarrow>
    (let n = pc_next (pcs st p)
     in if src_mwid (pcs st p) = i
        then (case freePendingCall st p of None \<Rightarrow> None | Some st \<Rightarrow> loop i n st)
        else loop i n st)) = Some st'"
  then show "keeps st st'"
    using IH keeps_free keeps_trans by (auto simp: Let_def keeps_refl split: option.splits if_splits) blast
qed

lemma keeps_clear_buckets: "clear_buckets i bs st = Some st' \<Longrightarrow> keeps st st'"
  by (induction bs arbitrary: st) (auto simp: keeps_refl bind_eq_Some_conv dest!: keeps_clear_chain intro: keeps_trans)

lemma keeps_ClearClient: "storeSRBClearClient st i = Some (r, st') \<Longrightarrow> keeps st st'"
  unfolding storeSRBClearClient_def by (erule keeps_locked) (auto dest: keeps_clear_buckets)

lemma fd_sendmessage [simp]: "fd (snd (mw_srbsendmessage net co m)) = fd co"
  by (simp add: mw_srbsendmessage_def mw_conn_write_def split: sum.split prod.split)

lemma fd_senddata [simp]: "fd (snd (senddata_loop net per co m d n)) = fd co"
proof (induction net per co m d n rule: senddata_loop.induct)
  case (1 net per co m d n)
  obtain rc co' where co: "mw_srbsendmessage net co (mw_srb_nsetfield m (Some ''DATA'') (Some d) (int (min per (length d)))) = (rc, co')"
    by fastforce
  then have "fd co' = fd co" using fd_sendmessage by (metis snd_conv)
  then show ?case using 1 co by (auto simp: senddata_loop.simps [of net per co m d n] Let_def min_def)
qed

lemma fd_sendcall [simp]: "fd (snd (mw_srbsendcall net per h0 co h s d n fl)) = fd co"
proof -
  obtain rc co' where co: "mw_srbsendmessage net co (call_message per mw_deadline h s d (case d of Some d \<Rightarrow> if n = 0 then strlen d else n | None \<Rightarrow> n) fl) = (rc, co')"
    by fastforce
  then have "fd co' = fd co" using fd_sendmessage by (metis snd_conv)
  moreover have "fd (snd (mw_srbsenddata net per co' hb x)) = fd co'" for hb x
    by (simp add: mw_srbsenddata_def)
  ultimately show ?thesis using co by (simp add: mw_srbsendcall_def Let_def split: prod.split) (metis snd_conv)
qed

lemma fd_sendterm [simp]: "fd (snd (mw_srbsendterm net co g)) = fd co"
  by (simp add: mw_srbsendterm_def Let_def)

lemma keeps_upd_conn [keeps_rules]:
  "(\<And>c. fd (conn (f c)) = fd (conn c) \<and> conn_peerinfo (f c) = conn_peerinfo c) \<Longrightarrow> keeps st (upd_conn cn f st)"
  by (simp add: keeps_def upd_conn_def)

lemma keeps_on_conn [keeps_rules]: "(\<And>co. fd (snd (f co)) = fd co) \<Longrightarrow> keeps st (snd (on_conn cn f st))"
  by (auto simp: on_conn_def keeps_def split: prod.split) (metis snd_conv)

lemma keeps_IPCReply: "storeIPCReply st c = Some (r, st') \<Longrightarrow> keeps st st'"
  unfolding storeIPCReply_def
  by (erule keeps_locked) (auto simp: bind_eq_Some_conv Let_def keeps_refl split: option.splits if_splits dest!: keeps_free)

lemma keeps_conn_sent: "fd co = fd (conn (conns st cn)) \<Longrightarrow> keeps st (st\<lparr>conns := (conns st)(cn := (conns st cn)\<lparr>conn := co\<rparr>)\<rparr>)"
  by (simp add: keeps_def)

lemma keeps_IPCCall:
  assumes "storeIPCCall env net per h0 st c cn = Some (r, st')"
  shows "keeps st st'"
proof -
  let ?st = "st\<lparr>callmutex := True\<rparr>"
  obtain pc s1 where s1: "newPendingCall ?st (mw_get_caller_mwid c) (ca_handle c) = Some (pc, s1)"
    using assms by (auto simp: storeIPCCall_def bind_eq_Some_conv split: if_splits)
  define hd where "hd = fst (mw_nexthandle (os env) s1)"
  have nh: "mw_nexthandle (os env) s1 = (hd, s1\<lparr>handle := hd\<rparr>)" unfolding hd_def by (rule nexthandle_frame)
  let ?s2 = "upd_pc (s1\<lparr>handle := hd\<rparr>) pc (\<lambda>x. x\<lparr>ipchdl := ca_handle c, dst_mwid := conn_gwid (conns s1 cn), dsthdl := hd\<rparr>)"
  obtain s3 where s3: "rehashPendingCall ?s2 pc (conn_gwid (conns s1 cn)) hd = Some s3"
    using assms s1 nh by (auto simp: storeIPCCall_def bind_eq_Some_conv upd_pc_def split: if_splits)
  have "keeps ?st s1" "keeps ?s2 s3" using keeps_new [OF s1] keeps_rehash [OF s3] by simp_all
  then have "keeps st s1" "keeps s1 s3" by (simp_all add: keeps_def upd_pc_def)
  then have k3: "keeps st s3" by (rule keeps_trans)
  let ?s4 = "upd_pc s3 pc (\<lambda>x. x\<lparr>dstconn := Some cn\<rparr>)"
  obtain rc d n h where b: "mw_getbuffer_from_call (shm_env (os env)) (shm ?s4) c = Some (rc, d, n, h)"
    using assms s1 nh s3 by (auto simp: storeIPCCall_def bind_eq_Some_conv Let_def upd_pc_def split: if_splits)
  let ?s5 = "?s4\<lparr>shm := h\<rparr>"
  obtain rc2 co where call: "mw_srbsendcall net per h0 (conn (conns ?s5 cn)) (word_of_int hd) (ca_service c)
      (map_option (map (\<lambda>b. char_of (unat b))) d) (nat n) (word_of_int (ca_flags c)) = (rc2, co)" by fastforce
  then have "fd co = fd (conn (conns ?s5 cn))" using fd_sendcall by (metis snd_conv)
  then have "keeps ?s5 (?s5\<lparr>conns := (conns ?s5)(cn := (conns ?s5 cn)\<lparr>conn := co\<rparr>)\<rparr>)" by (rule keeps_conn_sent)
  then have k6: "keeps st (?s5\<lparr>conns := (conns ?s5)(cn := (conns ?s5 cn)\<lparr>conn := co\<rparr>)\<rparr>)"
    using k3 keeps_trans [of st ?s5] by (simp add: upd_pc_def)
  have k5: "keeps st ?s5" using k3 by (simp add: upd_pc_def)
  have "keeps st (s3\<lparr>shm := h, conns := (conns s3)(cn := (conns s3 cn)\<lparr>conn := co\<rparr>)\<rparr>)" using k6 by (simp add: keeps_def upd_pc_def)
  then show ?thesis
    using assms s1 nh s3 b call k5 k6
    by (auto simp: storeIPCCall_def Let_def upd_pc_def split: if_splits dest!: keeps_unlink intro: keeps_trans)
qed

section \<open>Every reference leads somewhere\<close>

definition import_ok :: "gwstate \<Rightarrow> import \<Rightarrow> bool" where
  "import_ok st imp \<longleftrightarrow> distinct (map pl_peer (imp_peerlist imp)) \<and> imp_peerlist imp \<noteq> []
     \<and> (\<forall>pl \<in> set (imp_peerlist imp). pl_peer pl < length (knownGWs st))"

definition export_ok :: "gwstate \<Rightarrow> export \<Rightarrow> bool" where
  "export_ok st e \<longleftrightarrow> distinct (exp_peerlist e) \<and> (\<forall>p \<in> set (exp_peerlist e). p < length (knownGWs st))"

text \<open>
  The peers of imports and exports and of connections are in the table of peers, the
  connections of peers and subscribers in the table of connections, and an open connection is
  the entry of its own descriptor.
\<close>

definition gw_ok :: "gwstate \<Rightarrow> bool" where
  "gw_ok st \<longleftrightarrow> (\<forall>imp \<in> set (importlist st). import_ok st imp) \<and> (\<forall>e \<in> set (exportlist st). export_ok st e)
     \<and> (\<forall>p < length (knownGWs st). \<forall>i. pi_conn (knownGWs st ! p) = Some i \<longrightarrow> i < conntblsize st)
     \<and> (\<forall>i < conntblsize st. \<forall>p. conn_peerinfo (conns st i) = Some p \<longrightarrow> p < length (knownGWs st))
     \<and> (\<forall>i < conntblsize st. fd (conn (conns st i)) = UNASSIGNED \<or> fd (conn (conns st i)) = int i)
     \<and> (\<forall>s \<in> set (srbsubs st). sub_conn s < conntblsize st)"

lemma gw_okI:
  assumes "\<And>imp. imp \<in> set (importlist st) \<Longrightarrow> import_ok st imp" "\<And>e. e \<in> set (exportlist st) \<Longrightarrow> export_ok st e"
    and "\<And>p i. p < length (knownGWs st) \<Longrightarrow> pi_conn (knownGWs st ! p) = Some i \<Longrightarrow> i < conntblsize st"
    and "\<And>i p. i < conntblsize st \<Longrightarrow> conn_peerinfo (conns st i) = Some p \<Longrightarrow> p < length (knownGWs st)"
    and "\<And>i. i < conntblsize st \<Longrightarrow> fd (conn (conns st i)) = UNASSIGNED \<or> fd (conn (conns st i)) = int i"
    and "\<And>s. s \<in> set (srbsubs st) \<Longrightarrow> sub_conn s < conntblsize st"
  shows "gw_ok st"
  using assms unfolding gw_ok_def by blast

lemma gw_okD:
  assumes "gw_ok st"
  shows "imp \<in> set (importlist st) \<Longrightarrow> import_ok st imp" "e \<in> set (exportlist st) \<Longrightarrow> export_ok st e"
    "p < length (knownGWs st) \<Longrightarrow> pi_conn (knownGWs st ! p) = Some i \<Longrightarrow> i < conntblsize st"
    "i < conntblsize st \<Longrightarrow> conn_peerinfo (conns st i) = Some p \<Longrightarrow> p < length (knownGWs st)"
    "i < conntblsize st \<Longrightarrow> fd (conn (conns st i)) = UNASSIGNED \<or> fd (conn (conns st i)) = int i"
    "s \<in> set (srbsubs st) \<Longrightarrow> sub_conn s < conntblsize st"
  using assms unfolding gw_ok_def by blast+

text \<open>A step that keeps this, and takes no entry away.\<close>

definition good :: "gwstate \<Rightarrow> gwstate \<Rightarrow> bool" where
  "good st st' \<longleftrightarrow> (gw_ok st \<longrightarrow> gw_ok st' \<and> conntblsize st \<le> conntblsize st' \<and> length (knownGWs st) \<le> length (knownGWs st'))"

lemma goodI: "(gw_ok st \<Longrightarrow> gw_ok st') \<Longrightarrow> conntblsize st \<le> conntblsize st' \<Longrightarrow> length (knownGWs st) \<le> length (knownGWs st') \<Longrightarrow> good st st'"
  by (simp add: good_def)

lemma good_refl: "good st st"
  by (simp add: good_def)

lemma good_trans: "good a b \<Longrightarrow> good b c \<Longrightarrow> good a c"
  by (auto simp: good_def)

lemma keeps_good: "keeps st st' \<Longrightarrow> good st st'"
  by (simp add: keeps_def good_def gw_ok_def import_ok_def export_ok_def)

lemma good_sizes: "good st st' \<Longrightarrow> gw_ok st \<Longrightarrow> gw_ok st' \<and> (cn < conntblsize st \<longrightarrow> cn < conntblsize st') \<and> (p < length (knownGWs st) \<longrightarrow> p < length (knownGWs st'))"
  by (auto simp: good_def)

lemma import_ok_fields [simp]:
  "import_ok (st\<lparr>importlist := l\<rparr>) = import_ok st" "export_ok (st\<lparr>importlist := l\<rparr>) = export_ok st"
  "import_ok (st\<lparr>exportlist := m\<rparr>) = import_ok st" "export_ok (st\<lparr>exportlist := m\<rparr>) = export_ok st"
  by (simp_all add: import_ok_def export_ok_def fun_eq_iff)

lemma good_imports:
  assumes "gw_ok st \<Longrightarrow> \<forall>imp \<in> set l. import_ok st imp"
  shows "good st (st\<lparr>importlist := l\<rparr>)"
  unfolding good_def
proof
  assume ok: "gw_ok st"
  then show "gw_ok (st\<lparr>importlist := l\<rparr>) \<and> conntblsize st \<le> conntblsize (st\<lparr>importlist := l\<rparr>) \<and> length (knownGWs st) \<le> length (knownGWs (st\<lparr>importlist := l\<rparr>))"
    using assms [OF ok] by (simp add: gw_ok_def)
qed

lemma good_exports:
  assumes "gw_ok st \<Longrightarrow> \<forall>e \<in> set l. export_ok st e"
  shows "good st (st\<lparr>exportlist := l\<rparr>)"
  unfolding good_def
proof
  assume ok: "gw_ok st"
  then show "gw_ok (st\<lparr>exportlist := l\<rparr>) \<and> conntblsize st \<le> conntblsize (st\<lparr>exportlist := l\<rparr>) \<and> length (knownGWs st) \<le> length (knownGWs (st\<lparr>exportlist := l\<rparr>))"
    using assms [OF ok] by (simp add: gw_ok_def)
qed

lemma gw_ok_lists: "gw_ok st \<Longrightarrow> imports_ok st" "gw_ok st \<Longrightarrow> exports_ok st"
  by (auto simp: gw_ok_def imports_ok_def exports_ok_def import_ok_def export_ok_def)

lemma set_list_update: "x \<in> set (xs[i := y]) \<Longrightarrow> x \<in> set xs \<or> (x = y \<and> i < length xs)"
  by (metis length_list_update list_update_beyond not_le set_update_subset_insert insertE subsetD)

lemma good_upd_import:
  assumes "\<And>pls. gw_ok st \<Longrightarrow> i < length (importlist st) \<Longrightarrow> import_ok st (importlist st ! i) \<Longrightarrow>
    import_ok st ((importlist st ! i)\<lparr>imp_peerlist := f (imp_peerlist (importlist st ! i))\<rparr>)"
  shows "good st (upd_import i f st)"
  unfolding upd_import_def
proof (rule good_imports, intro ballI)
  fix imp
  assume ok: "gw_ok st" and "imp \<in> set ((importlist st)[i := (importlist st ! i)\<lparr>imp_peerlist := f (imp_peerlist (importlist st ! i))\<rparr>])"
  then consider "imp \<in> set (importlist st)" | "imp = (importlist st ! i)\<lparr>imp_peerlist := f (imp_peerlist (importlist st ! i))\<rparr>" "i < length (importlist st)"
    using set_list_update by metis
  then show "import_ok st imp"
    using assms ok by cases (auto simp: gw_ok_def)
qed

lemma good_upd_export:
  assumes "gw_ok st \<Longrightarrow> i < length (exportlist st) \<Longrightarrow> export_ok st (exportlist st ! i) \<Longrightarrow> export_ok st (f (exportlist st ! i))"
  shows "good st (upd_export i f st)"
  unfolding upd_export_def
proof (rule good_exports, intro ballI)
  fix e
  assume ok: "gw_ok st" and "e \<in> set ((exportlist st)[i := f (exportlist st ! i)])"
  then consider "e \<in> set (exportlist st)" | "e = f (exportlist st ! i)" "i < length (exportlist st)"
    using set_list_update by metis
  then show "export_ok st e"
    using assms ok by cases (auto simp: gw_ok_def)
qed

section \<open>Imports and exports\<close>

lemma set_svcid_peers: "set_svcid g s i pls = Some pls' \<Longrightarrow> map pl_peer pls' = map pl_peer pls"
  by (induction pls arbitrary: pls') (auto split: if_splits)

lemma import_ok_peers:
  assumes "map pl_peer pls' = map pl_peer (imp_peerlist imp)" "import_ok st imp"
  shows "import_ok st (imp\<lparr>imp_peerlist := pls'\<rparr>)"
proof -
  have "pl_peer ` set pls' = pl_peer ` set (imp_peerlist imp)" by (metis assms(1) set_map)
  moreover have "pls' \<noteq> []" using assms by (auto simp: import_ok_def)
  ultimately show ?thesis using assms by (auto simp: import_ok_def) (metis imageE imageI)
qed

lemma good_unprovide: "good st (snd (mw_ipcsend_unprovide_for_id env st i s n))"
  by (rule keeps_good [OF keeps_queues [OF only_queues_unprovide]])

lemma good_impsetsvcid:
  assumes "impsetsvcid env service svcid gwid st = Some st'"
  shows "good st st'"
proof -
  consider "st' = snd (mw_ipcsend_unprovide_for_id (gw_proc env) st gwid service 0)"
    | i pls where "set_svcid (\<lambda>p. pi_gwid (knownGWs st ! p)) svcid gwid (imp_peerlist (importlist st ! i)) = Some pls" "st' = upd_import i (\<lambda>_. pls) st"
    using assms by (cases "impfind st service") (auto simp: impsetsvcid_def Let_def split: option.splits)
  then show ?thesis
  proof cases
    case 1
    then show ?thesis by (simp add: good_unprovide)
  next
    case 2
    then show ?thesis using import_ok_peers [OF set_svcid_peers [OF 2(1)]] by (auto intro: good_upd_import)
  qed
qed

lemma good_condnewimport_add:
  assumes "condnewimport service st = Some (i, s)" "p \<notin> pl_peer ` set (imp_peerlist (importlist s ! i))" "p < length (knownGWs st)"
  shows "good st (upd_import i (\<lambda>pls. pls @ [\<lparr>pl_peer = p, pl_svcid = x\<rparr>]) s)"
proof (cases "s = st")
  case True
  then show ?thesis using assms(2,3) by (auto intro!: good_upd_import simp: import_ok_def)
next
  case False
  then obtain nm where s: "i = 0" "s = st\<lparr>importlist := \<lparr>imp_servicename = nm, imp_peerlist = []\<rparr> # importlist st\<rparr>"
    using assms(1) by (auto simp: condnewimport_def bind_eq_Some_conv split: option.splits)
  then have "upd_import i (\<lambda>pls. pls @ [\<lparr>pl_peer = p, pl_svcid = x\<rparr>]) s =
      st\<lparr>importlist := \<lparr>imp_servicename = nm, imp_peerlist = [\<lparr>pl_peer = p, pl_svcid = x\<rparr>]\<rparr> # importlist st\<rparr>"
    by (simp add: upd_import_def)
  then show ?thesis using assms(3) by (auto intro!: good_imports simp: import_ok_def gw_ok_def)
qed

lemma good_unimport:
  assumes "unimportservice env service p st = Some (rc, st')"
  shows "good st st'"
proof (cases "st' = st")
  case True
  then show ?thesis by (simp add: good_refl)
next
  case False
  then obtain q i pl pls where run: "p = Some q" "impfind st service = Some (Some i)" "take_link q (imp_peerlist (importlist st ! i)) = Some (pl, pls)"
    using assms by (cases p; cases "impfind st service") (auto simp: unimportservice_def split: option.splits)
  let ?s = "if pl_svcid pl \<noteq> UNASSIGNED
    then snd (mw_ipcsend_unprovide_for_id (gw_proc env) st (pi_gwid (knownGWs st ! q)) service (pl_svcid pl)) else st"
  have keep: "keeps st ?s" using keeps_queues [OF only_queues_unprovide] by (simp add: keeps_refl)
  then have s: "good st ?s" "importlist ?s = importlist st" by (simp_all add: keeps_good keeps_def)
  have st': "st' = (if pls \<noteq> [] then upd_import i (\<lambda>_. pls) ?s else (upd_import i (\<lambda>_. pls) ?s)\<lparr>importlist := drop (i + 1) (importlist (upd_import i (\<lambda>_. pls) ?s))\<rparr>)"
    using assms run by (simp add: unimportservice_def Let_def)
  have len: "knownGWs ?s = knownGWs st" using keep by (simp add: keeps_def)
  have "good ?s st'"
  proof (cases "pls = []")
    case False
    have "good ?s (upd_import i (\<lambda>_. pls) ?s)"
    proof (rule good_upd_import)
      assume "import_ok ?s (importlist ?s ! i)"
      then show "import_ok ?s ((importlist ?s ! i)\<lparr>imp_peerlist := pls\<rparr>)"
        using take_link_Some [OF run(3)] False s(2) by (auto simp: import_ok_def)
    qed
    then show ?thesis using st' False by simp
  next
    case True
    have "(upd_import i (\<lambda>_. pls) ?s)\<lparr>importlist := drop (i + 1) (importlist (upd_import i (\<lambda>_. pls) ?s))\<rparr> = ?s\<lparr>importlist := drop (i + 1) (importlist ?s)\<rparr>"
      by (simp add: upd_import_def)
    moreover have "good ?s (?s\<lparr>importlist := drop (i + 1) (importlist ?s)\<rparr>)"
      by (rule good_imports) (auto simp: gw_ok_def dest: in_set_dropD)
    ultimately show ?thesis using st' True by simp
  qed
  then show ?thesis using s(1) good_trans by blast
qed

lemma good_import:
  assumes "importservice env service cost (Some p) st = Some (rc, st')" "p < length (knownGWs st)"
  shows "good st st'"
proof -
  obtain i s where c: "condnewimport service st = Some (i, s)" using assms(1) by (auto simp: importservice_def bind_eq_Some_conv)
  show ?thesis
  proof (cases "p \<in> pl_peer ` set (imp_peerlist (importlist s ! i))")
    case True
    then have "s = st" using c by (auto simp: condnewimport_def bind_eq_Some_conv split: option.splits)
    then show ?thesis using assms(1) c True by (simp add: importservice_def good_refl)
  next
    case False
    let ?s1 = "upd_import i (\<lambda>pls. pls @ [\<lparr>pl_peer = p, pl_svcid = UNASSIGNED\<rparr>]) s"
    have 1: "good st ?s1" by (rule good_condnewimport_add [OF c False assms(2)])
    obtain rc2 s2 where s2: "mw_ipcsend_provide_for_id (gw_proc env) ?s1 (pi_gwid (knownGWs ?s1 ! p)) service cost 0 = (rc2, s2)" by fastforce
    then have "good ?s1 s2" using keeps_good [OF keeps_queues [OF only_queues_provide]] by (metis snd_conv)
    then have 2: "good st s2" using 1 good_trans by blast
    show ?thesis
    proof (cases "rc2 < 0")
      case True
      then obtain x where "unimportservice env service (Some p) s2 = Some (x, st')"
        using assms(1) c False s2 by (auto simp: importservice_def Let_def)
      then show ?thesis using good_unimport 2 good_trans by blast
    next
      case False': False
      then show ?thesis using assms(1) c False s2 2 by (simp add: importservice_def Let_def)
    qed
  qed
qed

lemma good_cleanup: "good st (impexp_cleanuppeer env p st)"
proof (cases "gw_ok st")
  case True
  obtain q where q: "impexp_cleanuppeer env p st = st\<lparr>msgq := q, importlist := without_peer p (importlist st),
      exportlist := map (\<lambda>e. e\<lparr>exp_peerlist := remove1 p (exp_peerlist e)\<rparr>) (exportlist st)\<rparr>"
    using cleanup_fields [OF gw_ok_lists(1) [OF True] gw_ok_lists(2) [OF True]] by blast
  have 1: "good st (st\<lparr>importlist := without_peer p (importlist st)\<rparr>)"
    by (rule good_imports) (auto simp: gw_ok_def without_peer_def import_ok_def distinct_map_filter)
  have 2: "good (st\<lparr>importlist := l\<rparr>) (st\<lparr>importlist := l, exportlist := map (\<lambda>e. e\<lparr>exp_peerlist := remove1 p (exp_peerlist e)\<rparr>) (exportlist st)\<rparr>)" for l
    by (rule good_exports) (auto simp: gw_ok_def export_ok_def dest: notin_set_remove1 [THEN contrapos_pp])
  have "keeps (st\<lparr>importlist := l, exportlist := m\<rparr>) (st\<lparr>msgq := q, importlist := l, exportlist := m\<rparr>)" for l m
    by (simp add: keeps_def)
  then show ?thesis using good_trans [OF good_trans [OF 1 2]] keeps_good q by simp
qed (simp add: good_def)

lemma keeps_sendprovide: "keeps st (snd (mw_srbsendprovide env cn service cost st))"
  by (simp add: mw_srbsendprovide_def Let_def keeps_refl keeps_on_conn)

lemma keeps_sendunprovide: "keeps st (snd (mw_srbsendunprovide env cn service st))"
  by (simp add: mw_srbsendunprovide_def Let_def keeps_on_conn)

lemma good_condnewexport:
  assumes "condnewexport service st = Some (i, st')"
  shows "good st st'"
proof -
  consider "st' = st" | e where "st' = st\<lparr>exportlist := exportlist st @ [e]\<rparr>" "exp_peerlist e = []"
    using assms by (auto simp: condnewexport_def bind_eq_Some_conv split: option.splits)
  then show ?thesis by cases (auto simp: good_refl gw_ok_def export_ok_def intro!: good_exports)
qed

lemma condnewexport_peers: "condnewexport service st = Some (i, st') \<Longrightarrow> knownGWs st' = knownGWs st"
  by (auto simp: condnewexport_def bind_eq_Some_conv split: option.splits)

lemma good_exp_cost: "good st (upd_export i (\<lambda>e. e\<lparr>exp_cost := c\<rparr>) st)"
  by (rule good_upd_export) (simp add: export_ok_def)

lemma good_export:
  assumes "exportservicetopeer env service p st = Some (rc, st')" "p < length (knownGWs st)"
  shows "good st st'"
proof (cases "domainid (knownGWs st ! p) \<noteq> 0 \<or> (service \<noteq> [] \<and> hd service = CHR ''.'')")
  case True
  then show ?thesis using assms(1) by (simp add: exportservicetopeer_def good_refl)
next
  case False
  then obtain i s where c: "condnewexport service st = Some (i, s)"
    using assms(1) by (auto simp: exportservicetopeer_def bind_eq_Some_conv)
  define s1 where "s1 = (if exp_cost (exportlist s ! i) = -1 then upd_export i (\<lambda>e. e\<lparr>exp_cost := gw_getcostofservice env s service\<rparr>) s else s)"
  have "good s s1" by (simp add: s1_def good_refl good_exp_cost)
  then have s1: "good st s1" by (rule good_trans [OF good_condnewexport [OF c]])
  have k1: "knownGWs s1 = knownGWs st" using condnewexport_peers [OF c] by (simp add: s1_def upd_export_def)
  define s2 where "s2 = upd_export i (\<lambda>e. e\<lparr>exp_peerlist := exp_peerlist e @ [p]\<rparr>) s1"
  have run: "exportservicetopeer env service p st = (if p \<in> set (exp_peerlist (exportlist s1 ! i)) then Some (1, s1)
      else pi_conn (knownGWs s2 ! p) \<bind> (\<lambda>cn. Some (mw_srbsendprovide env cn service (exp_cost (exportlist s2 ! i)) s2)))"
    unfolding exportservicetopeer_def if_not_P [OF False] c s2_def s1_def Let_def by simp
  show ?thesis
  proof (cases "p \<in> set (exp_peerlist (exportlist s1 ! i))")
    case True
    then show ?thesis using assms(1) run s1 by simp
  next
    case new: False
    have "good s1 s2" unfolding s2_def by (rule good_upd_export) (use new assms(2) k1 in \<open>simp add: export_ok_def\<close>)
    moreover obtain cn where "mw_srbsendprovide env cn service (exp_cost (exportlist s2 ! i)) s2 = (rc, st')"
      using assms(1) run new by (cases "pi_conn (knownGWs s2 ! p)") simp_all
    then have "good s2 st'" using keeps_good [OF keeps_sendprovide] by (metis snd_conv)
    ultimately show ?thesis using s1(1) good_trans by blast
  qed
qed

lemma keeps_unprovide_loop: "unprovide_loop env service ps st = Some st' \<Longrightarrow> keeps st st'"
  by (induction ps arbitrary: st) (auto simp: keeps_refl bind_eq_Some_conv intro: keeps_trans [OF keeps_sendunprovide])

lemma good_unexport:
  assumes "unexportservice env service st = Some st'"
  shows "good st st'"
proof -
  consider "st' = st" | i ps where "unprovide_loop env service ps (st\<lparr>exportlist := take i (exportlist st) @ drop (i + 1) (exportlist st)\<rparr>) = Some st'"
    using assms by (auto simp: unexportservice_def bind_eq_Some_conv split: option.splits)
  then show ?thesis
  proof cases
    case 2
    have "good st (st\<lparr>exportlist := take i (exportlist st) @ drop (i + 1) (exportlist st)\<rparr>)"
      by (rule good_exports) (auto simp: gw_ok_def dest: in_set_takeD in_set_dropD)
    then show ?thesis using keeps_good [OF keeps_unprovide_loop [OF 2]] good_trans by blast
  qed (simp add: good_refl)
qed

lemma good_to_peers:
  assumes "to_peers_loop f ps st = Some st'" "\<forall>p \<in> set ps. p < length (knownGWs st)" "gw_ok st"
    and "\<And>p cn s s'. f p cn s = Some s' \<Longrightarrow> p < length (knownGWs s) \<Longrightarrow> good s s'"
  shows "good st st'"
  using assms(1-3)
proof (induction ps arbitrary: st)
  case Nil
  then show ?case by (simp add: good_refl)
next
  case (Cons p ps)
  then obtain s where s: "(case pi_conn (knownGWs st ! p) of None \<Rightarrow> Some st
      | Some cn \<Rightarrow> if conn_state (conns st cn) \<noteq> CONNECT_STATE_UP then Some st else f p cn st) = Some s" "to_peers_loop f ps s = Some st'"
    by (auto simp: bind_eq_Some_conv)
  then have g: "good st s" using assms(4) Cons.prems(2) by (auto simp: good_refl split: option.splits if_splits)
  then have "gw_ok s" "\<forall>p \<in> set ps. p < length (knownGWs s)" using Cons.prems(2,3) by (auto simp: good_def)
  then show ?case using Cons.IH [OF s(2)] g good_trans by blast
qed

lemma good_provide_to_peers:
  assumes "gw_provideservice_to_peers env service st = Some st'"
  shows "good st st'"
proof (cases "gw_ok st")
  case True
  show ?thesis
    by (rule good_to_peers [OF assms [unfolded gw_provideservice_to_peers_def] _ True]) (auto dest: good_export)
qed (simp add: good_def)

lemma good_send_to_peers:
  assumes "gw_send_to_peers env msg st = Some st'"
  shows "good st st'"
proof (cases "gw_ok st")
  case True
  show ?thesis
    by (rule good_to_peers [OF assms [unfolded gw_send_to_peers_def] _ True]) (auto intro!: keeps_good keeps_on_conn)
qed (simp add: good_def)

lemma good_doprovideevent:
  assumes "doprovideevent env service st = Some st'"
  shows "good st st'"
proof -
  obtain i s where c: "condnewexport service st = Some (i, s)" using assms by (auto simp: doprovideevent_def bind_eq_Some_conv)
  let ?x = "gw_getcostofservice env s service"
  show ?thesis
  proof (cases "?x = exp_cost (exportlist s ! i)")
    case True
    then show ?thesis using assms c good_condnewexport [OF c] by (simp add: doprovideevent_def Let_def split: if_splits)
  next
    case False
    have "good st (upd_export i (\<lambda>e. e\<lparr>exp_cost := ?x\<rparr>) s)" by (rule good_trans [OF good_condnewexport [OF c] good_exp_cost])
    moreover have "gw_provideservice_to_peers env service (upd_export i (\<lambda>e. e\<lparr>exp_cost := ?x\<rparr>) s) = Some st'"
      using assms c False by (simp add: doprovideevent_def Let_def split: if_splits)
    then have "good (upd_export i (\<lambda>e. e\<lparr>exp_cost := ?x\<rparr>) s) st'" by (rule good_provide_to_peers)
    ultimately show ?thesis by (rule good_trans)
  qed
qed

lemma good_dounprovideevent: "dounprovideevent env service st = Some st' \<Longrightarrow> good st st'"
  by (auto simp: dounprovideevent_def good_refl split: option.splits dest: good_unexport)

section \<open>Peers and connections\<close>

lemma keeps_allocgwid: "keeps st (snd (allocgwid env l r st))"
  by (auto simp: allocgwid_def keeps_refl split: option.split)

lemma keeps_freegwid: "freegwid g st = Some st' \<Longrightarrow> keeps st st'"
  by (auto simp: freegwid_def Let_def keeps_refl split: if_splits)

lemma keeps_setipc: "gw_setipc env p st = Some st' \<Longrightarrow> keeps st st'"
  by (auto simp: gw_setipc_def Let_def keeps_refl split: option.splits if_splits)

lemma keeps_setpeername: "conn_setpeername env cn st = Some st' \<Longrightarrow> keeps st st'"
  by (auto simp: conn_setpeername_def Let_def keeps_refl split: option.splits if_splits sockaddr.splits)

lemma keeps_setinfo:
  assumes "conn_setinfo f i st = Some st'"
  shows "keeps st st'"
proof -
  obtain cn where "fd2conn st f = Some cn" using assms by (auto simp: conn_setinfo_def bind_eq_Some_conv)
  then show ?thesis
    using assms by (cases "i AND MWCLIENTMASK = 0"; cases "i AND MWGATEWAYMASK = 0") (auto simp: conn_setinfo_def upd_conn_def keeps_def)
qed

lemma gw_ok_fields [simp]:
  "import_ok (upd_conn cn f st) = import_ok st" "export_ok (upd_conn cn f st) = export_ok st"
  by (simp_all add: import_ok_def export_ok_def fun_eq_iff)

lemma good_upd_conn:
  assumes "gw_ok st \<Longrightarrow> cn < conntblsize st \<Longrightarrow> (\<forall>p. conn_peerinfo (f (conns st cn)) = Some p \<longrightarrow> p < length (knownGWs st))
    \<and> (fd (conn (f (conns st cn))) = UNASSIGNED \<or> fd (conn (f (conns st cn))) = int cn)"
  shows "good st (upd_conn cn f st)"
proof (rule goodI)
  assume ok: "gw_ok st"
  show "gw_ok (upd_conn cn f st)"
  proof (rule gw_okI)
    show "p < length (knownGWs (upd_conn cn f st))" if "i < conntblsize (upd_conn cn f st)" "conn_peerinfo (conns (upd_conn cn f st) i) = Some p" for i p
      using that assms [OF ok] gw_okD(4) [OF ok, of i p] by (cases "i = cn") (simp_all add: upd_conn_def)
    show "fd (conn (conns (upd_conn cn f st) i)) = UNASSIGNED \<or> fd (conn (conns (upd_conn cn f st) i)) = int i" if "i < conntblsize (upd_conn cn f st)" for i
      using that assms [OF ok] gw_okD(5) [OF ok, of i] by (cases "i = cn") (simp_all add: upd_conn_def)
  qed (use gw_okD [OF ok] in simp_all)
qed simp_all

lemma good_conn_clear: "good st (upd_conn cn (\<lambda>_. conn_clear) st)"
  by (rule good_upd_conn) (simp add: conn_clear_def)

lemma good_upd_peer:
  assumes "gw_ok st \<Longrightarrow> p < length (knownGWs st) \<Longrightarrow> \<forall>i. pi_conn (f (knownGWs st ! p)) = Some i \<longrightarrow> i < conntblsize st"
  shows "good st (upd_peer p f st)"
proof (rule goodI)
  assume ok: "gw_ok st"
  have eqs: "import_ok (upd_peer p f st) = import_ok st" "export_ok (upd_peer p f st) = export_ok st"
    by (simp_all add: import_ok_def export_ok_def fun_eq_iff upd_peer_def)
  show "gw_ok (upd_peer p f st)"
  proof (rule gw_okI)
    show "import_ok (upd_peer p f st) imp" if "imp \<in> set (importlist (upd_peer p f st))" for imp
      unfolding eqs using that gw_okD(1) [OF ok] by (simp add: upd_peer_def)
    show "export_ok (upd_peer p f st) e" if "e \<in> set (exportlist (upd_peer p f st))" for e
      unfolding eqs using that gw_okD(2) [OF ok] by (simp add: upd_peer_def)
    show "i < conntblsize (upd_peer p f st)" if "q < length (knownGWs (upd_peer p f st))" "pi_conn (knownGWs (upd_peer p f st) ! q) = Some i" for q i
      using that assms [OF ok] gw_okD(3) [OF ok, of q i] by (cases "q = p") (simp_all add: upd_peer_def)
    show "q < length (knownGWs (upd_peer p f st))" if "i < conntblsize (upd_peer p f st)" "conn_peerinfo (conns (upd_peer p f st) i) = Some q" for i q
      using that gw_okD(4) [OF ok, of i q] by (simp add: upd_peer_def)
  qed (use gw_okD [OF ok] in \<open>simp_all add: upd_peer_def\<close>)
qed (simp_all add: upd_peer_def)

lemma good_add_peer:
  assumes "pi_conn peer = None"
  shows "good st (st\<lparr>knownGWs := knownGWs st @ [peer]\<rparr>)"
proof (rule goodI)
  let ?st = "st\<lparr>knownGWs := knownGWs st @ [peer]\<rparr>"
  assume ok: "gw_ok st"
  show "gw_ok ?st"
  proof (rule gw_okI)
    show "import_ok ?st imp" if "imp \<in> set (importlist ?st)" for imp
      using gw_okD(1) [OF ok, of imp] that by (auto simp: import_ok_def less_SucI)
    show "export_ok ?st e" if "e \<in> set (exportlist ?st)" for e
      using gw_okD(2) [OF ok, of e] that by (auto simp: export_ok_def less_SucI)
    show "i < conntblsize ?st" if "q < length (knownGWs ?st)" "pi_conn (knownGWs ?st ! q) = Some i" for q i
      using that assms gw_okD(3) [OF ok, of q i] by (cases "q < length (knownGWs st)") (simp_all add: nth_append less_Suc_eq)
    show "q < length (knownGWs ?st)" if "i < conntblsize ?st" "conn_peerinfo (conns ?st i) = Some q" for i q
      using that gw_okD(4) [OF ok, of i q] by simp
  qed (use gw_okD [OF ok] in simp_all)
qed simp_all

lemma good_subs:
  assumes "gw_ok st \<Longrightarrow> \<forall>s \<in> set l. sub_conn s < conntblsize st"
  shows "good st (st\<lparr>srbsubs := l\<rparr>)"
proof (rule goodI)
  assume ok: "gw_ok st"
  have [simp]: "import_ok (st\<lparr>srbsubs := l\<rparr>) = import_ok st" "export_ok (st\<lparr>srbsubs := l\<rparr>) = export_ok st"
    by (simp_all add: import_ok_def export_ok_def fun_eq_iff)
  show "gw_ok (st\<lparr>srbsubs := l\<rparr>)"
  proof (rule gw_okI)
    show "q < length (knownGWs (st\<lparr>srbsubs := l\<rparr>))" if "i < conntblsize (st\<lparr>srbsubs := l\<rparr>)" "conn_peerinfo (conns (st\<lparr>srbsubs := l\<rparr>) i) = Some q" for i q
      using that gw_okD(4) [OF ok, of i q] by simp
  qed (use gw_okD [OF ok] assms [OF ok] in simp_all)
qed simp_all

lemma arr_find_bound: "arr_find n s xs k = Some (Some i) \<Longrightarrow> k \<le> i \<and> i < k + length xs"
proof (induction xs arbitrary: k)
  case (Cons x xs)
  obtain b where b: "arr_eq n x s = Some b" using Cons.prems by (auto simp: bind_eq_Some_conv)
  show ?case
  proof (cases b)
    case True
    then show ?thesis using Cons.prems b by simp
  next
    case False
    then show ?thesis using Cons.prems b Cons.IH [of "k + 1"] by simp
  qed
qed simp

lemma good_addKnownPeer:
  assumes "addKnownPeer peer st = Some (p, st')" "pi_conn peer = None"
  shows "good st st'" "p < length (knownGWs st')"
  using assms arr_find_bound [of MWMAXNAMELEN "pi_instance peer" "map pi_instance (knownGWs st)" 0]
  by (auto simp: addKnownPeer_def bind_eq_Some_conv good_refl good_add_peer split: option.splits)

lemma good_gw_addknownpeer:
  assumes "gw_addknownpeer env inst domain addr st = Some (rc, r, st')"
  shows "good st st'" "r = Some p \<Longrightarrow> p < length (knownGWs st')"
proof -
  consider "st' = st" "r = None" | q peer where "r = Some q" "addKnownPeer peer st = Some (q, st')" "pi_conn peer = None"
    using assms by (auto simp: gw_addknownpeer_def Let_def bind_eq_Some_conv split: option.splits if_splits)
  then have "good st st' \<and> (r = Some p \<longrightarrow> p < length (knownGWs st'))"
    by cases (auto simp: good_refl dest: good_addKnownPeer)
  then show "good st st'" "r = Some p \<Longrightarrow> p < length (knownGWs st')" by blast+
qed

lemma good_connect:
  assumes "p < length (knownGWs st)" "cn < conntblsize st"
  shows "good st (upd_peer p (\<lambda>pi. pi\<lparr>domainid := d, pi_conn := Some cn, pi_gwid := g\<rparr>) (upd_conn cn (\<lambda>c. c\<lparr>conn_peerinfo := Some p, conn_gwid := g\<rparr>) st))"
proof (rule good_trans)
  show "good st (upd_conn cn (\<lambda>c. c\<lparr>conn_peerinfo := Some p, conn_gwid := g\<rparr>) st)"
    by (rule good_upd_conn) (use assms gw_okD(5) in auto)
  show "good (upd_conn cn (\<lambda>c. c\<lparr>conn_peerinfo := Some p, conn_gwid := g\<rparr>) st) (upd_peer p (\<lambda>pi. pi\<lparr>domainid := d, pi_conn := Some cn, pi_gwid := g\<rparr>) (upd_conn cn (\<lambda>c. c\<lparr>conn_peerinfo := Some p, conn_gwid := g\<rparr>) st))"
    by (rule good_upd_peer) (use assms(2) in simp)
qed

lemma good_peerconnected:
  assumes "gw_peerconnected env inst domn cn st = Some (rc, st')" "cn < conntblsize st"
  shows "good st st'"
proof (cases "gw_ok st \<and> \<not> remdom_getid env domn < 0")
  case True
  then have ok: "gw_ok st" and d: "\<not> remdom_getid env domn < 0" by simp_all
  obtain k where k: "getKnownPeerByInstance st inst = Some k"
    using assms(1) d by (auto simp: gw_peerconnected_def Let_def bind_eq_Some_conv)
  obtain k' s where ks: "(case k of Some p \<Rightarrow> Some (Some p, st)
      | None \<Rightarrow> map_option snd (gw_addknownpeer env inst domn (peername env (fd (conn (conns st cn)))) st)) = Some (k', s)"
    using assms(1) d k by (auto simp: gw_peerconnected_def Let_def bind_eq_Some_conv)
  have s: "good st s" "k' = Some p \<Longrightarrow> p < length (knownGWs s)" for p
    using ks k arr_find_bound [of MWMAXNAMELEN inst "map pi_instance (knownGWs st)" 0]
    by (auto simp: good_refl getKnownPeerByInstance_def split: option.splits dest: good_gw_addknownpeer)
  show ?thesis
  proof (cases "k' = None \<or> pi_conn (knownGWs s ! the k') \<noteq> None")
    case True
    then show ?thesis using assms(1) d k ks s(1) by (auto simp: gw_peerconnected_def Let_def split: option.splits)
  next
    case False
    then obtain p where p: "k' = Some p" "pi_conn (knownGWs s ! p) = None" by auto
    let ?d = "remdom_getid env domn"
    obtain g s1 where s1: "allocgwid env (if ?d = 0 then GWPEER else GWREMOTE) SRB_ROLE_GATEWAY s = (g, s1)" by fastforce
    then have "keeps s s1" using keeps_allocgwid by (metis snd_conv)
    then have g1: "good st s1" "knownGWs s1 = knownGWs s" using good_trans [OF s(1) keeps_good] by (simp_all add: keeps_def)
    let ?s2 = "upd_peer p (\<lambda>pi. pi\<lparr>domainid := ?d, pi_conn := Some cn, pi_gwid := g\<rparr>) (upd_conn cn (\<lambda>c. c\<lparr>conn_peerinfo := Some p, conn_gwid := g\<rparr>) s1)"
    have "p < length (knownGWs s1)" using s(2) p(1) g1(2) by simp
    moreover have "cn < conntblsize s1" using good_sizes [OF g1(1) ok] assms(2) by blast
    ultimately have "good s1 ?s2" by (rule good_connect)
    moreover have "gw_setipc env (Some p) ?s2 = Some st'"
      using assms(1) d k ks p s1 by (auto simp: gw_peerconnected_def Let_def bind_eq_Some_conv)
    then have "good ?s2 st'" by (rule keeps_good [OF keeps_setipc])
    ultimately show ?thesis using g1(1) good_trans by blast
  qed
qed (use assms(1) in \<open>auto simp: gw_peerconnected_def Let_def good_refl good_def\<close>)

lemma good_export_loop:
  "export_loop env p ss st = Some st' \<Longrightarrow> p < length (knownGWs st) \<Longrightarrow> gw_ok st \<Longrightarrow> good st st'"
proof (induction ss arbitrary: st)
  case Nil
  then show ?case by (simp add: good_refl)
next
  case (Cons s ss)
  then obtain rc s1 where s1: "exportservicetopeer env s p st = Some (rc, s1)" "export_loop env p ss s1 = Some st'"
    by (auto simp: bind_eq_Some_conv)
  have g: "good st s1" by (rule good_export [OF s1(1) Cons.prems(2)])
  then have "p < length (knownGWs s1)" "gw_ok s1" using good_sizes Cons.prems(2,3) by blast+
  then show ?case using Cons.IH [OF s1(2)] g good_trans by blast
qed

lemma good_provideservices:
  assumes "gw_provideservices_to_peer env g st = Some st'"
  shows "good st st'"
proof (cases "gw_ok st")
  case True
  obtain p ss where "getKnownPeerByGWID st g = Some p" "export_loop env p ss st = Some st'"
    using assms by (auto simp: gw_provideservices_to_peer_def split: option.splits)
  moreover have "p < length (knownGWs st)" using calculation(1) by (auto simp: getKnownPeerByGWID_def find_Some_iff)
  ultimately show ?thesis using good_export_loop True by blast
qed (simp add: good_def)

lemma good_extend:
  assumes "conntblsize st \<le> n" "conns st' = (\<lambda>i. if conntblsize st \<le> i \<and> i < n then conn_clear else conns st i)" "conntblsize st' = n"
    and "importlist st' = importlist st" "exportlist st' = exportlist st" "knownGWs st' = knownGWs st" "srbsubs st' = srbsubs st"
  shows "good st st'"
proof (rule goodI)
  assume ok: "gw_ok st"
  have eqs: "import_ok st' = import_ok st" "export_ok st' = export_ok st" using assms(6) by (simp_all add: import_ok_def export_ok_def fun_eq_iff)
  have clear: "conn_peerinfo conn_clear = None" "fd (conn conn_clear) = UNASSIGNED" by (simp_all add: conn_clear_def)
  show "gw_ok st'"
  proof (rule gw_okI)
    show "p < length (knownGWs st')" if "i < conntblsize st'" "conn_peerinfo (conns st' i) = Some p" for i p
      using that assms(2,3,6) gw_okD(4) [OF ok, of i p] clear by (auto split: if_splits)
    show "fd (conn (conns st' i)) = UNASSIGNED \<or> fd (conn (conns st' i)) = int i" if "i < conntblsize st'" for i
      using that assms(2,3) gw_okD(5) [OF ok, of i] clear by (cases "i < conntblsize st") auto
    show "i < conntblsize st'" if "p < length (knownGWs st')" "pi_conn (knownGWs st' ! p) = Some i" for p i
      using that gw_okD(3) [OF ok, of p i] assms(1,3,6) by simp
    show "sub_conn x < conntblsize st'" if "x \<in> set (srbsubs st')" for x
      using that gw_okD(6) [OF ok, of x] assms(1,3,7) by simp
  qed (use gw_okD(1,2) [OF ok] assms(4,5) eqs in simp_all)
qed (use assms in simp_all)

lemma good_conn_add: "good st (conn_add f role ty st)" "f < conntblsize (conn_add f role ty st)"
proof -
  define s1 where "s1 = st\<lparr>lastconnectionid := (if lastconnectionid st + 1 \<le> 0 \<or> lastconnectionid st + 1 > 0x7fffffff then 100 else lastconnectionid st + 1)\<rparr>"
  define s2 where "s2 = (if conntblsize s1 \<le> f
    then s1\<lparr>conns := (\<lambda>i. if conntblsize s1 \<le> i \<and> i < (f div 10 + 1) * 10 then conn_clear else conns s1 i), conntblsize := (f div 10 + 1) * 10\<rparr> else s1)"
  define s3 where "s3 = upd_conn f (\<lambda>c. c\<lparr>connectionid := lastconnectionid s2, conn_cost := 100, conn := (conn c)\<lparr>fd := int f, messagebuffer := True\<rparr>\<rparr>) s2"
  define s4 where "s4 = (if f \<ge> 1023 then upd_conn f (\<lambda>_. conn_clear) s3 else s3)"
  have run: "conn_add f role ty st = (if fd (conn (conns s2 f)) \<noteq> UNASSIGNED then s2 else upd_conn f (\<lambda>c. c\<lparr>conn_role := role, conn_type := ty\<rparr>) s4)"
    unfolding conn_add_def Let_def s4_def s3_def s2_def s1_def by simp
  have 1: "good st s1" unfolding s1_def by (rule keeps_good) (simp add: keeps_def)
  have room: "f < (f div 10 + 1) * 10" using dividend_less_div_times [of 10 f] by simp
  have 2: "good s1 s2"
  proof (cases "conntblsize s1 \<le> f")
    case True
    show ?thesis by (rule good_extend [where n = "(f div 10 + 1) * 10"]) (use True room in \<open>simp_all add: s2_def\<close>)
  qed (simp add: s2_def good_refl)
  have size: "f < conntblsize s2" using room by (simp add: s2_def)
  have 3: "good s2 s3" unfolding s3_def by (rule good_upd_conn) (use gw_okD(4) in auto)
  have 4: "good s3 s4" by (simp add: s4_def good_conn_clear good_refl)
  have 5: "good s4 (upd_conn f (\<lambda>c. c\<lparr>conn_role := role, conn_type := ty\<rparr>) s4)" by (rule keeps_good [OF keeps_upd_conn]) simp
  show "good st (conn_add f role ty st)"
    unfolding run using good_trans [OF 1 2] good_trans [OF good_trans [OF 3 4] 5] good_trans by auto
  show "f < conntblsize (conn_add f role ty st)"
    unfolding run using size by (simp add: s4_def s3_def)
qed

end
