(* ===== verification/GwSteps.thy ===== *)
theory GwSteps
  imports GwInv
begin

unbundle bit_operations_syntax

text \<open>
  Whatever a gateway is told, by clients, peers, the broker or its queue, the references
  between its tables stay valid: every handler of \<^verbatim>\<open>SRBprotocolServer.c\<close>, \<^verbatim>\<open>ipcserver.c\<close> and
  \<^verbatim>\<open>tcpserver.c\<close> keeps \<open>gw_ok\<close>, and so do the steps of a gateway that is running.
\<close>

section \<open>Results of handlers\<close>

text \<open>What a handler that does not crash leaves; \<open>conn_ok\<close> is what a handler of a connection relies on.\<close>

definition post :: "('a \<Rightarrow> bool) \<Rightarrow> 'a option \<Rightarrow> bool" where
  "post Q r \<longleftrightarrow> (case r of None \<Rightarrow> True | Some x \<Rightarrow> Q x)"

definition conn_ok :: "nat \<Rightarrow> gwstate \<Rightarrow> bool" where
  "conn_ok cn st \<longleftrightarrow> gw_ok st \<and> cn < conntblsize st"

named_theorems post_rules

lemma postI: "(\<And>x. r = Some x \<Longrightarrow> Q x) \<Longrightarrow> post Q r"
  by (simp add: post_def split: option.split)

lemma postD: "post Q r \<Longrightarrow> r = Some x \<Longrightarrow> Q x"
  by (simp add: post_def)

lemma post_Some [post_rules]: "Q x \<Longrightarrow> post Q (Some x)"
  by (simp add: post_def)

lemma post_None [post_rules]: "post Q None"
  by (simp add: post_def)

lemma post_bind: "post P r \<Longrightarrow> (\<And>x. P x \<Longrightarrow> post Q (F x)) \<Longrightarrow> post Q (r \<bind> F)"
  by (cases r) (simp_all add: post_def)

lemma post_map [post_rules]: "post (\<lambda>x. Q (f x)) r \<Longrightarrow> post Q (map_option f r)"
  by (cases r) (simp_all add: post_def)

lemma post_if [post_rules]: "(b \<Longrightarrow> post Q x) \<Longrightarrow> (\<not> b \<Longrightarrow> post Q y) \<Longrightarrow> post Q (if b then x else y)"
  by simp

lemma post_option [post_rules]: "(v = None \<Longrightarrow> post Q x) \<Longrightarrow> (\<And>a. v = Some a \<Longrightarrow> post Q (F a)) \<Longrightarrow> post Q (case v of None \<Rightarrow> x | Some a \<Rightarrow> F a)"
  by (cases v) simp_all

lemma post_bool [post_rules]: "(b \<Longrightarrow> post Q x) \<Longrightarrow> (\<not> b \<Longrightarrow> post Q y) \<Longrightarrow> post Q (case b of True \<Rightarrow> x | False \<Rightarrow> y)"
  by (cases b) simp_all

lemma post_mono: "post P r \<Longrightarrow> (\<And>x. P x \<Longrightarrow> Q x) \<Longrightarrow> post Q r"
  by (cases r) (simp_all add: post_def)

lemma conn_ok_good: "conn_ok cn st \<Longrightarrow> good st st' \<Longrightarrow> conn_ok cn st'"
  by (auto simp: conn_ok_def good_def)

lemma conn_ok_keeps: "conn_ok cn st \<Longrightarrow> keeps st st' \<Longrightarrow> conn_ok cn st'"
  by (rule conn_ok_good [OF _ keeps_good])

lemma conn_ok_peer: "conn_ok cn st \<Longrightarrow> conn_peerinfo (conns st cn) = Some p \<Longrightarrow> p < length (knownGWs st)"
  using gw_okD(4) by (auto simp: conn_ok_def)

lemma post_good: "conn_ok cn st \<Longrightarrow> (\<And>st'. r = Some st' \<Longrightarrow> good st st') \<Longrightarrow> post (conn_ok cn) r"
  by (rule postI) (blast intro: conn_ok_good)

lemma post_good_snd: "conn_ok cn st \<Longrightarrow> (\<And>rc st'. r = Some (rc, st') \<Longrightarrow> good st st') \<Longrightarrow> post (\<lambda>x. conn_ok cn (snd x)) r"
  by (rule postI) (metis conn_ok_good prod.collapse)

section \<open>Closing and connecting\<close>

lemma good_closegateway:
  assumes "gw_closegateway env cn st = Some st'"
  shows "good st st'"
proof -
  have closed: "post (good s0) (case cn of None \<Rightarrow> Some s | Some cn \<Rightarrow>
      (let f = fd (conn (conns s cn)); s = upd_conn cn (\<lambda>c. c\<lparr>conn_gwid := UNASSIGNED\<rparr>) s;
           s = (case conn_peerinfo (conns s cn) of None \<Rightarrow> s | Some q \<Rightarrow> upd_peer q (\<lambda>pi. pi\<lparr>pi_conn := None\<rparr>) s);
           s = upd_conn cn (\<lambda>c. c\<lparr>conn_peerinfo := None\<rparr>) s
       in fd2conn s f \<bind> (\<lambda>cn. Some (upd_conn cn (\<lambda>_. conn_clear) s))))"
    if "good s0 s" for s0 s cn
  proof (rule post_option)
    fix i
    define s1 where "s1 = upd_conn i (\<lambda>c. c\<lparr>conn_gwid := UNASSIGNED\<rparr>) s"
    define s2 where "s2 = (case conn_peerinfo (conns s1 i) of None \<Rightarrow> s1 | Some q \<Rightarrow> upd_peer q (\<lambda>pi. pi\<lparr>pi_conn := None\<rparr>) s1)"
    define s3 where "s3 = upd_conn i (\<lambda>c. c\<lparr>conn_peerinfo := None\<rparr>) s2"
    have "good s s1" unfolding s1_def by (rule keeps_good [OF keeps_upd_conn]) simp
    moreover have "good s1 s2" unfolding s2_def by (auto split: option.split simp: good_refl intro!: good_upd_peer)
    moreover have "good s2 s3" unfolding s3_def by (rule good_upd_conn) (use gw_okD(5) in simp)
    ultimately have "good s0 s3" using that good_trans by blast
    then have "post (good s0) (fd2conn s3 (fd (conn (conns s i))) \<bind> (\<lambda>cn. Some (upd_conn cn (\<lambda>_. conn_clear) s3)))"
      by (intro postI) (auto simp: bind_eq_Some_conv intro: good_trans [OF _ good_conn_clear])
    then show "post (good s0) (let f = fd (conn (conns s i)); s = upd_conn i (\<lambda>c. c\<lparr>conn_gwid := UNASSIGNED\<rparr>) s;
           s = (case conn_peerinfo (conns s i) of None \<Rightarrow> s | Some q \<Rightarrow> upd_peer q (\<lambda>pi. pi\<lparr>pi_conn := None\<rparr>) s);
           s = upd_conn i (\<lambda>c. c\<lparr>conn_peerinfo := None\<rparr>) s
       in fd2conn s f \<bind> (\<lambda>cn. Some (upd_conn cn (\<lambda>_. conn_clear) s)))"
      unfolding Let_def s3_def s2_def s1_def .
  qed (simp add: post_def that)
  have forget: "good st (upd_peer p (\<lambda>pi. pi\<lparr>pi_gwid := UNASSIGNED, pi_conn := None\<rparr>) (impexp_cleanuppeer env p st))" for p
    by (rule good_trans [OF good_cleanup good_upd_peer]) simp
  have "post (good st) (gw_closegateway env cn st)"
    unfolding gw_closegateway_def Let_def
  proof (rule post_bind [where P = "\<lambda>x. good st (snd x)"])
    show "post (\<lambda>x. good st (snd x)) (if conn_gwid (conns st cn) \<noteq> -1
          then case getKnownPeerByGWID st (conn_gwid (conns st cn)) of
                 None \<Rightarrow> map_option (Pair (Some cn)) (freegwid (conn_gwid (conns st cn)) st)
               | Some p \<Rightarrow> map_option (Pair (pi_conn (knownGWs (impexp_cleanuppeer env p st) ! p))) (freegwid (conn_gwid (conns st cn))
                     (upd_peer p (\<lambda>pi. pi\<lparr>pi_gwid := UNASSIGNED, pi_conn := None\<rparr>) (impexp_cleanuppeer env p st)))
          else Some (Some cn, st))"
      by (intro post_rules postI)
        (auto simp: good_refl intro: keeps_good [OF keeps_freegwid] good_trans [OF forget keeps_good [OF keeps_freegwid]])
  qed (use closed [unfolded Let_def] in \<open>simp add: split_beta\<close>)
  then show ?thesis using assms by (rule postD)
qed

lemma good_conn_del: "conn_del env f st = Some st' \<Longrightarrow> good st st'"
  by (auto simp: conn_del_def bind_eq_Some_conv good_conn_clear split: if_splits dest: good_closegateway)

lemma good_connectpeer:
  assumes "gw_connectpeer env held p st = Some st'" "p < length (knownGWs st)"
  shows "good st st'"
proof (cases "gw_ok st \<and> pi_conn (knownGWs st ! p) = None")
  case True
  let ?s = "newsocket env"
  define s1 where "s1 = upd_conn ?s (\<lambda>c. c\<lparr>conn_state := CONNECT_STATE_CONNWAIT\<rparr>) (conn_add ?s SRB_ROLE_GATEWAY CONN_TYPE_GATEWAY st)"
  have "good (conn_add ?s SRB_ROLE_GATEWAY CONN_TYPE_GATEWAY st) s1" unfolding s1_def by (rule keeps_good [OF keeps_upd_conn]) simp
  then have g1: "good st s1" using good_conn_add(1) good_trans by blast
  have size1: "?s < conntblsize s1" using good_conn_add(2) by (simp add: s1_def upd_conn_def)
  have give_up: "post (good st) (conn_del env (int ?s) s)" if "good st s" for s
    by (rule postI) (blast intro: good_trans [OF that good_conn_del])
  obtain g s2 where s2: "allocgwid env GWPEER SRB_ROLE_GATEWAY s1 = (g, s2)" by fastforce
  have k2: "keeps s1 s2" using keeps_allocgwid [of s1 env GWPEER SRB_ROLE_GATEWAY] s2 by simp
  define s2' where "s2' = upd_conn ?s (\<lambda>c. c\<lparr>conn_gwid := g\<rparr>) s2"
  define s3 where "s3 = upd_peer p (\<lambda>pi. pi\<lparr>pi_gwid := g\<rparr>) s2'"
  have "good s2 s2'" unfolding s2'_def by (rule keeps_good [OF keeps_upd_conn]) simp
  moreover have "good s2' s3" unfolding s3_def by (rule good_upd_peer) (use gw_okD(3) in auto)
  ultimately have g3: "good st s3" using good_trans [OF g1 keeps_good [OF k2]] good_trans by blast
  have size3: "?s < conntblsize s3" using size1 k2 by (simp add: s3_def s2'_def keeps_def upd_peer_def upd_conn_def)
  define s4 where "s4 = upd_peer p (\<lambda>pi. pi\<lparr>pi_conn := Some ?s\<rparr>) s3"
  have "good s3 s4" unfolding s4_def by (rule good_upd_peer) (use size3 in simp)
  then have g4: "good st s4" using g3 good_trans by blast
  have p4: "p < length (knownGWs s4)" using assms(2) good_sizes [OF g4] True by blast
  have g5: "good s4 (upd_conn ?s (\<lambda>c. c\<lparr>conn_state := CONNECT_STATE_READYWAIT\<rparr>) s4)" by (rule keeps_good [OF keeps_upd_conn]) simp
  have g6: "good s4 (upd_conn ?s (\<lambda>c. c\<lparr>conn_peerinfo := Some p\<rparr>) s4)" by (rule good_upd_conn) (use p4 gw_okD(5) in simp)
  have run: "gw_connectpeer env held p st =
      (if \<not> resolves env (pi_hostname (knownGWs s1 ! p)) then if held \<and> conn_gwid (conns s1 ?s) \<noteq> UNASSIGNED then None else conn_del env (int ?s) s1
       else if g = UNASSIGNED then Some s2
       else case connects env (pi_hostname (knownGWs s3 ! p)) of
              Some True \<Rightarrow> Some (upd_conn ?s (\<lambda>c. c\<lparr>conn_state := CONNECT_STATE_READYWAIT\<rparr>) s4)
            | Some False \<Rightarrow> Some (upd_conn ?s (\<lambda>c. c\<lparr>conn_peerinfo := Some p\<rparr>) s4)
            | None \<Rightarrow> if held \<and> conn_gwid (conns s3 ?s) \<noteq> UNASSIGNED then None else conn_del env (int ?s) s3)"
    using True s2 unfolding gw_connectpeer_def Let_def s4_def s3_def s2'_def s1_def by simp
  have "post (good st) (gw_connectpeer env held p st)"
    unfolding run by (intro post_rules give_up g1 g3 good_trans [OF g4 g5] good_trans [OF g4 g6] good_trans [OF g1 keeps_good [OF k2]])
  then show ?thesis using assms(1) by (rule postD)
qed (use assms(1) in \<open>auto simp: gw_connectpeer_def good_def\<close>)

lemma good_connectpeers_loop:
  "connectpeers_loop env ps st = Some st' \<Longrightarrow> \<forall>p \<in> set ps. p < length (knownGWs st) \<Longrightarrow> gw_ok st \<Longrightarrow> good st st'"
proof (induction ps arbitrary: st)
  case Nil
  then show ?case by (simp add: good_refl)
next
  case (Cons p ps)
  then obtain s where s: "(if pi_conn (knownGWs st ! p) = None then gw_connectpeer (env p) True p st else Some st) = Some s"
      "connectpeers_loop env ps s = Some st'" by (auto simp: bind_eq_Some_conv)
  have g: "good st s" using s(1) Cons.prems(2) by (auto simp: good_refl split: if_splits dest: good_connectpeer)
  then have "gw_ok s" "\<forall>p \<in> set ps. p < length (knownGWs s)" using Cons.prems(2,3) by (auto simp: good_def)
  then show ?case using Cons.IH [OF s(2)] g good_trans by blast
qed

lemma good_connectpeers: "gw_connectpeers env st = Some st' \<Longrightarrow> good st st'"
  using good_connectpeers_loop [of env "[0..<length (knownGWs st)]" st st']
  by (cases "gw_ok st") (auto simp: gw_connectpeers_def good_def)

section \<open>Subscriptions and events\<close>

lemma set_remove_sub: "s \<in> set (remove_sub P ss) \<Longrightarrow> s \<in> set ss"
  by (induction ss) (auto split: if_splits)

lemma good_subscribe: "cn < conntblsize st \<Longrightarrow> good st (snd (srb_subscribe env cn pat i flags st))"
  using gw_okD(6) by (auto simp: srb_subscribe_def Let_def good_refl intro!: good_subs)

lemma good_unsubscribe: "good st (srb_unsubscribe cn i st)" "good st (srb_unsubscribe_all cn st)"
  unfolding srb_unsubscribe_def srb_unsubscribe_all_def
  by (rule good_subs; use gw_okD(6) set_remove_sub in fastforce)+

lemma keeps_event_loop: "event_loop env ev ss msg st = Some (msg', st') \<Longrightarrow> keeps st st'"
proof (induction ss arbitrary: msg st)
  case (Cons s ss)
  have "keeps st (snd (on_conn (sub_conn s) (\<lambda>co. mw_srbsendmessage (gw_net env) co m) st))" for m
    by (rule keeps_on_conn) simp
  then show ?case using Cons by (auto simp: bind_eq_Some_conv Let_def split: if_splits intro: keeps_trans)
qed (simp add: keeps_refl)

lemma keeps_event_srbmessage: "keeps st (snd (event_srbmessage env ev st))"
  by (auto simp: event_srbmessage_def Let_def keeps_refl split: prod.split)

lemma good_event_dispatch:
  assumes "do_srb_event_dispatch env ev st = Some st'"
  shows "good st st'"
proof -
  obtain m1 s1 where s1: "event_srbmessage env ev st = (m1, s1)" by fastforce
  obtain m2 s2 where s2: "event_loop env ev (srbsubs s1) m1 s1 = Some (m2, s2)"
    using assms s1 by (auto simp: do_srb_event_dispatch_def bind_eq_Some_conv)
  have "keeps st s1" using keeps_event_srbmessage [of st env ev] s1 by simp
  then have g2: "good st s2" using keeps_event_loop [OF s2] keeps_trans keeps_good by blast
  have sent: "post (good st) (gw_send_to_peers env m s2)" for m
    by (rule postI) (blast intro: good_trans [OF g2 good_send_to_peers])
  have "post (good st) (do_srb_event_dispatch env ev st)"
    unfolding do_srb_event_dispatch_def Let_def s1 prod.case s2 Option.bind.bind_lunit
  proof (rule post_bind [where P = "good st"])
    fix s
    assume "good st s"
    then show "post (good st) (Some (if ev_datalen ev > 0
        then snd (mw_ipc_putmessage (os (gw_proc env)) s 0 (Event (ev\<lparr>ev_mtype := EVENTACK, senderid := mygatewayid s\<rparr>))) else s))"
      using good_trans keeps_good [OF keeps_put] by (auto intro!: post_Some)
  qed (intro post_rules sent g2)
  then show ?thesis using assms by (rule postD)
qed

lemma keeps_set_errno: "keeps st (set_errno e s) \<longleftrightarrow> keeps st s"
  by (simp add: set_errno_def)

lemma keeps_detachclient: "keeps st (snd (gwdetachclient env i st))"
  by (auto simp: gwdetachclient_def Let_def keeps_set_errno split: prod.split intro: keeps_put_Pair)

lemma keeps_attachclient: "keeps st (snd (gwattachclient env cn name mp st))"
proof -
  define s where "s = storePushAttach name (connectionid (conns st cn)) (fd (conn (conns st cn))) mp st"
  have "keeps st s" by (simp add: s_def storePushAttach_def keeps_refl)
  then show ?thesis
    unfolding gwattachclient_def Let_def s_def [symmetric]
    by (auto simp: keeps_set_errno split: prod.split intro: keeps_trans keeps_put_Pair)
qed

lemma good_closeconnection:
  assumes "tcpcloseconnection env cn st = Some st'"
  shows "good st st'"
proof (cases "conn_cid (conns st cn) = UNASSIGNED")
  case True
  have "good st (st\<lparr>reconnect_broker := True\<rparr>)" by (simp add: keeps_good keeps_refl)
  then show ?thesis using assms True
    by (auto simp: tcpcloseconnection_def Let_def split: if_splits dest: good_closegateway good_conn_del intro: good_trans)
next
  case False
  then obtain r s where s: "storeSRBClearClient st (conn_cid (conns st cn)) = Some (r, s)"
      "conn_del env (fd (conn (conns st cn))) (snd (gwdetachclient env (conn_cid (conns st cn)) (srb_unsubscribe_all cn s))) = Some st'"
    using assms by (auto simp: tcpcloseconnection_def Let_def bind_eq_Some_conv)
  show ?thesis
    by (rule good_trans [OF keeps_good [OF keeps_ClearClient [OF s(1)]]])
      (rule good_trans [OF good_unsubscribe(2) good_trans [OF keeps_good [OF keeps_detachclient] good_conn_del [OF s(2)]]])
qed

section \<open>The rules for handlers\<close>

abbreviation (input) okw :: "nat \<Rightarrow> 'a \<times> gwstate \<Rightarrow> bool" where
  "okw cn \<equiv> (\<lambda>w. conn_ok cn (snd w))"

text \<open>Fields of a message are read with rejects sent back on the connection.\<close>

lemma fd_sendreject: "fd (fst (snd (mw_srbsendreject net co msg field v rcode))) = fd co"
  by (simp add: mw_srbsendreject_def Let_def split_beta)

lemma keeps_sendreject: "keeps (snd w) (snd (sendreject env cn field v rcode w))"
  by (simp add: sendreject_def split_beta keeps_def upd_conn_def fd_sendreject)

lemma conn_ok_sendreject: "conn_ok c (snd w) \<Longrightarrow> conn_ok c (snd (sendreject env cn field v rcode w))"
  by (rule conn_ok_keeps [OF _ keeps_sendreject])

lemma conn_ok_szGetReqField: "conn_ok c (snd w) \<Longrightarrow> conn_ok c (snd (snd (szGetReqField env cn field w)))"
  by (simp add: szGetReqField_def conn_ok_sendreject split: option.split)

lemma conn_ok_iGetOptField: "conn_ok c (snd w) \<Longrightarrow> conn_ok c (snd (snd (snd (iGetOptField env cn field old w))))"
  by (simp add: iGetOptField_def conn_ok_sendreject split: option.split)

lemma conn_ok_iGetReqField: "conn_ok c (snd w) \<Longrightarrow> conn_ok c (snd (snd (snd (iGetReqField env cn field old w))))"
  using conn_ok_iGetOptField [of c w env cn field old]
  by (auto simp: iGetReqField_def conn_ok_sendreject split: prod.split)

lemma post_xGetReqField: "conn_ok c (snd w) \<Longrightarrow> post (\<lambda>(rc, v, w). conn_ok c (snd w)) (xGetReqField env cn field old w)"
  unfolding xGetReqField_def
  by (rule postI) (auto simp: bind_eq_Some_conv split: option.splits; metis conn_ok_sendreject snd_conv)

lemma post_sz: "conn_ok c (snd w) \<Longrightarrow> (\<And>v w'. conn_ok c (snd w') \<Longrightarrow> post Q (F v w')) \<Longrightarrow> post Q (case szGetReqField env cn field w of (v, w') \<Rightarrow> F v w')"
  using conn_ok_szGetReqField [of c w env cn field] by (simp add: split_beta)

lemma post_iOpt: "conn_ok c (snd w) \<Longrightarrow> (\<And>rc v w'. conn_ok c (snd w') \<Longrightarrow> post Q (F rc v w')) \<Longrightarrow> post Q (case iGetOptField env cn field old w of (rc, v, w') \<Rightarrow> F rc v w')"
  using conn_ok_iGetOptField [of c w env cn field old] by (simp add: split_beta)

lemma post_iReq: "conn_ok c (snd w) \<Longrightarrow> (\<And>rc v w'. conn_ok c (snd w') \<Longrightarrow> post Q (F rc v w')) \<Longrightarrow> post Q (case iGetReqField env cn field old w of (rc, v, w') \<Rightarrow> F rc v w')"
  using conn_ok_iGetReqField [of c w env cn field old] by (simp add: split_beta)

lemma post_x:
  "conn_ok c (snd w) \<Longrightarrow> (\<And>rc v w'. conn_ok c (snd w') \<Longrightarrow> post Q (F rc v w')) \<Longrightarrow> post Q (xGetReqField env cn field old w \<bind> (\<lambda>(rc, v, w'). F rc v w'))"
  by (rule post_bind [OF post_xGetReqField]) auto

lemma post_pair: "conn_ok c (snd w) \<Longrightarrow> (\<And>m s. conn_ok c s \<Longrightarrow> post Q (F m s)) \<Longrightarrow> post Q (case w of (m, s) \<Rightarrow> F m s)"
  by (simp add: split_beta)

lemma post_triple: "conn_ok c (snd (snd w)) \<Longrightarrow> (\<And>a m s. conn_ok c s \<Longrightarrow> post Q (F a m s)) \<Longrightarrow> post Q (case w of (a, m, s) \<Rightarrow> F a m s)"
  by (simp add: split_beta)

lemma post_bin: "(\<And>d n. post Q (F d n)) \<Longrightarrow> post Q (case vGetOptBinField field w of (d, n) \<Rightarrow> F d n)"
  by (simp add: split_beta)

lemmas post_fields = post_sz post_iOpt post_iReq post_x post_bin post_if post_option post_triple post_pair post_None post_Some

text \<open>Sequences of calls that change the state.\<close>

lemma post_then: "post (conn_ok c) r \<Longrightarrow> (\<And>s. conn_ok c s \<Longrightarrow> post Q (F s)) \<Longrightarrow> post Q (r \<bind> F)"
  by (rule post_bind)

lemma post_then2: "post (okw c) r \<Longrightarrow> (\<And>a s. conn_ok c s \<Longrightarrow> post Q (F a s)) \<Longrightarrow> post Q (r \<bind> (\<lambda>(a, s). F a s))"
  by (cases r) (simp_all add: post_def split_beta)

lemma post_map_Pair: "post (conn_ok c) r \<Longrightarrow> post (okw c) (map_option (Pair m) r)"
  by (cases r) (simp_all add: post_def)

lemma post_map_snd: "post (okw c) r \<Longrightarrow> post (okw c) (map_option (\<lambda>(_, st). (m, st)) r)"
  by (cases r) (auto simp: post_def)

lemmas post_steps = post_fields post_then post_then2 post_map_Pair post_map_snd

lemma conn_ok_on_conn: "conn_ok c st \<Longrightarrow> (\<And>co. fd (snd (f co)) = fd co) \<Longrightarrow> conn_ok c (snd (on_conn cn f st))"
  by (rule conn_ok_keeps [OF _ keeps_on_conn])

lemma conn_ok_upd_conn: "conn_ok c st \<Longrightarrow> (\<And>x. fd (conn (f x)) = fd (conn x) \<and> conn_peerinfo (f x) = conn_peerinfo x) \<Longrightarrow> conn_ok c (upd_conn cn f st)"
  by (rule conn_ok_keeps [OF _ keeps_upd_conn])

lemma conn_ok_sendinitreply: "conn_ok c (snd w) \<Longrightarrow> conn_ok c (snd (snd (mw_srbsendinitreply env cn rcode field w)))"
  by (simp add: mw_srbsendinitreply_def Let_def split_beta conn_ok_on_conn)

lemma conn_ok_sendcallreply: "conn_ok c (snd w) \<Longrightarrow> conn_ok c (snd (snd (mw_srbsendcallreply env cn d n a r w)))"
  by (simp add: mw_srbsendcallreply_def Let_def split_beta conn_ok_on_conn)

lemma conn_ok_sendready: "conn_ok c st \<Longrightarrow> conn_ok c (snd (mw_srbsendready env cn domn version st))"
  by (simp add: mw_srbsendready_def Let_def conn_ok_on_conn)

lemma post_sendgwinit: "conn_ok c st \<Longrightarrow> post (okw c) (mw_srbsendgwinit env cn st)"
  unfolding mw_srbsendgwinit_def
  by (rule postI) (auto simp: bind_eq_Some_conv Let_def split: if_splits intro!: conn_ok_on_conn conn_ok_upd_conn)

lemma post_conn_del: "conn_ok c st \<Longrightarrow> post (conn_ok c) (conn_del env f st)"
  by (erule post_good) (rule good_conn_del)

lemma post_closegateway: "conn_ok c st \<Longrightarrow> post (conn_ok c) (gw_closegateway env cn st)"
  by (erule post_good) (rule good_closegateway)

lemma post_closeconnection: "conn_ok c st \<Longrightarrow> post (conn_ok c) (tcpcloseconnection env cn st)"
  by (erule post_good) (rule good_closeconnection)

lemma post_setipc: "conn_ok c st \<Longrightarrow> post (conn_ok c) (gw_setipc env p st)"
  by (erule post_good) (rule keeps_good [OF keeps_setipc])

lemma post_setpeername: "conn_ok c st \<Longrightarrow> post (conn_ok c) (conn_setpeername env cn st)"
  by (erule post_good) (rule keeps_good [OF keeps_setpeername])

lemma post_setinfo: "conn_ok c st \<Longrightarrow> post (conn_ok c) (conn_setinfo f i st)"
  by (erule post_good) (rule keeps_good [OF keeps_setinfo])

lemma post_provideservices: "conn_ok c st \<Longrightarrow> post (conn_ok c) (gw_provideservices_to_peer env g st)"
  by (erule post_good) (rule good_provideservices)

lemma post_peerconnected: "conn_ok cn st \<Longrightarrow> post (okw cn) (gw_peerconnected env inst domn cn st)"
  by (rule post_good_snd) (auto simp: conn_ok_def dest: good_peerconnected)

lemma post_unimport: "conn_ok c st \<Longrightarrow> post (okw c) (unimportservice env s p st)"
  by (erule post_good_snd) (rule good_unimport)

lemma post_import: "conn_ok cn st \<Longrightarrow> post (okw cn) (importservice env s n (conn_peerinfo (conns st cn)) st)"
proof (cases "conn_peerinfo (conns st cn)")
  case None
  then show ?thesis by (auto intro!: postI simp: importservice_def bind_eq_Some_conv)
next
  case (Some p)
  assume ok: "conn_ok cn st"
  show ?thesis unfolding Some by (rule post_good_snd [OF ok good_import]) (use conn_ok_peer [OF ok Some] in simp_all)
qed

lemma post_SRBCall: "env_ok env \<Longrightarrow> conn_ok c st \<Longrightarrow> post (okw c) (storeSRBCall env st i h mp cn n s ins domn fl)"
  by (erule post_good_snd) (blast intro: keeps_good dest: keeps_SRBCall)

lemma post_SRBReply: "env_ok env \<Longrightarrow> conn_ok c st \<Longrightarrow> post (okw c) (storeSRBReply env st i h mp rc arc n)"
  by (erule post_good_snd) (blast intro: keeps_good dest: keeps_SRBReply)

lemma post_SRBData: "env_ok (gw_proc env) \<Longrightarrow> conn_ok c st \<Longrightarrow> post (conn_ok c) (store_data env i h d n st)"
  unfolding store_data_def
  by (erule post_good) (auto intro: keeps_good dest: keeps_SRBData)

lemmas post_calls = post_sendgwinit post_conn_del post_closegateway post_closeconnection post_setipc post_setpeername
  post_setinfo post_provideservices post_peerconnected post_unimport post_import post_SRBCall post_SRBReply post_SRBData

section \<open>Messages from clients and peers\<close>

lemmas handler_rules = post_steps post_calls conn_ok_sendreject conn_ok_sendinitreply conn_ok_sendcallreply

lemma post_only_notification:
  "conn_ok c (snd w) \<Longrightarrow> (\<And>w. conn_ok c (snd w) \<Longrightarrow> post (okw c) (f w)) \<Longrightarrow> post (okw c) (only_notification env cn f w)"
  by (simp add: only_notification_def post_def conn_ok_sendreject)

lemma post_srbterm: "conn_ok cn (snd w) \<Longrightarrow> post (okw cn) (srbterm env cn w)"
  unfolding srbterm_def
  by (assumption | rule handler_rules | simp add: conn_ok_on_conn)+

lemma conn_ok_srbhello: "conn_ok cn (snd w) \<Longrightarrow> conn_ok cn (snd (srbhello env cn clock w))"
  by (simp add: srbhello_def Let_def split_beta conn_ok_on_conn conn_ok_sendreject)

lemma post_srbprovide: "conn_ok cn (snd w) \<Longrightarrow> post (okw cn) (srbprovide env cn w)"
  unfolding srbprovide_def
  by (erule post_only_notification) (assumption | rule handler_rules)+

lemma post_srbunprovide: "conn_ok cn (snd w) \<Longrightarrow> post (okw cn) (srbunprovide env cn w)"
  unfolding srbunprovide_def
  by (erule post_only_notification) (assumption | rule handler_rules)+

lemma post_srbsvcdata: "env_ok (gw_proc env) \<Longrightarrow> conn_ok cn (snd w) \<Longrightarrow> post (okw cn) (srbsvcdata env cn w)"
  unfolding srbsvcdata_def Let_def
  by (assumption | rule handler_rules | simp)+

lemma post_srbcall_rpl: "env_ok (gw_proc env) \<Longrightarrow> conn_ok cn (snd w) \<Longrightarrow> post (okw cn) (srbcall_rpl env cn w)"
  unfolding srbcall_rpl_def Let_def not_attached_def
  by (assumption | rule handler_rules | simp)+

lemma conn_ok_call_handle:
  assumes "conn_ok c (snd w)"
  shows "conn_ok c (snd (snd (call_handle env cn w)))"
proof -
  obtain v w' where w: "szGetReqField env cn ''HANDLE'' w = (v, w')" by (rule prod.exhaust)
  then have "conn_ok c (snd w')" using conn_ok_szGetReqField [OF assms, of env cn "''HANDLE''"] by simp
  then show ?thesis using assms unfolding call_handle_def w prod.case by (simp add: conn_ok_sendreject split: option.split)
qed

lemma post_call_handle: "conn_ok c (snd w) \<Longrightarrow> (\<And>v w'. conn_ok c (snd w') \<Longrightarrow> post Q (F v w')) \<Longrightarrow> post Q (case call_handle env cn w of (v, w') \<Rightarrow> F v w')"
  using conn_ok_call_handle [of c w env cn] by (simp add: split_beta)

lemma post_call_noreply: "conn_ok c (snd w) \<Longrightarrow> (\<And>v w'. conn_ok c (snd w') \<Longrightarrow> post Q (F v w')) \<Longrightarrow> post Q (case call_noreply env cn fl w of (v, w') \<Rightarrow> F v w')"
  by (simp add: call_noreply_def conn_ok_sendreject split: option.split)

lemma post_srbcall_req: "env_ok (gw_proc env) \<Longrightarrow> conn_ok cn (snd w) \<Longrightarrow> post (okw cn) (srbcall_req env cn w)"
  unfolding srbcall_req_def Let_def not_attached_def
  by (assumption | rule post_call_handle post_call_noreply handler_rules | simp)+

lemma post_addknownpeer:
  "conn_ok c st \<Longrightarrow> post (\<lambda>(rc, p, st'). conn_ok c st' \<and> (\<forall>i. p = Some i \<longrightarrow> i < length (knownGWs st'))) (gw_addknownpeer env inst domn addr st)"
  by (rule postI) (auto dest: good_gw_addknownpeer intro: conn_ok_good)

lemma post_connectpeer: "conn_ok c st \<Longrightarrow> p < length (knownGWs st) \<Longrightarrow> post (conn_ok c) (gw_connectpeer env held p st)"
  by (erule post_good) (rule good_connectpeer)

lemma post_peer_ready:
  assumes "conn_ok c st"
  shows "post (okw c) (gw_addknownpeer env inst domn addr st \<bind> (\<lambda>(rc, p, st).
    if rc \<noteq> 0 then Some (m, st)
    else p \<bind> (\<lambda>p. (if pi_conn (knownGWs st ! p) = None then gw_connectpeer env False p st else Some st) \<bind> (\<lambda>st. Some (m, st)))))"
proof (rule post_bind [OF post_addknownpeer [OF assms]], clarify)
  fix rc :: int and p :: "nat option" and s :: gwstate
  assume s: "conn_ok c s" "\<forall>i. p = Some i \<longrightarrow> i < length (knownGWs s)"
  show "post (okw c) (if rc \<noteq> 0 then Some (m, s)
    else p \<bind> (\<lambda>p. (if pi_conn (knownGWs s ! p) = None then gw_connectpeer env False p s else Some s) \<bind> (\<lambda>st. Some (m, st))))"
    using s by (cases p) (auto intro!: post_if post_then [of c] post_connectpeer post_Some post_None)
qed

lemma post_srbready: "conn_ok cn (snd w) \<Longrightarrow> post (okw cn) (srbready env cn w)"
  unfolding srbready_def Let_def
  by (assumption | rule post_peer_ready handler_rules | simp)+

lemma post_init_client:
  assumes "conn_ok cn (snd w)"
  shows "post (okw cn) (init_client env cn name w)"
proof (cases w)
  case (Pair msg st)
  obtain rc s where s: "gwattachclient env cn name (smap msg) st = (rc, s)" by fastforce
  have "conn_ok cn s" using conn_ok_keeps [OF _ keeps_attachclient [of st env cn name "smap msg"]] assms Pair s by simp
  then show ?thesis
    using assms unfolding init_client_def Pair prod.case s
    by (intro post_if post_Some post_map_Pair post_setpeername conn_ok_upd_conn conn_ok_sendinitreply) simp_all
qed

lemma post_init_gateway: "conn_ok cn (snd w) \<Longrightarrow> post (okw cn) (init_gateway env cn name w)"
  unfolding init_gateway_def Let_def
  by (assumption | rule handler_rules conn_ok_upd_conn conn_ok_on_conn | simp)+

lemma post_init_request: "conn_ok cn (snd w) \<Longrightarrow> post (okw cn) (init_request env cn w)"
  unfolding init_request_def Let_def
  by (assumption | rule post_init_client post_init_gateway handler_rules)+

lemma post_srbinit: "conn_ok cn (snd w) \<Longrightarrow> post (okw cn) (srbinit env cn w)"
  unfolding srbinit_def
  by (assumption | rule post_init_request handler_rules conn_ok_upd_conn | simp)+

lemma keeps_sendevent: "post (\<lambda>x. keeps st (snd x)) (mw_ipcsend_event env st ev d n u cl i r)"
  unfolding mw_ipcsend_event_def Let_def
proof (rule post_bind [where P = "\<lambda>(off, len, s). keeps st s"])
  show "post (\<lambda>(off, len, s). keeps st s) (if d = 0 then Some (0, 0, set_errno 0 st)
      else if mwshmcheck (shm (set_errno 0 st)) d \<noteq> -1 then Some (mwshmcheck (shm (set_errno 0 st)) d, n, set_errno 0 st)
      else mwalloc (shm_env (os env)) (shm (set_errno 0 st)) n \<bind> (\<lambda>(dbuf, h).
        if dbuf = 0 then Some (-1, 0, (set_errno 0 st)\<lparr>shm := h\<rparr>)
        else Some (mwshmcheck (copy_bytes h dbuf d n) dbuf, n, (set_errno 0 st)\<lparr>shm := copy_bytes h dbuf d n\<rparr>)))"
    by (rule postI) (auto simp: keeps_set_errno keeps_refl bind_eq_Some_conv split: if_splits)
qed (auto intro!: post_if post_Some simp: keeps_trans [OF _ keeps_put])

lemma post_sendevent: "conn_ok c st \<Longrightarrow> post (okw c) (mw_ipcsend_event env st ev d n u cl i r)"
  by (rule post_mono [OF keeps_sendevent]) (rule conn_ok_keeps)

lemma post_srbevent: "conn_ok cn (snd w) \<Longrightarrow> post (okw cn) (srbevent env cn w)"
  unfolding srbevent_def Let_def
proof (erule post_only_notification)
  have data: "conn_ok c (case d of None \<Rightarrow> s | Some x \<Rightarrow> s\<lparr>shm := g x\<rparr>)" if "conn_ok c s" for c d g s
    using that by (auto split: option.split intro: conn_ok_keeps simp: keeps_refl)
  show "post (okw cn) (case szGetReqField env cn ''NAME'' w of
       (None, w) \<Rightarrow> Some w
     | (Some event, msg, st) \<Rightarrow>
         (case vGetOptBinField ''DATA'' (msg, st) of (data, datalen) \<Rightarrow>
           mw_ipcsend_event (gw_proc env) (case data of None \<Rightarrow> st | Some d \<Rightarrow> st\<lparr>shm := store_bytes (shm st) (msgbuf env) (octets d)\<rparr>)
             event (if data = None then 0 else msgbuf env) datalen (a data msg st) (b data msg st) (x data msg st) (y data msg st)
           \<bind> (\<lambda>(_, st). Some (msg, st))))" if "conn_ok cn (snd w)" for w a b x y
    by (insert that) (assumption | rule post_sendevent data handler_rules | simp)+
qed

lemma post_srbsubscribe: "conn_ok cn (snd w) \<Longrightarrow> post (okw cn) (srbsubscribe env cn w)"
  unfolding srbsubscribe_def
  by (erule post_only_notification) (assumption | rule handler_rules | simp add: conn_ok_good [OF _ good_subscribe] conn_ok_def [THEN iffD1])+

lemma post_srbunsubscribe: "conn_ok cn (snd w) \<Longrightarrow> post (okw cn) (srbunsubscribe env cn w)"
  unfolding srbunsubscribe_def
  by (erule post_only_notification) (assumption | rule handler_rules | simp add: conn_ok_good [OF _ good_unsubscribe(1)])+

lemma post_srbDoMessage:
  assumes "env_ok (gw_proc env)" "conn_ok cn st"
  shows "post (conn_ok cn) (srbDoMessage env clock cn msg st)"
proof -
  have "conn_ok cn (snd (msg, st))" using assms(2) by simp
  then show ?thesis
    unfolding srbDoMessage_def Let_def
    by (intro post_map post_if post_Some conn_ok_sendreject conn_ok_srbhello post_srbinit post_srbready post_srbterm post_srbevent
      post_srbcall_req post_srbcall_rpl post_srbprovide post_srbsvcdata post_srbunprovide post_srbsubscribe post_srbunsubscribe assms(1))
qed

section \<open>Messages on the queue\<close>

lemma keeps_ack_event: "keeps st (snd (ack_event env ev st))"
  by (simp add: ack_event_def keeps_refl keeps_put)

lemma good_service_event: "service_event env new pe st = Some st' \<Longrightarrow> good st st'"
  by (auto simp: service_event_def Let_def good_refl split: option.splits if_splits dest: good_doprovideevent good_dounprovideevent)

lemma good_event_message:
  assumes "do_event_message env ev st = Some (ev', st')"
  shows "good st st'"
proof (cases "ev_event ev = [] \<or> hd (ev_event ev) \<noteq> CHR ''.''")
  case True
  then show ?thesis using assms by (auto simp: do_event_message_def dest: good_event_dispatch)
next
  case False
  obtain si h where seg: "mw_getsegment_byid (mmap_file (shm_env (os (gw_proc env)))) (shm st) (ev_datasegmentid ev) = (si, h)" by fastforce
  have g: "good st (st\<lparr>shm := h\<rparr>)" by (simp add: keeps_good keeps_refl)
  have ack: "post (\<lambda>x. good st (snd x)) (map_option (ack_event env ev) (service_event env new pe (st\<lparr>shm := h\<rparr>)))" for new pe
    by (rule post_map, rule postI, rule good_trans [OF good_trans [OF g good_service_event] keeps_good [OF keeps_ack_event]])
  have "post (\<lambda>x. good st (snd x)) (do_event_message env ev st)"
    unfolding do_event_message_def if_not_P [OF False] seg prod.case Let_def
    by (intro post_if post_Some ack keeps_good [OF keeps_ack_event]) (simp_all add: g good_refl)
  then show ?thesis using assms by (auto dest: postD)
qed

lemma keeps_free_data: "free_data env c st = Some st' \<Longrightarrow> keeps st st'"
  by (auto simp: free_data_def keeps_refl split: prod.splits)

lemma keeps_then_on_conn: "keeps a s \<Longrightarrow> (\<And>co. fd (snd (f co)) = fd co) \<Longrightarrow> keeps a (snd (on_conn cn f s))"
  by (rule keeps_trans [OF _ keeps_on_conn])

lemma keeps_sendcallreply: "keeps (snd w) (snd (snd (mw_srbsendcallreply env cn d n a r w)))"
  by (simp add: mw_srbsendcallreply_def Let_def split_beta keeps_refl keeps_then_on_conn)

lemma keeps_sendinitreply: "keeps (snd w) (snd (snd (mw_srbsendinitreply env cn rcode field w)))"
  by (auto simp: mw_srbsendinitreply_def Let_def split_beta keeps_refl keeps_then_on_conn)

lemma keeps_svcreply:
  assumes "do_svcreply env c st = Some st'"
  shows "keeps st st'"
proof -
  obtain rc cn mp s where s: "storeIPCReply st c = Some ((rc, cn, mp), s)"
    using assms by (auto simp: do_svcreply_def bind_eq_Some_conv)
  then have k: "keeps st s" by (rule keeps_IPCReply)
  obtain d n s1 where s1: "(if cdatalen c = 0 then (None, 0, s)
      else case mw_getsegment_byid (mmap_file (shm_env (os (gw_proc env)))) (shm s) (datasegmentid c) of
             (si, h) \<Rightarrow> (if mwoffset2adr (cdata c) si = 0 then None
                  else Some (map (\<lambda>b. char_of (unat b)) (get_bytes h (mwoffset2adr (cdata c) si) (cdatalen c))), cdatalen c, s\<lparr>shm := h\<rparr>)) = (d, n, s1)"
    using prod_cases3 by blast
  have k1: "keeps st s1" using s1 k by (auto split: if_splits prod.splits)
  have free: "post (keeps st) (free_data env c x)" if "keeps st x" for x
    by (rule postI) (blast intro: keeps_trans [OF that keeps_free_data])
  have reply: "keeps st (snd (snd (mw_srbsendcallreply env i d n a r (m, s1))))" for i a r m
    using keeps_trans [OF k1] keeps_sendcallreply [of "(m, s1)"] by simp
  have "post (keeps st) (do_svcreply env c st)"
    unfolding do_svcreply_def Let_def s Option.bind.bind_lunit prod.case s1
    by (cases cn) (auto simp: k split_beta intro!: post_if post_Some post_None free reply)
  then show ?thesis using assms by (rule postD)
qed

lemma keeps_svccall:
  assumes "do_svccall env c st = Some (c', st')"
  shows "keeps st st'"
proof -
  obtain cn where cn: "impfindpeerconn st (ca_service c) (ca_svcid c) = Some cn" using assms by (auto simp: do_svccall_def bind_eq_Some_conv)
  show ?thesis
  proof (cases cn)
    case None
    then show ?thesis
      using assms cn by (auto simp: do_svccall_def Let_def split: if_splits dest: keeps_svcreply intro: keeps_put)
  next
    case (Some i)
    then show ?thesis
      using assms cn by (auto simp: do_svccall_def split: if_splits dest: keeps_IPCCall)
  qed
qed

lemma keeps_attach_reply:
  assumes "attach_reply env am st = Some (am', st')"
  shows "keeps st st'"
proof -
  obtain rc connid f mp s where s: "storePopAttach (at_cltname am) st = ((rc, connid, f, mp), s)" by (metis prod.exhaust)
  then have k: "keeps st s" by (auto simp: storePopAttach_def keeps_refl split: option.splits)
  show ?thesis
  proof (cases "rc = 1")
    case False
    define s1 where "s1 = (case mw_get_client_byid s (at_cltid am) of None \<Rightarrow> s
      | Some i \<Rightarrow> s\<lparr>clttbl := tbl_upd (\<lambda>e. e\<lparr>clt_location := UNASSIGNED, clt_type := UNASSIGNED, clt_pid := UNASSIGNED,
          clt_mqid := UNASSIGNED, clientname := [], cliententry.username := [], clt_status := UNASSIGNED\<rparr>) i (clttbl s)\<rparr>)"
    have "keeps st s1" using k by (simp add: s1_def split: option.split)
    moreover have "conn_setinfo f (at_cltid am OR MWCLIENTMASK) s1 = Some st'"
      using assms False unfolding attach_reply_def s prod.case Let_def s1_def [symmetric] by (auto simp: bind_eq_Some_conv)
    ultimately show ?thesis using keeps_setinfo keeps_trans by blast
  next
    case True
    then obtain s1 cn s2 where s1: "conn_setinfo f (at_cltid am) s = Some s1" "conn_setpeername env cn s1 = Some s2"
        "st' = snd (snd (mw_srbsendinitreply env cn 0 None (\<lparr>command = ''SRB INIT'', marker = SRB_RESPONSEMARKER, smap = mp\<rparr>, s2)))"
      using assms unfolding attach_reply_def s prod.case Let_def by (auto simp: bind_eq_Some_conv split_beta)
    have "keeps s2 st'" using keeps_sendinitreply [of "(_, s2)"] s1(3) by simp
    then show ?thesis using k keeps_setinfo [OF s1(1)] keeps_setpeername [OF s1(2)] keeps_trans by blast
  qed
qed

lemma good_dispatch:
  assumes "ipc_dispatch env m st = Some (r, m', st')"
  shows "good st st'"
proof (cases m)
  case (Attach am)
  then show ?thesis using assms by (auto simp: ipc_dispatch_def Let_def good_refl split: if_splits intro: keeps_good dest: keeps_attach_reply)
next
  case (Call c)
  then show ?thesis using assms by (auto simp: ipc_dispatch_def Let_def good_refl split: if_splits intro: keeps_good dest: keeps_svccall keeps_svcreply)
next
  case (Administrative a)
  then show ?thesis using assms by (auto simp: ipc_dispatch_def Let_def good_refl split: if_splits)
next
  case (Provide p)
  then show ?thesis using assms by (auto simp: ipc_dispatch_def Let_def good_refl split: if_splits intro: keeps_good [OF keeps_put] dest: good_impsetsvcid)
next
  case (Event ev)
  then show ?thesis using assms by (auto simp: ipc_dispatch_def Let_def good_refl split: if_splits dest: good_event_message)
qed (use assms in \<open>auto simp: ipc_dispatch_def Let_def good_refl split: if_splits\<close>)

section \<open>Sockets\<close>

lemma fd_decode: "fd (snd (mw_srbdecodemessage net junk co text)) = fd co"
  by (auto simp: mw_srbdecodemessage_def Let_def mw_srbsendreject_sz_def split: option.split sum.split prod.split)

lemma fd_connbuffer: "fd (snd (read_message_from_connbuffer net junk co)) = fd co"
proof -
  define c where "c = (case boundary co of Some _ \<Rightarrow> co | None \<Rightarrow> co\<lparr>boundary := map_option ((+) (som co)) (find_boundary (pending co))\<rparr>)"
  have c: "fd c = fd co" by (simp add: c_def split: option.split)
  obtain r c' where r: "mw_srbdecodemessage net junk c (take (nat (int (the (boundary c)) - int (som c))) (pending c)) = (r, c')" by fastforce
  then have "fd c' = fd co" using fd_decode c by (metis snd_conv)
  then show ?thesis
    unfolding read_message_from_connbuffer_def Let_def c_def [symmetric]
    using c r by (auto split: option.split sum.split)
qed

lemma fd_recheck: "fd (recheck_boundary co) = fd co"
  by (simp add: recheck_boundary_def)

lemma fd_conn_read: "mw_conn_read co rs = Some (r, co', rs') \<Longrightarrow> fd co' = fd co"
  by (auto simp: mw_conn_read_def Let_def split: if_splits list.splits recv_result.splits)

lemma fd_recv_loop: "recv_loop net junk b co rs = Some (m, co', rs') \<Longrightarrow> fd co' = fd co"
proof (induction net junk b co rs rule: recv_loop.induct)
  case (1 net junk b co rs)
  then obtain r c1 rs1 where r: "mw_conn_read co rs = Some (r, c1, rs1)" by (subst (asm) recv_loop.simps) (auto split: option.splits)
  obtain m1 c2 where m: "read_message_from_connbuffer net junk c1 = (m1, c2)" by fastforce
  have "fd c2 = fd co" using fd_connbuffer [of net junk c1] m fd_conn_read [OF r] by simp
  then show ?case
    using "1.prems" [unfolded recv_loop.simps [of net junk b co rs] r option.case prod.case m] fd_conn_read [OF r]
      "1.IH"(1,2) [OF r refl refl _ m [symmetric]]
    by (auto simp: fd_recheck split: if_splits read_outcome.splits)
qed

lemma fd_recv: "mw_srb_recvmessage net junk co fl rs = Some (m, co', rs') \<Longrightarrow> fd co' = fd co"
  using fd_connbuffer [of net junk co]
  by (auto simp: mw_srb_recvmessage_def Let_def fd_recheck split: prod.splits read_outcome.splits if_splits dest: fd_recv_loop)

lemma keeps_set_conn: "fd co = fd (conn (conns st cn)) \<Longrightarrow> keeps st (upd_conn cn (\<lambda>c. c\<lparr>conn := co\<rparr>) st)"
  by (simp add: keeps_def upd_conn_def)

lemma post_gwreadmessage:
  assumes "env_ok (gw_proc env)" "conn_ok cn st"
  shows "post (okw cn) (gwreadmessage env junk clock cn rs st)"
  unfolding gwreadmessage_def Let_def
proof (rule post_bind [where P = "\<lambda>(r, co, rs). fd co = fd (conn (conns st cn))"])
  show "post (\<lambda>(r, co, rs). fd co = fd (conn (conns st cn))) (mw_srb_recvmessage (gw_net env) junk (conn (conns st cn)) 2 rs)"
    by (rule postI) (auto dest: fd_recv)
  fix x :: "read_outcome \<times> connection \<times> recv_result list"
  assume x: "case x of (r, co, rs) \<Rightarrow> fd co = fd (conn (conns st cn))"
  obtain r co rs' where eq: "x = (r, co, rs')" by (metis prod.exhaust)
  then have "conn_ok cn (upd_conn cn (\<lambda>c. c\<lparr>conn := co\<rparr>) st)" using x conn_ok_keeps [OF assms(2) keeps_set_conn] by simp
  then show "post (okw cn) (case x of (r, co, rs) \<Rightarrow>
       case r of
         Message msg \<Rightarrow> map_option (Pair rs) (srbDoMessage env clock cn msg (upd_conn cn (\<lambda>c. c\<lparr>conn := co\<rparr>) st))
       | NoMessage \<Rightarrow> map_option (Pair rs) (tcpcloseconnection env cn (upd_conn cn (\<lambda>c. c\<lparr>conn := co\<rparr>) st))
       | Refused e \<Rightarrow> if e = EAGAIN \<or> e = ENOMSG then Some (rs, upd_conn cn (\<lambda>c. c\<lparr>conn := co\<rparr>) st)
           else map_option (Pair rs) (tcpcloseconnection env cn (upd_conn cn (\<lambda>c. c\<lparr>conn := co\<rparr>) st))
       | AssertFailed \<Rightarrow> None)"
    using post_srbDoMessage [OF assms(1)] eq
    by (cases r) (auto intro!: post_if post_map_Pair post_closeconnection post_Some post_None)
qed

lemma conn_ok_add: "gw_ok st \<Longrightarrow> conn_ok f (conn_add f role ty st)"
  using good_conn_add(1) [where st = st and f = f and role = role and ty = ty] good_conn_add(2) [where st = st and f = f and role = role and ty = ty] by (simp add: conn_ok_def good_def)

lemma gw_ok_conn: "conn_ok cn st \<Longrightarrow> gw_ok st"
  by (simp add: conn_ok_def)

lemma post_from_broker:
  assumes "env_ok (gw_proc env)" "gw_ok st"
  shows "post gw_ok (from_broker env junk clock f text c_fd st)"
proof -
  let ?cn = "nat c_fd"
  define s where "s = conn_add ?cn 3 CONN_TYPE_NONE st"
  have s: "conn_ok ?cn s" unfolding s_def using assms(2) by (rule conn_ok_add)
  obtain m co where m: "mw_srbdecodemessage (gw_net env) junk (conn (conns s ?cn)) (take (length text - 2) text) = (m, co)" by fastforce
  have "fd co = fd (conn (conns s ?cn))" using fd_decode [of "gw_net env" junk "conn (conns s ?cn)"] m by (metis snd_conv)
  then have s1: "conn_ok ?cn (upd_conn ?cn (\<lambda>c. c\<lparr>conn := co\<rparr>) s)" by (rule conn_ok_keeps [OF s keeps_set_conn])
  have "post gw_ok (case m of Inr msg \<Rightarrow> srbDoMessage env clock ?cn msg (upd_conn ?cn (\<lambda>c. c\<lparr>conn := co\<rparr>) s)
      | Inl _ \<Rightarrow> conn_del env (fd co) (upd_conn ?cn (\<lambda>c. c\<lparr>conn := co\<rparr>) s))"
    using post_mono [OF post_srbDoMessage [OF assms(1) s1] gw_ok_conn] post_mono [OF post_conn_del [OF s1] gw_ok_conn] by (simp split: sum.split)
  moreover have "post gw_ok (map_option (\<lambda>st. st\<lparr>reconnect_broker := True\<rparr>) (conn_del env f st))"
  proof (rule post_map, rule postI)
    fix x
    assume "conn_del env f st = Some x"
    then have "good st x" by (rule good_conn_del)
    moreover have "good x (x\<lparr>reconnect_broker := True\<rparr>)" by (rule keeps_good) (simp add: keeps_refl)
    ultimately show "gw_ok (x\<lparr>reconnect_broker := True\<rparr>)" using assms(2) by (simp add: good_def)
  qed
  ultimately show ?thesis unfolding from_broker_def Let_def s_def [symmetric] m prod.case by (intro post_if post_None)
qed

lemma gw_ok_newconnection: "gw_ok st \<Longrightarrow> gw_ok (tcpnewconnection env version cn f st)"
  by (auto simp: tcpnewconnection_def Let_def intro!: gw_ok_conn [OF conn_ok_sendready [OF conn_ok_add]])

lemma read_condition_ok:
  assumes "tcp_do_read_condition env junk clock version cn a st = Some st'" "env_ok (gw_proc env)" "gw_ok st" "cn < conntblsize st"
  shows "gw_ok st'"
proof -
  have stream: "post gw_ok (map_option snd (gwreadmessage env junk clock cn rs st))" for rs
    by (rule post_map, rule post_mono [OF post_gwreadmessage]) (use assms gw_ok_conn in \<open>auto simp: conn_ok_def\<close>)
  have "post gw_ok (tcp_do_read_condition env junk clock version cn a st)"
    using stream post_from_broker [OF assms(2,3)] gw_ok_newconnection [OF assms(3)]
    by (auto simp: tcp_do_read_condition_def intro!: post_Some post_None split: conntype.split arrival.split)
  then show ?thesis using assms(1) by (rule postD)
qed

lemma good_reconnect: "good st (st\<lparr>reconnect_broker := b\<rparr>)" "good st (st\<lparr>shutdownflag := b\<rparr>)"
  by (rule keeps_good; simp add: keeps_refl)+

lemma good_error_condition:
  assumes "tcp_do_error_condition env cn st = Some st'"
  shows "good st st'"
proof -
  have close: "post (good st) (tcpcloseconnection env cn st)" by (rule postI) (rule good_closeconnection)
  have "post (good st) (conn_del env f s)" if "good st s" for f s by (rule postI) (rule good_trans [OF that good_conn_del])
  then have "post (good st) (tcp_do_error_condition env cn st)"
    unfolding tcp_do_error_condition_def
    by (intro post_if post_bind [where P = "good st"] close post_Some good_reconnect(2) good_trans [OF _ good_reconnect(1)])
  then show ?thesis using assms by (rule postD)
qed

lemma good_write_condition: "good st (snd (tcp_do_write_condition cn st))"
  by (auto simp: tcp_do_write_condition_def good_refl intro!: keeps_good [OF keeps_upd_conn])

lemma good_close_loop:
  assumes "close_loop get close st = Some st'" "\<And>cn s s'. close cn s = Some s' \<Longrightarrow> good s s'"
  shows "good st st'"
proof -
  have "(\<forall>cn s s'. close cn s = Some s' \<longrightarrow> good s s') \<longrightarrow> good st st'"
    by (rule close_loop.raw_induct [OF _ assms(1)]) (auto split: option.splits simp: good_refl, metis good_trans)
  then show ?thesis using assms(2) by blast
qed

lemma good_closeall:
  assumes "tcpcloseall env st = Some st'"
  shows "good st st'"
proof -
  have bye: "good s (snd (on_conn cn (\<lambda>co. mw_srbsendterm (gw_net env) co (-1)) s))" for cn s
    by (rule keeps_good [OF keeps_on_conn]) simp
  have loop: "post (good st) (close_loop get close s)" if "good st s" "\<And>cn s s'. close cn s = Some s' \<Longrightarrow> good s s'" for get close s
    by (rule postI) (blast intro: good_trans [OF that(1) good_close_loop] that(2))
  have "post (good st) (tcpcloseall env st)"
    unfolding tcpcloseall_def Let_def
    by (intro post_bind [where P = "good st"] loop)
      (auto simp: good_refl intro: good_trans [OF bye good_conn_del] good_conn_del good_trans [OF bye good_closegateway])
  then show ?thesis using assms by (rule postD)
qed

section \<open>A gateway at work\<close>

text \<open>
  One step of a gateway: a message on its queue, a socket that can be read or written or is in
  error, a socket opened for clients or the broker, a peer named in the configuration, an
  attempt to connect to the peers that are not connected, and the end. What the world answers
  may be different in every step.
\<close>

inductive gw_step :: "gwstate \<Rightarrow> gwstate \<Rightarrow> bool" where
  queue: "ipc_dispatch env m st = Some (r, m', st') \<Longrightarrow> gw_step st st'"
| readable: "env_ok (gw_proc env) \<Longrightarrow> cn < conntblsize st \<Longrightarrow> tcp_do_read_condition env junk clock version cn a st = Some st' \<Longrightarrow> gw_step st st'"
| failed: "tcp_do_error_condition env cn st = Some st' \<Longrightarrow> gw_step st st'"
| writable: "gw_step st (snd (tcp_do_write_condition cn st))"
| opened: "gw_step st (conn_add f role ty st)"
| configured: "gw_addknownpeer env inst domain addr st = Some (rc, p, st') \<Longrightarrow> gw_step st st'"
| connecting: "gw_connectpeers envs st = Some st' \<Longrightarrow> gw_step st st'"
| closing: "tcpcloseall env st = Some st' \<Longrightarrow> gw_step st st'"

text \<open>What the lists and tables are when the program starts.\<close>

definition gw_start :: "gwstate \<Rightarrow> bool" where
  "gw_start st \<longleftrightarrow> importlist st = [] \<and> exportlist st = [] \<and> knownGWs st = [] \<and> srbsubs st = [] \<and> conntblsize st = 0"

lemma gw_start_ok: "gw_start st \<Longrightarrow> gw_ok st"
  by (simp add: gw_start_def gw_ok_def)

lemma gw_step_ok: "gw_step st st' \<Longrightarrow> gw_ok st \<Longrightarrow> gw_ok st'"
proof (induction rule: gw_step.induct)
  case (readable env cn st junk clock version a st')
  then show ?case by (blast intro: read_condition_ok)
next
  case (queue env m st r m' st')
  then show ?case using good_dispatch good_def by blast
next
  case (failed env cn st st')
  then show ?case using good_error_condition good_def by blast
next
  case (writable st cn)
  then show ?case using good_write_condition good_def by blast
next
  case (opened st f role ty)
  then show ?case using good_conn_add(1) good_def by blast
next
  case (configured env inst domain addr st rc p st')
  then show ?case using good_gw_addknownpeer(1) good_def by blast
next
  case (connecting envs st st')
  then show ?case using good_connectpeers good_def by blast
next
  case (closing env st st')
  then show ?case using good_closeall good_def by blast
qed

text \<open>
  C6. However long a gateway runs and whatever clients, peers, the broker and the queue tell it, its
  tables stay well formed: an imported service has at least one peer and no peer twice, the peers
  of imports, exports and connections are entries of the table of peers, the connections of peers
  and of subscribers are entries of the table of connections, and an open connection is the entry
  of its own descriptor.
\<close>

theorem references_valid:
  assumes "gw_start st" "gw_step\<^sup>*\<^sup>* st st'"
  shows "gw_ok st'"
  using assms(2) by (induction rule: rtranclp_induct) (auto intro: gw_step_ok gw_start_ok [OF assms(1)])

definition demo_start :: gwstate where
  "demo_start = demo_gateway\<lparr>conns := (\<lambda>_. conn_clear), conntblsize := 0\<rparr>"

theorem references_valid_witness:
  "\<exists>st. gw_step\<^sup>*\<^sup>* demo_start st \<and> gw_ok st \<and> map pi_instance (knownGWs st) = [''east''] \<and> 8 < conntblsize st"
proof -
  define s where "s = demo_start\<lparr>knownGWs := [\<lparr>pi_hostname = ''10.0.0.2'', pi_instance = ''east'', domainid = 0, pi_gwid = UNASSIGNED,
    pi_conn = None, password = None\<rparr>]\<rparr>"
  have "gw_addknownpeer demo_gwenv ''east'' ''demo'' (Some ''10.0.0.2'') demo_start = Some (0, Some 0, s)"
    by (simp add: gw_addknownpeer_def addKnownPeer_def remdom_getid_def s_def demo_start_def demo_gateway_def demo_gwenv_def Let_def strncpy_def)
  then have "gw_step\<^sup>*\<^sup>* demo_start (conn_add 8 3 CONN_TYPE_LISTEN s)"
    using gw_step.configured gw_step.opened by (meson r_into_rtranclp rtranclp.rtrancl_into_rtrancl)
  moreover have "gw_start demo_start" by (simp add: gw_start_def demo_start_def demo_gateway_def)
  moreover have "knownGWs (conn_add 8 3 CONN_TYPE_LISTEN s) = knownGWs s" by (simp add: conn_add_def Let_def upd_conn_def)
  ultimately show ?thesis
    using references_valid good_conn_add(2) [where f = 8 and role = 3 and ty = CONN_TYPE_LISTEN and st = s]
    by (intro exI [of _ "conn_add 8 3 CONN_TYPE_LISTEN s"]) (simp add: s_def)
qed

end
