(* ===== verification/SrbClient.thy ===== *)
theory SrbClient
  imports SrbServer
begin

unbundle bit_operations_syntax

text \<open>
  \<^verbatim>\<open>src/lib/SRBclient.c\<close>: the client library over the network. The socket of the client and its
  queues of replies are added to the state of a process; \<open>incoming\<close> is what the socket will
  answer. None is a crash, or a call that waits for ever.
\<close>

section \<open>State\<close>

text \<open>
  A reply that has come, whole or in part. \<open>cr_data\<close> is the buffer of \<open>datatotal\<close> octets as far
  as it is filled.
\<close>

record callreply =
  cr_handle :: "string option"
  cr_map :: urlmap
  dataoctetsleft :: int
  datatotal :: int
  cr_data :: "string option"

record srbclient = mwproc +
  cltconn :: connection
  cltdomain :: "string option"
  callreplyqueue :: "callreply list"
  callreplyqueue_waiting :: "callreply list"
  incoming :: "recv_result list"

record clientenv =
  cl_proc :: "srbclient procenv"
  cl_net :: "string \<Rightarrow> int"
  cl_per :: nat
  cl_hdl0 :: string
  cl_junk :: "string \<Rightarrow> string"
  evbuf :: int

abbreviation (input) SRB_MWNOBLOCK :: "32 word" where "SRB_MWNOBLOCK \<equiv> 2"
abbreviation (input) SRB_MWSIGRST :: "32 word" where "SRB_MWSIGRST \<equiv> 8"

definition atoi :: "string \<Rightarrow> int" where
  "atoi s = (case sscanf_d s of None \<Rightarrow> 0 | Some i \<Rightarrow> i)"

definition strtol_hex :: "string \<Rightarrow> int" where
  "strtol_hex s =
     (case sign_of (dropWhile isspace s) of
        (neg, r) \<Rightarrow>
          (let r = (if length r > 2 \<and> r ! 0 = CHR ''0'' \<and> (r ! 1 = CHR ''x'' \<or> r ! 1 = CHR ''X'') \<and> isxdigit (r ! 2) then drop 2 r else r);
               v = int (xdigits_val (takeWhile isxdigit r))
           in signed_take_bit 31 (if neg then max (- (2 ^ 63)) (- v) else min (2 ^ 63 - 1) v)))"

definition map_field :: "urlmap option \<Rightarrow> string \<Rightarrow> urlpair option" where
  "map_field mp k = (case urlmapget mp (Some k) of Inl _ \<Rightarrow> None | Inr i \<Rightarrow> Some (the mp ! i))"

definition pair_data :: "urlpair \<Rightarrow> string" where
  "pair_data p = take (nat (valuelen p)) (case value p of None \<Rightarrow> [] | Some v \<Rightarrow> v)"

definition cltcloseconnect :: "srbclient \<Rightarrow> srbclient" where
  "cltcloseconnect st = st\<lparr>cltconn := (cltconn st)\<lparr>fd := -1, rejects := 1\<rparr>, cltdomain := None\<rparr>"

section \<open>Queues of replies\<close>

text \<open>Data longer than the announced total overflows the buffer.\<close>

definition new_callreply :: "urlmap \<Rightarrow> string option \<Rightarrow> callreply option" where
  "new_callreply m hdl =
     (case map_field (Some m) ''DATATOTAL'' of
        None \<Rightarrow> Some \<lparr>cr_handle = hdl, cr_map = m, dataoctetsleft = 0, datatotal = 0, cr_data = None\<rparr>
      | Some t \<Rightarrow>
          do {
            v \<leftarrow> value t;
            let total = atoi v;
            let d = (case map_field (Some m) ''DATA'' of None \<Rightarrow> [] | Some p \<Rightarrow> pair_data p);
            if int (length d) > max 0 total then None
            else Some \<lparr>cr_handle = hdl, cr_map = m, dataoctetsleft = total - int (length d), datatotal = total,
                       cr_data = (if total < 0 then None else Some d)\<rparr>
          })"

definition pushCRqueue :: "urlmap option \<Rightarrow> srbclient \<Rightarrow> (int \<times> srbclient) option" where
  "pushCRqueue mp st =
     (case mp of
        None \<Rightarrow> Some (0, st)
      | Some m \<Rightarrow>
          (case map_field (Some m) ''HANDLE'' of
             None \<Rightarrow> Some (0, st)
           | Some p \<Rightarrow>
               do {
                 c \<leftarrow> new_callreply m (value p);
                 Some (1, if dataoctetsleft c > 0 then st\<lparr>callreplyqueue_waiting := c # callreplyqueue_waiting st\<rparr>
                          else st\<lparr>callreplyqueue := c # callreplyqueue st\<rparr>)
               }))"

text \<open>The waiting reply a piece of data belongs to: the error, or the reply if it is complete now, and the others.\<close>

fun crdata_loop :: "string \<Rightarrow> string \<Rightarrow> callreply list \<Rightarrow> (errno + callreply option \<times> callreply list) option" where
  "crdata_loop hdl d [] = Some (Inr (None, []))"
| "crdata_loop hdl d (c # cs) =
     do {
       h \<leftarrow> cr_handle c;
       if strcasecmp_eq h hdl
       then let left = dataoctetsleft c - int (length d);
                c' = c\<lparr>dataoctetsleft := left, cr_data := map_option (\<lambda>x. x @ d) (cr_data c)\<rparr>
            in Some (if left < 0 then Inl EBADMSG else if left = 0 then Inr (Some c', cs) else Inr (None, c' # cs))
       else map_option (map_sum id (\<lambda>(r, cs). (r, c # cs))) (crdata_loop hdl d cs)
     }"

definition pushCRqueueDATA :: "urlmap option \<Rightarrow> srbclient \<Rightarrow> (int \<times> srbclient) option" where
  "pushCRqueueDATA mp st =
     (case map_field mp ''DATA'' of
        None \<Rightarrow> Some (- errno_num EINVAL, st)
      | Some p \<Rightarrow>
          (case urlmapgetvalue mp (Some ''HANDLE'') of
             None \<Rightarrow> Some (-1, st)
           | Some hdl \<Rightarrow>
               map_option (\<lambda>r. case r of
                   Inl e \<Rightarrow> (- errno_num e, st)
                 | Inr (done, cs) \<Rightarrow>
                     (0, st\<lparr>callreplyqueue_waiting := cs,
                            callreplyqueue := (case done of None \<Rightarrow> callreplyqueue st | Some c \<Rightarrow> c # callreplyqueue st)\<rparr>))
                 (crdata_loop hdl (pair_data p) (callreplyqueue_waiting st))))"

text \<open>The index of the last, that is the oldest, reply with a handle.\<close>

fun last_match :: "string \<Rightarrow> callreply list \<Rightarrow> nat \<Rightarrow> nat option \<Rightarrow> nat option option" where
  "last_match hdl [] i found = Some found"
| "last_match hdl (c # cs) i found =
     do {
       h \<leftarrow> cr_handle c;
       last_match hdl cs (i + 1) (if strcasecmp_eq h hdl then Some i else found)
     }"

definition popCRqueue :: "string option \<Rightarrow> srbclient \<Rightarrow> (callreply option \<times> srbclient) option" where
  "popCRqueue hdl st =
     (let cs = callreplyqueue st
      in case cs of
           [] \<Rightarrow> Some (None, st)
         | [c] \<Rightarrow>
             (case hdl of
                None \<Rightarrow> Some (Some c, st\<lparr>callreplyqueue := []\<rparr>)
              | Some k \<Rightarrow>
                  do {
                    h \<leftarrow> cr_handle c;
                    Some (if strcasecmp_eq h k then (Some c, st\<lparr>callreplyqueue := []\<rparr>) else (None, st))
                  })
         | _ \<Rightarrow>
             (case hdl of
                None \<Rightarrow> Some (Some (last cs), st\<lparr>callreplyqueue := butlast cs\<rparr>)
              | Some k \<Rightarrow>
                  do {
                    m \<leftarrow> last_match k cs 0 None;
                    Some (case m of
                            None \<Rightarrow> (None, st)
                          | Some i \<Rightarrow> (Some (cs ! i), st\<lparr>callreplyqueue := take i cs @ drop (i + 1) cs\<rparr>))
                  }))"

section \<open>Messages from the gateway\<close>

definition process_event :: "clientenv \<Rightarrow> urlmap option \<Rightarrow> srbclient \<Rightarrow> srbclient option" where
  "process_event env mp st =
     (case urlmapgetvalue mp (Some ''NAME'') of
        None \<Rightarrow> Some st
      | Some name \<Rightarrow>
          (case map_field mp ''SUBSCRIPTIONID'' of
             None \<Rightarrow> Some st
           | Some p \<Rightarrow>
               do {
                 v \<leftarrow> value p;
                 case map_field mp ''DATA'' of
                   None \<Rightarrow> mw_doevent (cl_proc env) st (atoi v) name 0 0
                 | Some d \<Rightarrow>
                     (case value d of
                        None \<Rightarrow> mw_doevent (cl_proc env) st (atoi v) name 0 (valuelen d)
                      | Some x \<Rightarrow> mw_doevent (cl_proc env) (st\<lparr>shm := store_bytes (shm st) (evbuf env) (octets x)\<rparr>) (atoi v) name
                                   (evbuf env) (valuelen d))
               }))"

text \<open>What one message leads to: whether it counts as a reply, or the end of the session.\<close>

datatype drained = Ignored | Counted | Terminated

definition drain_message :: "clientenv \<Rightarrow> srbmessage \<Rightarrow> srbclient \<Rightarrow> (drained \<times> srbclient) option" where
  "drain_message env msg st =
     (if marker msg = SRB_REJECTMARKER then Some (Ignored, st)
      else if command msg = ''EVENT'' then map_option (Pair Ignored) (process_event env (smap msg) st)
      else if command msg = ''SVCCALL''
      then if marker msg \<noteq> SRB_RESPONSEMARKER then Some (Ignored, st)
           else case mw_srb_checksrbcall (cl_net env) (cltconn st) msg of
                  (ok, co, msg) \<Rightarrow>
                    (let st = st\<lparr>cltconn := co\<rparr>
                     in if ok = 0 then Some (Ignored, st)
                        else map_option (\<lambda>(_, st). (Counted, st)) (pushCRqueue (smap msg) st))
      else if command msg = ''SVCDATA'' then map_option (\<lambda>(_, st). (Counted, st)) (pushCRqueueDATA (smap msg) st)
      else if command msg = ''TERM'' then Some (Terminated, cltcloseconnect st)
      else Some (Ignored, st))"

text \<open>A reply that has been read keeps the next read from blocking. Nothing that is not a reply ends the loop.\<close>

partial_function (option) drain_loop :: "clientenv \<Rightarrow> 32 word \<Rightarrow> int \<Rightarrow> srbclient \<Rightarrow> (int \<times> srbclient) option" where
  "drain_loop env flags rc st =
     (case mw_srb_recvmessage (cl_net env) (cl_junk env) (cltconn st) flags (incoming st) of
        None \<Rightarrow> None
      | Some (r, co, rs) \<Rightarrow>
          (let st = st\<lparr>cltconn := co, incoming := rs\<rparr>
           in case r of
                AssertFailed \<Rightarrow> None
              | NoMessage \<Rightarrow> Some (rc, st)
              | Refused e \<Rightarrow>
                  if rc \<noteq> 0 then Some (rc, st)
                  else if e = EINTR \<and> flags AND SRB_MWSIGRST \<noteq> 0 then drain_loop env flags rc st
                  else Some (- errno_num e, st)
              | Message msg \<Rightarrow>
                  (case drain_message env msg st of
                     None \<Rightarrow> None
                   | Some (d, st) \<Rightarrow>
                       (case d of
                          Ignored \<Rightarrow> drain_loop env flags rc st
                        | Counted \<Rightarrow> drain_loop env (flags OR SRB_MWNOBLOCK) (rc + 1) st
                        | Terminated \<Rightarrow> Some (- errno_num EPIPE, st)))))"

definition mw_drain_socket :: "clientenv \<Rightarrow> 32 word \<Rightarrow> srbclient \<Rightarrow> (int \<times> srbclient) option" where
  "mw_drain_socket env flags st = drain_loop env flags 0 st"

section \<open>Calls\<close>

definition mwacall_srb :: "clientenv \<Rightarrow> string \<Rightarrow> string option \<Rightarrow> nat \<Rightarrow> 32 word \<Rightarrow> srbclient \<Rightarrow> int \<times> srbclient" where
  "mwacall_srb env svcname data datalen flags st =
     (let (hdl, st) = mw_nexthandle (os (cl_proc env)) st;
          (rc, co) = mw_srbsendcall (cl_net env) (cl_per env) (cl_hdl0 env) (cltconn st) (word_of_int hdl) svcname data datalen flags;
          st = st\<lparr>cltconn := co\<rparr>
      in (if rc < 0 then rc else hdl, st))"

datatype srbfetched = SrbFailed int | SrbFetched int int "string option" int int

text \<open>The return code, the handle, the data with its length and the application's return code.\<close>

definition fetched_srbreply :: "callreply \<Rightarrow> srbfetched option" where
  "fetched_srbreply c =
     (let rc = mw_get_returncode (Some (cr_map c))
      in if rc = -1 then Some (SrbFailed (- errno_num EUCLEAN))
         else if rc = 430 then Some (SrbFailed (- errno_num ENOENT))
         else if rc = 431 then Some (SrbFailed (- errno_num EFAULT))
         else if rc \<noteq> MWMORE \<and> rc \<noteq> MWSUCCESS \<and> rc \<noteq> MWFAIL then Some (SrbFailed (- errno_num EPROTO))
         else do {
           let (data, len) =
             (case cr_data c of
                Some d \<Rightarrow> (Some d, datatotal c)
              | None \<Rightarrow>
                  (case map_field (Some (cr_map c)) ''DATA'' of
                     None \<Rightarrow> (None, 0)
                   | Some p \<Rightarrow> (value p, valuelen p)));
           arc \<leftarrow> (case map_field (Some (cr_map c)) ''APPLICATIONRC'' of None \<Rightarrow> Some 0 | Some p \<Rightarrow> map_option atoi (value p));
           hp \<leftarrow> map_field (Some (cr_map c)) ''HANDLE'';
           h \<leftarrow> value hp;
           Some (SrbFetched rc (strtol_hex h) data len arc)
         })"

partial_function (option) fetch_srb_loop ::
  "clientenv \<Rightarrow> string option \<Rightarrow> callreply option \<Rightarrow> srbclient \<Rightarrow> ((int + callreply) \<times> srbclient) option" where
  "fetch_srb_loop env hdl c st =
     (case c of
        Some c \<Rightarrow> Some (Inr c, st)
      | None \<Rightarrow>
          (case mw_drain_socket env 1 st of
             None \<Rightarrow> None
           | Some (rc, st) \<Rightarrow>
               if rc < 0 then Some (Inl rc, st)
               else if rc = 0 then fetch_srb_loop env hdl None st
               else (case popCRqueue hdl st of None \<Rightarrow> None | Some (c, st) \<Rightarrow> fetch_srb_loop env hdl c st)))"

definition mwfetch_srb :: "clientenv \<Rightarrow> int \<Rightarrow> 32 word \<Rightarrow> srbclient \<Rightarrow> (srbfetched \<times> srbclient) option" where
  "mwfetch_srb env h0 flags st =
     do {
       (_, st) \<leftarrow> mw_drain_socket env SRB_MWNOBLOCK st;
       let hdl = (if h0 = 0 then None else Some (hex8_lower (word_of_int h0)));
       (c, st) \<leftarrow> popCRqueue hdl st;
       if c = None \<and> flags AND SRB_MWNOBLOCK \<noteq> 0 then Some (SrbFailed (- errno_num EAGAIN), st)
       else do {
         (r, st) \<leftarrow> fetch_srb_loop env hdl c st;
         case r of
           Inl rc \<Rightarrow> Some (SrbFailed rc, st)
         | Inr c \<Rightarrow> map_option (\<lambda>f. (f, st)) (fetched_srbreply c)
       }
     }"

section \<open>The session\<close>

text \<open>
  \<open>s\<close> is the socket or the errno of creating it, \<open>conn_errno\<close> what connecting fails with. A
  greeting other than READY closes the connection, and attaching goes on.
\<close>

definition recv_one :: "clientenv \<Rightarrow> srbclient \<Rightarrow> (read_outcome \<times> srbclient) option" where
  "recv_one env st =
     map_option (\<lambda>(r, co, rs). (r, st\<lparr>cltconn := co, incoming := rs\<rparr>))
       (mw_srb_recvmessage (cl_net env) (cl_junk env) (cltconn st) 0 (incoming st))"

definition attach_init :: "clientenv \<Rightarrow> mwcred option \<Rightarrow> string option \<Rightarrow> srbclient \<Rightarrow> (int \<times> srbclient) option" where
  "attach_init env cred name st =
     (case mw_srbsendinit (cl_net env) (Some (cltconn st)) cred name (cltdomain st) of
        (rc, co) \<Rightarrow>
          (let st = st\<lparr>cltconn := the co\<rparr>
           in if rc \<le> 0 then Some (rc, cltcloseconnect st)
              else do {
                (r, st) \<leftarrow> recv_one env st;
                case r of
                  AssertFailed \<Rightarrow> None
                | Message msg \<Rightarrow>
                    if command msg = [] \<or> smap msg = None then Some (- errno_num ECONNRESET, st)
                    else if \<not> strcasecmp_eq (take 32 (command msg)) ''SRB INIT'' then Some (- errno_num EPROTO, cltcloseconnect st)
                    else if mw_get_returncode (smap msg) \<noteq> 0 then Some (- errno_num EPROTO, cltcloseconnect st)
                    else Some (0, st)
                | _ \<Rightarrow> Some (- errno_num ECONNRESET, st)
              }))"

definition mwattach_srb ::
  "clientenv \<Rightarrow> (bool \<times> string option) option \<Rightarrow> errno + int \<Rightarrow> errno option \<Rightarrow> string option \<Rightarrow> mwcred option \<Rightarrow> srbclient \<Rightarrow> (int \<times> srbclient) option" where
  "mwattach_srb env adr s conn_errno name cred st =
     (case adr of
        None \<Rightarrow> Some (- errno_num EINVAL, st)
      | Some (ip4, domain) \<Rightarrow>
          if \<not> ip4 then Some (- errno_num EPROTONOSUPPORT, st)
          else case (s, conn_errno) of
            (Inl e, _) \<Rightarrow> Some (- errno_num e, st)
          | (Inr s, Some e) \<Rightarrow> Some (- errno_num e, st)
          | (Inr s, None) \<Rightarrow>
              do {
                let st = st\<lparr>cltconn := (cltconn st)\<lparr>fd := s\<rparr>, cltdomain := domain\<rparr>;
                (r, st) \<leftarrow> recv_one env st;
                case r of
                  AssertFailed \<Rightarrow> None
                | Message msg \<Rightarrow>
                    attach_init env cred name
                      (if strcasecmp_eq (take 32 (command msg)) ''SRB READY'' then st else cltcloseconnect st)
                | NoMessage \<Rightarrow> Some (0, cltcloseconnect st)
                | Refused e \<Rightarrow> Some (- errno_num e, cltcloseconnect st)
              })"

definition mwdetach_srb :: "clientenv \<Rightarrow> srbclient \<Rightarrow> int \<times> srbclient" where
  "mwdetach_srb env st =
     (if fd (cltconn st) = -1 then (- errno_num ENOTCONN, st)
      else (0, cltcloseconnect (st\<lparr>cltconn := snd (mw_srbsendterm (cl_net env) (cltconn st) (-1))\<rparr>)))"

definition on_client :: "(connection \<Rightarrow> int \<times> connection) \<Rightarrow> srbclient \<Rightarrow> int \<times> srbclient" where
  "on_client f st = (case f (cltconn st) of (rc, co) \<Rightarrow> (rc, st\<lparr>cltconn := co\<rparr>))"

definition mwevent_srb :: "clientenv \<Rightarrow> string \<Rightarrow> string option \<Rightarrow> int \<Rightarrow> string option \<Rightarrow> string option \<Rightarrow> srbclient \<Rightarrow> int \<times> srbclient" where
  "mwevent_srb env evname data datalen user client = on_client (\<lambda>co. mw_srbsendevent (cl_net env) (cl_per env) co evname data datalen user client)"

definition mwsubscribe_srb :: "clientenv \<Rightarrow> string \<Rightarrow> int \<Rightarrow> 32 word \<Rightarrow> srbclient \<Rightarrow> int \<times> srbclient" where
  "mwsubscribe_srb env pat i flags = on_client (\<lambda>co. mw_srbsendsubscribe (cl_net env) co pat i flags)"

definition mwunsubscribe_srb :: "clientenv \<Rightarrow> int \<Rightarrow> srbclient \<Rightarrow> int \<times> srbclient" where
  "mwunsubscribe_srb env i = on_client (\<lambda>co. mw_srbsendunsubscribe (cl_net env) co i)"

definition mwrecvevents_srb :: "clientenv \<Rightarrow> srbclient \<Rightarrow> srbclient option" where
  "mwrecvevents_srb env st = map_option snd (mw_drain_socket env SRB_MWNOBLOCK st)"

end
