(* ===== verification/SrbClientProps.thy ===== *)
theory SrbClientProps
  imports SrbClient GwProps
begin

unbundle bit_operations_syntax

text \<open>
  A client on the network: the queue of complete replies gives the oldest one first, and a
  reply that comes in many messages, cut by the network in whatever way, is put together and
  fetched with all its data.
\<close>

section \<open>The queue of replies\<close>

text \<open>The oldest reply, the last in the queue, with a handle or with any.\<close>

definition wanted :: "string option \<Rightarrow> callreply \<Rightarrow> bool" where
  "wanted hdl c \<longleftrightarrow> (case hdl of None \<Rightarrow> True | Some k \<Rightarrow> strcasecmp_eq (the (cr_handle c)) k)"

fun pop_first :: "('a \<Rightarrow> bool) \<Rightarrow> 'a list \<Rightarrow> 'a option \<times> 'a list" where
  "pop_first P [] = (None, [])"
| "pop_first P (x # xs) = (if P x then (Some x, xs) else map_prod id ((#) x) (pop_first P xs))"

lemma pop_first_append:
  "pop_first P (xs @ ys) = (if \<exists>x \<in> set xs. P x then map_prod id (\<lambda>l. l @ ys) (pop_first P xs) else map_prod id ((@) xs) (pop_first P ys))"
  by (induction xs) (auto simp: prod.map_comp comp_def map_prod_def split: prod.split)

lemma pop_first_none: "\<forall>x \<in> set xs. \<not> P x \<Longrightarrow> pop_first P xs = (None, xs)"
  by (induction xs) auto

text \<open>The search keeps the last index at which the handle matches.\<close>

lemma last_match_result:
  assumes "\<forall>c \<in> set cs. cr_handle c \<noteq> None"
  shows "last_match k cs i f = Some (if \<exists>c \<in> set cs. wanted (Some k) c then Some (i + length cs - 1 - length (takeWhile (\<lambda>c. \<not> wanted (Some k) c) (rev cs))) else f)"
  using assms
proof (induction cs arbitrary: i f)
  case (Cons c cs)
  have "length (takeWhile P (xs @ [x])) = (if \<forall>y \<in> set xs. P y then length xs + (if P x then 1 else 0) else length (takeWhile P xs))" for P and xs :: "callreply list" and x
    by (auto simp: takeWhile_append)
  moreover have "length (takeWhile (\<lambda>c. \<not> wanted (Some k) c) (rev cs)) < length cs" if "\<exists>c \<in> set cs. wanted (Some k) c"
    using that by (metis length_rev length_takeWhile_le le_neq_implies_less set_rev takeWhile_eq_all_conv takeWhile_eq_take take_all_iff order_refl)
  ultimately show ?case using Cons by (auto simp: wanted_def)
qed simp
lemma pop_first_index:
  "\<exists>x \<in> set xs. P x \<Longrightarrow> pop_first P xs = (let j = length (takeWhile (\<lambda>x. \<not> P x) xs) in (Some (xs ! j), take j xs @ drop (j + 1) xs))"
proof (induction xs)
  case (Cons a xs)
  then show ?case by (cases "P a") (auto simp: Let_def)
qed simp

lemma found_index: "\<exists>x \<in> set xs. P x \<Longrightarrow> length (takeWhile (\<lambda>x. \<not> P x) xs) < length xs"
  by (induction xs) auto

lemma queue_same: "st\<lparr>callreplyqueue := callreplyqueue st\<rparr> = st"
  by simp

lemma pop_queue:
  assumes "\<forall>c \<in> set (callreplyqueue st). cr_handle c \<noteq> None"
  shows "popCRqueue hdl st = (case pop_first (wanted hdl) (rev (callreplyqueue st)) of (c, l) \<Rightarrow> Some (c, st\<lparr>callreplyqueue := rev l\<rparr>))"
proof -
  let ?cs = "callreplyqueue st"
  consider "?cs = []" | c where "?cs = [c]" | c d cs where "?cs = c # d # cs" by (metis list.exhaust)
  then show ?thesis
  proof cases
    case 1
    then have "st\<lparr>callreplyqueue := []\<rparr> = st" by (metis queue_same)
    then show ?thesis using 1 by (simp add: popCRqueue_def)
  next
    case (2 c)
    then have "st\<lparr>callreplyqueue := [c]\<rparr> = st" by (metis queue_same)
    then show ?thesis using 2 assms by (cases hdl) (auto simp: popCRqueue_def wanted_def)
  next
    case (3 c d cs)
    show ?thesis
    proof (cases hdl)
      case None
      have "rev ?cs = last ?cs # rev (butlast ?cs)" using 3 by (metis append_butlast_last_id list.distinct(1) rev_eq_Cons_iff rev_rev_ident)
      then have "pop_first (wanted None) (rev ?cs) = (Some (last ?cs), rev (butlast ?cs))" by (simp only: pop_first.simps) (simp add: wanted_def)
      then show ?thesis using 3 None by (simp add: popCRqueue_def)
    next
      case (Some k)
      have run: "popCRqueue hdl st = last_match k ?cs 0 None \<bind> (\<lambda>m. Some (case m of None \<Rightarrow> (None, st)
          | Some i \<Rightarrow> (Some (?cs ! i), st\<lparr>callreplyqueue := take i ?cs @ drop (i + 1) ?cs\<rparr>)))"
        unfolding popCRqueue_def Let_def 3 Some by (simp del: last_match.simps)
      show ?thesis
      proof (cases "\<exists>c \<in> set ?cs. wanted hdl c")
        case False
        then show ?thesis
          unfolding run using last_match_result [OF assms, of k 0 None] Some pop_first_none [of "rev ?cs" "wanted hdl"] queue_same [of st] by simp
      next
        case True
        define j where "j = length (takeWhile (\<lambda>c. \<not> wanted hdl c) (rev ?cs))"
        have j: "j < length ?cs" unfolding j_def using found_index [of "rev ?cs" "wanted hdl"] True by simp
        have pop: "pop_first (wanted hdl) (rev ?cs) = (Some (rev ?cs ! j), take j (rev ?cs) @ drop (j + 1) (rev ?cs))"
          unfolding j_def using pop_first_index [of "rev ?cs" "wanted hdl"] True by (simp add: Let_def)
        have m: "last_match k ?cs 0 None = Some (Some (length ?cs - 1 - j))"
          using last_match_result [OF assms, of k 0 None] True Some by (simp add: j_def)
        have "length ?cs - 1 - j + 1 = length ?cs - j" "length ?cs - (j + 1) = length ?cs - 1 - j" using j by simp_all
        then have "rev (take j (rev ?cs) @ drop (j + 1) (rev ?cs)) = take (length ?cs - 1 - j) ?cs @ drop (length ?cs - 1 - j + 1) ?cs"
          by (simp add: rev_take rev_drop)
        moreover have "rev ?cs ! j = ?cs ! (length ?cs - 1 - j)" using j by (simp add: rev_nth)
        ultimately show ?thesis unfolding run m pop by (simp only: Option.bind.bind_lunit option.case prod.case)
      qed
    qed
  qed
qed

text \<open>
  C29. The queue of replies is first in, first out for every handle: looking for a reply gives the one
  that has been there longest, among all replies when no handle is asked for, and otherwise among
  those with the handle, and takes just that one out. The code's three cases, one reply, no handle
  and the search, are one function of the queue.
\<close>

theorem pop_oldest:
  assumes "\<forall>c \<in> set (callreplyqueue st). cr_handle c \<noteq> None"
  shows "popCRqueue hdl st = (case pop_first (wanted hdl) (rev (callreplyqueue st)) of (c, l) \<Rightarrow> Some (c, st\<lparr>callreplyqueue := rev l\<rparr>))"
  by (rule pop_queue [OF assms])

section \<open>What the network delivers\<close>

lemma conn_read_suffix: "mw_conn_read co rs = Some (r, co', rs') \<Longrightarrow> mw_conn_read co (rs @ rest) = Some (r, co', rs' @ rest)"
  by (auto simp: mw_conn_read_def Let_def split: if_splits list.splits recv_result.splits)

lemma recv_loop_suffix: "recv_loop net junk b co rs = Some (m, co', rs') \<Longrightarrow> recv_loop net junk b co (rs @ rest) = Some (m, co', rs' @ rest)"
proof (induction net junk b co rs rule: recv_loop.induct)
  case (1 net junk b co rs)
  then obtain r c1 rs1 where r: "mw_conn_read co rs = Some (r, c1, rs1)" by (subst (asm) recv_loop.simps) (auto split: option.splits)
  obtain m1 c2 where m: "read_message_from_connbuffer net junk c1 = (m1, c2)" by fastforce
  show ?case
    using "1.prems" [unfolded recv_loop.simps [of net junk b co rs] r option.case prod.case m]
      "1.IH"(1,2) [OF r refl refl _ m [symmetric]]
    unfolding recv_loop.simps [of net junk b co "rs @ rest"] conn_read_suffix [OF r] option.case prod.case m
    by (auto split: if_splits read_outcome.splits)
qed

lemma recv_suffix:
  "mw_srb_recvmessage net junk co fl rs = Some (m, co', rs') \<Longrightarrow> mw_srb_recvmessage net junk co fl (rs @ rest) = Some (m, co', rs' @ rest)"
  by (auto simp: mw_srb_recvmessage_def Let_def recv_loop_suffix split: prod.splits read_outcome.splits if_splits)

lemma recv_end:
  assumes "arriving co [] []" "fl AND SRB_MWNOBLOCK \<noteq> 0"
  shows "\<exists>co'. mw_srb_recvmessage net junk co fl (RErr EAGAIN # rest) = Some (Refused EAGAIN, co', rest)"
  using assms
  by (auto simp: mw_srb_recvmessage_def arriving_def framed_def read_message_from_connbuffer_def recv_loop.simps [of net junk _ _ "RErr EAGAIN # rest"]
    mw_conn_read_def Let_def)

section \<open>Putting a reply together\<close>

text \<open>What a message that counts as a reply does to the queues.\<close>

definition collect :: "srbmessage \<Rightarrow> srbclient \<Rightarrow> srbclient option" where
  "collect msg st =
     (if marker msg = SRB_RESPONSEMARKER \<and> command msg = ''SVCCALL'' \<and> (\<forall>net co. mw_srb_checksrbcall net co msg = (1, co, msg))
      then map_option snd (pushCRqueue (smap msg) st)
      else if marker msg = SRB_NOTIFICATIONMARKER \<and> command msg = ''SVCDATA'' then map_option snd (pushCRqueueDATA (smap msg) st)
      else None)"

fun collect_all :: "srbmessage list \<Rightarrow> srbclient \<Rightarrow> srbclient option" where
  "collect_all [] st = Some st"
| "collect_all (m # ms) st = collect m st \<bind> collect_all ms"

lemma push_socket:
  "pushCRqueue mp (st\<lparr>incoming := rs, cltconn := co\<rparr>) = map_option (map_prod id (\<lambda>s. s\<lparr>incoming := rs, cltconn := co\<rparr>)) (pushCRqueue mp st)"
  by (auto simp: pushCRqueue_def split: option.split bind_split)

lemma data_socket:
  "pushCRqueueDATA mp (st\<lparr>incoming := rs, cltconn := co\<rparr>) = map_option (map_prod id (\<lambda>s. s\<lparr>incoming := rs, cltconn := co\<rparr>)) (pushCRqueueDATA mp st)"
proof (cases "map_field mp ''DATA''")
  case (Some p)
  show ?thesis
  proof (cases "urlmapgetvalue mp (Some ''HANDLE'')")
    case (Some h)
    let ?r = "crdata_loop h (pair_data p) (callreplyqueue_waiting st)"
    consider "?r = None" | e where "?r = Some (Inl e)" | cs where "?r = Some (Inr (None, cs))" | c cs where "?r = Some (Inr (Some c, cs))"
      by (metis option.exhaust prod.exhaust sum.exhaust)
    then show ?thesis by cases (use Some \<open>map_field mp ''DATA'' = Some p\<close> in \<open>simp_all add: pushCRqueueDATA_def\<close>)
  qed (use Some in \<open>simp add: pushCRqueueDATA_def\<close>)
qed (simp add: pushCRqueueDATA_def)

lemma drain_collect:
  assumes "collect msg st = Some st'"
  shows "drain_message env msg (st\<lparr>incoming := rs, cltconn := co\<rparr>) = Some (Counted, st'\<lparr>incoming := rs, cltconn := co\<rparr>)"
proof (cases "command msg = ''SVCCALL''")
  case True
  then obtain r where "pushCRqueue (smap msg) st = Some (r, st')" "marker msg = SRB_RESPONSEMARKER" "\<forall>net co. mw_srb_checksrbcall net co msg = (1, co, msg)"
    using assms by (auto simp: collect_def split: if_splits)
  then show ?thesis using True push_socket [where mp = "smap msg" and st = st and co = co and rs = rs] by (simp add: drain_message_def Let_def)
next
  case False
  then obtain r where "pushCRqueueDATA (smap msg) st = Some (r, st')" "marker msg = SRB_NOTIFICATIONMARKER" "command msg = ''SVCDATA''"
    using assms by (auto simp: collect_def split: if_splits)
  then show ?thesis using data_socket [where mp = "smap msg" and st = st and co = co and rs = rs] by (simp add: drain_message_def Let_def)
qed

lemma drain_turn:
  assumes "mw_srb_recvmessage (cl_net env) (cl_junk env) co fl rs = Some (r, co', rs')"
  shows "drain_loop env fl rc (st\<lparr>incoming := rs, cltconn := co\<rparr>) = (let st = st\<lparr>incoming := rs', cltconn := co'\<rparr>
    in case r of
         AssertFailed \<Rightarrow> None
       | NoMessage \<Rightarrow> Some (rc, st)
       | Refused e \<Rightarrow> if rc \<noteq> 0 then Some (rc, st) else if e = EINTR \<and> fl AND SRB_MWSIGRST \<noteq> 0 then drain_loop env fl rc st else Some (- errno_num e, st)
       | Message msg \<Rightarrow> (case drain_message env msg st of
             None \<Rightarrow> None
           | Some (d, st) \<Rightarrow> (case d of
                 Ignored \<Rightarrow> drain_loop env fl rc st
               | Counted \<Rightarrow> drain_loop env (fl OR SRB_MWNOBLOCK) (rc + 1) st
               | Terminated \<Rightarrow> Some (- errno_num EPIPE, st))))"
proof -
  define s where "s = st\<lparr>incoming := rs, cltconn := co\<rparr>"
  have s: "cltconn s = co" "incoming s = rs" "s\<lparr>cltconn := co', incoming := rs'\<rparr> = st\<lparr>incoming := rs', cltconn := co'\<rparr>" by (simp_all add: s_def)
  show ?thesis unfolding s_def [symmetric] drain_loop.simps [of env fl rc s] s(1,2) assms option.case prod.case s(3) ..
qed

lemma drain_delivers:
  assumes "list_all2 wire_ok msgs outs" "arriving co ds (concat outs)" "collect_all msgs st = Some st'" "0 < rc \<or> msgs \<noteq> []" "0 \<le> rc"
    "fl AND SRB_MWNOBLOCK \<noteq> 0"
  shows "\<exists>co'. drain_loop env fl rc (st\<lparr>incoming := map RData ds @ RErr EAGAIN # rest, cltconn := co\<rparr>)
    = Some (rc + int (length msgs), st'\<lparr>incoming := rest, cltconn := co'\<rparr>)"
  using assms
proof (induction msgs outs arbitrary: co ds st rc fl rule: list_all2_induct)
  case Nil
  then have "ds = []" by (cases ds) (auto simp: arriving_def)
  moreover have "arriving co [] []" using Nil(1) calculation by simp
  moreover obtain co' where r: "mw_srb_recvmessage (cl_net env) (cl_junk env) co fl (RErr EAGAIN # rest) = Some (Refused EAGAIN, co', rest)"
    using recv_end [OF \<open>arriving co [] []\<close> Nil(5)] by blast
  have "drain_loop env fl rc (st\<lparr>incoming := RErr EAGAIN # rest, cltconn := co\<rparr>) = Some (rc, st\<lparr>incoming := rest, cltconn := co'\<rparr>)"
    unfolding drain_turn [OF r] Let_def using Nil(3) by simp
  then show ?case using \<open>ds = []\<close> Nil(2) by auto
next
  case (Cons msg msgs out outs)
  obtain co1 ds1 where r: "mw_srb_recvmessage (cl_net env) (cl_junk env) co fl (map RData ds) = Some (Message msg, co1, map RData ds1)" "arriving co1 ds1 (concat outs)"
    using recvmessage_delivers [of msg out co ds "concat outs" "cl_net env" "cl_junk env" fl] Cons.hyps(1) Cons.prems(1) by auto
  obtain s1 where s1: "collect msg st = Some s1" "collect_all msgs s1 = Some st'" using Cons.prems(2) by (auto simp: bind_eq_Some_conv)
  have fl: "(fl OR SRB_MWNOBLOCK) AND SRB_MWNOBLOCK \<noteq> 0" by (simp add: bit.conj_disj_distrib2)
  obtain co' where "drain_loop env (fl OR SRB_MWNOBLOCK) (rc + 1) (s1\<lparr>incoming := map RData ds1 @ RErr EAGAIN # rest, cltconn := co1\<rparr>)
      = Some (rc + 1 + int (length msgs), st'\<lparr>incoming := rest, cltconn := co'\<rparr>)"
    using Cons.IH [OF r(2) s1(2) _ _ fl, of "rc + 1"] Cons.prems(4) by auto
  then show ?case
    unfolding drain_turn [OF recv_suffix [OF r(1)]] Let_def read_outcome.case drain_collect [OF s1(1)] option.case prod.case drained.case
    by (auto simp: algebra_simps)
qed

text \<open>Pieces of data for the reply that waits at the front of the queue.\<close>

lemma svcdata_fields: "map_field (smap (svcdata_message h d)) ''DATA'' = Some \<lparr>key = ''DATA'', value = Some d, valuelen = int (length d)\<rparr>"
  "urlmapgetvalue (smap (svcdata_message h d)) (Some ''HANDLE'') = Some h"
  by (simp_all add: svcdata_message_def map_field_def urlmapgetvalue_def urlmapget_def strcasecmp_eq_def)

lemma collect_pieces:
  assumes "ps \<noteq> []" "[] \<notin> set ps" "callreplyqueue_waiting st = c # ws" "cr_handle c = Some k" "strcasecmp_eq k h"
    "dataoctetsleft c = int (length (concat ps))" "cr_data c = Some d"
  shows "collect_all (map (svcdata_message h) ps) st = Some (st\<lparr>callreplyqueue_waiting := ws,
    callreplyqueue := c\<lparr>dataoctetsleft := 0, cr_data := Some (d @ concat ps)\<rparr> # callreplyqueue st\<rparr>)"
  using assms
proof (induction ps arbitrary: c d st)
  case (Cons p ps)
  let ?left = "dataoctetsleft c - int (length p)"
  let ?c = "c\<lparr>dataoctetsleft := ?left, cr_data := Some (d @ p)\<rparr>"
  have left: "?left = int (length (concat ps))" using Cons.prems(6) by simp
  have "concat ps = [] \<longleftrightarrow> ps = []" using Cons.prems(2) by (cases ps) auto
  then have zero: "?left = 0 \<longleftrightarrow> ps = []" unfolding left by simp
  have run: "collect (svcdata_message h p) st = Some (if ?left = 0
      then st\<lparr>callreplyqueue_waiting := ws, callreplyqueue := ?c # callreplyqueue st\<rparr> else st\<lparr>callreplyqueue_waiting := ?c # ws\<rparr>)"
  proof -
    have "marker (svcdata_message h p) = SRB_NOTIFICATIONMARKER" "command (svcdata_message h p) = ''SVCDATA''" by (simp_all add: svcdata_message_def)
    moreover have "\<not> ?left < 0" using left by simp
    ultimately show ?thesis
      using Cons.prems(3-5,7) by (simp add: collect_def pushCRqueueDATA_def svcdata_fields pair_data_def Let_def)
  qed
  show ?case
  proof (cases "ps = []")
    case True
    then show ?thesis using run zero by simp
  next
    case False
    then have "?left \<noteq> 0" using zero by simp
    define c' where "c' = ?c"
    have c': "cr_handle c' = Some k" "dataoctetsleft c' = int (length (concat ps))" "cr_data c' = Some (d @ p)"
        "c'\<lparr>dataoctetsleft := 0, cr_data := x\<rparr> = c\<lparr>dataoctetsleft := 0, cr_data := x\<rparr>" for x
      using Cons.prems(4) left by (simp_all add: c'_def)
    have "collect (svcdata_message h p) st = Some (st\<lparr>callreplyqueue_waiting := c' # ws\<rparr>)" unfolding run if_not_P [OF \<open>?left \<noteq> 0\<close>] c'_def ..
    moreover have "collect_all (map (svcdata_message h) ps) (st\<lparr>callreplyqueue_waiting := c' # ws\<rparr>) = Some (st\<lparr>callreplyqueue_waiting := ws,
        callreplyqueue := c\<lparr>dataoctetsleft := 0, cr_data := Some (d @ p @ concat ps)\<rparr> # callreplyqueue st\<rparr>)"
      using Cons.IH [of "st\<lparr>callreplyqueue_waiting := c' # ws\<rparr>" c' "d @ p"] False Cons.prems(2,5) c' by simp
    ultimately show ?thesis by simp
  qed
qed simp

text \<open>
  The first message of a reply: its return codes, its handle, the number of octets of its data,
  and the first of them.
\<close>

definition reply_begins :: "srbmessage \<Rightarrow> string \<Rightarrow> int \<Rightarrow> int \<Rightarrow> nat \<Rightarrow> string \<Rightarrow> bool" where
  "reply_begins msg h rc arc n d \<longleftrightarrow> marker msg = SRB_RESPONSEMARKER \<and> command msg = ''SVCCALL''
     \<and> (\<forall>net co. mw_srb_checksrbcall net co msg = (1, co, msg)) \<and> mw_get_returncode (smap msg) = rc
     \<and> (\<exists>m hp tp dp ap. smap msg = Some m \<and> map_field (Some m) ''HANDLE'' = Some hp \<and> value hp = Some h
        \<and> map_field (Some m) ''DATATOTAL'' = Some tp \<and> value tp = Some (int_dec (int n))
        \<and> map_field (Some m) ''DATA'' = Some dp \<and> pair_data dp = d
        \<and> map_field (Some m) ''APPLICATIONRC'' = Some ap \<and> value ap = Some (int_dec arc))"

lemma reply_waits:
  assumes "reply_begins msg h rc arc n d" "length d < n" "n < 2 ^ 31"
  shows "\<exists>c. collect msg st = Some (st\<lparr>callreplyqueue_waiting := c # callreplyqueue_waiting st\<rparr>) \<and> cr_handle c = Some h
    \<and> dataoctetsleft c = int n - int (length d) \<and> datatotal c = int n \<and> cr_data c = Some d \<and> Some (cr_map c) = smap msg"
  using assms sscanf_int_dec [of "int n"]
  by (auto simp: reply_begins_def collect_def pushCRqueue_def new_callreply_def atoi_def Let_def)

lemma reply_fetched:
  assumes "reply_begins msg h rc arc n d" "rc \<in> {MWSUCCESS, MWFAIL, MWMORE}" "Some (cr_map c) = smap msg" "cr_data c = Some x" "datatotal c = int n"
    "- (2 ^ 31) \<le> arc" "arc < 2 ^ 31"
  shows "fetched_srbreply c = Some (SrbFetched rc (strtol_hex h) (Some x) (int n) arc)"
  using assms sscanf_int_dec [of arc]
  by (auto simp: reply_begins_def fetched_srbreply_def Let_def atoi_def)


section \<open>Witnesses\<close>

definition demo_reply :: srbmessage where
  "demo_reply = \<lparr>command = ''SVCCALL'', marker = SRB_RESPONSEMARKER, smap = Some
     [\<lparr>key = ''HANDLE'', value = Some ''0000002A'', valuelen = 8\<rparr>, \<lparr>key = ''RETURNCODE'', value = Some ''1'', valuelen = 1\<rparr>,
      \<lparr>key = ''APPLICATIONRC'', value = Some ''7'', valuelen = 1\<rparr>, \<lparr>key = ''DATATOTAL'', value = Some ''5'', valuelen = 1\<rparr>,
      \<lparr>key = ''DATA'', value = Some ''abc'', valuelen = 3\<rparr>]\<rparr>"

lemma demo_reply_begins: "reply_begins demo_reply ''0000002A'' 1 7 5 ''abc''"
proof -
  have "int_dec 5 = ''5''" "int_dec 7 = ''7''" by code_simp+
  moreover have "mw_srb_checksrbcall net co demo_reply = (1, co, demo_reply)" for net co
    by (simp add: demo_reply_def mw_srb_checksrbcall_def urlmapget_def strcasecmp_eq_def returncode_ok_def char_at_def isdigit_def Let_def)
  moreover have "mw_get_returncode (smap demo_reply) = 1" by code_simp
  ultimately show ?thesis
    by (simp add: reply_begins_def) (simp add: demo_reply_def map_field_def urlmapget_def strcasecmp_eq_def pair_data_def)
qed

lemma demo_reply_wire: "wire_ok demo_reply (message_body demo_reply @ CRLF)"
proof (rule encode_room)
  have "command_ok (command demo_reply)" "list_all pair_safe (the (smap demo_reply))" by code_simp+
  then show "message_ok demo_reply" by (simp add: message_ok_def demo_reply_def)
  show "smap demo_reply = Some (the (smap demo_reply))" by (simp add: demo_reply_def)
  show "length (command demo_reply) + 1 + sum_list (map pair_room (the (smap demo_reply))) \<le> 3400"
    by (simp add: demo_reply_def pair_room_def)
qed

definition demo_srbclient :: srbclient where
  "demo_srbclient = \<lparr>ipcmain = None, clttbl = None, srvtbl = None, svctbl = None, gwtbl = None, convtbl = None, my_mqid = UNASSIGNED,
     myserverid = UNASSIGNED, myclientid = UNASSIGNED, mygatewayid = UNASSIGNED, shm = demo_heap, msgq = (\<lambda>_. None),
     callReplyQueue = [], srv_buffer = None, handle = 42, isattached = True, serviceFuncList = [], provided = 0, requestpending = False,
     subscriptions = [], next_subscriptionid = 0, cltconn = fresh_connection, cltdomain = None,
     callreplyqueue = [\<lparr>cr_handle = Some ''00000001'', cr_map = [], dataoctetsleft = 0, datatotal = 0, cr_data = None\<rparr>,
       \<lparr>cr_handle = Some ''00000002'', cr_map = [], dataoctetsleft = 0, datatotal = 0, cr_data = None\<rparr>],
     callreplyqueue_waiting = [],
     incoming = [RData (message_body demo_reply @ CRLF @ message_body (svcdata_message ''0000002A'' ''de'') @ CRLF), RErr EAGAIN]\<rparr>"

definition demo_clientenv :: clientenv where
  "demo_clientenv = \<lparr>cl_proc = \<lparr>os = demo_mwenv, wait = (\<lambda>s. (EINTR, s)), rands = (\<lambda>_. 0), getpid = 1, gettimeofday = (0, 0),
     run_service = (\<lambda>_ _ s. Some (0, s)), callback = (\<lambda>_ _ _ _ s. Some s), dotasks = (\<lambda>_. None)\<rparr>, cl_net = quiet_net, cl_per = 1000,
     cl_hdl0 = [], cl_junk = id, evbuf = 0\<rparr>"

theorem pop_oldest_witness:
  "popCRqueue None demo_srbclient = Some (Some (last (callreplyqueue demo_srbclient)), demo_srbclient\<lparr>callreplyqueue := butlast (callreplyqueue demo_srbclient)\<rparr>)"
proof -
  have "\<forall>c \<in> set (callreplyqueue demo_srbclient). cr_handle c \<noteq> None" by (simp add: demo_srbclient_def)
  from pop_oldest [OF this, of None] show ?thesis by (simp add: demo_srbclient_def wanted_def)
qed


end
