(* ===== verification/Tasks.thy ===== *)
theory Tasks
  imports CLib Complex_Main "HOL-Library.Monad_Syntax"
begin

text \<open>
  \<^verbatim>\<open>src/lib/tasks.c\<close>: the tasks a process runs between its messages, with the timer that wakes
  it for them. A task is a function with an interval; what the functions do, among it calls to
  the operations below, is an argument, and so is the clock, one answer for every time it is
  read. Intervals are exact numbers of seconds; where the code converts them to an integer,
  the fraction is cut off. None is a crash, the end of the process, or an operation that waits
  for the mutex for ever.
\<close>

section \<open>State\<close>

abbreviation (input) TASK_SUSP :: int where "TASK_SUSP \<equiv> 0"
abbreviation (input) TASK_WAIT :: int where "TASK_WAIT \<equiv> 1"
abbreviation (input) TASK_RUN :: int where "TASK_RUN \<equiv> 2"
abbreviation (input) PTASKMAGIC :: int where "PTASKMAGIC \<equiv> 0x00effe00"
abbreviation (input) INT64_MAX :: int where "INT64_MAX \<equiv> 9223372036854775807"

record task =
  interval :: rat
  task_state :: int
  task_fn :: nat
  task_name :: string
  nextsched :: int
  calls :: int
  timespend :: int

text \<open>The handler a signal had before. The null pointer is the default handler.\<close>

datatype sighandler = SIG_DFL | SIG_IGN | SIG_CATCH nat

text \<open>
  \<open>tasklist\<close> is None as long as the number of tasks is -1. \<open>realtimer\<close> is the time the timer
  is set to, if it is, and \<open>reads\<close> counts how often the clock was read.
\<close>

record taskstate =
  tasklist :: "task list option"
  outoftasks :: int
  intasks :: int
  insched :: int
  ts :: int
  te :: int
  nexttasktime :: int
  runnable :: int
  nexttask :: nat
  alarm :: bool
  tasklock :: bool
  chain_handler :: sighandler
  realtimer :: "int option"
  reads :: nat

record 's taskenv =
  clock :: "nat \<Rightarrow> int"
  run :: "nat \<Rightarrow> int \<Rightarrow> 's \<Rightarrow> (int \<times> 's) option"
  old_sigalrm :: sighandler

definition tasks_of :: "'a taskstate_scheme \<Rightarrow> task list" where
  "tasks_of st = (case tasklist st of None \<Rightarrow> [] | Some l \<Rightarrow> l)"

definition tasks :: "'a taskstate_scheme \<Rightarrow> int" where
  "tasks st = (case tasklist st of None \<Rightarrow> -1 | Some l \<Rightarrow> int (length l))"

definition upd_task :: "nat \<Rightarrow> (task \<Rightarrow> task) \<Rightarrow> 'a taskstate_scheme \<Rightarrow> 'a taskstate_scheme" where
  "upd_task i f st = st\<lparr>tasklist := map_option (\<lambda>l. l[i := f (l ! i)]) (tasklist st)\<rparr>"

section \<open>The clock and the timer\<close>

definition mw_llgtod :: "'a taskstate_scheme taskenv \<Rightarrow> 'a taskstate_scheme \<Rightarrow> int \<times> 'a taskstate_scheme" where
  "mw_llgtod env st = (clock env (reads st), st\<lparr>reads := reads st + 1\<rparr>)"

definition mw_setrealtimer :: "'a taskstate_scheme taskenv \<Rightarrow> int \<Rightarrow> 'a taskstate_scheme \<Rightarrow> 'a taskstate_scheme option" where
  "mw_setrealtimer env usecs st =
     (if usecs < 0 then None
      else if usecs = 0 then Some (st\<lparr>realtimer := None\<rparr>)
      else case mw_llgtod env st of (now, st) \<Rightarrow> Some (st\<lparr>realtimer := Some (max 1000 (usecs - now))\<rparr>))"

text \<open>Conversion of a floating point number to an integer, of 64 and of 32 bits.\<close>

definition to_longlong :: "rat \<Rightarrow> int" where
  "to_longlong x = (if x < 0 then - \<lfloor>- x\<rfloor> else \<lfloor>x\<rfloor>)"

definition to_int :: "rat \<Rightarrow> int option" where
  "to_int x = (let i = to_longlong x in if - (2 ^ 31) \<le> i \<and> i < 2 ^ 31 then Some i else None)"

section \<open>Scheduling\<close>

text \<open>
  One round over the tasks, with the time of the earliest task that waits, its index, and the
  number of those that can run. The index kept is not the one of the task looked at: it is
  counted from \<open>nexttask\<close>.
\<close>

fun sched_loop :: "int \<Rightarrow> nat \<Rightarrow> nat \<Rightarrow> nat \<Rightarrow> task list \<Rightarrow> int \<times> nat \<times> int \<Rightarrow> task list \<times> int \<times> nat \<times> int" where
  "sched_loop now nt n i [] acc = ([], acc)"
| "sched_loop now nt n i (t # rest) (first_time, first, newrunnable) =
     (let idx = (nt + i) mod n;
          (t, acc) =
            (if task_state t = TASK_RUN then (t, first_time, first, newrunnable + 1)
             else if task_state t = TASK_WAIT
             then if nextsched t + 100 \<le> now then (t\<lparr>task_state := TASK_RUN\<rparr>, first_time, first, newrunnable + 1)
                  else if nextsched t < first_time then (t, nextsched t, idx, newrunnable)
                  else (t, first_time, first, newrunnable)
             else if task_state t = TASK_SUSP then (t, first_time, first, newrunnable)
             else (t\<lparr>task_state := TASK_SUSP\<rparr>, first_time, first, newrunnable));
          (rest, acc) = sched_loop now nt n (i + 1) rest acc
      in (t # rest, acc))"

definition schedule :: "'a taskstate_scheme taskenv \<Rightarrow> 'a taskstate_scheme \<Rightarrow> (int \<times> 'a taskstate_scheme) option" where
  "schedule env st =
     (let (now, st) = mw_llgtod env st;
          (l, first_time, first, newrunnable) = sched_loop now (nexttask st) (length (tasks_of st)) 0 (tasks_of st) (INT64_MAX, 0, 0);
          st = st\<lparr>tasklist := map_option (\<lambda>_. l) (tasklist st), alarm := False, nexttasktime := first_time, nexttask := first\<rparr>
      in if newrunnable \<noteq> 0
         then map_option (Pair newrunnable) (mw_setrealtimer env 0 (st\<lparr>runnable := newrunnable\<rparr>))
         else map_option (\<lambda>st. (newrunnable, st\<lparr>runnable := 0\<rparr>)) (mw_setrealtimer env first_time st))"

text \<open>
  The handler is chained to when the handler before was to ignore the signal, which is not a
  function.
\<close>

definition sighandler_alarm :: "'a taskstate_scheme \<Rightarrow> 'a taskstate_scheme option" where
  "sighandler_alarm st = (if chain_handler st = SIG_DFL then Some (st\<lparr>alarm := True\<rparr>) else None)"

definition mw_tasksignalled :: "'a taskstate_scheme \<Rightarrow> bool" where
  "mw_tasksignalled st = alarm st"

definition inittasks :: "'a taskstate_scheme taskenv \<Rightarrow> 'a taskstate_scheme \<Rightarrow> 'a taskstate_scheme" where
  "inittasks env st =
     (if tasks st = -1
      then st\<lparr>chain_handler := (if old_sigalrm env = SIG_IGN \<or> old_sigalrm env = SIG_DFL then old_sigalrm env else chain_handler st),
              tasklist := Some []\<rparr>
      else st)"

section \<open>Running tasks\<close>

definition runnable_count :: "'a taskstate_scheme \<Rightarrow> int" where
  "runnable_count st = int (length (filter (\<lambda>t. task_state t = TASK_RUN) (tasks_of st)))"

text \<open>
  The task that is run next. The list may move when a task adds another, and the pointer to
  the task that has completed then leads nowhere.
\<close>

definition next_runnable :: "'a taskstate_scheme \<Rightarrow> nat option" where
  "next_runnable st = (let n = length (tasks_of st)
     in List.find (\<lambda>idx. task_state (tasks_of st ! idx) = TASK_RUN) (map (\<lambda>i. (nexttask st + i) mod n) [0..<n]))"

definition task_complete :: "'a taskstate_scheme taskenv \<Rightarrow> nat \<Rightarrow> 'a taskstate_scheme \<Rightarrow> 'a taskstate_scheme" where
  "task_complete env idx st =
     (let st = st\<lparr>runnable := runnable st - 1\<rparr>; t = tasks_of st ! idx
      in if interval t < 0 then upd_task idx (\<lambda>t. t\<lparr>task_state := TASK_SUSP, nextsched := 0\<rparr>) st
         else let (tt, st) = mw_llgtod env st
              in upd_task idx (\<lambda>t. t\<lparr>task_state := (if task_state t = TASK_RUN then TASK_WAIT else task_state t),
                   nextsched := to_longlong (of_int tt + interval t * 1000000)\<rparr>) st)"

definition run_task :: "'a taskstate_scheme taskenv \<Rightarrow> nat \<Rightarrow> 'a taskstate_scheme \<Rightarrow> (int \<times> 'a taskstate_scheme) option" where
  "run_task env idx st =
     do {
       let n = length (tasks_of st);
       let (start, st) = mw_llgtod env (st\<lparr>tasklock := False\<rparr>);
       (rc, st) \<leftarrow> run env (task_fn (tasks_of st ! idx)) (int idx + PTASKMAGIC) st;
       let (end_time, st) = mw_llgtod env st;
       if tasklock st then None
       else if rc = 0 \<and> length (tasks_of st) \<noteq> n then None
       else do {
         let st = st\<lparr>tasklock := True\<rparr>;
         let st = (if rc = 0 then task_complete env idx st else st);
         let tt = end_time - start;
         Some (tt, upd_task idx (\<lambda>t. t\<lparr>timespend := timespend t + tt\<rparr>) st)
       }
     }"

definition mwdotasks :: "'a taskstate_scheme taskenv \<Rightarrow> 'a taskstate_scheme \<Rightarrow> (int \<times> 'a taskstate_scheme) option" where
  "mwdotasks env st =
     (if tasks st \<le> 0 then Some (0, st)
      else if tasklock st then None
      else do {
        let (t0, st) = mw_llgtod env (st\<lparr>tasklock := True\<rparr>);
        let st = st\<lparr>ts := t0, outoftasks := outoftasks st + (if te st \<noteq> 0 then t0 - te st else 0)\<rparr>;
        let st = st\<lparr>runnable := runnable_count st\<rparr>;
        st \<leftarrow> (if runnable st = 0 then map_option (\<lambda>(r, st). st\<lparr>runnable := r\<rparr>) (schedule env st) else Some st);
        if runnable st = 0
        then let (t1, st) = mw_llgtod env st
             in Some (0, st\<lparr>te := t1, insched := insched st + (t1 - ts st), tasklock := False\<rparr>)
        else do {
          idx \<leftarrow> next_runnable st;
          (tt, st) \<leftarrow> run_task env idx st;
          let st = st\<lparr>nexttask := (idx + 1) mod length (tasks_of st)\<rparr>;
          let (t1, st) = mw_llgtod env st;
          let st = st\<lparr>te := t1, intasks := intasks st + tt\<rparr>;
          let (start, st) = mw_llgtod env st;
          (r, st) \<leftarrow> schedule env st;
          let (end_time, st) = mw_llgtod env (st\<lparr>runnable := r\<rparr>);
          Some (runnable st, st\<lparr>insched := insched st + (end_time - start), tasklock := False\<rparr>)
        }
      })"

section \<open>Changing tasks\<close>

text \<open>What every operation on a task tests first; only waking a task tests for a negative index.\<close>

definition bad_task :: "'a taskstate_scheme \<Rightarrow> int \<Rightarrow> int option" where
  "bad_task st idx =
     (if tasks st < 0 then Some (- errno_num EILSEQ) else if tasks st = 0 then Some (- errno_num ENOENT)
      else if idx \<ge> tasks st then Some (- errno_num ENOENT) else None)"

definition mwwaketask :: "'a taskstate_scheme taskenv \<Rightarrow> int \<Rightarrow> 'a taskstate_scheme \<Rightarrow> (int \<times> 'a taskstate_scheme) option" where
  "mwwaketask env pt st =
     (let idx = pt - PTASKMAGIC
      in case bad_task st idx of
           Some e \<Rightarrow> Some (e, st)
         | None \<Rightarrow>
             if idx < 0 then Some (- errno_num EINVAL, st)
             else if tasklock st then None
             else let (now, st) = mw_llgtod env st;
                      st = upd_task (nat idx) (\<lambda>t. t\<lparr>task_state := TASK_RUN, nextsched := now\<rparr>) st;
                      st = st\<lparr>runnable := runnable st + 1, nexttask := nat idx\<rparr>
                  in map_option (Pair 0) (mw_setrealtimer env 0 st))"

definition with_task ::
  "int \<Rightarrow> 'a taskstate_scheme \<Rightarrow> (nat \<Rightarrow> 'a taskstate_scheme \<Rightarrow> (int \<times> 'a taskstate_scheme) option) \<Rightarrow> (int \<times> 'a taskstate_scheme) option" where
  "with_task pt st f =
     (let idx = pt - PTASKMAGIC
      in case bad_task st idx of
           Some e \<Rightarrow> Some (e, st)
         | None \<Rightarrow> if tasklock st \<or> idx < 0 then None else f (nat idx) st)"

definition mwsuspendtask :: "'a taskstate_scheme taskenv \<Rightarrow> int \<Rightarrow> 'a taskstate_scheme \<Rightarrow> (int \<times> 'a taskstate_scheme) option" where
  "mwsuspendtask env pt st = with_task pt st (\<lambda>i st.
     map_option (\<lambda>(r, st). (0, st\<lparr>runnable := r\<rparr>)) (schedule env (upd_task i (\<lambda>t. t\<lparr>task_state := TASK_SUSP\<rparr>) st)))"

definition mwresumetask :: "'a taskstate_scheme taskenv \<Rightarrow> int \<Rightarrow> 'a taskstate_scheme \<Rightarrow> (int \<times> 'a taskstate_scheme) option" where
  "mwresumetask env pt st = with_task pt st (\<lambda>i st.
     if interval (tasks_of st ! i) > 0
     then map_option (\<lambda>(r, st). (0, st\<lparr>runnable := r\<rparr>)) (schedule env (upd_task i (\<lambda>t. t\<lparr>task_state := TASK_WAIT\<rparr>) st))
     else Some (0, st))"

text \<open>A negative interval suspends the task and leaves its interval as it was.\<close>

definition mwsettaskinterval :: "'a taskstate_scheme taskenv \<Rightarrow> int \<Rightarrow> rat \<Rightarrow> 'a taskstate_scheme \<Rightarrow> (int \<times> 'a taskstate_scheme) option" where
  "mwsettaskinterval env pt new st = with_task pt st (\<lambda>i st.
     let (now, st) = mw_llgtod env st;
         old = interval (tasks_of st ! i);
         st = (if new < 0 then upd_task i (\<lambda>t. t\<lparr>task_state := TASK_SUSP\<rparr>) st
               else upd_task i (\<lambda>t. t\<lparr>interval := new, nextsched := to_longlong (of_int (nextsched t) + (new - old) * 1000000)\<rparr>) st)
     in do {
       (r, st) \<leftarrow> schedule env st;
       rc \<leftarrow> to_int old;
       Some (rc, st\<lparr>runnable := r\<rparr>)
     })"

definition mw_gettaskstate :: "int \<Rightarrow> 'a taskstate_scheme \<Rightarrow> (int \<times> 'a taskstate_scheme) option" where
  "mw_gettaskstate pt st = with_task pt st (\<lambda>i st. Some (task_state (tasks_of st ! i), st))"

section \<open>Adding tasks\<close>

text \<open>The delay in micro seconds is an int, too small for more than 35 minutes.\<close>

definition new_task :: "'a taskstate_scheme taskenv \<Rightarrow> nat \<Rightarrow> string \<Rightarrow> rat \<Rightarrow> rat \<Rightarrow> 'a taskstate_scheme \<Rightarrow> (task \<times> 'a taskstate_scheme) option" where
  "new_task env f name ival delay st =
     do {
       firstissue \<leftarrow> (if delay \<ge> 0 then to_int (delay * 1000000) else if ival \<ge> 0 then to_int (ival * 1000000) else Some (-1));
       let (next, st) = (if firstissue \<ge> 0 then case mw_llgtod env st of (now, st) \<Rightarrow> (now + firstissue, st) else (-1, st));
       Some (\<lparr>interval = (if ival \<le> 0 then -1 else ival), task_state = (if ival < 0 \<and> delay < 0 then TASK_SUSP else TASK_WAIT),
              task_fn = f, task_name = name, nextsched = next, calls = 0, timespend = 0\<rparr>, st)
     }"

partial_function (option) dotasks_loop :: "'a taskstate_scheme taskenv \<Rightarrow> 'a taskstate_scheme \<Rightarrow> 'a taskstate_scheme option" where
  "dotasks_loop env st =
     (if runnable st = 0 then Some st
      else case mwdotasks env st of None \<Rightarrow> None | Some (r, st) \<Rightarrow> dotasks_loop env (st\<lparr>runnable := r\<rparr>))"

text \<open>A new task is first of all a reason to run every task that can run, until none can.\<close>

definition mwaddtaskdelayed ::
  "'a taskstate_scheme taskenv \<Rightarrow> nat option \<Rightarrow> string \<Rightarrow> rat \<Rightarrow> rat \<Rightarrow> 'a taskstate_scheme \<Rightarrow> (int \<times> 'a taskstate_scheme) option" where
  "mwaddtaskdelayed env f name ival delay st =
     (case f of
        None \<Rightarrow> Some (- errno_num EINVAL, st)
      | Some f \<Rightarrow>
          if tasklock st then None
          else do {
            let st = inittasks env st;
            let idx = length (tasks_of st);
            (t, st) \<leftarrow> new_task env f name ival delay st;
            (r, st) \<leftarrow> schedule env (st\<lparr>tasklist := Some (tasks_of st @ [t])\<rparr>);
            st \<leftarrow> dotasks_loop env (st\<lparr>runnable := r\<rparr>);
            Some (int idx + PTASKMAGIC, st)
          })"

definition mwaddtask :: "'a taskstate_scheme taskenv \<Rightarrow> nat option \<Rightarrow> string \<Rightarrow> rat \<Rightarrow> 'a taskstate_scheme \<Rightarrow> (int \<times> 'a taskstate_scheme) option" where
  "mwaddtask env f name ival st = mwaddtaskdelayed env f name ival (-1) st"

section \<open>What scheduling does\<close>

definition due :: "int \<Rightarrow> task \<Rightarrow> bool" where
  "due now t \<longleftrightarrow> task_state t = TASK_RUN \<or> (task_state t = TASK_WAIT \<and> nextsched t + 100 \<le> now)"

definition waiting :: "int \<Rightarrow> task \<Rightarrow> bool" where
  "waiting now t \<longleftrightarrow> task_state t = TASK_WAIT \<and> now < nextsched t + 100"

definition woken :: "int \<Rightarrow> task \<Rightarrow> task" where
  "woken now t = t\<lparr>task_state := (if due now t then TASK_RUN else if waiting now t then TASK_WAIT else TASK_SUSP)\<rparr>"

definition earliest :: "int \<Rightarrow> task list \<Rightarrow> int" where
  "earliest now l = Min (insert INT64_MAX (nextsched ` {t \<in> set l. waiting now t}))"

lemma task_same: "task_state t = s \<Longrightarrow> t\<lparr>task_state := s\<rparr> = t"
  by auto

lemma sched_loop_result:
  "\<exists>g. sched_loop now nt n i l (a, f, k) =
     (map (woken now) l, Min (insert a (nextsched ` {t \<in> set l. waiting now t})), g, k + int (length (filter (due now) l)))"
proof (induction l arbitrary: i a f k)
  case (Cons t l)
  have min: "Min (insert a (insert b X)) = Min (insert (min a b) X)" if "finite X" for a b :: int and X
    using that by (cases "X = {}") (simp_all add: ac_simps)
  have set: "{x. (x = t \<or> x \<in> set l) \<and> waiting now x} = (if waiting now t then insert t {x \<in> set l. waiting now x} else {x \<in> set l. waiting now x})"
    by auto
  consider "task_state t = TASK_RUN" | "task_state t = TASK_WAIT" "nextsched t + 100 \<le> now"
    | "task_state t = TASK_WAIT" "now < nextsched t + 100" "nextsched t < a" | "task_state t = TASK_WAIT" "now < nextsched t + 100" "a \<le> nextsched t"
    | "task_state t = TASK_SUSP" | "task_state t \<notin> {TASK_RUN, TASK_WAIT, TASK_SUSP}"
    by fastforce
  then show ?case
  proof cases
    case 1
    then have "due now t" "\<not> waiting now t" "woken now t = t" by (simp_all add: due_def waiting_def woken_def task_same)
    then show ?thesis using 1 Cons.IH [of "i + 1" a f "k + 1"] by (auto simp: set Let_def)
  next
    case 2
    then have "due now t" "\<not> waiting now t" "woken now t = t\<lparr>task_state := TASK_RUN\<rparr>" by (simp_all add: due_def waiting_def woken_def)
    then show ?thesis using 2 Cons.IH [of "i + 1" a f "k + 1"] by (auto simp: set Let_def)
  next
    case 3
    then have "\<not> due now t" "waiting now t" "woken now t = t" by (simp_all add: due_def waiting_def woken_def task_same)
    then show ?thesis using 3 Cons.IH [of "i + 1" "nextsched t" "(nt + i) mod n" k] by (auto simp: set min min_def Let_def)
  next
    case 4
    then have "\<not> due now t" "waiting now t" "woken now t = t" by (simp_all add: due_def waiting_def woken_def task_same)
    moreover have "Min (insert a (insert (nextsched t) (nextsched ` {x \<in> set l. waiting now x}))) = Min (insert a (nextsched ` {x \<in> set l. waiting now x}))"
      by (subst min) (use 4(3) in \<open>simp_all add: min_absorb1\<close>)
    ultimately show ?thesis using 4 Cons.IH [of "i + 1" a f k] by (auto simp: set Let_def)
  next
    case 5
    then have "\<not> due now t" "\<not> waiting now t" "woken now t = t" by (simp_all add: due_def waiting_def woken_def task_same)
    then show ?thesis using 5 Cons.IH [of "i + 1" a f k] by (auto simp: set Let_def)
  next
    case 6
    then have "\<not> due now t" "\<not> waiting now t" "woken now t = t\<lparr>task_state := TASK_SUSP\<rparr>" by (simp_all add: due_def waiting_def woken_def)
    then show ?thesis using 6 Cons.IH [of "i + 1" a f k] by (auto simp: set Let_def)
  qed
qed simp

lemma sched_loop_first:
  "\<forall>t \<in> set l. \<not> waiting now t \<Longrightarrow> fst (snd (snd (sched_loop now nt n i l (a, f, k)))) = f"
  by (induction l arbitrary: i k) (auto simp: Let_def split_beta waiting_def)

lemma schedule_eq:
  fixes env :: "'a taskstate_scheme taskenv"
  assumes "now = clock env (reads st)" "k = int (length (filter (due now) (tasks_of st)))"
  obtains f where "(\<forall>t \<in> set (tasks_of st). \<not> waiting now t) \<Longrightarrow> f = 0"
    "schedule env st = (let st' = st\<lparr>tasklist := map_option (\<lambda>_. map (woken now) (tasks_of st)) (tasklist st), alarm := False,
        nexttasktime := earliest now (tasks_of st), nexttask := f, runnable := k, reads := reads st + 1\<rparr>
      in if k \<noteq> 0 then Some (k, st'\<lparr>realtimer := None\<rparr>)
         else if earliest now (tasks_of st) < 0 then None
         else if earliest now (tasks_of st) = 0 then Some (0, st'\<lparr>realtimer := None\<rparr>)
         else Some (0, st'\<lparr>realtimer := Some (max 1000 (earliest now (tasks_of st) - clock env (reads st + 1))), reads := reads st + 2\<rparr>))"
proof -
  obtain f where r: "sched_loop now (nexttask st) (length (tasks_of st)) 0 (tasks_of st) (INT64_MAX, 0, 0)
      = (map (woken now) (tasks_of st), earliest now (tasks_of st), f, k)"
    using sched_loop_result [of now "nexttask st" "length (tasks_of st)" 0 "tasks_of st" INT64_MAX 0 0] assms(2) by (auto simp: earliest_def)
  have "tasks_of (st\<lparr>reads := n\<rparr>) = tasks_of st" for n by (simp add: tasks_of_def)
  then have "schedule env st = (let st' = st\<lparr>tasklist := map_option (\<lambda>_. map (woken now) (tasks_of st)) (tasklist st), alarm := False,
        nexttasktime := earliest now (tasks_of st), nexttask := f, runnable := k, reads := reads st + 1\<rparr>
      in if k \<noteq> 0 then Some (k, st'\<lparr>realtimer := None\<rparr>)
         else if earliest now (tasks_of st) < 0 then None
         else if earliest now (tasks_of st) = 0 then Some (0, st'\<lparr>realtimer := None\<rparr>)
         else Some (0, st'\<lparr>realtimer := Some (max 1000 (earliest now (tasks_of st) - clock env (reads st + 1))), reads := reads st + 2\<rparr>))"
    using r assms(1) by (simp add: schedule_def mw_llgtod_def mw_setrealtimer_def Let_def)
  moreover have "f = 0" if "\<forall>t \<in> set (tasks_of st). \<not> waiting now t"
    using sched_loop_first [OF that, of "nexttask st" "length (tasks_of st)" 0 INT64_MAX 0 0] r by simp
  ultimately show ?thesis using that by blast
qed

lemma earliest_later:
  assumes "100 \<le> now"
  shows "0 < earliest now l"
proof -
  have "finite (insert INT64_MAX (nextsched ` {t \<in> set l. waiting now t}))" by simp
  then show ?thesis unfolding earliest_def using assms by (subst Min_gr_iff) (auto simp: waiting_def)
qed

text \<open>
  C30. Scheduling makes every task whose time has come runnable, counts the tasks that can run, and
  leaves the others alone. If none can run, the timer is set to the time of the earliest task that
  waits, or to a millisecond if that has passed, so no waiting task is forgotten; if some can, the
  timer is off.
\<close>

theorem schedule_wakes:
  fixes env :: "'a taskstate_scheme taskenv"
  assumes "100 \<le> clock env (reads st)" "tasklist st = Some l"
  shows "\<exists>st'. schedule env st = Some (int (length (filter (due (clock env (reads st))) l)), st')
    \<and> tasklist st' = Some (map (woken (clock env (reads st))) l)
    \<and> runnable st' = int (length (filter (\<lambda>t. task_state t = TASK_RUN) (tasks_of st')))
    \<and> realtimer st' = (if \<exists>t \<in> set l. due (clock env (reads st)) t then None
        else Some (max 1000 (earliest (clock env (reads st)) l - clock env (reads st + 1))))"
proof -
  let ?now = "clock env (reads st)"
  have l: "tasks_of st = l" using assms(2) by (simp add: tasks_of_def)
  obtain f where run: "schedule env st = (let st' = st\<lparr>tasklist := map_option (\<lambda>_. map (woken ?now) (tasks_of st)) (tasklist st), alarm := False,
        nexttasktime := earliest ?now (tasks_of st), nexttask := f, runnable := int (length (filter (due ?now) (tasks_of st))), reads := reads st + 1\<rparr>
      in if int (length (filter (due ?now) (tasks_of st))) \<noteq> 0 then Some (int (length (filter (due ?now) (tasks_of st))), st'\<lparr>realtimer := None\<rparr>)
         else if earliest ?now (tasks_of st) < 0 then None
         else if earliest ?now (tasks_of st) = 0 then Some (0, st'\<lparr>realtimer := None\<rparr>)
         else Some (0, st'\<lparr>realtimer := Some (max 1000 (earliest ?now (tasks_of st) - clock env (reads st + 1))), reads := reads st + 2\<rparr>))"
    by (rule schedule_eq [where env = env and st = st, OF refl refl])
  have "task_state (woken ?now t) = TASK_RUN \<longleftrightarrow> due ?now t" for t by (simp add: woken_def)
  then have "length (filter (\<lambda>t. task_state t = TASK_RUN) (map (woken ?now) l)) = length (filter (due ?now) l)"
    by (simp add: filter_map comp_def)
  moreover have "0 < earliest ?now l" by (rule earliest_later [OF assms(1)])
  moreover have "(\<exists>t \<in> set l. due ?now t) \<longleftrightarrow> int (length (filter (due ?now) l)) \<noteq> 0" by (auto simp: filter_empty_conv)
  ultimately show ?thesis
    unfolding run l using assms(2) by (auto simp: Let_def tasks_of_def)
qed

definition demo_task :: "int \<Rightarrow> int \<Rightarrow> nat \<Rightarrow> task" where
  "demo_task s next f = \<lparr>interval = 1, task_state = s, task_fn = f, task_name = ''task'', nextsched = next, calls = 0, timespend = 0\<rparr>"

definition demo_tasks :: taskstate where
  "demo_tasks = \<lparr>tasklist = Some [demo_task TASK_WAIT 5000 0, demo_task TASK_WAIT 9000 1], outoftasks = 0, intasks = 0, insched = 0, ts = 0, te = 0,
     nexttasktime = 0, runnable = 0, nexttask = 0, alarm = True, tasklock = False, chain_handler = SIG_DFL, realtimer = None, reads = 0\<rparr>"

definition demo_taskenv :: "taskstate taskenv" where
  "demo_taskenv = \<lparr>clock = (\<lambda>n. 1000 + int n), run = (\<lambda>f pt st. Some (1, st)), old_sigalrm = SIG_DFL\<rparr>"

theorem schedule_wakes_witness:
  "\<exists>st'. schedule demo_taskenv demo_tasks = Some (0, st') \<and> realtimer st' = Some 3999 \<and> runnable st' = 0"
proof -
  let ?l = "[demo_task TASK_WAIT 5000 0, demo_task TASK_WAIT 9000 1]"
  have "{t \<in> set ?l. waiting 1000 t} = set ?l" by (auto simp: waiting_def demo_task_def)
  then have "earliest 1000 ?l = 5000" by (simp add: earliest_def demo_task_def)
  moreover have "\<not> due 1000 (demo_task TASK_WAIT 5000 0)" "\<not> due 1000 (demo_task TASK_WAIT 9000 1)" by (simp_all add: due_def demo_task_def)
  moreover have "task_state (woken 1000 (demo_task TASK_WAIT 5000 0)) \<noteq> TASK_RUN" "task_state (woken 1000 (demo_task TASK_WAIT 9000 1)) \<noteq> TASK_RUN"
    by (simp_all add: woken_def due_def demo_task_def)
  moreover have "clock demo_taskenv (reads demo_tasks) = 1000" "clock demo_taskenv (reads demo_tasks + 1) = 1001" "tasklist demo_tasks = Some ?l"
    by (simp_all add: demo_taskenv_def demo_tasks_def)
  ultimately show ?thesis using schedule_wakes [of demo_taskenv demo_tasks ?l] by (auto simp: tasks_of_def)
qed

section \<open>A task that starves the others\<close>

fun dotasks_n :: "'a taskstate_scheme taskenv \<Rightarrow> nat \<Rightarrow> 'a taskstate_scheme \<Rightarrow> 'a taskstate_scheme option" where
  "dotasks_n env 0 st = Some st"
| "dotasks_n env (Suc n) st = do { (r, st) \<leftarrow> mwdotasks env st; dotasks_n env n st }"

text \<open>The first task can run and has more to do whenever it is run; no task waits for its time.\<close>

definition hogged :: "'a taskstate_scheme taskenv \<Rightarrow> task list \<Rightarrow> 'a taskstate_scheme \<Rightarrow> bool" where
  "hogged env l st \<longleftrightarrow> tasklist st = Some l \<and> l \<noteq> [] \<and> task_state (l ! 0) = TASK_RUN
     \<and> (\<forall>t \<in> set l. task_state t = TASK_RUN \<or> task_state t = TASK_SUSP) \<and> nexttask st = 0 \<and> \<not> tasklock st
     \<and> (\<forall>pt s. \<exists>rc. rc \<noteq> 0 \<and> run env (task_fn (l ! 0)) pt s = Some (rc, s))"

lemma woken_same: "task_state t = TASK_RUN \<or> task_state t = TASK_SUSP \<Longrightarrow> woken now t = t"
  by (auto simp: woken_def due_def waiting_def)

lemma hogged_schedule:
  assumes "tasklist st = Some l" "l \<noteq> []" "task_state (l ! 0) = TASK_RUN" "\<forall>t \<in> set l. task_state t = TASK_RUN \<or> task_state t = TASK_SUSP"
  shows "\<exists>k st'. schedule env st = Some (k, st') \<and> k \<noteq> 0 \<and> tasklist st' = Some l \<and> nexttask st' = 0 \<and> tasklock st' = tasklock st"
proof -
  let ?now = "clock env (reads st)"
  have l: "tasks_of st = l" using assms(1) by (simp add: tasks_of_def)
  have none: "\<forall>t \<in> set (tasks_of st). \<not> waiting ?now t" using assms(4) by (auto simp: l waiting_def)
  have same: "map (woken ?now) l = l" using assms(4) by (intro map_idI woken_same) simp
  have "l ! 0 \<in> set l" using assms(2) by simp
  then have "int (length (filter (due ?now) l)) \<noteq> 0" using assms(3) by (auto simp: filter_empty_conv due_def)
  moreover obtain f where "f = 0" and "schedule env st = (let st' = st\<lparr>tasklist := map_option (\<lambda>_. map (woken ?now) (tasks_of st)) (tasklist st), alarm := False,
        nexttasktime := earliest ?now (tasks_of st), nexttask := f, runnable := int (length (filter (due ?now) (tasks_of st))), reads := reads st + 1\<rparr>
      in if int (length (filter (due ?now) (tasks_of st))) \<noteq> 0 then Some (int (length (filter (due ?now) (tasks_of st))), st'\<lparr>realtimer := None\<rparr>)
         else if earliest ?now (tasks_of st) < 0 then None
         else if earliest ?now (tasks_of st) = 0 then Some (0, st'\<lparr>realtimer := None\<rparr>)
         else Some (0, st'\<lparr>realtimer := Some (max 1000 (earliest ?now (tasks_of st) - clock env (reads st + 1))), reads := reads st + 2\<rparr>))"
    using schedule_eq [where env = env and st = st, OF refl refl] none by metis
  ultimately show ?thesis using l same assms(1) by (simp add: Let_def)
qed

lemma hogged_run:
  assumes "tasklist st = Some l" "l \<noteq> []" "\<exists>rc. rc \<noteq> 0 \<and> run env (task_fn (l ! 0)) PTASKMAGIC (st\<lparr>tasklock := False, reads := reads st + 1\<rparr>)
      = Some (rc, st\<lparr>tasklock := False, reads := reads st + 1\<rparr>)"
  shows "\<exists>tt st'. run_task env 0 st = Some (tt, st') \<and> tasklist st' = Some (l[0 := (l ! 0)\<lparr>timespend := timespend (l ! 0) + tt\<rparr>]) \<and> tasklock st'"
  using assms by (auto simp: run_task_def mw_llgtod_def Let_def tasks_of_def upd_task_def)

lemma hogged_step:
  assumes "hogged env l st"
  shows "\<exists>r st' l'. mwdotasks env st = Some (r, st') \<and> hogged env l' st' \<and> tl l' = tl l"
proof -
  have h: "tasklist st = Some l" "l \<noteq> []" "task_state (l ! 0) = TASK_RUN" "\<forall>t \<in> set l. task_state t = TASK_RUN \<or> task_state t = TASK_SUSP"
    "nexttask st = 0" "\<not> tasklock st" "\<And>pt s. \<exists>rc. rc \<noteq> 0 \<and> run env (task_fn (l ! 0)) pt s = Some (rc, s)"
    using assms by (auto simp: hogged_def)
  define s1 where "s1 = (let (t0, s) = mw_llgtod env (st\<lparr>tasklock := True\<rparr>);
      s = s\<lparr>ts := t0, outoftasks := outoftasks s + (if te s \<noteq> 0 then t0 - te s else 0)\<rparr> in s\<lparr>runnable := runnable_count s\<rparr>)"
  have s1: "tasklist s1 = Some l" "nexttask s1 = 0" by (simp_all add: s1_def mw_llgtod_def Let_def h)
  have "l ! 0 \<in> set l" using h(2) by simp
  then have k: "runnable s1 \<noteq> 0" using h(1,3) by (auto simp: s1_def mw_llgtod_def Let_def runnable_count_def tasks_of_def filter_empty_conv)
  have "[0..<length l] = 0 # [1..<length l]" using h(2) by (simp add: upt_rec)
  then have next0: "next_runnable s1 = Some 0" using s1 h(3) by (simp add: next_runnable_def tasks_of_def Let_def)
  obtain tt s2 where s2: "run_task env 0 s1 = Some (tt, s2)" "tasklist s2 = Some (l[0 := (l ! 0)\<lparr>timespend := timespend (l ! 0) + tt\<rparr>])" "tasklock s2"
    using hogged_run [OF s1(1) h(2) h(7)] by blast
  let ?l = "l[0 := (l ! 0)\<lparr>timespend := timespend (l ! 0) + tt\<rparr>]"
  have l': "?l \<noteq> []" "task_state (?l ! 0) = TASK_RUN" "\<forall>t \<in> set ?l. task_state t = TASK_RUN \<or> task_state t = TASK_SUSP" "tl ?l = tl l"
      "task_fn (?l ! 0) = task_fn (l ! 0)"
    using h(2-4) by (cases l; simp)+
  define s3 where "s3 = (let s = s2\<lparr>nexttask := (0 + 1) mod length (tasks_of s2)\<rparr>; (t1, s) = mw_llgtod env s; s = s\<lparr>te := t1, intasks := intasks s + tt\<rparr>
      in snd (mw_llgtod env s))"
  have s3: "tasklist s3 = Some ?l" using s2(2) by (simp add: s3_def mw_llgtod_def Let_def)
  obtain k s4 where s4: "schedule env s3 = Some (k, s4)" "k \<noteq> 0" "tasklist s4 = Some ?l" "nexttask s4 = 0"
    using hogged_schedule [OF s3 l'(1-3)] by blast
  have "\<exists>r st'. mwdotasks env st = Some (r, st') \<and> tasklist st' = Some ?l \<and> nexttask st' = 0 \<and> \<not> tasklock st'"
  proof -
    have "tasks st > 0" using h(1,2) by (simp add: tasks_def)
    then show ?thesis
      using h(6) k next0 s2(1) s4
      unfolding mwdotasks_def s1_def s3_def Let_def by (auto simp: mw_llgtod_def)
  qed
  then show ?thesis using l' h(7) unfolding hogged_def by metis
qed

text \<open>
  C39. A task that has more to do keeps the others from running: the order of the tasks is meant to be
  round robin, but scheduling forgets the task whose turn it is. When the first task asks to be
  called again each time and no task waits for its time, then however often the tasks are run, no
  other task ever is; the entries of the others stay as they are although they can run.
\<close>

theorem task_starves_others:
  fixes env :: "'a taskstate_scheme taskenv"
  assumes "hogged env l st"
  shows "\<exists>st' l'. dotasks_n env n st = Some st' \<and> tasklist st' = Some l' \<and> tl l' = tl l \<and> hogged env l' st'"
  using assms
proof (induction n arbitrary: st l)
  case 0
  then show ?case by (auto simp: hogged_def)
next
  case (Suc n)
  obtain r st1 l1 where "mwdotasks env st = Some (r, st1)" "hogged env l1 st1" "tl l1 = tl l" using hogged_step [OF Suc.prems] by blast
  then show ?case using Suc.IH [of l1 st1] by auto
qed

theorem task_starves_others_witness:
  "\<exists>st' l'. dotasks_n demo_taskenv 1000 (demo_tasks\<lparr>tasklist := Some [demo_task TASK_RUN 0 0, demo_task TASK_RUN 0 1]\<rparr>) = Some st'
    \<and> tasklist st' = Some l' \<and> tl l' = [demo_task TASK_RUN 0 1]"
proof -
  let ?l = "[demo_task TASK_RUN 0 0, demo_task TASK_RUN 0 1]"
  have "hogged demo_taskenv ?l (demo_tasks\<lparr>tasklist := Some ?l\<rparr>)"
    by (simp add: hogged_def demo_task_def demo_tasks_def demo_taskenv_def)
  then show ?thesis using task_starves_others [of demo_taskenv ?l _ 1000] by fastforce
qed

end
