(* ===== verification/Spec2Isabelle.thy ===== *)
theory Spec2Isabelle
  imports GwClose GwSteps SrbClientProps Tasks
begin

text \<open>
  \<^bold>\<open>MidWay, verified.\<close>

  MidWay is a service request broker. A daemon, \<^verbatim>\<open>mwd\<close>, keeps four tables (clients,
  servers, services, gateways) and a heap of buffers in System V shared memory; clients and
  servers attach to it, provide and call services, and subscribe to events, all by messages
  on IPC queues. Gateways (\<^verbatim>\<open>mwgwd\<close>) carry the same requests between domains over TCP in
  the text protocol SRB, whose messages are URL encoded maps ended by a carriage return and
  a line feed.

  \<^bold>\<open>The theories and the code they model\<close> (paths below \<^verbatim>\<open>src/src\<close>)

  \<^item> \<open>CLib\<close>: the errno values, C strings and the string functions of the C library.
  \<^item> \<open>UrlEncode\<close>: \<^verbatim>\<open>liburlencode/urlencoded.c\<close>, escaping of strings. It is equal to a
    reference decoder, decoding inverts encoding, and the sizes the allocating variants
    compute are enough.
  \<^item> \<open>UrlMap\<close>: \<^verbatim>\<open>liburlencode/urlmap.c\<close>, maps of keys and values and their encoding. Encoding
    and decoding are inverse on maps in normal form; the laws of get, set, add and delete.
    Where the code computes the size of a buffer before escaping, the overflow is a theorem.
  \<^item> \<open>SRBProtocol\<close>: \<^verbatim>\<open>lib/SRBprotocol.c\<close> and \<^verbatim>\<open>lib/connection.c\<close>: messages, their encoding,
    the receive buffer and its framing, every message the library sends. The main theorem:
    however the network cuts the stream of octets, the receiver gets the messages that were
    sent, in order, and nothing else.
  \<^item> \<open>ShmHeap\<close>, \<open>ShmPool\<close>, \<open>ShmFormat\<close>, \<open>ShmProps\<close>: \<^verbatim>\<open>lib/shmalloc.c\<close> and
    \<^verbatim>\<open>mwd/shmallocfmt.c\<close>. \<open>ShmHeap\<close> has the definitions: the segment is a map from addresses to
    chunk heads, chunk feet and octets, and the rings of free chunks are the links in the
    feet. \<open>ShmPool\<close> proves that a ring implements a queue (the locale of a pool of chunks and
    its interpretation on the code's rings), \<open>ShmFormat\<close> that formatting sets up the rings,
    and \<open>ShmProps\<close> that allocation, release, reallocation and the change of owner keep the
    heap's invariant and do what they promise.
  \<^item> \<open>IpcTables\<close>: \<^verbatim>\<open>lib/ipctables.c\<close>, the structs of \<^verbatim>\<open>include/ipctables.h\<close> and
    \<^verbatim>\<open>include/ipcmessages.h\<close>, identifiers, lookups, and \<^verbatim>\<open>_mw_ipc_putmessage\<close>.
  \<^item> \<open>Events\<close>: \<^verbatim>\<open>mwd/events.c\<close>; \<open>EventProps\<close>: who gets an event, when its buffer is released,
    and the invariant of the event queues.
  \<^item> \<open>Tables\<close>: \<^verbatim>\<open>mwd/tables.c\<close>; \<open>Requests\<close>: \<^verbatim>\<open>mwd/requestparse.c\<close>; \<open>TableProps\<close>: the slots of
    the server and client tables as a locale with two interpretations, and the invariant of
    the tables; \<open>MwdProps\<close>: the steps of the daemon as a relation, its reachable states, and
    what attaching, detaching, providing and asking for a large buffer lead to.
  \<^item> \<open>IpcCalls\<close>: \<^verbatim>\<open>lib/ipcmessages.c\<close>, what a member sends and receives: requests to the
    daemon, calls, replies and events, with the queue of replies that came too early.
    \<open>ClientApi\<close>: \<^verbatim>\<open>lib/mwclientapi.c\<close> and \<^verbatim>\<open>lib/mwclientipcapi.c\<close>; \<open>ServerApi\<close>:
    \<^verbatim>\<open>lib/mwserverapi.c\<close>, with the loop of a server.
  \<^item> \<open>Tasks\<close>: \<^verbatim>\<open>lib/tasks.c\<close>, the tasks a process runs between its messages and the timer that
    wakes it for them: scheduling forgets no task that waits, and a task that never completes
    starves the others.
  \<^item> \<open>SrbClient\<close>: \<^verbatim>\<open>lib/SRBclient.c\<close>, the client library over the network, with its queues of
    complete and of waiting replies. \<open>SrbClientProps\<close>: the queue gives the oldest reply, and a
    reply in many messages is put together and fetched whole.
  \<^item> \<open>CallProps\<close>: fetching replies refines taking them from a list, handles are unique.
    \<open>RpcProps\<close>: a call goes from the client through the server's routine and back with its
    data, and no chunk of the heap is lost. \<open>ServerProps\<close>: attaching through the daemon,
    when sending a call ends, and what goes wrong in a server.
  \<^item> \<open>CallStore\<close>: \<^verbatim>\<open>mwgwd/callstore.c\<close>, the calls a gateway has under way, and the queue of
    \<^verbatim>\<open>mwgwd/ipcserver.c\<close> for messages whose receiver is busy. The pointers are kept: the field
    \<open>root\<close> of a call is the address of the pointer that leads to it. \<open>CallStoreProps\<close>: the
    lists behind the pointers (the locale of a family of lists and its interpretation), a call
    from the network is collected, sent and answered, and what goes wrong. \<open>CallInv\<close>: the
    invariant of the store over all sequences of its operations.
  \<^item> \<open>GwState\<close>: the state of a gateway. \<open>GwServices\<close>: \<^verbatim>\<open>mwgwd/impexp.c\<close>, the services gateways
    import from and export to each other. \<open>GwPeers\<close>: \<^verbatim>\<open>mwgwd/gateway.c\<close>, \<^verbatim>\<open>mwgwd/remdomains.c\<close>,
    \<^verbatim>\<open>mwgwd/connections.c\<close>, \<^verbatim>\<open>mwgwd/srbevents.c\<close> and the attaching clients of \<^verbatim>\<open>mwgwd/store.c\<close>:
    known peers, the table of connections, subscriptions of clients on the network. \<open>SrbServer\<close>:
    \<^verbatim>\<open>mwgwd/SRBprotocolServer.c\<close>, the handlers of SRB messages and their dispatch. \<open>GwIpc\<close>:
    \<^verbatim>\<open>mwgwd/ipcserver.c\<close>, the handlers of IPC messages and the loop over them. \<open>GwTcp\<close>:
    \<^verbatim>\<open>mwgwd/tcpserver.c\<close>, what happens when a socket needs attention, and closing down.
  \<^item> \<open>GwProps\<close>: imports and exports as one registry of services and peers (a locale with two
    interpretations), a service of a peer can be called, closing a peer forgets it, and what goes
    wrong in a gateway. \<open>GwClose\<close>: closing down ends with every connection closed (the locale of
    a loop that closes connections, interpreted on the four loops of the code). \<open>GwInv\<close> and
    \<open>GwSteps\<close>: the steps of a gateway as a relation, and that in every state it can reach the
    tables are well formed and no reference dangles; the rules for \<open>post\<close> are a small calculus of
    what a handler that does not crash leaves behind.

  \<^bold>\<open>Conventions\<close>

  The state of a process is a record and an operation returns it updated. A result of type
  option is None where the C code follows a null pointer, leaves an array, divides by zero or
  otherwise has no defined behaviour; a theorem that concludes \<^term>\<open>Some x\<close> therefore
  also says that the code does not crash. A negative errno, as the code returns it, is an
  integer, or the left of a sum where the code returns a pointer and sets errno. Integers are
  mathematical where the code cannot leave their range and otherwise words or reduced to
  their width in place. Addresses and offsets of shared memory are integers; strings are
  lists of characters without the final NUL, buffers are lists of 8 bit words.

  What the operating system answers is an argument: the environments \<open>shmenv\<close> and
  \<open>mwenv\<close> hold the answers of semaphores, \<^verbatim>\<open>mmap\<close>, the clock, \<^verbatim>\<open>kill\<close>, \<^verbatim>\<open>random\<close>,
  \<^verbatim>\<open>fnmatch\<close>, \<^verbatim>\<open>regexec\<close> and message queues, the function \<open>net\<close> what writing a message
  to a socket returns, and \<open>junk\<close> what uninitialised memory holds. The theorems hold for
  every such answer unless they name one.

  A member and the daemon, or a client and a server, are two process states over one shared
  part (tables, heap, queues); \<open>in_world\<close> gives one the shared part of the other. A process
  that waits in \<^verbatim>\<open>msgrcv\<close> on an empty queue sleeps once: the function \<open>wait\<close> of its
  environment is what the rest of the system does in the meantime, and the errno with which
  the call fails if no message has come. Theorems about two processes instantiate it with a
  step of the other one.

  A mutex is a flag; an operation that finds it locked has no result, as it never returns.

  Loops whose end depends on that (\<open>fetch_loop\<close>, \<open>request_loop\<close>, \<open>acall_loop\<close>,
  \<open>putbuffer_loop\<close>, \<open>fetch_all\<close>, \<open>mw_doipcevents\<close>, \<open>mwMainLoop\<close>, \<open>drain_loop\<close>,
  \<open>fetch_srb_loop\<close>, \<open>dotasks_loop\<close>) are partial functions into
  option: a loop that does not end has no result other than None, and the theorems that
  conclude \<^term>\<open>Some x\<close> say that it ends. Loops that walk a list or a table are structural recursions over it. Loops over an index
  have a measure. The two loops whose number of rounds is an argument, \<open>recv_loop\<close> over the
  octets the network delivers and \<open>do_events_loop\<close> over the events in the queue, return
  when that input is used up; the theorems about them conclude that a result is returned.

  \<^bold>\<open>Not modelled\<close>

  Tracing and logging (they do not change the state), semaphores other than as an answer that
  may fail, signals, process creation, the configuration files, the select loop and timers of
  the gateway (a turn of the loop is an operation, in what order they come is not fixed), the
  broker, multicast and the command line tools. The access lists and patterns of the gateway
  (\<^verbatim>\<open>mwgwd/acl.c\<close>, \<^verbatim>\<open>mwgwd/pattern.c\<close>) are read from the configuration and never consulted. The server manager and
  the parser of addresses are candidates for extension.
\<close>

end
